(* ===== verification/Go_Prelude.thy ===== *)
theory Go_Prelude
  imports Main "HOL-Library.Word" "HOL-Library.Char_ord" "HOL-Library.List_Lexorder"
    "HOL-Library.Sublist"
begin

text \<open>
  The part of Go and of its standard library that every component of the development uses:
  bytes and strings, error values, results, the functions of the packages
  \<^verbatim>\<open>strings\<close>, \<^verbatim>\<open>encoding/hex\<close> and \<^verbatim>\<open>encoding/binary\<close> that the program calls, and the
  generic lemmas about them.

  A Go \<^verbatim>\<open>string\<close> is a sequence of bytes: HOL's \<^typ>\<open>string\<close> (a list of 8-bit
  \<^typ>\<open>char\<close>). A Go \<^verbatim>\<open>[]byte\<close> is a list of 8-bit words.
  Go's case mapping, case folding, space trimming and field splitting work on the bytes of an
  ASCII string and consult the Unicode tables of the package \<^verbatim>\<open>unicode\<close> for a string with a byte
  above 0x7f. The ASCII path is computed here; the tables are a parameter, the record
  \<open>unicode\<close>, an argument of each definition that uses them.
\<close>

named_theorems go_defs \<open>definitions the component proofs unfold\<close>
named_theorems ascii_simps \<open>rewriting of the ASCII paths of the string functions\<close>

section \<open>Bytes, results and errors\<close>

type_synonym byte = "8 word"
type_synonym bytes = "byte list"

abbreviation Ok :: "'a \<Rightarrow> 'e + 'a" where "Ok \<equiv> Inr"
abbreviation Err :: "'e \<Rightarrow> 'e + 'a" where "Err \<equiv> Inl"
abbreviation newline :: char where "newline \<equiv> CHR 0x0A"

text \<open>
  Error values. A package-level \<^verbatim>\<open>var ErrX = errors.New(msg)\<close> is a \<open>Sentinel\<close>: the program
  compares such values with \<^verbatim>\<open>==\<close>. A call of \<^verbatim>\<open>errors.New\<close> or of \<^verbatim>\<open>fmt.Errorf\<close> without
  \<^verbatim>\<open>%w\<close> is an \<open>ErrorString\<close>, a fresh value equal to no sentinel.
  \<^verbatim>\<open>fmt.Errorf("prefix: %w", err)\<close> is \<open>Wrapped prefix err\<close>.
\<close>

datatype goerror =
    Sentinel string
  | ErrorString string
  | Wrapped string goerror

fun Error :: "goerror \<Rightarrow> string" where
  "Error (Sentinel m) = m"
| "Error (ErrorString m) = m"
| "Error (Wrapped p e) = p @ '': '' @ Error e"

text \<open>Sequencing of fallible calls: \<^verbatim>\<open>x, err := f(); if err != nil { return err }\<close>.\<close>

fun andThen :: "'e + 'a \<Rightarrow> ('a \<Rightarrow> 'e + 'b) \<Rightarrow> 'e + 'b" where
  "andThen (Inl e) f = Inl e"
| "andThen (Inr x) f = f x"

fun mapErr :: "('e \<Rightarrow> 'f) \<Rightarrow> 'e + 'a \<Rightarrow> 'f + 'a" where
  "mapErr g (Inl e) = Inl (g e)"
| "mapErr g (Inr x) = Inr x"

fun isOk :: "'e + 'a \<Rightarrow> bool" where
  "isOk (Inl e) = False"
| "isOk (Inr x) = True"

section \<open>Strings\<close>

subsection \<open>ASCII characters\<close>

definition ascii_char :: "char \<Rightarrow> bool" where
  "ascii_char c \<longleftrightarrow> (of_char c :: nat) < 128"

definition is_ascii :: "string \<Rightarrow> bool" where
  "is_ascii s \<longleftrightarrow> list_all ascii_char s"

definition ascii_upper :: "char \<Rightarrow> char" where
  "ascii_upper c =
     (if 97 \<le> (of_char c :: nat) \<and> (of_char c :: nat) \<le> 122
      then char_of ((of_char c :: nat) - 32) else c)"

definition ascii_lower :: "char \<Rightarrow> char" where
  "ascii_lower c =
     (if 65 \<le> (of_char c :: nat) \<and> (of_char c :: nat) \<le> 90
      then char_of ((of_char c :: nat) + 32) else c)"

text \<open>The table \<^verbatim>\<open>asciiSpace\<close> of the package \<^verbatim>\<open>strings\<close>: tab to carriage return, and space.\<close>

definition ascii_space :: "char \<Rightarrow> bool" where
  "ascii_space c \<longleftrightarrow>
     (9 \<le> (of_char c :: nat) \<and> (of_char c :: nat) \<le> 13) \<or> (of_char c :: nat) = 32"

subsection \<open>The functions of the package strings\<close>

text \<open>The results of the functions on strings that are not ASCII, from the Unicode tables.\<close>

record unicode =
  uc_ToUpper :: "string \<Rightarrow> string"
  uc_ToLower :: "string \<Rightarrow> string"
  uc_TrimSpace :: "string \<Rightarrow> string"
  uc_EqualFold :: "string \<Rightarrow> string \<Rightarrow> bool"
  uc_Fields :: "string \<Rightarrow> string list"
  uc_Quote :: "string \<Rightarrow> string"

definition ToUpper :: "unicode \<Rightarrow> string \<Rightarrow> string" where
  "ToUpper uc s = (if is_ascii s then map ascii_upper s else uc_ToUpper uc s)"

definition ToLower :: "unicode \<Rightarrow> string \<Rightarrow> string" where
  "ToLower uc s = (if is_ascii s then map ascii_lower s else uc_ToLower uc s)"

definition trim_ascii :: "string \<Rightarrow> string" where
  "trim_ascii s = rev (dropWhile ascii_space (rev (dropWhile ascii_space s)))"

definition TrimSpace :: "unicode \<Rightarrow> string \<Rightarrow> string" where
  "TrimSpace uc s = (if is_ascii s then trim_ascii s else uc_TrimSpace uc s)"

definition EqualFold :: "unicode \<Rightarrow> string \<Rightarrow> string \<Rightarrow> bool" where
  "EqualFold uc s t =
     (if is_ascii s \<and> is_ascii t then map ascii_lower s = map ascii_lower t
      else uc_EqualFold uc s t)"

text \<open>\<^verbatim>\<open>strings.ReplaceAll(s, "c", "")\<close> for a one-byte \<^verbatim>\<open>c\<close>.\<close>

definition removeAll :: "char \<Rightarrow> string \<Rightarrow> string" where
  "removeAll c s = filter (\<lambda>d. d \<noteq> c) s"

definition HasPrefix :: "'a list \<Rightarrow> 'a list \<Rightarrow> bool" where
  "HasPrefix s p \<longleftrightarrow> length p \<le> length s \<and> take (length p) s = p"

definition HasSuffix :: "'a list \<Rightarrow> 'a list \<Rightarrow> bool" where
  "HasSuffix s p \<longleftrightarrow> length p \<le> length s \<and> drop (length s - length p) s = p"

definition TrimPrefix :: "'a list \<Rightarrow> 'a list \<Rightarrow> 'a list" where
  "TrimPrefix s p = (if HasPrefix s p then drop (length p) s else s)"

definition TrimSuffix :: "'a list \<Rightarrow> 'a list \<Rightarrow> 'a list" where
  "TrimSuffix s p = (if HasSuffix s p then take (length s - length p) s else s)"

text \<open>\<^verbatim>\<open>strings.Contains(s, sub)\<close>: some suffix of \<^verbatim>\<open>s\<close> starts with \<^verbatim>\<open>sub\<close>.\<close>

fun Contains :: "'a list \<Rightarrow> 'a list \<Rightarrow> bool" where
  "Contains [] sub = (sub = [])"
| "Contains (x # xs) sub = (HasPrefix (x # xs) sub \<or> Contains xs sub)"

text \<open>\<^verbatim>\<open>strings.Split(s, sep)\<close> for a one-byte separator.\<close>

fun split_at :: "'a \<Rightarrow> 'a list \<Rightarrow> 'a list list" where
  "split_at c [] = [[]]"
| "split_at c (x # xs) =
     (if x = c then [] # split_at c xs
      else case split_at c xs of [] \<Rightarrow> [[x]] | p # ps \<Rightarrow> (x # p) # ps)"

text \<open>\<^verbatim>\<open>strings.IndexByte\<close> and \<^verbatim>\<open>strings.LastIndexByte\<close>, with \<open>None\<close> for -1.\<close>

fun IndexByte :: "'a list \<Rightarrow> 'a \<Rightarrow> nat option" where
  "IndexByte [] c = None"
| "IndexByte (x # xs) c = (if x = c then Some 0 else map_option Suc (IndexByte xs c))"

fun LastIndexByte :: "'a list \<Rightarrow> 'a \<Rightarrow> nat option" where
  "LastIndexByte [] c = None"
| "LastIndexByte (x # xs) c =
     (case LastIndexByte xs c of
        Some i \<Rightarrow> Some (Suc i)
      | None \<Rightarrow> if x = c then Some 0 else None)"

subsection \<open>Bytes of a string, hexadecimal and decimal\<close>

definition bytes_of_string :: "string \<Rightarrow> bytes" where
  "bytes_of_string s = map (\<lambda>c. of_nat (of_char c)) s"

definition string_of_bytes :: "bytes \<Rightarrow> string" where
  "string_of_bytes bs = map (\<lambda>b. char_of (unat b)) bs"

definition hex_digit :: "nat \<Rightarrow> char" where
  "hex_digit n = (if n < 10 then char_of (48 + n) else char_of (87 + n))"

definition hex_byte :: "byte \<Rightarrow> string" where
  "hex_byte b = [hex_digit (unat b div 16), hex_digit (unat b mod 16)]"

text \<open>\<^verbatim>\<open>hex.EncodeToString\<close>: two lower-case digits for each byte.\<close>

definition EncodeToString :: "bytes \<Rightarrow> string" where
  "EncodeToString bs = concat (map hex_byte bs)"

text \<open>\<^verbatim>\<open>strconv.Itoa\<close> on a natural number.\<close>

fun dec_of_nat :: "nat \<Rightarrow> string" where
  "dec_of_nat n = (if n < 10 then [char_of (48 + n)] else dec_of_nat (n div 10) @ [char_of (48 + n mod 10)])"

declare dec_of_nat.simps [simp del]

text \<open>The verb \<^verbatim>\<open>%q\<close> of the package \<^verbatim>\<open>fmt\<close>: a double-quoted Go string literal.\<close>

definition quote_char :: "char \<Rightarrow> string" where
  "quote_char c =
     (let n = (of_char c :: nat); bs = char_of (92 :: nat) in
      if n = 34 \<or> n = 92 then [bs, c]
      else if n = 7 then [bs, CHR ''a''] else if n = 8 then [bs, CHR ''b'']
      else if n = 9 then [bs, CHR ''t''] else if n = 10 then [bs, CHR ''n'']
      else if n = 11 then [bs, CHR ''v''] else if n = 12 then [bs, CHR ''f'']
      else if n = 13 then [bs, CHR ''r'']
      else if n < 32 \<or> n = 127 then [bs, CHR ''x'', hex_digit (n div 16), hex_digit (n mod 16)]
      else [c])"

definition Quote :: "unicode \<Rightarrow> string \<Rightarrow> string" where
  "Quote uc s =
     (if is_ascii s then CHR 0x22 # concat (map quote_char s) @ [CHR 0x22] else uc_Quote uc s)"

subsection \<open>Fixed-width integers\<close>

text \<open>The Go conversion \<^verbatim>\<open>int32(x)\<close>, and \<^verbatim>\<open>binary.LittleEndian\<close> and \<^verbatim>\<open>binary.BigEndian\<close>.\<close>

definition int32 :: "int \<Rightarrow> int" where
  "int32 x = sint (word_of_int x :: 32 word)"

definition le32 :: "32 word \<Rightarrow> bytes" where
  "le32 w = map (\<lambda>i. ucast (drop_bit (8 * i) w)) [0, 1, 2, 3]"

definition be32 :: "32 word \<Rightarrow> bytes" where
  "be32 w = rev (le32 w)"

definition get_le32 :: "bytes \<Rightarrow> 32 word" where
  "get_le32 bs = (\<Sum>i\<leftarrow>[0, 1, 2, 3]. push_bit (8 * i) (ucast (bs ! i)))"

section \<open>Lemmas\<close>

subsection \<open>Results\<close>

lemma andThen_Ok_iff: "andThen r f = Inr y \<longleftrightarrow> (\<exists>x. r = Inr x \<and> f x = Inr y)"
  by (cases r) auto

lemma andThen_OkE [elim!]:
  assumes "andThen r f = Inr y" obtains x where "r = Inr x" and "f x = Inr y"
  using assms by (auto simp: andThen_Ok_iff)

lemma andThen_Err_iff: "andThen r f = Inl e \<longleftrightarrow> r = Inl e \<or> (\<exists>x. r = Inr x \<and> f x = Inl e)"
  by (cases r) auto

lemma mapErr_Ok_iff [simp]: "mapErr g r = Inr y \<longleftrightarrow> r = Inr y"
  by (cases r) auto

lemma isOk_iff: "isOk r \<longleftrightarrow> (\<exists>x. r = Inr x)"
  by (cases r) auto

subsection \<open>Lists\<close>

lemma find_Some_D: "find P xs = Some x \<Longrightarrow> x \<in> set xs \<and> P x"
  by (auto simp: find_Some_iff in_set_conv_nth)

lemma find_is_Some: "x \<in> set xs \<Longrightarrow> P x \<Longrightarrow> \<exists>y. find P xs = Some y \<and> y \<in> set xs \<and> P y"
  by (cases "find P xs") (auto simp: find_None_iff dest: find_Some_D)

subsection \<open>Characters\<close>

lemma char_eq_of_char: "c = d \<longleftrightarrow> (of_char c :: nat) = of_char d"
  by (metis char_of_char)

lemma of_char_of_small [simp]: "n < 256 \<Longrightarrow> (of_char (char_of (n :: nat)) :: nat) = n"
  by (simp add: of_char_of)

lemma of_char_upper:
  "(of_char (ascii_upper c) :: nat) =
     (if 97 \<le> (of_char c :: nat) \<and> (of_char c :: nat) \<le> 122 then of_char c - 32 else of_char c)"
  using nat_of_char_less_256 [of c] unfolding ascii_upper_def by (auto simp del: nat_of_char_less_256)

lemma of_char_lower:
  "(of_char (ascii_lower c) :: nat) =
     (if 65 \<le> (of_char c :: nat) \<and> (of_char c :: nat) \<le> 90 then of_char c + 32 else of_char c)"
  unfolding ascii_lower_def by auto

lemma ascii_upper_idem [simp]: "ascii_upper (ascii_upper c) = ascii_upper c"
  unfolding char_eq_of_char of_char_upper of_char_lower by auto

lemma ascii_lower_upper [simp]: "ascii_lower (ascii_upper c) = ascii_lower c"
  unfolding char_eq_of_char of_char_upper of_char_lower by auto

lemma ascii_upper_lower [simp]: "ascii_upper (ascii_lower c) = ascii_upper c"
  unfolding char_eq_of_char of_char_upper of_char_lower by auto

lemma ascii_char_upper [simp]: "ascii_char (ascii_upper c) = ascii_char c"
  by (auto simp: ascii_char_def of_char_upper)

lemma ascii_char_lower [simp]: "ascii_char (ascii_lower c) = ascii_char c"
  by (auto simp: ascii_char_def of_char_lower)

lemma ascii_space_upper [simp]: "ascii_space (ascii_upper c) = ascii_space c"
  by (auto simp: ascii_space_def of_char_upper)

lemma ascii_upper_eq_nonletter:
  "\<not> (65 \<le> (of_char d :: nat) \<and> (of_char d :: nat) \<le> 90) \<Longrightarrow>
   \<not> (97 \<le> (of_char d :: nat) \<and> (of_char d :: nat) \<le> 122) \<Longrightarrow> ascii_upper c = d \<longleftrightarrow> c = d"
  unfolding char_eq_of_char of_char_upper by auto

subsection \<open>ASCII strings\<close>

lemma is_ascii_Nil [simp]: "is_ascii []"
  and is_ascii_Cons [simp]: "is_ascii (c # s) \<longleftrightarrow> ascii_char c \<and> is_ascii s"
  and is_ascii_append [simp]: "is_ascii (s @ t) \<longleftrightarrow> is_ascii s \<and> is_ascii t"
  by (simp_all add: is_ascii_def)

lemma is_ascii_subset: "is_ascii s \<Longrightarrow> set t \<subseteq> set s \<Longrightarrow> is_ascii t"
  by (auto simp: is_ascii_def list_all_iff)

lemma is_ascii_map_upper [simp]: "is_ascii (map ascii_upper s) = is_ascii s"
  by (simp add: is_ascii_def list_all_iff)

lemma is_ascii_map_lower [simp]: "is_ascii (map ascii_lower s) = is_ascii s"
  by (simp add: is_ascii_def list_all_iff)

lemma is_ascii_filter [simp]: "is_ascii s \<Longrightarrow> is_ascii (filter P s)"
  by (auto simp: is_ascii_def list_all_iff)

lemma set_trim_ascii: "set (trim_ascii s) \<subseteq> set s"
  by (auto simp: trim_ascii_def dest!: set_dropWhileD)

lemma is_ascii_trim [simp]: "is_ascii s \<Longrightarrow> is_ascii (trim_ascii s)"
  by (rule is_ascii_subset [OF _ set_trim_ascii])

lemma trim_ascii_id: "\<forall>c \<in> set s. \<not> ascii_space c \<Longrightarrow> trim_ascii s = s"
  unfolding trim_ascii_def by (subst (1 2) dropWhile_id) auto

lemma filter_dropWhile_all:
  "(\<And>x. P x \<Longrightarrow> \<not> Q x) \<Longrightarrow> filter Q (dropWhile P xs) = filter Q xs"
  by (induction xs) auto

lemma filter_trim_ascii:
  "(\<And>c. ascii_space c \<Longrightarrow> \<not> Q c) \<Longrightarrow> filter Q (trim_ascii s) = filter Q s"
  by (simp add: trim_ascii_def filter_dropWhile_all rev_filter [symmetric])

lemma trim_ascii_decomp:
  "\<exists>l r. s = l @ trim_ascii s @ r \<and> list_all ascii_space l \<and> list_all ascii_space r"
proof -
  let ?d = "dropWhile ascii_space s"
  have "s = takeWhile ascii_space s @ ?d" by simp
  moreover have "?d = trim_ascii s @ rev (takeWhile ascii_space (rev ?d))"
    unfolding trim_ascii_def rev_append [symmetric] by simp
  ultimately have "s = takeWhile ascii_space s @ trim_ascii s @ rev (takeWhile ascii_space (rev ?d))"
    by simp
  moreover have "list_all ascii_space (takeWhile ascii_space s)"
    and "list_all ascii_space (rev (takeWhile ascii_space (rev ?d)))"
    by (auto simp: list_all_iff dest: set_takeWhileD)
  ultimately show ?thesis by blast
qed

lemma ToUpper_ascii [ascii_simps]: "is_ascii s \<Longrightarrow> ToUpper uc s = map ascii_upper s"
  by (simp add: ToUpper_def)

lemma ToLower_ascii [ascii_simps]: "is_ascii s \<Longrightarrow> ToLower uc s = map ascii_lower s"
  by (simp add: ToLower_def)

lemma TrimSpace_ascii [ascii_simps]: "is_ascii s \<Longrightarrow> TrimSpace uc s = trim_ascii s"
  by (simp add: TrimSpace_def)

lemma EqualFold_ascii [ascii_simps]:
  "is_ascii s \<Longrightarrow> is_ascii t \<Longrightarrow> EqualFold uc s t \<longleftrightarrow> map ascii_lower s = map ascii_lower t"
  by (simp add: EqualFold_def)

subsection \<open>Prefixes, suffixes, substrings and searching\<close>

lemma HasPrefix_iff: "HasPrefix s p \<longleftrightarrow> (\<exists>r. s = p @ r)"
  unfolding HasPrefix_def by (metis append_take_drop_id append_eq_conv_conj le_add1 length_append)

lemma HasPrefix_prefix: "HasPrefix s p \<longleftrightarrow> prefix p s"
  by (simp add: HasPrefix_iff prefix_def)

lemma HasPrefix_Nil [simp]: "HasPrefix s []"
  by (simp add: HasPrefix_def)

lemma HasPrefix_refl [simp]: "HasPrefix s s"
  by (simp add: HasPrefix_def)

lemma HasSuffix_iff: "HasSuffix s p \<longleftrightarrow> (\<exists>r. s = r @ p)"
  unfolding HasSuffix_def
  by (metis append_take_drop_id add_diff_cancel_right' append_eq_conv_conj le_add2 length_append)

lemma TrimSuffix_append [simp]: "TrimSuffix (s @ p) p = s"
  by (simp add: TrimSuffix_def HasSuffix_def)

lemma Contains_iff: "Contains s sub \<longleftrightarrow> (\<exists>l r. s = l @ sub @ r)"
proof (induction s)
  case Nil
  then show ?case by simp
next
  case (Cons x xs)
  then show ?case
    by (auto simp: HasPrefix_iff Cons_eq_append_conv)
qed

lemma Contains_Nil [simp]: "Contains s []"
  by (cases s) simp_all

lemma IndexByte_None_iff: "IndexByte s c = None \<longleftrightarrow> c \<notin> set s"
  by (induction s) auto

lemma LastIndexByte_None_iff: "LastIndexByte s c = None \<longleftrightarrow> c \<notin> set s"
  by (induction s) (auto split: option.splits)

lemma IndexByte_append:
  "c \<notin> set s \<Longrightarrow> IndexByte (s @ c # t) c = Some (length s)"
  by (induction s) auto

lemma IndexByte_append_Some: "IndexByte s c = Some i \<Longrightarrow> IndexByte (s @ t) c = Some i"
  by (induction s arbitrary: i) (auto split: if_splits)

lemma LastIndexByte_append:
  "c \<notin> set t \<Longrightarrow> LastIndexByte (s @ c # t) c = Some (length s)"
  by (induction s) (auto simp: LastIndexByte_None_iff [THEN iffD2])

lemma LastIndexByte_SomeD:
  "LastIndexByte s c = Some i \<Longrightarrow> i < length s \<and> s ! i = c \<and> c \<notin> set (drop (Suc i) s)"
proof (induction s arbitrary: i)
  case Nil
  then show ?case by simp
next
  case (Cons x xs)
  then show ?case
    by (cases "LastIndexByte xs c") (auto simp: LastIndexByte_None_iff split: if_splits)
qed

lemma IndexByte_SomeD:
  "IndexByte s c = Some i \<Longrightarrow> i < length s \<and> s ! i = c \<and> c \<notin> set (take i s)"
  by (induction s arbitrary: i) (auto split: if_splits)

subsection \<open>Hexadecimal\<close>

lemma of_char_hex_digit:
  "n < 16 \<Longrightarrow> (of_char (hex_digit n) :: nat) = (if n < 10 then 48 + n else 87 + n)"
  by (simp add: hex_digit_def)

lemma hex_digit_bounds: "n < 16 \<Longrightarrow> (of_char (hex_digit n) :: nat) \<in> {48..57} \<union> {97..102}"
  by (auto simp: of_char_hex_digit)

lemma byte_nibbles: "unat (b :: byte) div 16 < 16" "unat (b :: byte) mod 16 < 16"
  using unsigned_less [of b, where 'a = nat] by (simp_all add: less_mult_imp_div_less)

lemma length_EncodeToString [simp]: "length (EncodeToString bs) = 2 * length bs"
  by (induction bs) (simp_all add: EncodeToString_def hex_byte_def)

lemma set_EncodeToString: "c \<in> set (EncodeToString bs) \<Longrightarrow> (of_char c :: nat) \<in> {48..57} \<union> {97..102}"
proof (induction bs)
  case Nil
  then show ?case by (simp add: EncodeToString_def)
next
  case (Cons b bs)
  then show ?case
    using hex_digit_bounds [OF byte_nibbles(1) [of b]] hex_digit_bounds [OF byte_nibbles(2) [of b]]
    by (auto simp: EncodeToString_def hex_byte_def)
qed

lemma is_ascii_EncodeToString [simp]: "is_ascii (EncodeToString bs)"
  by (auto simp: is_ascii_def list_all_iff ascii_char_def dest!: set_EncodeToString)

lemma hex_digit_inj: "m < 16 \<Longrightarrow> n < 16 \<Longrightarrow> hex_digit m = hex_digit n \<longleftrightarrow> m = n"
  by (auto simp: char_eq_of_char of_char_hex_digit split: if_splits)

lemma hex_byte_inj: "hex_byte a = hex_byte b \<longleftrightarrow> a = b"
proof
  assume "hex_byte a = hex_byte b"
  then have "unat a div 16 = unat b div 16" and "unat a mod 16 = unat b mod 16"
    by (simp_all add: hex_byte_def hex_digit_inj byte_nibbles)
  then have "unat a = unat b" by (metis div_mult_mod_eq)
  then show "a = b" by (rule word_unat_eq_iff [THEN iffD2])
qed simp

lemma EncodeToString_inj: "EncodeToString a = EncodeToString b \<longleftrightarrow> a = b"
proof
  assume "EncodeToString a = EncodeToString b"
  then show "a = b"
  proof (induction a arbitrary: b)
    case Nil
    then show ?case by (cases b) (simp_all add: EncodeToString_def hex_byte_def)
  next
    case (Cons x xs)
    then obtain y ys where b: "b = y # ys"
      by (cases b) (simp_all add: EncodeToString_def hex_byte_def)
    with Cons.prems have "hex_byte x = hex_byte y" and "EncodeToString xs = EncodeToString ys"
      by (simp_all add: EncodeToString_def hex_byte_def)
    with b Cons.IH show ?case by (simp add: hex_byte_inj)
  qed
qed simp

subsection \<open>Fixed-width integers\<close>

lemma length_le32 [simp]: "length (le32 w) = 4"
  by (simp add: le32_def)

lemma length_be32 [simp]: "length (be32 w) = 4"
  by (simp add: be32_def)

lemma int32_id: "- (2 ^ 31) \<le> x \<Longrightarrow> x < 2 ^ 31 \<Longrightarrow> int32 x = x"
  by (simp add: int32_def sint_sbintrunc' signed_take_bit_int_eq_self)

lemma int32_range: "- (2 ^ 31) \<le> int32 x \<and> int32 x < 2 ^ 31"
  using sint_range_size [of "word_of_int x :: 32 word"] by (simp add: int32_def word_size)

end
