(* ===== verification/Certstore_Types.thy ===== *)
theory Certstore_Types
  imports Go_Prelude
begin

text \<open>
  The data types of the package \<^verbatim>\<open>internal/certstore\<close> (\<^verbatim>\<open>types.go\<close>) and thumbprint
  normalisation (\<^verbatim>\<open>thumbprint.go\<close>). The enumerations \<open>HashAlgorithm\<close> and
  \<open>RSAPadding\<close> are Go integers, so any integer is a value of theirs; the store
  operations check it. Thumbprints are compared only after normalisation; the lemmas give its
  result on ASCII strings and its fixed points, the canonical thumbprints.
\<close>

section \<open>Data (types.go)\<close>

definition ErrUnsupportedPlatform :: goerror where
  "ErrUnsupportedPlatform = Sentinel ''certificate store operations require Windows or macOS''"

definition ErrCertificateNotFound :: goerror where
  "ErrCertificateNotFound = Sentinel ''certificate not found''"

definition ErrNoPrivateKey :: goerror where
  "ErrNoPrivateKey = Sentinel ''certificate has no accessible private key''"

definition ErrInvalidDigest :: goerror where
  "ErrInvalidDigest = Sentinel ''digest length does not match hash algorithm''"

definition ErrInvalidPadding :: goerror where
  "ErrInvalidPadding = Sentinel ''PSS padding is only supported for RSA keys''"

lemmas sentinel_defs [go_defs] = ErrUnsupportedPlatform_def ErrCertificateNotFound_def
  ErrNoPrivateKey_def ErrInvalidDigest_def ErrInvalidPadding_def

lemma sentinel_distinct [simp]:
  "ErrCertificateNotFound \<noteq> ErrInvalidDigest" "ErrInvalidDigest \<noteq> ErrCertificateNotFound"
  "ErrCertificateNotFound \<noteq> ErrNoPrivateKey" "ErrNoPrivateKey \<noteq> ErrCertificateNotFound"
  "ErrCertificateNotFound \<noteq> ErrInvalidPadding" "ErrInvalidPadding \<noteq> ErrCertificateNotFound"
  "ErrUnsupportedPlatform \<noteq> ErrCertificateNotFound" "ErrUnsupportedPlatform \<noteq> ErrInvalidDigest"
  "ErrUnsupportedPlatform \<noteq> ErrNoPrivateKey" "ErrUnsupportedPlatform \<noteq> ErrInvalidPadding"
  "ErrorString m \<noteq> ErrCertificateNotFound" "Wrapped m e \<noteq> ErrCertificateNotFound"
  "ErrorString m \<noteq> ErrInvalidDigest" "Wrapped m e \<noteq> ErrInvalidDigest"
  "ErrorString m \<noteq> ErrNoPrivateKey" "Wrapped m e \<noteq> ErrNoPrivateKey"
  "ErrorString m \<noteq> ErrInvalidPadding" "Wrapped m e \<noteq> ErrInvalidPadding"
  by (simp_all add: sentinel_defs)

text \<open>\<^verbatim>\<open>time.Time\<close>: nanoseconds since the epoch.\<close>

type_synonym time = int

record CertificateInfo =
  ci_Thumbprint :: string
  ci_Subject :: string
  ci_Issuer :: string
  ci_NotBefore :: time
  ci_NotAfter :: time
  ci_KeyAlgorithm :: string
  ci_KeySize :: int
  ci_HasPrivateKey :: bool
  ci_IsTPM :: bool
  ci_ProviderName :: string
  ci_CertificateDER :: bytes

type_synonym HashAlgorithm = int

definition HashSHA256 :: HashAlgorithm where "HashSHA256 = 1"
definition HashSHA384 :: HashAlgorithm where "HashSHA384 = 2"
definition HashSHA512 :: HashAlgorithm where "HashSHA512 = 3"

lemmas hash_consts [go_defs] = HashSHA256_def HashSHA384_def HashSHA512_def

text \<open>The values of \<^verbatim>\<open>crypto.Hash\<close> that the program uses.\<close>

datatype crypto_hash = SHA256 | SHA384 | SHA512

definition CryptoHash :: "HashAlgorithm \<Rightarrow> goerror + crypto_hash" where
  "CryptoHash h =
     (if h = HashSHA256 then Ok SHA256
      else if h = HashSHA384 then Ok SHA384
      else if h = HashSHA512 then Ok SHA512
      else Err (ErrorString ''unsupported hash algorithm''))"

definition DigestSize :: "HashAlgorithm \<Rightarrow> goerror + nat" where
  "DigestSize h =
     (if h = HashSHA256 then Ok 32
      else if h = HashSHA384 then Ok 48
      else if h = HashSHA512 then Ok 64
      else Err (ErrorString ''unsupported hash algorithm''))"

type_synonym RSAPadding = int

definition RSAPaddingPKCS1 :: RSAPadding where "RSAPaddingPKCS1 = 1"
definition RSAPaddingPSS :: RSAPadding where "RSAPaddingPSS = 2"

lemmas padding_consts [go_defs] = RSAPaddingPKCS1_def RSAPaddingPSS_def

text \<open>The effective padding: \<^verbatim>\<open>if padding == 0 { padding = RSAPaddingPKCS1 }\<close>.\<close>

definition effPadding :: "RSAPadding \<Rightarrow> RSAPadding" where
  "effPadding padding = (if padding = 0 then RSAPaddingPKCS1 else padding)"

record SignResult =
  sr_Signature :: bytes
  sr_SignatureAlgorithm :: string
  sr_Padding :: RSAPadding

section \<open>Thumbprints (thumbprint.go)\<close>

definition NormalizeThumbprint :: "unicode \<Rightarrow> string \<Rightarrow> string" where
  "NormalizeThumbprint uc tp =
     (let tp = ToUpper uc (TrimSpace uc tp);
          tp = removeAll (CHR '':'') tp;
          tp = removeAll (CHR '' '') tp;
          tp = removeAll (CHR ''-'') tp
      in tp)"

definition cleanThumbprint :: "unicode \<Rightarrow> string \<Rightarrow> string" where
  "cleanThumbprint uc tp = NormalizeThumbprint uc tp"

text \<open>
  The expression \<^verbatim>\<open>strings.ToUpper(hex.EncodeToString(sum[:]))\<close> with which every store turns
  the SHA-1 or SHA-256 hash of a certificate into its thumbprint.
\<close>

definition thumbOfHash :: "unicode \<Rightarrow> bytes \<Rightarrow> string" where
  "thumbOfHash uc h = ToUpper uc (EncodeToString h)"

section \<open>Specification notions\<close>

definition is_sep :: "char \<Rightarrow> bool" where
  "is_sep c \<longleftrightarrow> c = CHR '':'' \<or> c = CHR '' '' \<or> c = CHR ''-''"

text \<open>An upper-case hexadecimal digit; a canonical thumbprint has no other character.\<close>

definition upper_hex :: "char \<Rightarrow> bool" where
  "upper_hex c \<longleftrightarrow> (of_char c :: nat) \<in> {48..57} \<union> {65..70}"

definition canonical :: "string \<Rightarrow> bool" where
  "canonical s \<longleftrightarrow> list_all upper_hex s"

section \<open>Lemmas\<close>

lemma DigestSize_Ok_iff:
  "DigestSize h = Ok n \<longleftrightarrow> (h = 1 \<and> n = 32) \<or> (h = 2 \<and> n = 48) \<or> (h = 3 \<and> n = 64)"
  by (auto simp: DigestSize_def go_defs)

lemma CryptoHash_Ok_iff:
  "CryptoHash h = Ok x \<longleftrightarrow> (h = 1 \<and> x = SHA256) \<or> (h = 2 \<and> x = SHA384) \<or> (h = 3 \<and> x = SHA512)"
  by (auto simp: CryptoHash_def go_defs)

lemma CryptoHash_DigestSize: "isOk (CryptoHash h) = isOk (DigestSize h)"
  by (simp add: CryptoHash_def DigestSize_def)

lemma DigestSize_Err_ErrorString: "DigestSize h = Err e \<Longrightarrow> e = ErrorString ''unsupported hash algorithm''"
  by (auto simp: DigestSize_def split: if_splits)

lemma NormalizeThumbprint_filter:
  "NormalizeThumbprint uc tp = filter (\<lambda>c. \<not> is_sep c) (ToUpper uc (TrimSpace uc tp))"
  by (auto simp: NormalizeThumbprint_def removeAll_def is_sep_def Let_def intro!: filter_cong)

lemma NormalizeThumbprint_no_sep: "c \<in> set (NormalizeThumbprint uc tp) \<Longrightarrow> \<not> is_sep c"
  by (simp add: NormalizeThumbprint_filter)

lemma is_sep_upper [simp]: "is_sep (ascii_upper c) = is_sep c"
  by (auto simp: is_sep_def ascii_upper_eq_nonletter)

lemma seps_ascii: "list_all is_sep s \<Longrightarrow> is_ascii s"
  by (induction s) (auto simp: is_sep_def ascii_char_def)

lemma NormalizeThumbprint_ascii:
  assumes "is_ascii tp"
  shows "NormalizeThumbprint uc tp = map ascii_upper (filter (\<lambda>c. \<not> is_sep c) (trim_ascii tp))"
  using assms by (simp add: NormalizeThumbprint_filter ascii_simps filter_map o_def)

lemma is_ascii_Normalize: "is_ascii tp \<Longrightarrow> is_ascii (NormalizeThumbprint uc tp)"
  by (simp add: NormalizeThumbprint_ascii)

text \<open>
  White space other than the space character is removed at the two ends only, and the ends are
  trimmed before the separators are removed; without it the trimming has no effect of its own.
\<close>

definition ctrl_free :: "string \<Rightarrow> bool" where
  "ctrl_free s \<longleftrightarrow> list_all (\<lambda>c. ascii_space c \<longrightarrow> c = CHR '' '') s"

lemma seps_ctrl_free: "list_all is_sep s \<Longrightarrow> ctrl_free s"
  by (induction s) (auto simp: is_sep_def ctrl_free_def ascii_space_def)

lemma filter_sep_trim:
  assumes "ctrl_free tp"
  shows "filter (\<lambda>c. \<not> is_sep c) (trim_ascii tp) = filter (\<lambda>c. \<not> is_sep c) tp"
proof -
  have P: "filter (\<lambda>c. \<not> is_sep c) s = filter (\<lambda>c. \<not> is_sep c \<and> \<not> ascii_space c) s" if "set s \<subseteq> set tp" for s
    using that assms by (intro filter_cong) (auto simp: ctrl_free_def list_all_iff is_sep_def)
  have "filter (\<lambda>c. \<not> is_sep c \<and> \<not> ascii_space c) (trim_ascii tp)
      = filter (\<lambda>c. \<not> is_sep c \<and> \<not> ascii_space c) tp"
    by (rule filter_trim_ascii) simp
  with P [OF set_trim_ascii] P [OF subset_refl] show ?thesis by simp
qed

lemma NormalizeThumbprint_closed:
  "is_ascii tp \<Longrightarrow> ctrl_free tp \<Longrightarrow>
   NormalizeThumbprint uc tp = map ascii_upper (filter (\<lambda>c. \<not> is_sep c) tp)"
  by (simp add: NormalizeThumbprint_ascii filter_sep_trim)

lemma NormalizeThumbprint_idem:
  assumes "is_ascii tp" and "ctrl_free tp"
  shows "NormalizeThumbprint uc (NormalizeThumbprint uc tp) = NormalizeThumbprint uc tp"
proof -
  from assms have n: "NormalizeThumbprint uc tp = map ascii_upper (filter (\<lambda>c. \<not> is_sep c) tp)"
    by (rule NormalizeThumbprint_closed)
  from assms(2) have "ctrl_free (NormalizeThumbprint uc tp)"
    unfolding n by (auto simp: ctrl_free_def list_all_iff is_sep_def)
  with assms(1) show ?thesis
    by (simp add: NormalizeThumbprint_closed [OF is_ascii_Normalize]) (simp add: n filter_map o_def)
qed

subsection \<open>Canonical thumbprints\<close>

lemma canonical_is_ascii [simp]: "canonical s \<Longrightarrow> is_ascii s"
  by (auto simp: canonical_def is_ascii_def list_all_iff upper_hex_def ascii_char_def)

lemma canonical_ctrl_free [simp]: "canonical s \<Longrightarrow> ctrl_free s"
  by (fastforce simp: canonical_def ctrl_free_def list_all_iff upper_hex_def ascii_space_def)

lemma upper_hex_not_sep: "upper_hex c \<Longrightarrow> \<not> is_sep c"
  by (auto simp: upper_hex_def is_sep_def)

lemma upper_hex_upper: "upper_hex c \<Longrightarrow> ascii_upper c = c"
  by (auto simp: upper_hex_def ascii_upper_def)

lemma NormalizeThumbprint_canonical [simp]: "canonical s \<Longrightarrow> NormalizeThumbprint uc s = s"
  by (auto simp: NormalizeThumbprint_closed canonical_def list_all_iff upper_hex_upper
      upper_hex_not_sep intro!: map_idI filter_True [THEN trans])

lemma cleanThumbprint_canonical [simp]: "canonical s \<Longrightarrow> cleanThumbprint uc s = s"
  by (simp add: cleanThumbprint_def)

lemma thumbOfHash_map: "thumbOfHash uc h = map ascii_upper (EncodeToString h)"
  by (simp add: thumbOfHash_def ascii_simps)

lemma canonical_thumbOfHash [simp]: "canonical (thumbOfHash uc h)"
  by (force simp: thumbOfHash_map canonical_def list_all_iff upper_hex_def of_char_upper
      dest!: set_EncodeToString)

lemma length_thumbOfHash [simp]: "length (thumbOfHash uc h) = 2 * length h"
  by (simp add: thumbOfHash_map)

lemma lower_thumbOfHash: "map ascii_lower (thumbOfHash uc h) = EncodeToString h"
proof -
  have "ascii_lower c = c" if "c \<in> set (EncodeToString h)" for c
    using set_EncodeToString [OF that] by (auto simp: ascii_lower_def)
  then show ?thesis by (simp add: thumbOfHash_map o_def map_idI)
qed

lemma thumbOfHash_inj [simp]: "thumbOfHash uc a = thumbOfHash uc b \<longleftrightarrow> a = b"
  by (metis lower_thumbOfHash EncodeToString_inj)

section \<open>The contract of a certificate store\<close>

text \<open>
  What the gRPC service relies on, whichever backend is built in: \<open>list\<close> and \<open>sign\<close> are
  \<^verbatim>\<open>ListCertificates\<close> and \<^verbatim>\<open>SignHash\<close> on a state of the backend, \<open>ok\<close> the states it can be in.
  A signature is made over a digest of the length of its hash; the reported padding is the
  requested one, PKCS#1 by default; the reported algorithm is PSS exactly for PSS padding;
  a listed certificate has a private key.
\<close>

definition signature_algorithms :: "string set" where
  "signature_algorithms = {''RSASSA-PSS'', ''RSASSA-PKCS1-v1_5'', ''ECDSA''}"

locale cert_backend =
  fixes ok :: "'s \<Rightarrow> bool"
    and list :: "'s \<Rightarrow> goerror + CertificateInfo list"
    and sign :: "'s \<Rightarrow> string \<Rightarrow> bytes \<Rightarrow> HashAlgorithm \<Rightarrow> RSAPadding \<Rightarrow> goerror + SignResult"
  assumes sign_digest: "ok s \<Longrightarrow> sign s t d h p = Ok r \<Longrightarrow> DigestSize h = Ok (length d)"
    and sign_padding: "ok s \<Longrightarrow> sign s t d h p = Ok r \<Longrightarrow> sr_Padding r = effPadding p"
    and sign_alg: "ok s \<Longrightarrow> sign s t d h p = Ok r \<Longrightarrow>
      sr_SignatureAlgorithm r \<in> signature_algorithms \<and>
      (sr_SignatureAlgorithm r = ''RSASSA-PSS'' \<longleftrightarrow> sr_Padding r = RSAPaddingPSS)"
    and sign_bad_digest: "ok s \<Longrightarrow> DigestSize h = Ok n \<Longrightarrow> length d \<noteq> n \<Longrightarrow> sign s t d h p = Err e \<Longrightarrow>
      e = ErrInvalidDigest \<or> e = ErrUnsupportedPlatform"
    and list_private: "ok s \<Longrightarrow> list s = Ok cs \<Longrightarrow> c \<in> set cs \<Longrightarrow> ci_HasPrivateKey c"
begin

text \<open>A digest of a wrong length is never signed.\<close>

lemma bad_digest_refused:
  assumes "ok s" and "DigestSize h = Ok n" and "length d \<noteq> n"
  obtains e where "sign s t d h p = Err e" and "e = ErrInvalidDigest \<or> e = ErrUnsupportedPlatform"
proof (cases "sign s t d h p")
  case (Inl e)
  with that sign_bad_digest [OF assms Inl] show ?thesis by blast
next
  case (Inr r)
  with sign_digest [OF assms(1) Inr] assms(2,3) show ?thesis by simp
qed

end

end
