(* ===== verification/Crypto_Lib.thy ===== *)
theory Crypto_Lib
  imports Certstore_Types
begin

text \<open>
  What the program takes from Go's cryptographic packages and from the operating system, as
  parameters: the record \<open>crypto_lib\<close> stands for \<^verbatim>\<open>encoding/pem\<close>, \<^verbatim>\<open>crypto/x509\<close>,
  \<^verbatim>\<open>crypto/sha1\<close>, \<^verbatim>\<open>crypto/sha256\<close>, \<^verbatim>\<open>crypto/sha512\<close> and the \<^verbatim>\<open>Sign\<close> methods of private keys, the record
  \<open>os_env\<close> for a snapshot of the file system. The parsed certificate carries the fields
  of \<^verbatim>\<open>x509.Certificate\<close> that the program reads. The type variable \<open>'k\<close> is the key
  material, which the program never looks into.

  The laws the proofs use of these packages are named predicates at the end: each is the
  documented behaviour of one function.
\<close>

section \<open>Keys and certificates\<close>

datatype public_key =
    RSAPublicKey (pk_N: nat) (pk_E: int)
  | ECDSAPublicKey (pk_BitSize: nat)
  | OtherPublicKey

record x509_cert =
  x_Raw :: bytes
  x_Subject :: string
  x_Issuer :: string
  x_IssuerCN :: string
  x_NotBefore :: time
  x_NotAfter :: time
  x_PublicKey :: public_key
  x_PublicKeyAlgorithm :: string
  x_RawSPKI :: bytes
  x_KeyUsage :: int
  x_ExtKeyUsage :: "int list"
  x_DNSNames :: "string list"
  x_IPAddresses :: "bytes list"
  x_EmailAddresses :: "string list"
  x_SubjectKeyId :: bytes

text \<open>The bits of \<^verbatim>\<open>x509.KeyUsage\<close> and the values of \<^verbatim>\<open>x509.ExtKeyUsage\<close> that the program names.\<close>

definition KeyUsageDigitalSignature :: int where "KeyUsageDigitalSignature = 1"
definition KeyUsageKeyEncipherment :: int where "KeyUsageKeyEncipherment = 4"
definition KeyUsageCertSign :: int where "KeyUsageCertSign = 32"
definition KeyUsageCRLSign :: int where "KeyUsageCRLSign = 64"
definition ExtKeyUsageServerAuth :: int where "ExtKeyUsageServerAuth = 1"
definition ExtKeyUsageClientAuth :: int where "ExtKeyUsageClientAuth = 2"
definition ExtKeyUsageCodeSigning :: int where "ExtKeyUsageCodeSigning = 3"
definition ExtKeyUsageEmailProtection :: int where "ExtKeyUsageEmailProtection = 4"

lemmas usage_consts [go_defs] = KeyUsageDigitalSignature_def KeyUsageKeyEncipherment_def KeyUsageCertSign_def
  KeyUsageCRLSign_def ExtKeyUsageServerAuth_def ExtKeyUsageClientAuth_def ExtKeyUsageCodeSigning_def
  ExtKeyUsageEmailProtection_def

text \<open>
  The dynamic type of a parsed private key, as the type switches of the program see it.
  \<open>OtherSigner\<close> is any other implementation of \<^verbatim>\<open>crypto.Signer\<close>; \<open>NotASigner\<close> a key
  that does not implement it.
\<close>

datatype 'k private_key =
    RSAPrivateKey 'k
  | ECDSAPrivateKey 'k
  | OtherSigner 'k
  | NotASigner 'k

fun is_signer :: "'k private_key \<Rightarrow> bool" where
  "is_signer (NotASigner k) = False"
| "is_signer k = True"

text \<open>The \<^verbatim>\<open>crypto.SignerOpts\<close> argument: a hash, or PSS options with a salt length and a hash.\<close>

datatype sign_opts =
    HashOpts crypto_hash
  | PSSOptions int crypto_hash

definition PSSSaltLengthEqualsHash :: int where
  "PSSSaltLengthEqualsHash = -1"

record pem_block =
  pb_Type :: string
  pb_Bytes :: bytes

section \<open>The library and the operating system\<close>

record 'k crypto_lib =
  pem_Decode :: "bytes \<Rightarrow> (pem_block \<times> bytes) option"
  ParseCertificate :: "bytes \<Rightarrow> goerror + x509_cert"
  ParsePKCS8PrivateKey :: "bytes \<Rightarrow> goerror + 'k private_key"
  ParsePKCS1PrivateKey :: "bytes \<Rightarrow> goerror + 'k private_key"
  ParseECPrivateKey :: "bytes \<Rightarrow> goerror + 'k private_key"
  MarshalPKIXPublicKey :: "'k private_key \<Rightarrow> goerror + bytes"
  sha1_Sum :: "bytes \<Rightarrow> bytes"
  sha256_Sum256 :: "bytes \<Rightarrow> bytes"
  sha512_Sum384 :: "bytes \<Rightarrow> bytes"
  sha512_Sum512 :: "bytes \<Rightarrow> bytes"
  signer_Sign :: "'k \<Rightarrow> bytes \<Rightarrow> sign_opts \<Rightarrow> goerror + bytes"
  TypeName :: "'k private_key \<Rightarrow> string"

record dir_entry =
  de_Name :: string
  de_IsDir :: bool

record os_env =
  os_ReadDir :: "string \<Rightarrow> goerror + dir_entry list"
  os_ReadFile :: "string \<Rightarrow> goerror + bytes"
  filepath_Join :: "string \<Rightarrow> string \<Rightarrow> string"
  IsPathSeparator :: "char \<Rightarrow> bool"

text \<open>\<^verbatim>\<open>filepath.Ext\<close>: from the last dot of the last path element.\<close>

definition filepath_Ext :: "os_env \<Rightarrow> string \<Rightarrow> string" where
  "filepath_Ext env path =
     (let r = takeWhile (\<lambda>c. \<not> IsPathSeparator env c) (rev path)
      in case IndexByte r (CHR ''.'') of
           None \<Rightarrow> []
         | Some i \<Rightarrow> rev (take (Suc i) r))"

text \<open>\<^verbatim>\<open>(*big.Int).BitLen\<close> of a non-negative number.\<close>

fun BitLen :: "nat \<Rightarrow> nat" where
  "BitLen n = (if n = 0 then 0 else Suc (BitLen (n div 2)))"

declare BitLen.simps [simp del]

text \<open>
  The blocks that the loop \<^verbatim>\<open>for { block, r := pem.Decode(rest); if block == nil { break }; rest = r ... }\<close>
  sees, in order. The fuel is the length of the data: each call consumes at least one byte.
\<close>

fun pemLoop :: "('k, 'm) crypto_lib_scheme \<Rightarrow> nat \<Rightarrow> bytes \<Rightarrow> pem_block list" where
  "pemLoop lib 0 rest = []"
| "pemLoop lib (Suc fuel) rest =
     (case pem_Decode lib rest of
        None \<Rightarrow> []
      | Some (block, r) \<Rightarrow> block # pemLoop lib fuel r)"

definition pemBlocks :: "('k, 'm) crypto_lib_scheme \<Rightarrow> bytes \<Rightarrow> pem_block list" where
  "pemBlocks lib data = pemLoop lib (Suc (length data)) data"

section \<open>Laws of the library\<close>

definition pem_progress :: "('k, 'm) crypto_lib_scheme \<Rightarrow> bool" where
  "pem_progress lib \<longleftrightarrow> (\<forall>d b r. pem_Decode lib d = Some (b, r) \<longrightarrow> length r < length d)"

definition sha_lengths :: "('k, 'm) crypto_lib_scheme \<Rightarrow> bool" where
  "sha_lengths lib \<longleftrightarrow>
     (\<forall>d. length (sha1_Sum lib d) = 20) \<and> (\<forall>d. length (sha256_Sum256 lib d) = 32)"

definition sha2_lengths :: "('k, 'm) crypto_lib_scheme \<Rightarrow> bool" where
  "sha2_lengths lib \<longleftrightarrow>
     (\<forall>d. length (sha256_Sum256 lib d) = 32) \<and> (\<forall>d. length (sha512_Sum384 lib d) = 48) \<and>
     (\<forall>d. length (sha512_Sum512 lib d) = 64)"

lemma pemLoop_fuel:
  assumes "pem_progress lib"
  shows "length d < m \<Longrightarrow> length d < n \<Longrightarrow> pemLoop lib m d = pemLoop lib n d"
proof (induction m arbitrary: n d)
  case 0
  then show ?case by simp
next
  case (Suc m)
  then obtain n' where n: "n = Suc n'" by (cases n) auto
  show ?case
  proof (cases "pem_Decode lib d")
    case None
    with n show ?thesis by simp
  next
    case (Some br)
    obtain b r where br: "br = (b, r)" by (cases br)
    with Some assms have "length r < length d" by (auto simp: pem_progress_def)
    with Suc.prems n have "pemLoop lib m r = pemLoop lib n' r" by (intro Suc.IH) auto
    with Some br n show ?thesis by simp
  qed
qed

text \<open>With the law the loop has ended before the fuel is spent: one call at a time.\<close>

lemma pemBlocks_unfold:
  assumes "pem_progress lib"
  shows "pemBlocks lib d =
    (case pem_Decode lib d of None \<Rightarrow> [] | Some (b, r) \<Rightarrow> b # pemBlocks lib r)"
proof (cases "pem_Decode lib d")
  case None
  then show ?thesis by (simp add: pemBlocks_def)
next
  case (Some br)
  obtain b r where br: "br = (b, r)" by (cases br)
  with Some assms have "length r < length d" by (auto simp: pem_progress_def)
  then have "pemLoop lib (length d) r = pemLoop lib (Suc (length r)) r"
    by (intro pemLoop_fuel assms) auto
  with Some br show ?thesis by (simp add: pemBlocks_def)
qed

lemma BitLen_0 [simp]: "BitLen 0 = 0"
  by (simp add: BitLen.simps)

lemma BitLen_bounds: "n < 2 ^ BitLen n \<and> (0 < n \<longrightarrow> 2 ^ (BitLen n - 1) \<le> n)"
proof (induction n rule: BitLen.induct)
  case (1 n)
  show ?case
  proof (cases "n = 0")
    case False
    let ?b = "BitLen (n div 2)"
    from False have n: "BitLen n = Suc ?b" by (simp add: BitLen.simps [of n])
    from "1" False have ub: "n div 2 < 2 ^ ?b" and lb: "0 < n div 2 \<Longrightarrow> 2 ^ (?b - 1) \<le> n div 2"
      by auto
    from ub have "n < 2 * 2 ^ ?b" by simp
    moreover have "2 ^ ?b \<le> n"
    proof (cases "n div 2 = 0")
      case True
      with False show ?thesis by simp
    next
      case nz: False
      then obtain c where c: "?b = Suc c" by (simp add: BitLen.simps [of "n div 2"])
      with lb nz have "2 ^ c \<le> n div 2" by simp
      with c show ?thesis by simp
    qed
    ultimately show ?thesis using n by simp
  qed simp
qed

lemma filepath_Ext_append:
  assumes "CHR ''.'' \<notin> set e" and "\<forall>c \<in> set e. \<not> IsPathSeparator env c"
    and "\<not> IsPathSeparator env (CHR ''.'')"
  shows "filepath_Ext env (s @ CHR ''.'' # e) = CHR ''.'' # e"
proof -
  have "takeWhile (\<lambda>c. \<not> IsPathSeparator env c) (rev e @ CHR ''.'' # rev s)
      = rev e @ CHR ''.'' # takeWhile (\<lambda>c. \<not> IsPathSeparator env c) (rev s)"
    using assms(2,3) by (subst takeWhile_append2) auto
  with assms(1) show ?thesis
    by (simp add: filepath_Ext_def Let_def IndexByte_append)
qed

end
