(* ===== verification/Sample_Env.thy ===== *)
theory Sample_Env
  imports Crypto_Lib
begin

text \<open>
  A concrete instance of the parameters, at which the theorems with hypotheses are applied: a
  library whose certificates are the one-byte strings 1 (with an RSA key), 2 (with an ECDSA key)
  and 3 (whose key on disk belongs to another certificate), and a directory that holds them.
\<close>

definition demo_uc :: unicode where
  "demo_uc = \<lparr>uc_ToUpper = id, uc_ToLower = id, uc_TrimSpace = id, uc_EqualFold = (=),
     uc_Fields = (\<lambda>s. [s]), uc_Quote = id\<rparr>"

definition demo_cert :: "byte \<Rightarrow> x509_cert" where
  "demo_cert b = \<lparr>x_Raw = [b], x_Subject = ''CN=demo'', x_Issuer = ''CN=ca'', x_IssuerCN = ''ca'',
     x_NotBefore = 0, x_NotAfter = 100,
     x_PublicKey = (if b = 2 then ECDSAPublicKey 256 else RSAPublicKey 3233 65537),
     x_PublicKeyAlgorithm = ''RSA'', x_RawSPKI = [b],
     x_KeyUsage = 1, x_ExtKeyUsage = [2], x_DNSNames = [''demo''], x_IPAddresses = [], x_EmailAddresses = [],
     x_SubjectKeyId = []\<rparr>"

definition demo_lib :: "nat crypto_lib" where
  "demo_lib = \<lparr>pem_Decode = (\<lambda>d. None),
     ParseCertificate = (\<lambda>d. case d of [b] \<Rightarrow> if b \<in> {1, 2, 3} then Ok (demo_cert b) else Err (ErrorString ''bad'')
                           | _ \<Rightarrow> Err (ErrorString ''bad'')),
     ParsePKCS8PrivateKey = (\<lambda>d. if d = [11] then Ok (RSAPrivateKey 1) else Err (ErrorString ''bad'')),
     ParsePKCS1PrivateKey = (\<lambda>d. Err (ErrorString ''bad'')),
     ParseECPrivateKey = (\<lambda>d. if d = [12] then Ok (ECDSAPrivateKey 2) else Err (ErrorString ''bad'')),
     MarshalPKIXPublicKey = (\<lambda>k. case k of RSAPrivateKey n \<Rightarrow> Ok [of_nat n] | ECDSAPrivateKey n \<Rightarrow> Ok [of_nat n]
                                | _ \<Rightarrow> Err (ErrorString ''bad'')),
     sha1_Sum = (\<lambda>d. replicate 20 (if d = [] then 0 else hd d)),
     sha256_Sum256 = (\<lambda>d. replicate 32 (if d = [] then 0 else hd d)),
     sha512_Sum384 = (\<lambda>d. replicate 48 (if d = [] then 0 else hd d)),
     sha512_Sum512 = (\<lambda>d. replicate 64 (if d = [] then 0 else hd d)),
     signer_Sign = (\<lambda>k d opts. Ok (of_nat k # d)),
     TypeName = (\<lambda>k. ''key'')\<rparr>"

definition demo_env :: os_env where
  "demo_env = \<lparr>os_ReadDir = (\<lambda>p. if p = ''d''
       then Ok [\<lparr>de_Name = ''b.pem'', de_IsDir = False\<rparr>, \<lparr>de_Name = ''a.crt'', de_IsDir = False\<rparr>,
                \<lparr>de_Name = ''a.key'', de_IsDir = False\<rparr>, \<lparr>de_Name = ''x.crt'', de_IsDir = True\<rparr>]
       else if p = ''bad'' then Ok [\<lparr>de_Name = ''c.crt'', de_IsDir = False\<rparr>]
       else Err (ErrorString ''no such directory'')),
     os_ReadFile = (\<lambda>p. if p = ''d/a.crt'' then Ok [1] else if p = ''d/a.key'' then Ok [11]
       else if p = ''d/b.pem'' then Ok [2] else if p = ''d/b.key'' then Ok [12]
       else if p = ''bad/c.crt'' then Ok [3] else if p = ''bad/c.key'' then Ok [11]
       else Err (ErrorString ''no such file'')),
     filepath_Join = (\<lambda>a b. a @ ''/'' @ b),
     IsPathSeparator = (\<lambda>c. c = CHR ''/'')\<rparr>"

lemma demo_pem_progress: "pem_progress demo_lib"
  by (simp add: pem_progress_def demo_lib_def)

lemma demo_sha_lengths: "sha_lengths demo_lib"
  by (simp add: sha_lengths_def demo_lib_def)

lemma demo_sha2_lengths: "sha2_lengths demo_lib"
  by (simp add: sha2_lengths_def demo_lib_def)

end
