(* ===== verification/File_Store.thy ===== *)
theory File_Store
  imports Sample_Env
begin

text \<open>
  The file-backed certificate store, \<^verbatim>\<open>internal/certstore/file_store.go\<close>, and the Linux
  backend over it, \<^verbatim>\<open>store_linux.go\<close>. The package variables \<^verbatim>\<open>fileStoreDir\<close> and
  \<^verbatim>\<open>fileStore\<close> (written together, under one write lock) are the record \<open>file_store\<close>;
  \<open>SetCertDir\<close> is its only writer. The lemmas show the invariant of the reachable
  stores, what a signature can come from, and how a thumbprint selects a key.
\<close>

section \<open>State\<close>

record 'k fileIdentity =
  fi_info :: CertificateInfo
  fi_thumbSHA1 :: string
  fi_thumbSHA256 :: string
  fi_signer :: "'k private_key"

record 'k file_store =
  fileStoreDir :: string
  fileStore :: "'k fileIdentity list"

section \<open>Loading a directory\<close>

definition certFromFile :: "('k, 'm) crypto_lib_scheme \<Rightarrow> os_env \<Rightarrow> string \<Rightarrow> goerror + bytes option" where
  "certFromFile lib env path =
     andThen (os_ReadFile env path) (\<lambda>data.
       case find (\<lambda>block. pb_Type block = ''CERTIFICATE'') (pemBlocks lib data) of
         Some block \<Rightarrow> Ok (Some (pb_Bytes block))
       | None \<Rightarrow> Ok (if isOk (ParseCertificate lib data) then Some data else None))"

definition parseKeyBlock :: "unicode \<Rightarrow> ('k, 'm) crypto_lib_scheme \<Rightarrow> bytes \<Rightarrow> string \<Rightarrow> goerror + 'k private_key" where
  "parseKeyBlock uc lib der blockType =
     andThen
       (if blockType = ''PRIVATE KEY'' then ParsePKCS8PrivateKey lib der
        else if blockType = ''RSA PRIVATE KEY'' then ParsePKCS1PrivateKey lib der
        else if blockType = ''EC PRIVATE KEY'' then ParseECPrivateKey lib der
        else Err (ErrorString (''unsupported PEM block type '' @ Quote uc blockType)))
       (\<lambda>k. if is_signer k then Ok k
            else Err (ErrorString (''private key type '' @ TypeName lib k @ '' does not support signing'')))"

text \<open>The two loops of \<^verbatim>\<open>parseKeyBytes\<close>: the first element whose parse yields a signer.\<close>

fun firstSigner :: "(goerror + 'k private_key) list \<Rightarrow> 'k private_key option" where
  "firstSigner [] = None"
| "firstSigner (Inl e # rs) = firstSigner rs"
| "firstSigner (Inr k # rs) = (if is_signer k then Some k else firstSigner rs)"

definition parseKeyBytes :: "unicode \<Rightarrow> ('k, 'm) crypto_lib_scheme \<Rightarrow> bytes \<Rightarrow> goerror + 'k private_key option" where
  "parseKeyBytes uc lib data =
     (case firstSigner (map (\<lambda>block. parseKeyBlock uc lib (pb_Bytes block) (pb_Type block)) (pemBlocks lib data)) of
        Some k \<Rightarrow> Ok (Some k)
      | None \<Rightarrow>
          Ok (firstSigner
                [ParsePKCS8PrivateKey lib data, ParsePKCS1PrivateKey lib data, ParseECPrivateKey lib data]))"

definition keyForFile :: "unicode \<Rightarrow> ('k, 'm) crypto_lib_scheme \<Rightarrow> os_env \<Rightarrow> string \<Rightarrow> goerror + 'k private_key" where
  "keyForFile uc lib env certPath =
     andThen (os_ReadFile env certPath) (\<lambda>data.
       case parseKeyBytes uc lib data of
         Inr (Some k) \<Rightarrow> Ok k
       | _ \<Rightarrow>
         (let sibling = TrimSuffix certPath (filepath_Ext env certPath) @ ''.key''
          in case os_ReadFile env sibling of
               Inl _ \<Rightarrow> Err (ErrorString (''no private key found in '' @ certPath @ '' or '' @ sibling))
             | Inr kdata \<Rightarrow>
                 andThen (parseKeyBytes uc lib kdata) (\<lambda>res.
                   case res of
                     None \<Rightarrow> Err (ErrorString (''no private key found in '' @ sibling))
                   | Some k \<Rightarrow> Ok k)))"

definition keyAlgSize :: "x509_cert \<Rightarrow> string \<times> int" where
  "keyAlgSize cert =
     (case x_PublicKey cert of
        RSAPublicKey N E \<Rightarrow> (''RSA'', int (BitLen N))
      | ECDSAPublicKey bits \<Rightarrow> (''ECDSA'', int bits)
      | OtherPublicKey \<Rightarrow> (x_PublicKeyAlgorithm cert, 0))"

definition isCertFileName :: "unicode \<Rightarrow> os_env \<Rightarrow> string \<Rightarrow> bool" where
  "isCertFileName uc env name =
     (ToLower uc (filepath_Ext env name) \<in> {''.crt'', ''.cer'', ''.pem''})"

text \<open>The body of the loop of \<^verbatim>\<open>loadCertDir\<close> for one file: skipped, loaded or an error.\<close>

definition loadCertFile ::
  "unicode \<Rightarrow> ('k, 'm) crypto_lib_scheme \<Rightarrow> os_env \<Rightarrow> string \<Rightarrow> string \<Rightarrow> goerror + 'k fileIdentity option" where
  "loadCertFile uc lib env dir name =
     (let path = filepath_Join env dir name
      in andThen (mapErr (Wrapped (''read certificate '' @ name)) (certFromFile lib env path)) (\<lambda>found.
         case found of
           None \<Rightarrow> Ok None
         | Some der \<Rightarrow>
             andThen (mapErr (Wrapped (''parse certificate '' @ name)) (ParseCertificate lib der)) (\<lambda>cert.
             andThen (mapErr (Wrapped (''certificate '' @ name)) (keyForFile uc lib env path)) (\<lambda>priv.
             if MarshalPKIXPublicKey lib priv \<noteq> Ok (x_RawSPKI cert)
             then Err (ErrorString (''certificate '' @ name @ '': private key does not match certificate''))
             else
               (let thumbSHA1 = thumbOfHash uc (sha1_Sum lib der);
                    thumbSHA256 = thumbOfHash uc (sha256_Sum256 lib der);
                    (keyAlg, keySize) = keyAlgSize cert
                in Ok (Some \<lparr>fi_info =
                      \<lparr>ci_Thumbprint = thumbSHA1, ci_Subject = x_Subject cert, ci_Issuer = x_Issuer cert,
                       ci_NotBefore = x_NotBefore cert, ci_NotAfter = x_NotAfter cert,
                       ci_KeyAlgorithm = keyAlg, ci_KeySize = keySize, ci_HasPrivateKey = True,
                       ci_IsTPM = False, ci_ProviderName = ''file store: '' @ dir, ci_CertificateDER = der\<rparr>,
                     fi_thumbSHA1 = thumbSHA1, fi_thumbSHA256 = thumbSHA256, fi_signer = priv\<rparr>))))))"

fun loadCertFiles ::
  "unicode \<Rightarrow> ('k, 'm) crypto_lib_scheme \<Rightarrow> os_env \<Rightarrow> string \<Rightarrow> string list \<Rightarrow> goerror + 'k fileIdentity list" where
  "loadCertFiles uc lib env dir [] = Ok []"
| "loadCertFiles uc lib env dir (name # names) =
     andThen (loadCertFile uc lib env dir name) (\<lambda>r.
     andThen (loadCertFiles uc lib env dir names) (\<lambda>out.
     Ok (case r of None \<Rightarrow> out | Some i \<Rightarrow> i # out)))"

definition certFileNames :: "unicode \<Rightarrow> os_env \<Rightarrow> dir_entry list \<Rightarrow> string list" where
  "certFileNames uc env entries =
     sort (filter (isCertFileName uc env) (map de_Name (filter (\<lambda>e. \<not> de_IsDir e) entries)))"

definition loadCertDir ::
  "unicode \<Rightarrow> ('k, 'm) crypto_lib_scheme \<Rightarrow> os_env \<Rightarrow> string \<Rightarrow> goerror + 'k fileIdentity list" where
  "loadCertDir uc lib env dir =
     andThen (mapErr (Wrapped ''read cert dir'') (os_ReadDir env dir)) (\<lambda>entries.
       loadCertFiles uc lib env dir (certFileNames uc env entries))"

section \<open>Operations\<close>

text \<open>\<open>SetCertDir\<close> returns its error (\<open>None\<close> for nil) and the new state.\<close>

definition SetCertDir ::
  "unicode \<Rightarrow> ('k, 'm) crypto_lib_scheme \<Rightarrow> os_env \<Rightarrow> string \<Rightarrow> 'k file_store \<Rightarrow> goerror option \<times> 'k file_store" where
  "SetCertDir uc lib env dir st =
     (if dir = [] then (None, st\<lparr>fileStore := [], fileStoreDir := []\<rparr>)
      else case loadCertDir uc lib env dir of
             Inl e \<Rightarrow> (Some e, st)
           | Inr idents \<Rightarrow> (None, st\<lparr>fileStore := idents, fileStoreDir := dir\<rparr>))"

definition CertDir :: "'k file_store \<Rightarrow> string" where
  "CertDir st = fileStoreDir st"

definition listFromFileStore :: "'k file_store \<Rightarrow> CertificateInfo list" where
  "listFromFileStore st = map fi_info (fileStore st)"

definition listFromFileStoreByProvider :: "unicode \<Rightarrow> string \<Rightarrow> 'k file_store \<Rightarrow> CertificateInfo list" where
  "listFromFileStoreByProvider uc providerName st =
     map fi_info (filter (\<lambda>i. providerName = [] \<or>
         EqualFold uc providerName ''Fred Proxy Key Storage Provider'' \<or>
         Contains (ToLower uc (ci_ProviderName (fi_info i))) (ToLower uc providerName))
       (fileStore st))"

text \<open>The two search loops over the identities: an equal thumbprint, else one with the prefix.\<close>

definition matchThumbprint ::
  "unicode \<Rightarrow> ('a \<Rightarrow> string) \<Rightarrow> ('a \<Rightarrow> string) \<Rightarrow> string \<Rightarrow> 'a list \<Rightarrow> 'a option" where
  "matchThumbprint uc sha1 sha256 target ids =
     (case find (\<lambda>i. cleanThumbprint uc (sha1 i) = target \<or> cleanThumbprint uc (sha256 i) = target) ids of
        Some i \<Rightarrow> Some i
      | None \<Rightarrow> find (\<lambda>i. HasPrefix (cleanThumbprint uc (sha1 i)) target \<or>
                        HasPrefix (cleanThumbprint uc (sha256 i)) target) ids)"

definition signWithKey ::
  "('k, 'm) crypto_lib_scheme \<Rightarrow> 'k private_key \<Rightarrow> bytes \<Rightarrow> crypto_hash \<Rightarrow> RSAPadding \<Rightarrow> goerror + bytes \<times> string" where
  "signWithKey lib signer digest h padding =
     (case signer of
        RSAPrivateKey k \<Rightarrow>
          (if padding = RSAPaddingPSS
           then mapErr (Wrapped ''sign hash'')
                  (andThen (signer_Sign lib k digest (PSSOptions PSSSaltLengthEqualsHash h))
                     (\<lambda>sig. Ok (sig, ''RSASSA-PSS'')))
           else mapErr (Wrapped ''sign hash'')
                  (andThen (signer_Sign lib k digest (HashOpts h))
                     (\<lambda>sig. Ok (sig, ''RSASSA-PKCS1-v1_5''))))
      | ECDSAPrivateKey k \<Rightarrow>
          (if padding = RSAPaddingPSS then Err ErrInvalidPadding
           else mapErr (Wrapped ''sign hash'')
                  (andThen (signer_Sign lib k digest (HashOpts h)) (\<lambda>sig. Ok (sig, ''ECDSA''))))
      | _ \<Rightarrow> Err (ErrorString (''unsupported private key type '' @ TypeName lib signer)))"

definition signWithFileStore ::
  "unicode \<Rightarrow> ('k, 'm) crypto_lib_scheme \<Rightarrow> 'k file_store \<Rightarrow> string \<Rightarrow> bytes \<Rightarrow> HashAlgorithm \<Rightarrow> RSAPadding
    \<Rightarrow> goerror + SignResult" where
  "signWithFileStore uc lib st thumbprint digest hash padding =
     andThen (DigestSize hash) (\<lambda>expectedLen.
     if length digest \<noteq> expectedLen then Err ErrInvalidDigest
     else
       (let padding = effPadding padding;
            target = cleanThumbprint uc thumbprint
        in case matchThumbprint uc fi_thumbSHA1 fi_thumbSHA256 target (fileStore st) of
             None \<Rightarrow> Err ErrCertificateNotFound
           | Some matched \<Rightarrow>
               andThen (CryptoHash hash) (\<lambda>h.
               andThen (signWithKey lib (fi_signer matched) digest h padding) (\<lambda>(sig, sigAlg).
               Ok \<lparr>sr_Signature = sig, sr_SignatureAlgorithm = sigAlg, sr_Padding = padding\<rparr>))))"

section \<open>The Linux backend (store\_linux.go)\<close>

definition linux_ListCertificates :: "'k file_store \<Rightarrow> goerror + CertificateInfo list" where
  "linux_ListCertificates st =
     (if CertDir st = [] then Err ErrUnsupportedPlatform else Ok (listFromFileStore st))"

definition linux_ListCertificatesByProvider ::
  "unicode \<Rightarrow> 'k file_store \<Rightarrow> string \<Rightarrow> goerror + CertificateInfo list" where
  "linux_ListCertificatesByProvider uc st providerName =
     (if CertDir st = [] then Err ErrUnsupportedPlatform
      else Ok (listFromFileStoreByProvider uc providerName st))"

definition linux_SignHash ::
  "unicode \<Rightarrow> ('k, 'm) crypto_lib_scheme \<Rightarrow> 'k file_store \<Rightarrow> string \<Rightarrow> bytes \<Rightarrow> HashAlgorithm \<Rightarrow> RSAPadding
    \<Rightarrow> goerror + SignResult" where
  "linux_SignHash uc lib st thumbprint digest hash padding =
     (if CertDir st = [] then Err ErrUnsupportedPlatform
      else signWithFileStore uc lib st thumbprint digest hash padding)"

text \<open>
  The states the package can reach: from the zero value of its variables by calls of
  \<open>SetCertDir\<close>, each on the file system as it is at that moment.
\<close>

definition empty_store :: "'k file_store" where
  "empty_store = \<lparr>fileStoreDir = [], fileStore = []\<rparr>"

inductive store_reachable :: "unicode \<Rightarrow> ('k, 'm) crypto_lib_scheme \<Rightarrow> 'k file_store \<Rightarrow> bool"
  for uc :: unicode and lib :: "('k, 'm) crypto_lib_scheme" where
  init: "store_reachable uc lib empty_store"
| set_dir: "store_reachable uc lib st \<Longrightarrow> SetCertDir uc lib env dir st = (r, st') \<Longrightarrow>
     store_reachable uc lib st'"

section \<open>Loading: what an identity is\<close>

text \<open>
  The contract of a loaded identity: its certificate parses, its private key is the key of
  that certificate, its thumbprints are the hashes of the certificate.
\<close>

definition identity_ok :: "unicode \<Rightarrow> ('k, 'm) crypto_lib_scheme \<Rightarrow> string \<Rightarrow> 'k fileIdentity \<Rightarrow> bool" where
  "identity_ok uc lib dir i \<longleftrightarrow>
     (\<exists>cert. ParseCertificate lib (ci_CertificateDER (fi_info i)) = Ok cert \<and>
        MarshalPKIXPublicKey lib (fi_signer i) = Ok (x_RawSPKI cert) \<and>
        ci_Subject (fi_info i) = x_Subject cert \<and> ci_Issuer (fi_info i) = x_Issuer cert \<and>
        ci_NotBefore (fi_info i) = x_NotBefore cert \<and> ci_NotAfter (fi_info i) = x_NotAfter cert \<and>
        (ci_KeyAlgorithm (fi_info i), ci_KeySize (fi_info i)) = keyAlgSize cert) \<and>
     is_signer (fi_signer i) \<and>
     fi_thumbSHA1 i = thumbOfHash uc (sha1_Sum lib (ci_CertificateDER (fi_info i))) \<and>
     fi_thumbSHA256 i = thumbOfHash uc (sha256_Sum256 lib (ci_CertificateDER (fi_info i))) \<and>
     ci_Thumbprint (fi_info i) = fi_thumbSHA1 i \<and>
     ci_HasPrivateKey (fi_info i) \<and> \<not> ci_IsTPM (fi_info i) \<and>
     ci_ProviderName (fi_info i) = ''file store: '' @ dir"

definition store_inv :: "unicode \<Rightarrow> ('k, 'm) crypto_lib_scheme \<Rightarrow> 'k file_store \<Rightarrow> bool" where
  "store_inv uc lib st \<longleftrightarrow>
     (fileStoreDir st = [] \<longrightarrow> fileStore st = []) \<and>
     (\<forall>i \<in> set (fileStore st). identity_ok uc lib (fileStoreDir st) i)"

lemma firstSigner_Some: "firstSigner rs = Some k \<Longrightarrow> Inr k \<in> set rs \<and> is_signer k"
  by (induction rs rule: firstSigner.induct) (auto split: if_splits)

lemma parseKeyBytes_Ok: "\<exists>res. parseKeyBytes uc lib data = Ok res"
  by (simp add: parseKeyBytes_def split: option.split)

lemma parseKeyBytes_signer: "parseKeyBytes uc lib data = Ok (Some k) \<Longrightarrow> is_signer k"
  by (auto simp: parseKeyBytes_def dest: firstSigner_Some split: option.splits)

lemma keyForFile_signer: "keyForFile uc lib env path = Ok k \<Longrightarrow> is_signer k"
  by (auto simp: keyForFile_def Let_def split: sum.splits option.splits)
    (blast dest: parseKeyBytes_signer)+

lemma loadCertFile_ok: "loadCertFile uc lib env dir name = Ok (Some i) \<Longrightarrow> identity_ok uc lib dir i"
  by (auto simp: loadCertFile_def identity_ok_def Let_def split: option.splits if_splits prod.splits)
    (blast dest: keyForFile_signer)

lemma loadCertFiles_ok:
  "loadCertFiles uc lib env dir names = Ok ids \<Longrightarrow> i \<in> set ids \<Longrightarrow> identity_ok uc lib dir i"
proof (induction names arbitrary: ids)
  case (Cons n ns)
  then show ?case by (fastforce dest: loadCertFile_ok split: option.splits)
qed simp

lemma loadCertDir_ok:
  "loadCertDir uc lib env dir = Ok ids \<Longrightarrow> i \<in> set ids \<Longrightarrow> identity_ok uc lib dir i"
  by (auto simp: loadCertDir_def intro: loadCertFiles_ok)

lemma SetCertDir_inv:
  "store_inv uc lib st \<Longrightarrow> SetCertDir uc lib env dir st = (r, st') \<Longrightarrow> store_inv uc lib st'"
  by (auto simp: SetCertDir_def store_inv_def dest: loadCertDir_ok split: if_splits sum.splits)

lemma store_reachable_inv: "store_reachable uc lib st \<Longrightarrow> store_inv uc lib st"
proof (induction rule: store_reachable.induct)
  case init
  show ?case by (simp add: store_inv_def empty_store_def)
next
  case (set_dir st env dir r st')
  then show ?case by (blast intro: SetCertDir_inv)
qed

section \<open>Selecting an identity by thumbprint\<close>

text \<open>
  The interface of a collection of identities searched by thumbprint: two thumbprints for each
  entry, both canonical, of the lengths of SHA-1 and of SHA-256. The file store and the macOS
  keychain search are its two providers.
\<close>

locale thumb_index =
  fixes sha1 sha256 :: "'a \<Rightarrow> string" and wf_id :: "'a \<Rightarrow> bool" and uc :: unicode
  assumes canon1: "wf_id i \<Longrightarrow> canonical (sha1 i)"
    and canon256: "wf_id i \<Longrightarrow> canonical (sha256 i)"
    and len1: "wf_id i \<Longrightarrow> length (sha1 i) = 40"
    and len256: "wf_id i \<Longrightarrow> length (sha256 i) = 64"
begin

lemma clean_simps:
  "wf_id i \<Longrightarrow> cleanThumbprint uc (sha1 i) = sha1 i"
  "wf_id i \<Longrightarrow> cleanThumbprint uc (sha256 i) = sha256 i"
  by (simp_all add: canon1 canon256)

lemma match_sound:
  assumes "\<forall>i \<in> set ids. wf_id i" and "matchThumbprint uc sha1 sha256 t ids = Some i"
  shows "i \<in> set ids \<and> (HasPrefix (sha1 i) t \<or> HasPrefix (sha256 i) t)"
  using assms unfolding matchThumbprint_def
  by (auto split: option.splits dest!: find_Some_D simp: clean_simps)

lemma match_None_iff:
  assumes "\<forall>i \<in> set ids. wf_id i"
  shows "matchThumbprint uc sha1 sha256 t ids = None \<longleftrightarrow>
    (\<forall>i \<in> set ids. \<not> HasPrefix (sha1 i) t \<and> \<not> HasPrefix (sha256 i) t)"
proof (cases "matchThumbprint uc sha1 sha256 t ids")
  case None
  with assms show ?thesis
    by (auto simp: matchThumbprint_def clean_simps find_None_iff split: option.splits)
next
  case (Some i)
  with match_sound [OF assms Some] show ?thesis by auto
qed

text \<open>A full thumbprint selects an identity that has exactly this thumbprint.\<close>

lemma match_exact:
  assumes wf: "\<forall>i \<in> set ids. wf_id i" and i: "i \<in> set ids" and t: "t = sha1 i \<or> t = sha256 i"
  shows "\<exists>j \<in> set ids. matchThumbprint uc sha1 sha256 t ids = Some j \<and> (sha1 j = t \<or> sha256 j = t)"
proof -
  let ?P = "\<lambda>i. cleanThumbprint uc (sha1 i) = t \<or> cleanThumbprint uc (sha256 i) = t"
  from i wf t have "?P i" by (auto simp: clean_simps)
  from find_is_Some [of i ids ?P, OF i this] obtain j
    where "find ?P ids = Some j" and "j \<in> set ids" and "?P j" by blast
  with wf show ?thesis by (auto simp: matchThumbprint_def clean_simps)
qed

lemma match_sha1_exact:
  assumes wf: "\<forall>i \<in> set ids. wf_id i" and i: "i \<in> set ids"
  shows "\<exists>j \<in> set ids. matchThumbprint uc sha1 sha256 (sha1 i) ids = Some j \<and> sha1 j = sha1 i"
  using match_exact [OF wf i, of "sha1 i"] wf i len1 len256 by fastforce

text \<open>The empty string is a prefix of every thumbprint: it selects the first identity.\<close>

lemma match_empty:
  assumes "\<forall>i \<in> set ids. wf_id i" and "ids \<noteq> []"
  shows "matchThumbprint uc sha1 sha256 [] ids = Some (hd ids)"
proof -
  have "find (\<lambda>i. cleanThumbprint uc (sha1 i) = [] \<or> cleanThumbprint uc (sha256 i) = []) ids = None"
    using assms(1) len1 len256 by (fastforce simp: find_None_iff clean_simps)
  with assms(2) show ?thesis
    by (cases ids) (simp_all add: matchThumbprint_def)
qed

end

lemma identity_ok_wf:
  assumes "sha_lengths lib" and "identity_ok uc lib dir i"
  shows "canonical (fi_thumbSHA1 i)" "canonical (fi_thumbSHA256 i)"
    "length (fi_thumbSHA1 i) = 40" "length (fi_thumbSHA256 i) = 64"
  using assms by (simp_all add: identity_ok_def sha_lengths_def)

interpretation fs: thumb_index fi_thumbSHA1 fi_thumbSHA256
    "\<lambda>i. sha_lengths lib \<and> identity_ok uc lib dir i" uc
  for uc :: unicode and lib :: "('k, 'm) crypto_lib_scheme" and dir :: string
  by unfold_locales (auto dest: identity_ok_wf)

section \<open>Signing\<close>

lemma reachable_wf:
  assumes "store_reachable uc lib st" and "sha_lengths lib"
  shows "\<forall>i \<in> set (fileStore st). sha_lengths lib \<and> identity_ok uc lib (fileStoreDir st) i"
  using store_reachable_inv [OF assms(1)] assms(2) by (simp add: store_inv_def)

text \<open>
  What a signature by a key is: the library's \<^verbatim>\<open>Sign\<close> applied to the digest as given, with the
  options and the algorithm name that belong to the type of the key and to the padding.
\<close>

definition signed_by ::
  "('k, 'm) crypto_lib_scheme \<Rightarrow> 'k private_key \<Rightarrow> bytes \<Rightarrow> crypto_hash \<Rightarrow> RSAPadding \<Rightarrow> bytes \<Rightarrow> string \<Rightarrow> bool" where
  "signed_by lib key digest h padding sig alg \<longleftrightarrow>
     (\<exists>k. key = RSAPrivateKey k \<and> padding = RSAPaddingPSS \<and> alg = ''RSASSA-PSS'' \<and>
          signer_Sign lib k digest (PSSOptions PSSSaltLengthEqualsHash h) = Ok sig) \<or>
     (\<exists>k. key = RSAPrivateKey k \<and> padding \<noteq> RSAPaddingPSS \<and> alg = ''RSASSA-PKCS1-v1_5'' \<and>
          signer_Sign lib k digest (HashOpts h) = Ok sig) \<or>
     (\<exists>k. key = ECDSAPrivateKey k \<and> padding \<noteq> RSAPaddingPSS \<and> alg = ''ECDSA'' \<and>
          signer_Sign lib k digest (HashOpts h) = Ok sig)"

lemma signWithKey_Ok_iff:
  "signWithKey lib key digest h padding = Ok (sig, alg) \<longleftrightarrow> signed_by lib key digest h padding sig alg"
  by (auto simp: signWithKey_def signed_by_def andThen_Ok_iff split: private_key.split)

lemma signWithFileStore_Ok:
  "signWithFileStore uc lib st tp digest hash padding = Ok r \<Longrightarrow>
   \<exists>i h. matchThumbprint uc fi_thumbSHA1 fi_thumbSHA256 (cleanThumbprint uc tp) (fileStore st) = Some i \<and>
     DigestSize hash = Ok (length digest) \<and> CryptoHash hash = Ok h \<and>
     sr_Padding r = effPadding padding \<and>
     signed_by lib (fi_signer i) digest h (effPadding padding) (sr_Signature r) (sr_SignatureAlgorithm r)"
  by (auto simp: signWithFileStore_def Let_def signWithKey_Ok_iff [symmetric]
      split: if_splits option.splits)

lemma signWithFileStore_step:
  assumes "DigestSize hash = Ok (length digest)"
    and "matchThumbprint uc fi_thumbSHA1 fi_thumbSHA256 (cleanThumbprint uc tp) (fileStore st) = Some i"
  shows "signWithFileStore uc lib st tp digest hash padding =
    andThen (CryptoHash hash) (\<lambda>h.
    andThen (signWithKey lib (fi_signer i) digest h (effPadding padding)) (\<lambda>(sig, alg).
    Ok \<lparr>sr_Signature = sig, sr_SignatureAlgorithm = alg, sr_Padding = effPadding padding\<rparr>))"
  using assms by (simp add: signWithFileStore_def Let_def)

lemma thumb_distinct:
  "distinct (map f xs) \<Longrightarrow> x \<in> set xs \<Longrightarrow> y \<in> set xs \<Longrightarrow> f x = f y \<Longrightarrow> x = y"
  by (auto simp: distinct_map inj_on_def)

text \<open>The Linux backend provides the contract of a certificate store.\<close>

lemma signed_by_alg:
  "signed_by lib key d h p sig alg \<Longrightarrow>
   alg \<in> signature_algorithms \<and> (alg = ''RSASSA-PSS'' \<longleftrightarrow> p = RSAPaddingPSS)"
  by (auto simp: signed_by_def signature_algorithms_def)

lemma linux_SignHash_Ok:
  "linux_SignHash uc lib st t d h p = Ok r \<Longrightarrow> signWithFileStore uc lib st t d h p = Ok r"
  by (simp add: linux_SignHash_def split: if_splits)

lemma signWithFileStore_bad_digest:
  "DigestSize h = Ok n \<Longrightarrow> length d \<noteq> n \<Longrightarrow> signWithFileStore uc lib st t d h p = Err ErrInvalidDigest"
  by (simp add: signWithFileStore_def)

interpretation lnx: cert_backend "store_inv uc lib" linux_ListCertificates "linux_SignHash uc lib"
  for uc :: unicode and lib :: "('k, 'm) crypto_lib_scheme"
proof unfold_locales
  fix s :: "'k file_store" and t d h p r
  assume "linux_SignHash uc lib s t d h p = Ok r"
  note * = signWithFileStore_Ok [OF linux_SignHash_Ok [OF this]]
  show "DigestSize h = Ok (length d)" and "sr_Padding r = effPadding p"
    using * by auto
  show "sr_SignatureAlgorithm r \<in> signature_algorithms \<and>
      (sr_SignatureAlgorithm r = ''RSASSA-PSS'' \<longleftrightarrow> sr_Padding r = RSAPaddingPSS)"
    using * by (auto dest: signed_by_alg)
next
  fix s :: "'k file_store" and t d h n p e
  assume "DigestSize h = Ok n" and "length d \<noteq> n" and "linux_SignHash uc lib s t d h p = Err e"
  then show "e = ErrInvalidDigest \<or> e = ErrUnsupportedPlatform"
    by (auto simp: linux_SignHash_def signWithFileStore_bad_digest split: if_splits)
next
  fix s :: "'k file_store" and cs c
  assume "store_inv uc lib s" and "linux_ListCertificates s = Ok cs" and "c \<in> set cs"
  then show "ci_HasPrivateKey c"
    by (auto simp: linux_ListCertificates_def listFromFileStore_def store_inv_def identity_ok_def
        split: if_splits)
qed

text \<open>What a returned signature is, for a reachable store.\<close>

lemma signature_of_store:
  assumes "store_reachable uc lib st" and "sha_lengths lib"
    and "signWithFileStore uc lib st tp digest hash padding = Ok r"
  shows "\<exists>i \<in> set (fileStore st). \<exists>h.
    identity_ok uc lib (fileStoreDir st) i \<and>
    (HasPrefix (fi_thumbSHA1 i) (NormalizeThumbprint uc tp) \<or>
     HasPrefix (fi_thumbSHA256 i) (NormalizeThumbprint uc tp)) \<and>
    DigestSize hash = Ok (length digest) \<and> CryptoHash hash = Ok h \<and>
    sr_Padding r = effPadding padding \<and>
    signed_by lib (fi_signer i) digest h (sr_Padding r) (sr_Signature r) (sr_SignatureAlgorithm r)"
proof -
  note wf = reachable_wf [OF assms(1,2)]
  obtain i h where m: "matchThumbprint uc fi_thumbSHA1 fi_thumbSHA256 (cleanThumbprint uc tp) (fileStore st) = Some i"
    and rest: "DigestSize hash = Ok (length digest)" "CryptoHash hash = Ok h"
      "sr_Padding r = effPadding padding"
      "signed_by lib (fi_signer i) digest h (effPadding padding) (sr_Signature r) (sr_SignatureAlgorithm r)"
    using signWithFileStore_Ok [OF assms(3)] by blast
  from fs.match_sound [OF wf m] have "i \<in> set (fileStore st)"
    and "HasPrefix (fi_thumbSHA1 i) (NormalizeThumbprint uc tp) \<or>
      HasPrefix (fi_thumbSHA256 i) (NormalizeThumbprint uc tp)"
    by (simp_all add: cleanThumbprint_def)
  with wf rest show ?thesis by (intro bexI [of _ i] exI [of _ h]) auto
qed

section \<open>A concrete store\<close>

definition demo_id :: "byte \<Rightarrow> nat private_key \<Rightarrow> string \<Rightarrow> int \<Rightarrow> nat fileIdentity" where
  "demo_id b key alg bits =
     \<lparr>fi_info = \<lparr>ci_Thumbprint = thumbOfHash demo_uc (replicate 20 b), ci_Subject = ''CN=demo'',
        ci_Issuer = ''CN=ca'', ci_NotBefore = 0, ci_NotAfter = 100, ci_KeyAlgorithm = alg,
        ci_KeySize = bits, ci_HasPrivateKey = True, ci_IsTPM = False,
        ci_ProviderName = ''file store: d'', ci_CertificateDER = [b]\<rparr>,
      fi_thumbSHA1 = thumbOfHash demo_uc (replicate 20 b),
      fi_thumbSHA256 = thumbOfHash demo_uc (replicate 32 b), fi_signer = key\<rparr>"

definition demo_store :: "nat file_store" where
  "demo_store = \<lparr>fileStoreDir = ''d'',
     fileStore = [demo_id 1 (RSAPrivateKey 1) ''RSA'' 12, demo_id 2 (ECDSAPrivateKey 2) ''ECDSA'' 256]\<rparr>"

lemma demo_certFileNames:
  "certFileNames demo_uc demo_env
     [\<lparr>de_Name = ''b.pem'', de_IsDir = False\<rparr>, \<lparr>de_Name = ''a.crt'', de_IsDir = False\<rparr>,
      \<lparr>de_Name = ''a.key'', de_IsDir = False\<rparr>, \<lparr>de_Name = ''x.crt'', de_IsDir = True\<rparr>]
   = [''a.crt'', ''b.pem'']"
  by (simp add: certFileNames_def isCertFileName_def filepath_Ext_def demo_env_def ToLower_def
      is_ascii_def ascii_char_def ascii_lower_def sort_key_def less_eq_char_def less_char_def)

lemma demo_loadCertFile:
  "loadCertFile demo_uc demo_lib demo_env ''d'' ''a.crt'' = Ok (Some (demo_id 1 (RSAPrivateKey 1) ''RSA'' 12))"
  "loadCertFile demo_uc demo_lib demo_env ''d'' ''b.pem'' = Ok (Some (demo_id 2 (ECDSAPrivateKey 2) ''ECDSA'' 256))"
  by (simp_all add: loadCertFile_def certFromFile_def keyForFile_def parseKeyBytes_def pemBlocks_def
      demo_lib_def demo_env_def demo_cert_def demo_id_def keyAlgSize_def filepath_Ext_def
      TrimSuffix_def HasSuffix_def BitLen.simps Let_def)

lemma demo_SetCertDir: "SetCertDir demo_uc demo_lib demo_env ''d'' empty_store = (None, demo_store)"
proof -
  have "os_ReadDir demo_env ''d'' = Ok
     [\<lparr>de_Name = ''b.pem'', de_IsDir = False\<rparr>, \<lparr>de_Name = ''a.crt'', de_IsDir = False\<rparr>,
      \<lparr>de_Name = ''a.key'', de_IsDir = False\<rparr>, \<lparr>de_Name = ''x.crt'', de_IsDir = True\<rparr>]"
    by (simp add: demo_env_def)
  then show ?thesis
    by (simp add: SetCertDir_def loadCertDir_def demo_certFileNames demo_loadCertFile demo_store_def
        empty_store_def)
qed

lemma demo_reachable: "store_reachable demo_uc demo_lib demo_store"
  by (rule store_reachable.set_dir [OF store_reachable.init demo_SetCertDir])

lemma demo_signature:
  "signWithFileStore demo_uc demo_lib demo_store (thumbOfHash demo_uc (replicate 20 2)) (replicate 32 7) HashSHA256 0
    = Ok \<lparr>sr_Signature = 2 # replicate 32 7, sr_SignatureAlgorithm = ''ECDSA'', sr_Padding = 1\<rparr>"
  by (simp add: signWithFileStore_def matchThumbprint_def demo_store_def demo_id_def DigestSize_def
      CryptoHash_def signWithKey_def effPadding_def demo_lib_def go_defs Let_def)

section \<open>Properties\<close>

text \<open>
  C1: every signature the file store returns comes from a key of the store that belongs to its
  certificate, whose SHA-1 or SHA-256 thumbprint starts with the normalised request; the key
  signed exactly the digest of the request, whose length is that of the hash, with the padding and
  the algorithm name that are reported.
\<close>

theorem signWithFileStore_sound:
  assumes "store_reachable uc lib st" and "sha_lengths lib"
    and "signWithFileStore uc lib st tp digest hash padding = Ok r"
  shows "\<exists>i \<in> set (fileStore st). \<exists>h.
    identity_ok uc lib (fileStoreDir st) i \<and>
    (HasPrefix (fi_thumbSHA1 i) (NormalizeThumbprint uc tp) \<or>
     HasPrefix (fi_thumbSHA256 i) (NormalizeThumbprint uc tp)) \<and>
    DigestSize hash = Ok (length digest) \<and> CryptoHash hash = Ok h \<and>
    sr_Padding r = effPadding padding \<and>
    signed_by lib (fi_signer i) digest h (sr_Padding r) (sr_Signature r) (sr_SignatureAlgorithm r)"
  using assms by (rule signature_of_store)

theorem signWithFileStore_sound_witness:
  "\<exists>i \<in> set (fileStore demo_store). \<exists>h.
    identity_ok demo_uc demo_lib (fileStoreDir demo_store) i \<and>
    (HasPrefix (fi_thumbSHA1 i) (NormalizeThumbprint demo_uc (thumbOfHash demo_uc (replicate 20 2))) \<or>
     HasPrefix (fi_thumbSHA256 i) (NormalizeThumbprint demo_uc (thumbOfHash demo_uc (replicate 20 2)))) \<and>
    DigestSize HashSHA256 = Ok (length (replicate 32 (7 :: byte))) \<and> CryptoHash HashSHA256 = Ok h \<and>
    1 = effPadding 0 \<and>
    signed_by demo_lib (fi_signer i) (replicate 32 7) h 1 (2 # replicate 32 7) ''ECDSA''"
  using signWithFileStore_sound [OF demo_reachable demo_sha_lengths demo_signature] by simp

text \<open>A stored identity signs under its own thumbprint.\<close>

lemma identity_signs:
  assumes "store_reachable uc lib st" and "sha_lengths lib"
    and i: "i \<in> set (fileStore st)" and dist: "distinct (map fi_thumbSHA1 (fileStore st))"
    and tp: "NormalizeThumbprint uc tp = ci_Thumbprint (fi_info i)"
    and size: "DigestSize hash = Ok (length digest)" and h: "CryptoHash hash = Ok h"
    and sig: "signed_by lib (fi_signer i) digest h (effPadding padding) sig alg"
  shows "signWithFileStore uc lib st tp digest hash padding =
      Ok \<lparr>sr_Signature = sig, sr_SignatureAlgorithm = alg, sr_Padding = effPadding padding\<rparr>"
proof -
  note wf = reachable_wf [OF assms(1,2)]
  from i wf have "ci_Thumbprint (fi_info i) = fi_thumbSHA1 i" by (simp add: identity_ok_def)
  with tp have t: "cleanThumbprint uc tp = fi_thumbSHA1 i" by (simp add: cleanThumbprint_def)
  from fs.match_sha1_exact [OF wf i] dist i
  have "matchThumbprint uc fi_thumbSHA1 fi_thumbSHA256 (cleanThumbprint uc tp) (fileStore st) = Some i"
    unfolding t by (auto dest: thumb_distinct)
  from signWithFileStore_step [OF size this, of lib padding] h sig show ?thesis
    by (simp add: signWithKey_Ok_iff [symmetric])
qed

text \<open>
  C2: the certificates that are listed can be signed with. A request that names the thumbprint of
  a stored identity, in any spelling that normalises to it, is signed by the key of that identity
  as soon as the digest has the length of the hash and no other identity has this thumbprint.
\<close>

theorem listed_identity_signs:
  assumes "store_reachable uc lib st" and "sha_lengths lib"
    and i: "i \<in> set (fileStore st)" and dist: "distinct (map fi_thumbSHA1 (fileStore st))"
    and tp: "NormalizeThumbprint uc tp = ci_Thumbprint (fi_info i)"
    and size: "DigestSize hash = Ok (length digest)" and h: "CryptoHash hash = Ok h"
    and sig: "signed_by lib (fi_signer i) digest h (effPadding padding) sig alg"
  shows "fi_info i \<in> set (listFromFileStore st) \<and>
    signWithFileStore uc lib st tp digest hash padding =
      Ok \<lparr>sr_Signature = sig, sr_SignatureAlgorithm = alg, sr_Padding = effPadding padding\<rparr>"
  using identity_signs [OF assms] i by (simp add: listFromFileStore_def)

theorem listed_identity_signs_witness:
  "fi_info (demo_id 1 (RSAPrivateKey 1) ''RSA'' 12) \<in> set (listFromFileStore demo_store) \<and>
   signWithFileStore demo_uc demo_lib demo_store (thumbOfHash demo_uc (replicate 20 1)) (replicate 48 7) HashSHA384 2
     = Ok \<lparr>sr_Signature = 1 # replicate 48 7, sr_SignatureAlgorithm = ''RSASSA-PSS'', sr_Padding = effPadding 2\<rparr>"
  by (rule listed_identity_signs [OF demo_reachable demo_sha_lengths, where h = SHA384])
    (simp_all add: demo_store_def demo_id_def DigestSize_def CryptoHash_def signed_by_def effPadding_def
      demo_lib_def go_defs replicate_eq_replicate)

text \<open>
  In every reachable store each identity is a certificate with its own private key, listed
  under the thumbprint of the certificate; the directory is set whenever the store is not empty.
  A call of \<open>SetCertDir\<close> keeps this, and when it fails it leaves the store as it was.
\<close>

lemma SetCertDir_invariant:
  assumes "store_reachable uc lib st" and "SetCertDir uc lib env dir st = (r, st')"
  shows "store_inv uc lib st \<and> store_inv uc lib st' \<and>
    (r = None \<longrightarrow> fileStoreDir st' = dir) \<and> (r \<noteq> None \<longrightarrow> st' = st)"
proof -
  from assms have "store_inv uc lib st" and "store_inv uc lib st'"
    by (auto intro: store_reachable_inv SetCertDir_inv)
  moreover from assms(2) have "r = None \<longrightarrow> fileStoreDir st' = dir" and "r \<noteq> None \<longrightarrow> st' = st"
    by (auto simp: SetCertDir_def split: if_splits sum.splits)
  ultimately show ?thesis by blast
qed

lemma SetCertDir_invariant_witness:
  "store_inv demo_uc demo_lib demo_store \<and> fileStoreDir demo_store = ''d''"
  using SetCertDir_invariant [OF store_reachable.init demo_SetCertDir] by simp

lemma loadCertFiles_Ok_iff:
  "loadCertFiles uc lib env dir names = Ok ids \<longleftrightarrow>
     (\<forall>n \<in> set names. isOk (loadCertFile uc lib env dir n)) \<and>
     ids = List.map_filter (\<lambda>n. case loadCertFile uc lib env dir n of Inr r \<Rightarrow> r | Inl _ \<Rightarrow> None) names"
proof (induction names arbitrary: ids)
  case Nil
  then show ?case by (auto simp: List.map_filter_simps)
next
  case (Cons n ns)
  show ?case
  proof (cases "loadCertFile uc lib env dir n")
    case (Inl e)
    then show ?thesis by simp
  next
    case (Inr r)
    then show ?thesis
      by (auto simp: andThen_Ok_iff Cons.IH List.map_filter_simps split: option.splits)
  qed
qed

text \<open>
  Loading a directory is all or nothing. It succeeds exactly when the directory can be read and
  every certificate file in it loads or holds no certificate; the identities are then those of the
  files, in the order of the sorted file names.
\<close>

lemma loadCertDir_Ok_iff:
  "loadCertDir uc lib env dir = Ok ids \<longleftrightarrow>
     (\<exists>entries. os_ReadDir env dir = Ok entries \<and>
        (\<forall>n \<in> set (certFileNames uc env entries). isOk (loadCertFile uc lib env dir n)) \<and>
        ids = List.map_filter (\<lambda>n. case loadCertFile uc lib env dir n of Inr r \<Rightarrow> r | Inl _ \<Rightarrow> None)
                (certFileNames uc env entries) \<and>
        sorted (certFileNames uc env entries))"
  by (auto simp: loadCertDir_def andThen_Ok_iff loadCertFiles_Ok_iff certFileNames_def)

lemma loadCertDir_Ok_iff_witness:
  "\<exists>entries. os_ReadDir demo_env ''d'' = Ok entries \<and>
     fileStore demo_store = List.map_filter
       (\<lambda>n. case loadCertFile demo_uc demo_lib demo_env ''d'' n of Inr r \<Rightarrow> r | Inl _ \<Rightarrow> None)
       (certFileNames demo_uc demo_env entries)"
proof -
  have "loadCertDir demo_uc demo_lib demo_env ''d'' = Ok (fileStore demo_store)"
    using demo_SetCertDir by (auto simp: SetCertDir_def empty_store_def demo_store_def split: sum.splits)
  then show ?thesis unfolding loadCertDir_Ok_iff by blast
qed

text \<open>
  A certificate file whose private key belongs to another certificate is refused: the whole
  call of \<open>SetCertDir\<close> fails and the store stays as it was.
\<close>

lemma SetCertDir_rejects_mismatched_key:
  assumes "dir \<noteq> []" and "os_ReadDir env dir = Ok entries" and "n \<in> set (certFileNames uc env entries)"
    and "certFromFile lib env (filepath_Join env dir n) = Ok (Some der)"
    and "ParseCertificate lib der = Ok cert"
    and "keyForFile uc lib env (filepath_Join env dir n) = Ok priv"
    and "MarshalPKIXPublicKey lib priv \<noteq> Ok (x_RawSPKI cert)"
  shows "\<exists>e. SetCertDir uc lib env dir st = (Some e, st)"
proof -
  from assms(4-7) have "\<not> isOk (loadCertFile uc lib env dir n)"
    by (simp add: loadCertFile_def Let_def)
  with assms(2,3) have "loadCertDir uc lib env dir \<noteq> Ok ids" for ids
    by (auto simp: loadCertDir_def loadCertFiles_Ok_iff)
  then obtain e where "loadCertDir uc lib env dir = Err e"
    by (cases "loadCertDir uc lib env dir") auto
  with assms(1) show ?thesis by (simp add: SetCertDir_def)
qed

lemma SetCertDir_rejects_mismatched_key_witness:
  "\<exists>e. SetCertDir demo_uc demo_lib demo_env ''bad'' demo_store = (Some e, demo_store)"
proof (rule SetCertDir_rejects_mismatched_key)
  show "os_ReadDir demo_env ''bad'' = Ok [\<lparr>de_Name = ''c.crt'', de_IsDir = False\<rparr>]"
    by (simp add: demo_env_def)
  show "''c.crt'' \<in> set (certFileNames demo_uc demo_env [\<lparr>de_Name = ''c.crt'', de_IsDir = False\<rparr>])"
    by (simp add: certFileNames_def isCertFileName_def filepath_Ext_def demo_env_def ToLower_def
      is_ascii_def ascii_char_def ascii_lower_def)
  show "certFromFile demo_lib demo_env (filepath_Join demo_env ''bad'' ''c.crt'') = Ok (Some [3])"
    by (simp add: certFromFile_def demo_env_def demo_lib_def pemBlocks_def)
  show "ParseCertificate demo_lib [3] = Ok (demo_cert 3)"
    by (simp add: demo_lib_def)
  show "keyForFile demo_uc demo_lib demo_env (filepath_Join demo_env ''bad'' ''c.crt'') = Ok (RSAPrivateKey 1)"
    by (simp add: keyForFile_def parseKeyBytes_def pemBlocks_def demo_lib_def demo_env_def
      filepath_Ext_def TrimSuffix_def HasSuffix_def Let_def)
qed (simp_all add: demo_lib_def demo_cert_def)

text \<open>
  With a digest of the right length the file store answers \<open>ErrCertificateNotFound\<close> exactly
  when no thumbprint of the store starts with the normalised request.
\<close>

lemma signWithFileStore_not_found_iff:
  assumes "store_reachable uc lib st" and "sha_lengths lib" and "DigestSize hash = Ok (length digest)"
  shows "signWithFileStore uc lib st tp digest hash padding = Err ErrCertificateNotFound \<longleftrightarrow>
    (\<forall>i \<in> set (fileStore st).
       \<not> HasPrefix (fi_thumbSHA1 i) (NormalizeThumbprint uc tp) \<and>
       \<not> HasPrefix (fi_thumbSHA256 i) (NormalizeThumbprint uc tp))"
proof (cases "matchThumbprint uc fi_thumbSHA1 fi_thumbSHA256 (cleanThumbprint uc tp) (fileStore st)")
  case None
  with assms(3) have "signWithFileStore uc lib st tp digest hash padding = Err ErrCertificateNotFound"
    by (simp add: signWithFileStore_def Let_def)
  with None show ?thesis
    by (simp add: fs.match_None_iff [OF reachable_wf [OF assms(1,2)]] cleanThumbprint_def)
next
  case (Some i)
  have key: "signWithKey lib key digest h p \<noteq> Err ErrCertificateNotFound" for key h p
    by (auto simp: signWithKey_def sentinel_defs split: private_key.split)
      (auto simp: andThen_Err_iff elim!: mapErr.elims)
  from assms(3) obtain h where h: "CryptoHash hash = Ok h"
    using CryptoHash_DigestSize [of hash] by (auto simp: isOk_iff)
  from signWithFileStore_step [OF assms(3) Some, of lib padding] h key [of "fi_signer i" h "effPadding padding"]
  have "signWithFileStore uc lib st tp digest hash padding \<noteq> Err ErrCertificateNotFound"
    by (auto simp: andThen_Err_iff)
  moreover from fs.match_None_iff [OF reachable_wf [OF assms(1,2)]] Some
  have "\<exists>i \<in> set (fileStore st). HasPrefix (fi_thumbSHA1 i) (NormalizeThumbprint uc tp) \<or>
      HasPrefix (fi_thumbSHA256 i) (NormalizeThumbprint uc tp)"
    by (metis cleanThumbprint_def option.distinct(1))
  ultimately show ?thesis by blast
qed

lemma signWithFileStore_not_found_iff_witness:
  "signWithFileStore demo_uc demo_lib demo_store ''AA'' (replicate 32 0) HashSHA256 1 = Err ErrCertificateNotFound"
proof -
  have "list_all (\<lambda>i. \<not> HasPrefix (fi_thumbSHA1 i) (NormalizeThumbprint demo_uc ''AA'') \<and>
      \<not> HasPrefix (fi_thumbSHA256 i) (NormalizeThumbprint demo_uc ''AA'')) (fileStore demo_store)"
    by code_simp
  with signWithFileStore_not_found_iff [OF demo_reachable demo_sha_lengths, of HashSHA256 "replicate 32 0" "''AA''" 1]
  show ?thesis by (simp add: DigestSize_def list_all_iff)
qed

end
