(* ===== verification/Go_Sync.thy ===== *)
theory Go_Sync
  imports Go_Prelude
begin

text \<open>
  Goroutines that share the variables behind one \<^verbatim>\<open>sync.Mutex\<close> or \<^verbatim>\<open>sync.RWMutex\<close>. A call is a
  sequence of statements, each an action on the shared variables and the locals of the call; the
  goroutines interleave between any two statements. The lock is the one of the package
  \<^verbatim>\<open>sync\<close>: a call of \<^verbatim>\<open>Lock\<close> first announces itself, which stops later calls of \<^verbatim>\<open>RLock\<close>, and then
  waits for the readers that are inside.

  The locale \<open>guarded\<close> is the contract of the critical sections of a component: run alone, the
  statements of a call have the effect and the result of the sequential definition of the component,
  and the statements under \<^verbatim>\<open>RLock\<close> do not write. Inside it the interleaved calls are shown to
  behave as the sequential ones in the order in which they return.
\<close>

section \<open>Goroutines\<close>

datatype access = RLocked | Locked

type_synonym ('s, 'l) action = "'s \<times> 'l \<Rightarrow> 's \<times> 'l"

text \<open>
  What a call does: which lock it takes, whether it returns before it takes it, its locals when it
  comes to the lock, and its statements while it holds it.
\<close>

record ('op, 's, 'l) program =
  pg_access :: "'op \<Rightarrow> access"
  pg_early :: "'op \<Rightarrow> bool"
  pg_init :: "'op \<Rightarrow> 'l"
  pg_body :: "'op \<Rightarrow> ('s, 'l) action list"

datatype ('op, 's, 'l) goroutine =
    Idle
  | Ready 'op
  | Waiting 'op
  | Inside 'op "('s, 'l) action list" 'l

datatype ('op, 'l) event = Call nat 'op | Ret nat 'op 'l

record ('op, 's, 'l) sync_state =
  sy_shared :: 's
  sy_writer :: "nat option"
  sy_readers :: "nat set"
  sy_threads :: "nat \<Rightarrow> ('op, 's, 'l) goroutine"
  sy_history :: "('op, 'l) event list"

definition sync_start :: "'s \<Rightarrow> ('op, 's, 'l) sync_state" where
  "sync_start s0 = \<lparr>sy_shared = s0, sy_writer = None, sy_readers = {}, sy_threads = \<lambda>_. Idle, sy_history = []\<rparr>"

definition sync_call :: "nat \<Rightarrow> 'op \<Rightarrow> ('op, 's, 'l) sync_state \<Rightarrow> ('op, 's, 'l) sync_state" where
  "sync_call t op s = s\<lparr>sy_threads := (sy_threads s)(t := Ready op), sy_history := sy_history s @ [Call t op]\<rparr>"

inductive sync_step :: "('op, 's, 'l) program \<Rightarrow> nat \<Rightarrow> ('op, 's, 'l) sync_state \<Rightarrow> ('op, 's, 'l) sync_state \<Rightarrow> bool"
  for p :: "('op, 's, 'l) program" and t :: nat where
  early: "sy_threads s t = Ready op \<Longrightarrow> pg_early p op \<Longrightarrow>
    sync_step p t s (s\<lparr>sy_threads := (sy_threads s)(t := Idle),
      sy_history := sy_history s @ [Ret t op (pg_init p op)]\<rparr>)"
| rlock: "sy_threads s t = Ready op \<Longrightarrow> \<not> pg_early p op \<Longrightarrow> pg_access p op = RLocked \<Longrightarrow> sy_writer s = None \<Longrightarrow>
    sync_step p t s (s\<lparr>sy_readers := insert t (sy_readers s),
      sy_threads := (sy_threads s)(t := Inside op (pg_body p op) (pg_init p op))\<rparr>)"
| announce: "sy_threads s t = Ready op \<Longrightarrow> \<not> pg_early p op \<Longrightarrow> pg_access p op = Locked \<Longrightarrow> sy_writer s = None \<Longrightarrow>
    sync_step p t s (s\<lparr>sy_writer := Some t, sy_threads := (sy_threads s)(t := Waiting op)\<rparr>)"
| lock: "sy_threads s t = Waiting op \<Longrightarrow> sy_readers s = {} \<Longrightarrow>
    sync_step p t s (s\<lparr>sy_threads := (sy_threads s)(t := Inside op (pg_body p op) (pg_init p op))\<rparr>)"
| act: "sy_threads s t = Inside op (a # acts) l \<Longrightarrow> a (sy_shared s, l) = (sh, l') \<Longrightarrow>
    sync_step p t s (s\<lparr>sy_shared := sh, sy_threads := (sy_threads s)(t := Inside op acts l')\<rparr>)"
| runlock: "sy_threads s t = Inside op [] l \<Longrightarrow> pg_access p op = RLocked \<Longrightarrow>
    sync_step p t s (s\<lparr>sy_readers := sy_readers s - {t}, sy_threads := (sy_threads s)(t := Idle),
      sy_history := sy_history s @ [Ret t op l]\<rparr>)"
| unlock: "sy_threads s t = Inside op [] l \<Longrightarrow> pg_access p op = Locked \<Longrightarrow>
    sync_step p t s (s\<lparr>sy_writer := None, sy_threads := (sy_threads s)(t := Idle),
      sy_history := sy_history s @ [Ret t op l]\<rparr>)"

text \<open>Any number of goroutines, each calling any operation again and again.\<close>

inductive sync_reachable :: "('op, 's, 'l) program \<Rightarrow> 's \<Rightarrow> ('op, 's, 'l) sync_state \<Rightarrow> bool"
  for p :: "('op, 's, 'l) program" and s0 :: 's where
  start: "sync_reachable p s0 (sync_start s0)"
| call: "sync_reachable p s0 s \<Longrightarrow> sy_threads s t = Idle \<Longrightarrow> sync_reachable p s0 (sync_call t op s)"
| step: "sync_reachable p s0 s \<Longrightarrow> sync_step p t s s' \<Longrightarrow> sync_reachable p s0 s'"

text \<open>The step of one goroutine as a function: the scheduler's choice is the only nondeterminism.\<close>

definition sync_next :: "('op, 's, 'l) program \<Rightarrow> nat \<Rightarrow> ('op, 's, 'l) sync_state \<Rightarrow> ('op, 's, 'l) sync_state option" where
  "sync_next p t s =
     (case sy_threads s t of
        Idle \<Rightarrow> None
      | Ready op \<Rightarrow>
          if pg_early p op
          then Some (s\<lparr>sy_threads := (sy_threads s)(t := Idle), sy_history := sy_history s @ [Ret t op (pg_init p op)]\<rparr>)
          else if sy_writer s \<noteq> None then None
          else (case pg_access p op of
              RLocked \<Rightarrow> Some (s\<lparr>sy_readers := insert t (sy_readers s),
                sy_threads := (sy_threads s)(t := Inside op (pg_body p op) (pg_init p op))\<rparr>)
            | Locked \<Rightarrow> Some (s\<lparr>sy_writer := Some t, sy_threads := (sy_threads s)(t := Waiting op)\<rparr>))
      | Waiting op \<Rightarrow>
          if sy_readers s = {}
          then Some (s\<lparr>sy_threads := (sy_threads s)(t := Inside op (pg_body p op) (pg_init p op))\<rparr>) else None
      | Inside op (a # acts) l \<Rightarrow>
          (case a (sy_shared s, l) of
             (sh, l') \<Rightarrow> Some (s\<lparr>sy_shared := sh, sy_threads := (sy_threads s)(t := Inside op acts l')\<rparr>))
      | Inside op [] l \<Rightarrow>
          (case pg_access p op of
             RLocked \<Rightarrow> Some (s\<lparr>sy_readers := sy_readers s - {t}, sy_threads := (sy_threads s)(t := Idle),
               sy_history := sy_history s @ [Ret t op l]\<rparr>)
           | Locked \<Rightarrow> Some (s\<lparr>sy_writer := None, sy_threads := (sy_threads s)(t := Idle),
               sy_history := sy_history s @ [Ret t op l]\<rparr>)))"

lemma sync_step_iff: "sync_step p t s s' \<longleftrightarrow> sync_next p t s = Some s'"
proof
  assume "sync_step p t s s'"
  then show "sync_next p t s = Some s'"
    by (induction rule: sync_step.induct) (simp_all add: sync_next_def)
next
  assume "sync_next p t s = Some s'"
  then show "sync_step p t s s'"
    by (auto simp: sync_next_def intro: sync_step.intros
        split: goroutine.splits list.splits if_splits access.splits prod.splits)
qed

text \<open>A schedule: a goroutine starts a call, or makes its next step.\<close>

datatype 'op choice = Start nat 'op | Step nat

fun sync_exec :: "('op, 's, 'l) program \<Rightarrow> 'op choice list \<Rightarrow> ('op, 's, 'l) sync_state \<Rightarrow> ('op, 's, 'l) sync_state option" where
  "sync_exec p [] s = Some s"
| "sync_exec p (Start t op # cs) s =
     (case sy_threads s t of Idle \<Rightarrow> sync_exec p cs (sync_call t op s) | _ \<Rightarrow> None)"
| "sync_exec p (Step t # cs) s = (case sync_next p t s of Some s' \<Rightarrow> sync_exec p cs s' | None \<Rightarrow> None)"

lemma sync_exec_reachable:
  "sync_exec p cs s = Some s' \<Longrightarrow> sync_reachable p s0 s \<Longrightarrow> sync_reachable p s0 s'"
proof (induction cs s arbitrary: s' rule: sync_exec.induct)
  case (2 p t op cs s)
  then show ?case by (auto split: goroutine.splits intro: sync_reachable.call)
next
  case (3 p t cs s)
  then show ?case by (auto split: option.splits simp: sync_step_iff [symmetric] intro: sync_reachable.step)
qed simp

section \<open>The lock\<close>

text \<open>
  What the lock says of a goroutine: the announced or entered writer is the one that is recorded,
  the readers are the goroutines inside under \<^verbatim>\<open>RLock\<close>, and no reader is inside with a writer.
\<close>

definition lock_ok :: "('op, 's, 'l) program \<Rightarrow> ('op, 's, 'l) sync_state \<Rightarrow> nat \<Rightarrow> bool" where
  "lock_ok p s t =
     (case sy_threads s t of
        Idle \<Rightarrow> t \<notin> sy_readers s \<and> sy_writer s \<noteq> Some t
      | Ready op \<Rightarrow> t \<notin> sy_readers s \<and> sy_writer s \<noteq> Some t
      | Waiting op \<Rightarrow> \<not> pg_early p op \<and> pg_access p op = Locked \<and> t \<notin> sy_readers s \<and> sy_writer s = Some t
      | Inside op acts l \<Rightarrow> \<not> pg_early p op \<and>
          (if pg_access p op = RLocked then t \<in> sy_readers s \<and> sy_writer s \<noteq> Some t
           else sy_readers s = {} \<and> sy_writer s = Some t))"

lemma not_RLocked: "a \<noteq> RLocked \<longleftrightarrow> a = Locked"
  by (cases a) simp_all

definition lock_inv :: "('op, 's, 'l) program \<Rightarrow> ('op, 's, 'l) sync_state \<Rightarrow> bool" where
  "lock_inv p s \<longleftrightarrow> (\<forall>t. lock_ok p s t)"

lemma lock_ok_step:
  assumes "\<forall>t. lock_ok p s t" and "sync_step p u s s'"
  shows "lock_ok p s' t"
proof -
  from assms(1) have "lock_ok p s t" and "lock_ok p s u" by auto
  with assms(2) show ?thesis
    by cases (auto simp: lock_ok_def not_RLocked split: goroutine.splits if_splits)
qed

lemma lock_ok_call: "lock_ok p s t \<Longrightarrow> sy_threads s u = Idle \<Longrightarrow> lock_ok p s u \<Longrightarrow> lock_ok p (sync_call u op s) t"
  by (auto simp: lock_ok_def sync_call_def split: goroutine.splits)

lemma reachable_lock_inv: "sync_reachable p s0 s \<Longrightarrow> lock_inv p s"
proof (induction rule: sync_reachable.induct)
  case start
  show ?case by (simp add: lock_inv_def lock_ok_def sync_start_def)
next
  case (call s t op)
  then show ?case by (simp add: lock_inv_def lock_ok_call)
next
  case (step s t s')
  then show ?case by (auto simp: lock_inv_def intro: lock_ok_step)
qed

text \<open>A goroutine inside under \<^verbatim>\<open>Lock\<close> is alone.\<close>

lemma lock_okD: "lock_inv p s \<Longrightarrow> lock_ok p s t"
  by (simp add: lock_inv_def)

lemma lock_Inside:
  "lock_inv p s \<Longrightarrow> sy_threads s t = Inside op acts l \<Longrightarrow> pg_access p op = Locked \<Longrightarrow>
     sy_readers s = {} \<and> sy_writer s = Some t"
  "lock_inv p s \<Longrightarrow> sy_threads s t = Inside op acts l \<Longrightarrow> pg_access p op = RLocked \<Longrightarrow> t \<in> sy_readers s"
  "lock_inv p s \<Longrightarrow> sy_threads s t = Inside op acts l \<Longrightarrow> \<not> pg_early p op"
  "lock_inv p s \<Longrightarrow> sy_threads s t = Waiting op \<Longrightarrow> sy_writer s = Some t \<and> pg_access p op = Locked"
  by (auto dest: lock_okD [where t = t] simp: lock_ok_def)

lemma writer_alone:
  assumes "lock_inv p s" and "sy_threads s t = Inside op acts l" and "pg_access p op = Locked"
    and "sy_threads s u = Inside op' acts' l'"
  shows "u = t"
  using lock_Inside(1) [OF assms(1,2,3)] lock_Inside(1,2) [OF assms(1,4)] by (cases "pg_access p op'") auto

section \<open>The calls in the order they return\<close>

definition returned :: "('op, 'l) event list \<Rightarrow> ('op \<times> 'l) list" where
  "returned h = List.map_filter (\<lambda>e. case e of Ret t op l \<Rightarrow> Some (op, l) | Call t op \<Rightarrow> None) h"

lemma returned_simps [simp]:
  "returned [] = []"
  "returned (h @ [Call t op]) = returned h"
  "returned (h @ [Ret t op l]) = returned h @ [(op, l)]"
  by (simp_all add: returned_def List.map_filter_def)

lemma returned_append [simp]: "returned (h @ h') = returned h @ returned h'"
  by (simp add: returned_def List.map_filter_def)

lemma returned_Cons [simp]:
  "returned (Call t op # h) = returned h"
  "returned (Ret t op l # h) = (op, l) # returned h"
  by (simp_all add: returned_def List.map_filter_def)

text \<open>The place of a returned call in the history.\<close>

lemma returned_split:
  "returned h = rs @ (op, l) # rs' \<Longrightarrow> \<exists>h1 t h2. h = h1 @ Ret t op l # h2 \<and> returned h1 = rs \<and> returned h2 = rs'"
proof (induction h arbitrary: rs)
  case (Cons e h)
  show ?case
  proof (cases e)
    case (Call t op')
    with Cons.IH [of rs] Cons.prems show ?thesis by (metis append_Cons returned_Cons(1))
  next
    case (Ret t op' l')
    show ?thesis
    proof (cases rs)
      case Nil
      with Ret Cons.prems show ?thesis by (intro exI [of _ "[]"]) auto
    next
      case (Cons r rs2)
      with Ret Cons.prems obtain h1 t2 h2 where "h = h1 @ Ret t2 op l # h2" "returned h1 = rs2" "returned h2 = rs'"
        using Cons.IH [of rs2] by auto
      with Ret Cons Cons.prems show ?thesis by (intro exI [of _ "e # h1"]) auto
    qed
  qed
qed simp

lemma returned_iff: "(op, l) \<in> set (returned h) \<longleftrightarrow> (\<exists>t. Ret t op l \<in> set h)"
  by (force simp: returned_def List.map_filter_def split: event.splits)

text \<open>
  A call returns between its own start and its return: every return in the history belongs to the
  last call of its goroutine, and a goroutine is idle when its last call has returned.
\<close>

fun call_of :: "('op, 's, 'l) goroutine \<Rightarrow> 'op option" where
  "call_of Idle = None"
| "call_of (Ready op) = Some op"
| "call_of (Waiting op) = Some op"
| "call_of (Inside op acts l) = Some op"

fun pending :: "nat \<Rightarrow> ('op, 'l) event list \<Rightarrow> 'op option \<Rightarrow> 'op option" where
  "pending t [] c = c"
| "pending t (Call u op # h) c = pending t h (if u = t then Some op else c)"
| "pending t (Ret u op l # h) c = pending t h (if u = t then None else c)"

lemma pending_append: "pending t (h @ h') c = pending t h' (pending t h c)"
  by (induction t h c rule: pending.induct) simp_all

definition matched_history :: "('op, 'l) event list \<Rightarrow> bool" where
  "matched_history h \<longleftrightarrow> (\<forall>h1 t op l h2. h = h1 @ Ret t op l # h2 \<longrightarrow> pending t h1 None = Some op)"

lemma snoc_eq_split: "h @ [e] = h1 @ x # h2 \<longleftrightarrow> (h2 = [] \<and> h = h1 \<and> e = x) \<or> (\<exists>h3. h2 = h3 @ [e] \<and> h = h1 @ x # h3)"
  by (cases h2 rule: rev_cases) auto

lemma matched_snoc:
  "matched_history h \<Longrightarrow> pending t h None = Some op \<Longrightarrow> matched_history (h @ [Ret t op l])"
  "matched_history h \<Longrightarrow> matched_history (h @ [Call t op])"
  unfolding matched_history_def snoc_eq_split by blast+

lemma reachable_history:
  "sync_reachable p s0 s \<Longrightarrow>
     matched_history (sy_history s) \<and> (\<forall>t. pending t (sy_history s) None = call_of (sy_threads s t))"
proof (induction rule: sync_reachable.induct)
  case start
  show ?case by (simp add: sync_start_def matched_history_def)
next
  case (call s t op)
  then show ?case by (simp add: sync_call_def matched_snoc pending_append)
next
  case (step s t s')
  from step(2) step.IH show ?case
    by cases (auto simp: pending_append intro!: matched_snoc)
qed

text \<open>The reference: the operations one after the other, with their results.\<close>

fun replay :: "('op \<Rightarrow> 's \<Rightarrow> 's \<times> 'r) \<Rightarrow> 's \<Rightarrow> 'op list \<Rightarrow> 's \<times> 'r list" where
  "replay sq s [] = (s, [])"
| "replay sq s (op # ops) = (let (s', r) = sq op s; (s'', rs) = replay sq s' ops in (s'', r # rs))"

lemma replay_snoc:
  "replay sq s (ops @ [op]) =
     (fst (sq op (fst (replay sq s ops))), snd (replay sq s ops) @ [snd (sq op (fst (replay sq s ops)))])"
  by (induction ops arbitrary: s) (simp_all add: Let_def split: prod.split)

lemma replay_append:
  "replay sq s (ops @ ops') =
     (fst (replay sq (fst (replay sq s ops)) ops'), snd (replay sq s ops) @ snd (replay sq (fst (replay sq s ops)) ops'))"
  by (induction ops arbitrary: s) (simp_all add: Let_def split: prod.split)

lemma replay_length [simp]: "length (snd (replay sq s ops)) = length ops"
  by (induction ops arbitrary: s) (simp_all add: Let_def split_beta)

lemma replay_invariant:
  assumes "\<And>op s. op \<in> set ops \<Longrightarrow> I s \<Longrightarrow> I (fst (sq op s))" and "I s"
  shows "I (fst (replay sq s ops))"
  using assms by (induction ops arbitrary: s) (simp_all add: Let_def split_beta)

text \<open>Each result of a replay is the result of its operation in a state the operations before led to.\<close>

lemma replay_result:
  assumes "\<And>op s. op \<in> set ops \<Longrightarrow> I s \<Longrightarrow> I (fst (sq op s))" and "I s"
    and "(op, r) \<in> set (zip ops (snd (replay sq s ops)))"
  shows "\<exists>s'. I s' \<and> snd (sq op s') = r"
  using assms
proof (induction ops arbitrary: s)
  case (Cons o' ops)
  from Cons.prems have "I (fst (sq o' s))" by simp
  with Cons show ?case by (auto simp: Let_def split_beta)
qed simp

definition run_actions :: "('s, 'l) action list \<Rightarrow> 's \<times> 'l \<Rightarrow> 's \<times> 'l" where
  "run_actions acts x = fold (\<lambda>a. a) acts x"

lemma run_actions_simps [simp]:
  "run_actions [] x = x"
  "run_actions (a # acts) x = run_actions acts (a x)"
  "run_actions (acts @ acts') x = run_actions acts' (run_actions acts x)"
  by (simp_all add: run_actions_def)

text \<open>
  The state the returned calls lead to, one after the other; where a goroutine inside its critical
  section is relative to it; the results of the returned calls.
\<close>

definition base :: "('op \<Rightarrow> 's \<Rightarrow> 's \<times> 'r) \<Rightarrow> 's \<Rightarrow> ('op, 's, 'l) sync_state \<Rightarrow> 's" where
  "base sq s0 s = fst (replay sq s0 (map fst (returned (sy_history s))))"

definition section_ok :: "('op, 's, 'l) program \<Rightarrow> 's \<Rightarrow> ('op, 's, 'l) sync_state \<Rightarrow> nat \<Rightarrow> bool" where
  "section_ok p b s t \<longleftrightarrow>
     (\<forall>op acts l. sy_threads s t = Inside op acts l \<longrightarrow>
        (\<exists>past. pg_body p op = past @ acts \<and> run_actions past (b, pg_init p op) = (sy_shared s, l)))"

definition no_writer_inside :: "('op, 's, 'l) program \<Rightarrow> ('op, 's, 'l) sync_state \<Rightarrow> bool" where
  "no_writer_inside p s \<longleftrightarrow> (\<forall>t op acts l. sy_threads s t = Inside op acts l \<longrightarrow> pg_access p op = RLocked)"

definition data_inv :: "('op, 's, 'l) program \<Rightarrow> ('op \<Rightarrow> 's \<Rightarrow> 's \<times> 'r) \<Rightarrow> ('l \<Rightarrow> 'r) \<Rightarrow> 's \<Rightarrow> ('op, 's, 'l) sync_state \<Rightarrow> bool" where
  "data_inv p sq res s0 s \<longleftrightarrow>
     (\<forall>t. section_ok p (base sq s0 s) s t) \<and>
     (no_writer_inside p s \<longrightarrow> sy_shared s = base sq s0 s) \<and>
     snd (replay sq s0 (map fst (returned (sy_history s)))) = map (\<lambda>(op, l). res l) (returned (sy_history s))"

lemma reader_inside:
  assumes "lock_inv p s" and "sy_writer s = None \<or> sy_threads s t = Waiting op"
  shows "no_writer_inside p s"
  unfolding no_writer_inside_def
proof (intro allI impI)
  fix u op' acts l
  assume *: "sy_threads s u = Inside op' acts l"
  show "pg_access p op' = RLocked"
    using lock_Inside(1) [OF assms(1) *] lock_Inside(4) [OF assms(1), of t op] assms(2) *
    by (cases "pg_access p op'") auto
qed

lemma reader_excludes_writer:
  assumes "lock_inv p s" and "sy_threads s t = Inside op acts l" and "pg_access p op = RLocked"
  shows "no_writer_inside p s"
  unfolding no_writer_inside_def
proof (intro allI impI)
  fix u op' acts' l'
  assume *: "sy_threads s u = Inside op' acts' l'"
  show "pg_access p op' = RLocked"
    using lock_Inside(1) [OF assms(1) *] lock_Inside(2) [OF assms] by (cases "pg_access p op'") auto
qed

locale guarded =
  fixes p :: "('op, 's, 'l) program" and sq :: "'op \<Rightarrow> 's \<Rightarrow> 's \<times> 'r" and res :: "'l \<Rightarrow> 'r"
  assumes reader_keeps: "pg_access p op = RLocked \<Longrightarrow> a \<in> set (pg_body p op) \<Longrightarrow> fst (a (s, l)) = s"
    and body_sq: "\<not> pg_early p op \<Longrightarrow> run_actions (pg_body p op) (s, pg_init p op) = (s', l) \<Longrightarrow> sq op s = (s', res l)"
    and early_sq: "pg_early p op \<Longrightarrow> sq op s = (s, res (pg_init p op))"
begin

lemma reader_run:
  "pg_access p op = RLocked \<Longrightarrow> set acts \<subseteq> set (pg_body p op) \<Longrightarrow> fst (run_actions acts (s, l)) = s"
proof (induction acts arbitrary: s l)
  case (Cons a acts)
  then have "fst (a (s, l)) = s" by (auto intro: reader_keeps)
  with Cons show ?case by (cases "a (s, l)") auto
qed simp

lemma inside_reader_shared:
  assumes "section_ok p b s t" and "sy_threads s t = Inside op acts l" and "pg_access p op = RLocked"
  shows "sy_shared s = b"
proof -
  from assms(1,2) obtain past where "pg_body p op = past @ acts"
    and "run_actions past (b, pg_init p op) = (sy_shared s, l)" unfolding section_ok_def by blast
  with reader_run [OF assms(3), of past b "pg_init p op"] show ?thesis by simp
qed

lemma enter_data:
  assumes "data_inv p sq res s0 s" and "no_writer_inside p s" and "sy_shared s' = sy_shared s"
    and "sy_history s' = sy_history s"
    and "sy_threads s' = (sy_threads s)(t := Inside op (pg_body p op) (pg_init p op))"
  shows "data_inv p sq res s0 s'"
proof -
  have b: "base sq s0 s' = base sq s0 s" "sy_shared s = base sq s0 s"
    using assms(1,2,4) by (simp_all add: base_def data_inv_def)
  have "section_ok p (base sq s0 s) s' u" for u
  proof (cases "u = t")
    case True
    with assms(3,5) b show ?thesis by (auto simp: section_ok_def intro!: exI [of _ "[]"])
  next
    case False
    with assms(1,3,5) show ?thesis by (simp add: data_inv_def section_ok_def)
  qed
  with assms(1,3,4) b show ?thesis by (simp add: data_inv_def)
qed

lemma act_data:
  assumes inv: "lock_inv p s" "data_inv p sq res s0 s"
    and t: "sy_threads s t = Inside op (a # acts) l" and a: "a (sy_shared s, l) = (sh, l')"
  shows "data_inv p sq res s0 (s\<lparr>sy_shared := sh, sy_threads := (sy_threads s)(t := Inside op acts l')\<rparr>)"
    (is "data_inv _ _ _ _ ?s'")
proof -
  let ?b = "base sq s0 s"
  from inv(2) t obtain past where past: "pg_body p op = past @ a # acts"
      "run_actions past (?b, pg_init p op) = (sy_shared s, l)"
    unfolding data_inv_def section_ok_def by blast
  have here: "section_ok p ?b ?s' t"
    using past a by (auto simp: section_ok_def intro!: exI [of _ "past @ [a]"])
  have keep: "pg_access p op = RLocked \<Longrightarrow> sh = sy_shared s"
    using reader_keeps [of op a "sy_shared s" l] past(1) a by simp
  have "section_ok p ?b ?s' u" for u
  proof (cases "u = t")
    case False
    show ?thesis
    proof (cases "pg_access p op")
      case RLocked
      with keep False inv(2) show ?thesis by (auto simp: data_inv_def section_ok_def)
    next
      case Locked
      with False writer_alone [OF inv(1) t] show ?thesis by (auto simp: section_ok_def)
    qed
  qed (use here in simp)
  moreover have "no_writer_inside p ?s' \<Longrightarrow> sh = ?b"
    using inside_reader_shared [OF here, of op acts l'] by (force simp: no_writer_inside_def)
  moreover have "base sq s0 ?s' = ?b" by (simp add: base_def)
  ultimately show ?thesis using inv(2) by (simp add: data_inv_def)
qed

lemma leave_data:
  assumes inv: "lock_inv p s" "data_inv p sq res s0 s" and t: "sy_threads s t = Inside op [] l"
    and s': "sy_shared s' = sy_shared s" "sy_threads s' = (sy_threads s)(t := Idle)"
      "sy_history s' = sy_history s @ [Ret t op l]"
  shows "data_inv p sq res s0 s'"
proof -
  let ?b = "base sq s0 s"
  from inv(2) t have "run_actions (pg_body p op) (?b, pg_init p op) = (sy_shared s, l)"
    unfolding data_inv_def section_ok_def by fastforce
  with body_sq lock_Inside(3) [OF inv(1) t] have sq: "sq op ?b = (sy_shared s, res l)" by blast
  have b': "base sq s0 s' = sy_shared s" using sq by (simp add: base_def s' replay_snoc)
  have "section_ok p (sy_shared s) s' u" for u
  proof (cases "pg_access p op")
    case RLocked
    with inside_reader_shared [OF _ t] inv(2) have "sy_shared s = ?b" by (auto simp: data_inv_def)
    with inv(2) show ?thesis by (auto simp: data_inv_def section_ok_def s')
  next
    case Locked
    with writer_alone [OF inv(1) t] show ?thesis by (auto simp: section_ok_def s')
  qed
  with b' sq inv(2) show ?thesis by (simp add: data_inv_def s' replay_snoc base_def)
qed

lemma same_data:
  assumes "data_inv p sq res s0 s" and "sy_shared s' = sy_shared s" and "base sq s0 s' = base sq s0 s"
    and "snd (replay sq s0 (map fst (returned (sy_history s')))) = map (\<lambda>(op, l). res l) (returned (sy_history s'))"
    and "\<And>u op acts l. sy_threads s' u = Inside op acts l \<longleftrightarrow> sy_threads s u = Inside op acts l"
  shows "data_inv p sq res s0 s'"
  using assms by (simp add: data_inv_def section_ok_def no_writer_inside_def)

lemma step_data:
  assumes "sync_step p t s s'" and inv: "lock_inv p s" "data_inv p sq res s0 s"
  shows "data_inv p sq res s0 s'"
  using assms(1)
proof cases
  case (early op)
  with inv(2) early_sq [of op] show ?thesis
    by (intro same_data [OF inv(2)]) (auto simp: base_def replay_snoc data_inv_def)
next
  case (rlock op)
  then show ?thesis using enter_data [OF inv(2) reader_inside [OF inv(1)]] by simp
next
  case (announce op)
  with inv(2) show ?thesis by (intro same_data [OF inv(2)]) (auto simp: base_def data_inv_def)
next
  case (lock op)
  then show ?thesis using enter_data [OF inv(2) reader_inside [OF inv(1) disjI2 [OF lock(2)]]] by simp
next
  case (act op a acts l sh l')
  then show ?thesis using act_data [OF inv] by simp
next
  case (runlock op l)
  then show ?thesis using leave_data [OF inv runlock(2)] by simp
next
  case (unlock op l)
  then show ?thesis using leave_data [OF inv unlock(2)] by simp
qed

lemma reachable_data: "sync_reachable p s0 s \<Longrightarrow> data_inv p sq res s0 s"
proof (induction rule: sync_reachable.induct)
  case start
  show ?case by (simp add: data_inv_def sync_start_def section_ok_def base_def)
next
  case (call s t op)
  then show ?case
    by (intro same_data [OF call.IH]) (auto simp: data_inv_def base_def sync_call_def)
next
  case (step s t s')
  then show ?case by (blast intro: step_data reachable_lock_inv)
qed

text \<open>
  The interleaved calls are the sequential ones in the order in which they return: same results,
  and, when no writer is inside, the same state.
\<close>

lemma linearizes:
  assumes "sync_reachable p s0 s" and "ops = map fst (returned (sy_history s))"
  shows "snd (replay sq s0 ops) = map (\<lambda>(op, l). res l) (returned (sy_history s))"
    and "no_writer_inside p s \<Longrightarrow> sy_shared s = fst (replay sq s0 ops)"
  using reachable_data [OF assms(1)] assms(2) by (auto simp: data_inv_def base_def)

text \<open>An invariant of the operations holds of what every returned call has seen.\<close>

lemma returned_result:
  assumes "sync_reachable p s0 s" and "(op, l) \<in> set (returned (sy_history s))"
    and "\<And>op s'. op \<in> fst ` set (returned (sy_history s)) \<Longrightarrow> I s' \<Longrightarrow> I (fst (sq op s'))" and "I s0"
  shows "\<exists>s'. I s' \<and> snd (sq op s') = res l"
proof (rule replay_result)
  let ?rs = "returned (sy_history s)"
  have "zip (map fst rs) (map (\<lambda>(op, l). res l) rs) = map (\<lambda>(op, l). (op, res l)) rs" for rs :: "('op \<times> 'l) list"
    by (induction rs) auto
  from this [of ?rs] assms(2) show "(op, res l) \<in> set (zip (map fst ?rs) (snd (replay sq s0 (map fst ?rs))))"
    unfolding linearizes(1) [OF assms(1) refl] by force
qed (use assms in auto)

text \<open>
  A call that has returned has the result of its operation in the state to which the calls lead that
  returned before it, and so have these.
\<close>

lemma returned_at:
  assumes "sync_reachable p s0 s" and "sy_history s = h1 @ Ret t op l # h2"
  shows "snd (replay sq s0 (map fst (returned h1))) = map (\<lambda>(op, l). res l) (returned h1)"
    and "snd (sq op (fst (replay sq s0 (map fst (returned h1))))) = res l"
  using linearizes(1) [OF assms(1) refl]
  by (auto simp: assms(2) replay_append append_eq_append_conv Let_def split: prod.splits)

lemma base_invariant:
  assumes "\<And>op s. I s \<Longrightarrow> I (fst (sq op s))" and "I s0"
  shows "I (base sq s0 s)"
  unfolding base_def using assms by (intro replay_invariant [where I = I]) auto

lemma no_writer_invariant:
  assumes "sync_reachable p s0 s" and "no_writer_inside p s" and "\<And>op s. I s \<Longrightarrow> I (fst (sq op s))" and "I s0"
  shows "I (sy_shared s)"
  using reachable_data [OF assms(1)] assms(2) base_invariant [of I, OF assms(3,4)] by (simp add: data_inv_def)

end

end
