(* ===== verification/Store_Sync.thy ===== *)
theory Store_Sync
  imports File_Store Go_Sync
begin

text \<open>
  The file store under its \<^verbatim>\<open>sync.RWMutex\<close> (\<^verbatim>\<open>fileStoreMu\<close> of \<^verbatim>\<open>internal/certstore/file_store.go\<close>): the gRPC
  server answers each request in its own goroutine, so listing and signing run at the same time as
  each other and as \<^verbatim>\<open>SetCertDir\<close>. The calls are given statement by statement, with the writes to the
  two package variables as two statements; what is computed before the lock is taken (the directory
  that is loaded, the checks of the digest) is in the locals a call brings to the lock. A loop over
  the store is one statement.
\<close>

section \<open>The calls\<close>

datatype store_call =
    SetCertDir_call os_env string
  | CertDir_call
  | listFromFileStore_call
  | listFromFileStoreByProvider_call string
  | signWithFileStore_call string bytes HashAlgorithm RSAPadding

datatype store_ret =
    RetError "goerror option"
  | RetDir string
  | RetInfos "CertificateInfo list"
  | RetSign "goerror + SignResult"

record 'k store_locals =
  sl_idents :: "'k fileIdentity list"
  sl_target :: string
  sl_matched :: "'k fileIdentity option"
  sl_ret :: store_ret

definition store_access :: "store_call \<Rightarrow> access" where
  "store_access c = (case c of SetCertDir_call env dir \<Rightarrow> Locked | _ \<Rightarrow> RLocked)"

text \<open>The returns before the lock: a directory that does not load, a digest that does not fit.\<close>

definition store_early :: "unicode \<Rightarrow> ('k, 'm) crypto_lib_scheme \<Rightarrow> store_call \<Rightarrow> bool" where
  "store_early uc lib c =
     (case c of
        SetCertDir_call env dir \<Rightarrow> dir \<noteq> [] \<and> \<not> isOk (loadCertDir uc lib env dir)
      | signWithFileStore_call thumbprint digest hash padding \<Rightarrow> DigestSize hash \<noteq> Ok (length digest)
      | _ \<Rightarrow> False)"

definition store_init :: "unicode \<Rightarrow> ('k, 'm) crypto_lib_scheme \<Rightarrow> store_call \<Rightarrow> 'k store_locals" where
  "store_init uc lib c =
     (let l = \<lparr>sl_idents = [], sl_target = [], sl_matched = None, sl_ret = RetError None\<rparr> in
      case c of
        SetCertDir_call env dir \<Rightarrow>
          if dir = [] then l
          else (case loadCertDir uc lib env dir of
                  Inl e \<Rightarrow> l\<lparr>sl_ret := RetError (Some e)\<rparr>
                | Inr idents \<Rightarrow> l\<lparr>sl_idents := idents\<rparr>)
      | signWithFileStore_call thumbprint digest hash padding \<Rightarrow>
          (case DigestSize hash of
             Inl e \<Rightarrow> l\<lparr>sl_ret := RetSign (Err e)\<rparr>
           | Inr expectedLen \<Rightarrow>
               if length digest \<noteq> expectedLen then l\<lparr>sl_ret := RetSign (Err ErrInvalidDigest)\<rparr> else l)
      | _ \<Rightarrow> l)"

definition SetCertDir_body :: "string \<Rightarrow> ('k file_store, 'k store_locals) action list" where
  "SetCertDir_body dir =
     [\<lambda>(st, l). (st\<lparr>fileStore := sl_idents l\<rparr>, l),
      \<lambda>(st, l). (st\<lparr>fileStoreDir := dir\<rparr>, l)]"

definition CertDir_body :: "('k file_store, 'k store_locals) action list" where
  "CertDir_body = [\<lambda>(st, l). (st, l\<lparr>sl_ret := RetDir (fileStoreDir st)\<rparr>)]"

definition listFromFileStore_body :: "('k file_store, 'k store_locals) action list" where
  "listFromFileStore_body = [\<lambda>(st, l). (st, l\<lparr>sl_ret := RetInfos (map fi_info (fileStore st))\<rparr>)]"

definition listFromFileStoreByProvider_body :: "unicode \<Rightarrow> string \<Rightarrow> ('k file_store, 'k store_locals) action list" where
  "listFromFileStoreByProvider_body uc providerName =
     [\<lambda>(st, l). (st, l\<lparr>sl_ret := RetInfos (map fi_info (filter (\<lambda>i. providerName = [] \<or>
         EqualFold uc providerName ''Fred Proxy Key Storage Provider'' \<or>
         Contains (ToLower uc (ci_ProviderName (fi_info i))) (ToLower uc providerName))
       (fileStore st)))\<rparr>)]"

definition signWithFileStore_body ::
  "unicode \<Rightarrow> ('k, 'm) crypto_lib_scheme \<Rightarrow> string \<Rightarrow> bytes \<Rightarrow> HashAlgorithm \<Rightarrow> RSAPadding \<Rightarrow>
    ('k file_store, 'k store_locals) action list" where
  "signWithFileStore_body uc lib thumbprint digest hash padding =
     [\<lambda>(st, l). (st, l\<lparr>sl_target := cleanThumbprint uc thumbprint\<rparr>),
      \<lambda>(st, l). (st, l\<lparr>sl_matched := find (\<lambda>i. cleanThumbprint uc (fi_thumbSHA1 i) = sl_target l \<or>
          cleanThumbprint uc (fi_thumbSHA256 i) = sl_target l) (fileStore st)\<rparr>),
      \<lambda>(st, l). (st, if sl_matched l = None
          then l\<lparr>sl_matched := find (\<lambda>i. HasPrefix (cleanThumbprint uc (fi_thumbSHA1 i)) (sl_target l) \<or>
            HasPrefix (cleanThumbprint uc (fi_thumbSHA256 i)) (sl_target l)) (fileStore st)\<rparr> else l),
      \<lambda>(st, l). (st, l\<lparr>sl_ret := RetSign
          (case sl_matched l of
             None \<Rightarrow> Err ErrCertificateNotFound
           | Some matched \<Rightarrow>
               andThen (CryptoHash hash) (\<lambda>h.
               andThen (signWithKey lib (fi_signer matched) digest h (effPadding padding)) (\<lambda>(sig, sigAlg).
               Ok \<lparr>sr_Signature = sig, sr_SignatureAlgorithm = sigAlg, sr_Padding = effPadding padding\<rparr>)))\<rparr>)]"

fun store_body :: "unicode \<Rightarrow> ('k, 'm) crypto_lib_scheme \<Rightarrow> store_call \<Rightarrow> ('k file_store, 'k store_locals) action list" where
  "store_body uc lib (SetCertDir_call env dir) = SetCertDir_body dir"
| "store_body uc lib CertDir_call = CertDir_body"
| "store_body uc lib listFromFileStore_call = listFromFileStore_body"
| "store_body uc lib (listFromFileStoreByProvider_call providerName) = listFromFileStoreByProvider_body uc providerName"
| "store_body uc lib (signWithFileStore_call thumbprint digest hash padding) =
     signWithFileStore_body uc lib thumbprint digest hash padding"

definition store_program :: "unicode \<Rightarrow> ('k, 'm) crypto_lib_scheme \<Rightarrow> (store_call, 'k file_store, 'k store_locals) program" where
  "store_program uc lib = \<lparr>pg_access = store_access, pg_early = store_early uc lib, pg_init = store_init uc lib,
     pg_body = store_body uc lib\<rparr>"

lemma store_program_sel [simp]:
  "pg_access (store_program uc lib) = store_access" "pg_early (store_program uc lib) = store_early uc lib"
  "pg_init (store_program uc lib) = store_init uc lib" "pg_body (store_program uc lib) = store_body uc lib"
  by (simp_all add: store_program_def)

section \<open>The sequential store is what the calls implement\<close>

fun store_seq :: "unicode \<Rightarrow> ('k, 'm) crypto_lib_scheme \<Rightarrow> store_call \<Rightarrow> 'k file_store \<Rightarrow> 'k file_store \<times> store_ret" where
  "store_seq uc lib (SetCertDir_call env dir) st = (case SetCertDir uc lib env dir st of (e, st') \<Rightarrow> (st', RetError e))"
| "store_seq uc lib CertDir_call st = (st, RetDir (CertDir st))"
| "store_seq uc lib listFromFileStore_call st = (st, RetInfos (listFromFileStore st))"
| "store_seq uc lib (listFromFileStoreByProvider_call providerName) st =
     (st, RetInfos (listFromFileStoreByProvider uc providerName st))"
| "store_seq uc lib (signWithFileStore_call thumbprint digest hash padding) st =
     (st, RetSign (signWithFileStore uc lib st thumbprint digest hash padding))"

lemmas store_bodies = SetCertDir_body_def CertDir_body_def listFromFileStore_body_def
  listFromFileStoreByProvider_body_def signWithFileStore_body_def

lemma signWithFileStore_body_run:
  assumes "DigestSize hash = Ok (length digest)"
  shows "\<exists>l. run_actions (signWithFileStore_body uc lib tp digest hash padding)
      (st, store_init uc lib (signWithFileStore_call tp digest hash padding)) = (st, l) \<and>
    sl_ret l = RetSign (signWithFileStore uc lib st tp digest hash padding)"
  using assms
  by (simp add: signWithFileStore_body_def signWithFileStore_def matchThumbprint_def Let_def split: option.split)

interpretation sts: guarded "store_program uc lib" "store_seq uc lib" sl_ret
  for uc :: unicode and lib :: "('k, 'm) crypto_lib_scheme"
proof unfold_locales
  fix op a and s :: "'k file_store" and l
  assume "pg_access (store_program uc lib) op = RLocked" "a \<in> set (pg_body (store_program uc lib) op)"
  then show "fst (a (s, l)) = s" by (cases op) (auto simp: store_access_def store_bodies)
next
  fix op and s s' :: "'k file_store" and l
  assume e: "\<not> pg_early (store_program uc lib) op"
    and r: "run_actions (pg_body (store_program uc lib) op) (s, pg_init (store_program uc lib) op) = (s', l)"
  show "store_seq uc lib op s = (s', sl_ret l)"
  proof (cases op)
    case (SetCertDir_call env dir)
    with e r show ?thesis
      by (auto simp: store_early_def SetCertDir_body_def SetCertDir_def store_init_def Let_def isOk_iff
          split: if_splits sum.splits)
  next
    case (signWithFileStore_call tp digest hash padding)
    with e r signWithFileStore_body_run [of hash digest uc lib tp padding s] show ?thesis
      by (auto simp: store_early_def)
  qed (use r in \<open>auto simp: store_bodies CertDir_def listFromFileStore_def listFromFileStoreByProvider_def\<close>)
next
  fix op and s :: "'k file_store"
  assume "pg_early (store_program uc lib) op"
  then show "store_seq uc lib op s = (s, sl_ret (pg_init (store_program uc lib) op))"
    by (cases op) (auto simp: store_early_def store_init_def SetCertDir_def signWithFileStore_def Let_def isOk_iff
        split: sum.splits if_splits)
qed

lemma store_seq_reachable: "store_reachable uc lib st \<Longrightarrow> store_reachable uc lib (fst (store_seq uc lib op st))"
  by (cases op) (auto split: prod.split intro: store_reachable.set_dir)

lemma store_seq_inv: "store_inv uc lib st \<Longrightarrow> store_inv uc lib (fst (store_seq uc lib op st))"
  by (cases op) (auto split: prod.split intro: SetCertDir_inv)

section \<open>The store in the history\<close>

text \<open>
  A store with identities is the one of the last call of \<open>SetCertDir\<close> that has returned without an
  error, first as a fact on the calls that have returned, then on the history.
\<close>

lemma store_of_returned:
  assumes "snd (replay (store_seq uc lib) empty_store (map fst rs)) = map (\<lambda>(op, l). sl_ret l) rs"
    and "st = fst (replay (store_seq uc lib) empty_store (map fst rs))" and "fileStore st \<noteq> []"
  shows "\<exists>rs1 env dir l rs2. rs = rs1 @ (SetCertDir_call env dir, l) # rs2 \<and> sl_ret l = RetError None \<and>
    (\<forall>env' dir' k. (SetCertDir_call env' dir', k) \<in> set rs2 \<longrightarrow> sl_ret k \<noteq> RetError None) \<and>
    loadCertDir uc lib env dir = Ok (fileStore st) \<and> fileStoreDir st = dir"
  using assms
proof (induction rs arbitrary: st rule: rev_induct)
  case Nil
  then show ?case by (simp add: empty_store_def)
next
  case (snoc x rs)
  obtain op l where x: "x = (op, l)" by (cases x)
  let ?st = "fst (replay (store_seq uc lib) empty_store (map fst rs))"
  from snoc.prems x have rs: "snd (replay (store_seq uc lib) empty_store (map fst rs)) = map (\<lambda>(op, l). sl_ret l) rs"
    and op: "store_seq uc lib op ?st = (st, sl_ret l)"
    by (simp_all add: replay_snoc prod_eq_iff)
  show ?case
  proof (cases "\<exists>env dir. op = SetCertDir_call env dir \<and> sl_ret l = RetError None")
    case True
    then obtain env dir where "op = SetCertDir_call env dir" "sl_ret l = RetError None" by blast
    with op snoc.prems(3) x show ?thesis
      by (intro exI [of _ rs] exI [of _ env] exI [of _ dir] exI [of _ l] exI [of _ "[]"])
        (auto simp: SetCertDir_def split: if_splits sum.splits)
  next
    case False
    with op have "st = ?st" by (cases op) (auto simp: SetCertDir_def split: if_splits sum.splits)
    from snoc.IH [OF rs this snoc.prems(3)] obtain rs1 env dir l' rs2 where
      "rs = rs1 @ (SetCertDir_call env dir, l') # rs2" "sl_ret l' = RetError None"
      "\<forall>env' dir' k. (SetCertDir_call env' dir', k) \<in> set rs2 \<longrightarrow> sl_ret k \<noteq> RetError None"
      "loadCertDir uc lib env dir = Ok (fileStore st)" "fileStoreDir st = dir" by blast
    with False x show ?thesis
      by (intro exI [of _ rs1] exI [of _ env] exI [of _ dir] exI [of _ l'] exI [of _ "rs2 @ [x]"]) auto
  qed
qed

lemma store_of_history:
  assumes "snd (replay (store_seq uc lib) empty_store (map fst (returned h))) = map (\<lambda>(op, l). sl_ret l) (returned h)"
    and "st = fst (replay (store_seq uc lib) empty_store (map fst (returned h)))" and "fileStore st \<noteq> []"
  shows "\<exists>h1 u env dir l h2. h = h1 @ Ret u (SetCertDir_call env dir) l # h2 \<and> sl_ret l = RetError None \<and>
    (\<forall>v env' dir' k. Ret v (SetCertDir_call env' dir') k \<in> set h2 \<longrightarrow> sl_ret k \<noteq> RetError None) \<and>
    loadCertDir uc lib env dir = Ok (fileStore st) \<and> fileStoreDir st = dir"
proof -
  obtain rs1 env dir l rs2 where rs: "returned h = rs1 @ (SetCertDir_call env dir, l) # rs2"
    and l: "sl_ret l = RetError None"
      "\<forall>env' dir' k. (SetCertDir_call env' dir', k) \<in> set rs2 \<longrightarrow> sl_ret k \<noteq> RetError None"
      "loadCertDir uc lib env dir = Ok (fileStore st)" "fileStoreDir st = dir"
    using store_of_returned [OF assms] by metis
  from returned_split [OF rs] obtain h1 u h2 where "h = h1 @ Ret u (SetCertDir_call env dir) l # h2"
    "returned h2 = rs2" by blast
  moreover from l(2) this(2) have "\<forall>v env' dir' k. Ret v (SetCertDir_call env' dir') k \<in> set h2 \<longrightarrow> sl_ret k \<noteq> RetError None"
    by (metis returned_iff)
  ultimately show ?thesis using l(1,3,4) by blast
qed

section \<open>A run of two goroutines\<close>

lemma demo_load: "loadCertDir demo_uc demo_lib demo_env ''d'' = Ok (fileStore demo_store)"
  using demo_SetCertDir by (auto simp: SetCertDir_def empty_store_def demo_store_def split: sum.splits)

text \<open>One goroutine loads the directory, the other asks for a signature while the first holds the lock.\<close>

definition demo_sign_call :: store_call where
  "demo_sign_call = signWithFileStore_call (thumbOfHash demo_uc (replicate 20 2)) (replicate 32 7) HashSHA256 0"

definition demo_schedule :: "store_call choice list" where
  "demo_schedule = [Start 0 (SetCertDir_call demo_env ''d''), Step 0, Step 0, Step 0, Start 1 demo_sign_call,
     Step 0, Step 0, Step 1]"

definition demo_locals :: "nat store_locals" where
  "demo_locals = \<lparr>sl_idents = [], sl_target = [], sl_matched = None, sl_ret = RetError None\<rparr>"

definition demo_signing :: "(store_call, nat file_store, nat store_locals) sync_state" where
  "demo_signing = \<lparr>sy_shared = demo_store, sy_writer = None, sy_readers = {1},
     sy_threads = (\<lambda>_. Idle)(1 := Inside demo_sign_call (store_body demo_uc demo_lib demo_sign_call) demo_locals),
     sy_history = [Call 0 (SetCertDir_call demo_env ''d''), Call 1 demo_sign_call,
       Ret 0 (SetCertDir_call demo_env ''d'') (demo_locals\<lparr>sl_idents := fileStore demo_store\<rparr>)]\<rparr>"

lemma demo_schedule_run:
  "sync_exec (store_program demo_uc demo_lib) demo_schedule (sync_start empty_store) = Some demo_signing"
  by (simp add: demo_schedule_def demo_signing_def demo_locals_def demo_sign_call_def sync_start_def sync_call_def
      sync_next_def store_early_def store_access_def store_init_def demo_load SetCertDir_body_def DigestSize_def
      empty_store_def demo_store_def fun_eq_iff)

lemma demo_signing_reachable: "sync_reachable (store_program demo_uc demo_lib) empty_store demo_signing"
  by (rule sync_exec_reachable [OF demo_schedule_run sync_reachable.start])

lemma demo_signed:
  "\<exists>s l. sync_reachable (store_program demo_uc demo_lib) empty_store s \<and>
     sy_history s = sy_history demo_signing @ [Ret 1 demo_sign_call l] \<and>
     sl_ret l = RetSign (Ok \<lparr>sr_Signature = 2 # replicate 32 7, sr_SignatureAlgorithm = ''ECDSA'', sr_Padding = 1\<rparr>)"
proof -
  let ?p = "store_program demo_uc demo_lib"
  have steps: "\<exists>s. sync_exec ?p (replicate 5 (Step 1)) demo_signing = Some s \<and>
      sy_history s = sy_history demo_signing @
        [Ret 1 demo_sign_call (snd (run_actions (store_body demo_uc demo_lib demo_sign_call) (demo_store, demo_locals)))]"
    by (simp add: demo_signing_def demo_sign_call_def sync_next_def signWithFileStore_body_def store_access_def
        numeral_eq_Suc split_def)
  have "demo_locals = store_init demo_uc demo_lib demo_sign_call"
    by (simp add: demo_locals_def demo_sign_call_def store_init_def DigestSize_def)
  with signWithFileStore_body_run [of HashSHA256 "replicate 32 7" demo_uc demo_lib
      "thumbOfHash demo_uc (replicate 20 2)" 0 demo_store] demo_signature
  obtain l where "run_actions (store_body demo_uc demo_lib demo_sign_call) (demo_store, demo_locals) = (demo_store, l)"
    "sl_ret l = RetSign (Ok \<lparr>sr_Signature = 2 # replicate 32 7, sr_SignatureAlgorithm = ''ECDSA'', sr_Padding = 1\<rparr>)"
    by (auto simp: demo_sign_call_def DigestSize_def)
  with steps sync_exec_reachable [OF _ demo_signing_reachable] show ?thesis by fastforce
qed

section \<open>Properties\<close>

text \<open>
  C3: the goroutines of the server see one store at a time. However the calls of \<open>SetCertDir\<close>,
  \<open>CertDir\<close>, the two listings and signing interleave, statement by statement, each returns what it
  would return if the calls were made one after the other in the order in which they return, and
  every return belongs to the last call of its goroutine; while no goroutine is inside \<open>SetCertDir\<close>
  the store is the one these calls lead to.
\<close>

theorem concurrent_store_linearizes:
  assumes "sync_reachable (store_program uc lib) empty_store s"
    and "ops = map fst (returned (sy_history s))"
  shows "snd (replay (store_seq uc lib) empty_store ops) = map (\<lambda>(op, l). sl_ret l) (returned (sy_history s)) \<and>
    matched_history (sy_history s) \<and>
    (no_writer_inside (store_program uc lib) s \<longrightarrow>
       sy_shared s = fst (replay (store_seq uc lib) empty_store ops) \<and> store_reachable uc lib (sy_shared s))"
proof -
  have "no_writer_inside (store_program uc lib) s \<Longrightarrow> store_reachable uc lib (sy_shared s)"
    using sts.no_writer_invariant [OF assms(1), where I = "store_reachable uc lib"]
    by (blast intro: store_seq_reachable store_reachable.init)
  then show ?thesis
    using sts.linearizes [OF assms] reachable_history [OF assms(1)] by auto
qed

theorem concurrent_store_linearizes_witness:
  "snd (replay (store_seq demo_uc demo_lib) empty_store [SetCertDir_call demo_env ''d'']) = [RetError None] \<and>
   sy_shared demo_signing = fst (replay (store_seq demo_uc demo_lib) empty_store [SetCertDir_call demo_env ''d''])"
proof -
  have "returned (sy_history demo_signing) =
      [(SetCertDir_call demo_env ''d'', demo_locals\<lparr>sl_idents := fileStore demo_store\<rparr>)]"
    by (simp add: demo_signing_def returned_def List.map_filter_def)
  moreover have "no_writer_inside (store_program demo_uc demo_lib) demo_signing"
    by (simp add: no_writer_inside_def demo_signing_def demo_sign_call_def store_access_def)
  ultimately show ?thesis
    using concurrent_store_linearizes [OF demo_signing_reachable refl] by (simp add: demo_locals_def)
qed

text \<open>
  C4: a signature is sound also while the store is being replaced. Whatever the interleaving, when a
  signing call returns a signature, a call of \<open>SetCertDir\<close> has returned without an error before it in
  this run, no other call of \<open>SetCertDir\<close> has done so since, and the signature is of an identity
  that was loaded by that call from its directory: the key belongs to its certificate, a thumbprint
  of the certificate starts with the requested one, and the key signed exactly the requested digest
  with the reported padding. A call that loads another directory, or fails to, does not interfere
  until it returns.
\<close>

theorem concurrent_signature_sound:
  assumes "sync_reachable (store_program uc lib) empty_store s" and "sha_lengths lib"
    and "sy_history s = h1 @ Ret t (signWithFileStore_call tp digest hash padding) l # h2"
    and "sl_ret l = RetSign (Ok r)"
  shows "\<exists>h0 u env dir l' h0' idents i h.
    h1 = h0 @ Ret u (SetCertDir_call env dir) l' # h0' \<and> sl_ret l' = RetError None \<and>
    (\<forall>v env' dir' k. Ret v (SetCertDir_call env' dir') k \<in> set h0' \<longrightarrow> sl_ret k \<noteq> RetError None) \<and>
    loadCertDir uc lib env dir = Ok idents \<and> i \<in> set idents \<and> identity_ok uc lib dir i \<and>
    (HasPrefix (fi_thumbSHA1 i) (NormalizeThumbprint uc tp) \<or>
     HasPrefix (fi_thumbSHA256 i) (NormalizeThumbprint uc tp)) \<and>
    DigestSize hash = Ok (length digest) \<and> CryptoHash hash = Ok h \<and> sr_Padding r = effPadding padding \<and>
    signed_by lib (fi_signer i) digest h (sr_Padding r) (sr_Signature r) (sr_SignatureAlgorithm r)"
proof -
  let ?st = "fst (replay (store_seq uc lib) empty_store (map fst (returned h1)))"
  have st: "signWithFileStore uc lib ?st tp digest hash padding = Ok r"
    using sts.returned_at(2) [OF assms(1,3)] assms(4) by simp
  have "store_reachable uc lib ?st"
    by (rule replay_invariant [where I = "store_reachable uc lib"])
      (auto intro: store_seq_reachable store_reachable.init)
  from signature_of_store [OF this assms(2) st] obtain i h where
    i: "i \<in> set (fileStore ?st)" and rest: "identity_ok uc lib (fileStoreDir ?st) i"
      "HasPrefix (fi_thumbSHA1 i) (NormalizeThumbprint uc tp) \<or> HasPrefix (fi_thumbSHA256 i) (NormalizeThumbprint uc tp)"
      "DigestSize hash = Ok (length digest)" "CryptoHash hash = Ok h" "sr_Padding r = effPadding padding"
      "signed_by lib (fi_signer i) digest h (sr_Padding r) (sr_Signature r) (sr_SignatureAlgorithm r)"
    by blast
  from store_of_history [OF sts.returned_at(1) [OF assms(1,3)] refl] i obtain h0 u env dir l' h0' where
    "h1 = h0 @ Ret u (SetCertDir_call env dir) l' # h0'" "sl_ret l' = RetError None"
    "\<forall>v env' dir' k. Ret v (SetCertDir_call env' dir') k \<in> set h0' \<longrightarrow> sl_ret k \<noteq> RetError None"
    "loadCertDir uc lib env dir = Ok (fileStore ?st)" "fileStoreDir ?st = dir"
    by (metis empty_iff list.set(1))
  with i rest show ?thesis by metis
qed

theorem concurrent_signature_sound_witness:
  "\<exists>u env dir l' idents i h. Ret u (SetCertDir_call env dir) l' \<in> set (sy_history demo_signing) \<and>
    loadCertDir demo_uc demo_lib env dir = Ok idents \<and> i \<in> set idents \<and> CryptoHash HashSHA256 = Ok h \<and>
    signed_by demo_lib (fi_signer i) (replicate 32 7) h 1 (2 # replicate 32 7) ''ECDSA''"
proof -
  from demo_signed obtain s l where "sync_reachable (store_program demo_uc demo_lib) empty_store s"
    "sy_history s = sy_history demo_signing @ Ret 1 demo_sign_call l # []"
    "sl_ret l = RetSign (Ok \<lparr>sr_Signature = 2 # replicate 32 7, sr_SignatureAlgorithm = ''ECDSA'', sr_Padding = 1\<rparr>)"
    by auto
  from concurrent_signature_sound [OF this(1) demo_sha_lengths this(2) [unfolded demo_sign_call_def] this(3)]
  show ?thesis by fastforce
qed

text \<open>
  A reader never sees a store that is half replaced. While a goroutine is inside one of the
  reading calls no goroutine is inside \<open>SetCertDir\<close>, and the two variables are those of one
  completed call of it: the identities belong to the directory.
\<close>

lemma reader_sees_whole_store:
  assumes "sync_reachable (store_program uc lib) empty_store s" and "sy_threads s t = Inside op acts l"
    and "store_access op = RLocked"
  shows "store_inv uc lib (sy_shared s) \<and> (\<nexists>u env dir acts' l'. sy_threads s u = Inside (SetCertDir_call env dir) acts' l')"
proof -
  have nw: "no_writer_inside (store_program uc lib) s"
    using reader_excludes_writer [OF reachable_lock_inv [OF assms(1)] assms(2)] assms(3) by simp
  have "store_inv uc lib (sy_shared s)"
    by (rule sts.no_writer_invariant [OF assms(1) nw])
      (auto intro: store_seq_inv store_reachable_inv store_reachable.init)
  moreover have "store_access (SetCertDir_call env dir) = Locked" for env dir by (simp add: store_access_def)
  ultimately show ?thesis using nw by (fastforce simp: no_writer_inside_def)
qed

lemma reader_sees_whole_store_witness:
  "store_inv demo_uc demo_lib demo_store \<and>
   (\<nexists>u env dir acts' l'. sy_threads demo_signing u = Inside (SetCertDir_call env dir) acts' l')"
proof -
  have "sy_threads demo_signing 1 = Inside demo_sign_call (store_body demo_uc demo_lib demo_sign_call) demo_locals"
    by (simp add: demo_signing_def)
  from reader_sees_whole_store [OF demo_signing_reachable this] show ?thesis
    by (simp add: demo_sign_call_def store_access_def) (simp add: demo_signing_def)
qed

end
