(* ===== verification/Cert_Service.thy ===== *)
theory Cert_Service
  imports File_Store
begin

text \<open>
  The gRPC service \<^verbatim>\<open>internal/server/service.go\<close>, its logging interceptor
  \<^verbatim>\<open>logging.go\<close> and the messages of \<^verbatim>\<open>gen/cert/v1\<close>. The handlers call the certificate store
  of the platform, which they receive as an argument: \<open>sign\<close> and \<open>list\<close> stand for
  \<^verbatim>\<open>certstore.SignHash\<close> and \<^verbatim>\<open>certstore.ListCertificates\<close> of whichever backend is built in. The
  locale \<open>cert_backend\<close> is the contract the service relies on; the Linux, Windows and macOS
  backends are its three providers.
\<close>

section \<open>Messages (gen/cert/v1/cert.pb.go)\<close>

text \<open>A protobuf enumeration is a 32-bit integer; a client can send any value.\<close>

type_synonym proto_RSAPadding = int

definition RSAPadding_UNSPECIFIED :: proto_RSAPadding where "RSAPadding_UNSPECIFIED = 0"
definition RSAPadding_PKCS1 :: proto_RSAPadding where "RSAPadding_PKCS1 = 1"
definition RSAPadding_PSS :: proto_RSAPadding where "RSAPadding_PSS = 2"

type_synonym proto_HashAlgorithm = int

definition HashAlgorithm_UNSPECIFIED :: proto_HashAlgorithm where "HashAlgorithm_UNSPECIFIED = 0"
definition HashAlgorithm_SHA256 :: proto_HashAlgorithm where "HashAlgorithm_SHA256 = 1"
definition HashAlgorithm_SHA384 :: proto_HashAlgorithm where "HashAlgorithm_SHA384 = 2"
definition HashAlgorithm_SHA512 :: proto_HashAlgorithm where "HashAlgorithm_SHA512 = 3"

lemmas proto_consts [go_defs] = RSAPadding_UNSPECIFIED_def RSAPadding_PKCS1_def RSAPadding_PSS_def
  HashAlgorithm_UNSPECIFIED_def HashAlgorithm_SHA256_def HashAlgorithm_SHA384_def HashAlgorithm_SHA512_def

definition dec_of_int :: "int \<Rightarrow> string" where
  "dec_of_int n = (if n < 0 then CHR ''-'' # dec_of_nat (nat (- n)) else dec_of_nat (nat n))"

definition RSAPadding_String :: "proto_RSAPadding \<Rightarrow> string" where
  "RSAPadding_String x =
     (if x = 0 then ''RSA_PADDING_UNSPECIFIED'' else if x = 1 then ''PKCS1'' else if x = 2 then ''PSS''
      else dec_of_int x)"

definition HashAlgorithm_String :: "proto_HashAlgorithm \<Rightarrow> string" where
  "HashAlgorithm_String x =
     (if x = 0 then ''HASH_ALGORITHM_UNSPECIFIED'' else if x = 1 then ''SHA256''
      else if x = 2 then ''SHA384'' else if x = 3 then ''SHA512'' else dec_of_int x)"

record 'ts proto_CertificateInfo =
  pc_Thumbprint :: string
  pc_Subject :: string
  pc_Issuer :: string
  pc_NotBefore :: 'ts
  pc_NotAfter :: 'ts
  pc_KeyAlgorithm :: string
  pc_KeySize :: int
  pc_HasPrivateKey :: bool
  pc_IsTpm :: bool
  pc_ProviderName :: string
  pc_CertificateDer :: bytes

record 'ts ListCertificatesResponse =
  lr_Certificates :: "'ts proto_CertificateInfo list"

record SignHashRequest =
  rq_Thumbprint :: string
  rq_Digest :: bytes
  rq_HashAlgorithm :: proto_HashAlgorithm
  rq_RsaPadding :: proto_RSAPadding

record SignHashResponse =
  rp_Signature :: bytes
  rp_SignatureAlgorithm :: string
  rp_RsaPadding :: proto_RSAPadding

text \<open>A gRPC error is a status: a code and a message.\<close>

datatype code = InvalidArgument | NotFound | Internal

datatype status = Status (st_code: code) (st_message: string)

section \<open>The service (service.go)\<close>

definition certstorePaddingToProto :: "RSAPadding \<Rightarrow> proto_RSAPadding" where
  "certstorePaddingToProto p = (if p = RSAPaddingPSS then RSAPadding_PSS else RSAPadding_PKCS1)"

definition protoPaddingToCertstore :: "proto_RSAPadding \<Rightarrow> goerror + RSAPadding" where
  "protoPaddingToCertstore p =
     (if p = RSAPadding_UNSPECIFIED \<or> p = RSAPadding_PKCS1 then Ok RSAPaddingPKCS1
      else if p = RSAPadding_PSS then Ok RSAPaddingPSS
      else Err (ErrorString ''rsa padding must be PKCS1 or PSS''))"

definition protoHashToCertstore :: "proto_HashAlgorithm \<Rightarrow> goerror + HashAlgorithm" where
  "protoHashToCertstore h =
     (if h = HashAlgorithm_SHA256 then Ok HashSHA256
      else if h = HashAlgorithm_SHA384 then Ok HashSHA384
      else if h = HashAlgorithm_SHA512 then Ok HashSHA512
      else Err (ErrorString ''hash algorithm is required (SHA256, SHA384, or SHA512)''))"

definition toProtoInfo :: "(time \<Rightarrow> 'ts) \<Rightarrow> CertificateInfo \<Rightarrow> 'ts proto_CertificateInfo" where
  "toProtoInfo timestamppb_New c =
     \<lparr>pc_Thumbprint = ci_Thumbprint c, pc_Subject = ci_Subject c, pc_Issuer = ci_Issuer c,
      pc_NotBefore = timestamppb_New (ci_NotBefore c), pc_NotAfter = timestamppb_New (ci_NotAfter c),
      pc_KeyAlgorithm = ci_KeyAlgorithm c, pc_KeySize = int32 (ci_KeySize c),
      pc_HasPrivateKey = ci_HasPrivateKey c, pc_IsTpm = ci_IsTPM c, pc_ProviderName = ci_ProviderName c,
      pc_CertificateDer = ci_CertificateDER c\<rparr>"

definition service_ListCertificates ::
  "(time \<Rightarrow> 'ts) \<Rightarrow> goerror + CertificateInfo list \<Rightarrow> status + 'ts ListCertificatesResponse" where
  "service_ListCertificates timestamppb_New list =
     (case list of
        Inl err \<Rightarrow> Err (Status Internal (''list certificates: '' @ Error err))
      | Inr certs \<Rightarrow> Ok \<lparr>lr_Certificates = map (toProtoInfo timestamppb_New) certs\<rparr>)"

text \<open>The \<^verbatim>\<open>switch err\<close> of the handler: sentinels are recognised by \<^verbatim>\<open>==\<close>, so not when wrapped.\<close>

definition signErrorStatus :: "goerror \<Rightarrow> status" where
  "signErrorStatus err =
     (if err = ErrCertificateNotFound then Status NotFound (Error err)
      else if err = ErrInvalidDigest \<or> err = ErrNoPrivateKey \<or> err = ErrInvalidPadding
           then Status InvalidArgument (Error err)
      else Status Internal (''sign hash: '' @ Error err))"

definition service_SignHash ::
  "(string \<Rightarrow> bytes \<Rightarrow> HashAlgorithm \<Rightarrow> RSAPadding \<Rightarrow> goerror + SignResult) \<Rightarrow> SignHashRequest
    \<Rightarrow> status + SignHashResponse" where
  "service_SignHash sign req =
     (if rq_Thumbprint req = [] then Err (Status InvalidArgument ''thumbprint is required'')
      else if length (rq_Digest req) = 0 then Err (Status InvalidArgument ''digest is required'')
      else case protoHashToCertstore (rq_HashAlgorithm req) of
             Inl err \<Rightarrow> Err (Status InvalidArgument (Error err))
           | Inr hash \<Rightarrow>
       (case protoPaddingToCertstore (rq_RsaPadding req) of
          Inl err \<Rightarrow> Err (Status InvalidArgument (Error err))
        | Inr padding \<Rightarrow>
       (case sign (rq_Thumbprint req) (rq_Digest req) hash padding of
          Inl err \<Rightarrow> Err (signErrorStatus err)
        | Inr result \<Rightarrow>
            Ok \<lparr>rp_Signature = sr_Signature result, rp_SignatureAlgorithm = sr_SignatureAlgorithm result,
                rp_RsaPadding = certstorePaddingToProto (sr_Padding result)\<rparr>)))"

section \<open>Request logging (logging.go)\<close>

text \<open>
  The dynamic type of a message: one of the request and response types, or a type the
  interceptor does not know, with the name that \<^verbatim>\<open>%T\<close> prints.
\<close>

datatype 'ts message =
    MListRequest
  | MSignRequest SignHashRequest
  | MListResponse "'ts ListCertificatesResponse"
  | MSignResponse SignHashResponse
  | MOther string

fun typeName :: "'ts message \<Rightarrow> string" where
  "typeName MListRequest = ''*certv1.ListCertificatesRequest''"
| "typeName (MSignRequest r) = ''*certv1.SignHashRequest''"
| "typeName (MListResponse r) = ''*certv1.ListCertificatesResponse''"
| "typeName (MSignResponse r) = ''*certv1.SignHashResponse''"
| "typeName (MOther n) = n"

definition ListCertificates_FullMethodName :: string where
  "ListCertificates_FullMethodName = ''/cert.v1.CertService/ListCertificates''"

definition SignHash_FullMethodName :: string where
  "SignHash_FullMethodName = ''/cert.v1.CertService/SignHash''"

definition formatRequest :: "string \<Rightarrow> 'ts message \<Rightarrow> string" where
  "formatRequest fullMethod req =
     (if fullMethod = ListCertificates_FullMethodName then ''ListCertificates''
      else if fullMethod = SignHash_FullMethodName then
        (case req of
           MSignRequest r \<Rightarrow>
             ''SignHash thumbprint='' @ rq_Thumbprint r @ '' hash='' @ HashAlgorithm_String (rq_HashAlgorithm r)
             @ '' padding='' @ RSAPadding_String (rq_RsaPadding r)
             @ '' digest_len='' @ dec_of_nat (length (rq_Digest r))
         | _ \<Rightarrow> typeName req)
      else typeName req)"

definition formatResponse :: "string \<Rightarrow> 'ts message \<Rightarrow> string" where
  "formatResponse fullMethod resp =
     (if fullMethod = ListCertificates_FullMethodName then
        (case resp of
           MListResponse r \<Rightarrow> ''certificates='' @ dec_of_nat (length (lr_Certificates r))
         | _ \<Rightarrow> ''response='' @ typeName resp)
      else if fullMethod = SignHash_FullMethodName then
        (case resp of
           MSignResponse r \<Rightarrow>
             ''signature_len='' @ dec_of_nat (length (rp_Signature r)) @ '' algorithm='' @ rp_SignatureAlgorithm r
             @ '' padding='' @ RSAPadding_String (rp_RsaPadding r)
         | _ \<Rightarrow> ''response='' @ typeName resp)
      else ''response='' @ typeName resp)"

text \<open>
  What \<^verbatim>\<open>clientInfo\<close> reads of the context: no peer, a peer without client certificate, or a peer
  address with the subject of its first certificate.
\<close>

datatype peer_info = NoPeer | Peer string "string option"

fun clientInfo :: "unicode \<Rightarrow> peer_info \<Rightarrow> string" where
  "clientInfo uc NoPeer = ''unknown''"
| "clientInfo uc (Peer addr None) = addr"
| "clientInfo uc (Peer addr (Some subject)) = addr @ '' subject='' @ Quote uc subject"

fun code_String :: "code \<Rightarrow> string" where
  "code_String InvalidArgument = ''InvalidArgument''"
| "code_String NotFound = ''NotFound''"
| "code_String Internal = ''Internal''"

text \<open>
  The interceptor: the result of the handler and the lines it logs. \<open>duration\<close> is the
  measured time, printed.
\<close>

definition VerboseUnaryInterceptor ::
  "unicode \<Rightarrow> bool \<Rightarrow> peer_info \<Rightarrow> string \<Rightarrow> string \<Rightarrow> 'ts message \<Rightarrow> ('ts message \<Rightarrow> status + 'ts message)
    \<Rightarrow> (status + 'ts message) \<times> string list" where
  "VerboseUnaryInterceptor uc verbose peer duration fullMethod req handler =
     (if \<not> verbose then (handler req, [])
      else
        (let client = clientInfo uc peer;
             line1 = ''grpc request: method='' @ fullMethod @ '' client='' @ client @ '' request='' @ formatRequest fullMethod req;
             result = handler req
         in (result, [line1, ''grpc response: method='' @ fullMethod @ '' client='' @ client @ '' duration='' @ duration @
              (case result of
                 Inl st \<Rightarrow> '' status='' @ code_String (st_code st) @ '' error='' @ Quote uc (st_message st)
               | Inr resp \<Rightarrow> '' status=OK '' @ formatResponse fullMethod resp)])))"

section \<open>Lemmas\<close>

text \<open>The requests that pass the checks of the handler, before the store is asked.\<close>

definition request_valid :: "SignHashRequest \<Rightarrow> bool" where
  "request_valid req \<longleftrightarrow> rq_Thumbprint req \<noteq> [] \<and> rq_Digest req \<noteq> [] \<and>
     rq_HashAlgorithm req \<in> {1, 2, 3} \<and> rq_RsaPadding req \<in> {0, 1, 2}"

definition storePadding :: "proto_RSAPadding \<Rightarrow> RSAPadding" where
  "storePadding p = (if p = 2 then RSAPaddingPSS else RSAPaddingPKCS1)"

lemma protoHash_iff: "protoHashToCertstore h = Ok a \<longleftrightarrow> h \<in> {1, 2, 3} \<and> a = h"
  by (auto simp: protoHashToCertstore_def go_defs)

lemma protoPadding_iff: "protoPaddingToCertstore p = Ok a \<longleftrightarrow> p \<in> {0, 1, 2} \<and> a = storePadding p"
  by (auto simp: protoPaddingToCertstore_def storePadding_def go_defs)

lemma effPadding_storePadding [simp]: "effPadding (storePadding p) = storePadding p"
  by (simp add: effPadding_def storePadding_def go_defs)

lemma protoHash_valid: "h \<in> {1, 2, 3} \<Longrightarrow> protoHashToCertstore h = Ok h"
  by (auto simp: protoHash_iff)

lemma protoPadding_valid: "p \<in> {0, 1, 2} \<Longrightarrow> protoPaddingToCertstore p = Ok (storePadding p)"
  by (auto simp: protoPadding_iff)

definition invalidMessage :: "SignHashRequest \<Rightarrow> string" where
  "invalidMessage req =
     (if rq_Thumbprint req = [] then ''thumbprint is required''
      else if rq_Digest req = [] then ''digest is required''
      else if rq_HashAlgorithm req \<notin> {1, 2, 3}
      then ''hash algorithm is required (SHA256, SHA384, or SHA512)''
      else ''rsa padding must be PKCS1 or PSS'')"

lemma protoHash_invalid:
  "h \<notin> {1, 2, 3} \<Longrightarrow>
   protoHashToCertstore h = Err (ErrorString ''hash algorithm is required (SHA256, SHA384, or SHA512)'')"
  by (simp add: protoHashToCertstore_def go_defs)

lemma protoPadding_invalid:
  "p \<notin> {0, 1, 2} \<Longrightarrow> protoPaddingToCertstore p = Err (ErrorString ''rsa padding must be PKCS1 or PSS'')"
  by (simp add: protoPaddingToCertstore_def go_defs)

lemma service_SignHash_valid:
  assumes "request_valid req"
  shows "service_SignHash sign req =
     (case sign (rq_Thumbprint req) (rq_Digest req) (rq_HashAlgorithm req) (storePadding (rq_RsaPadding req)) of
        Inl err \<Rightarrow> Err (signErrorStatus err)
      | Inr result \<Rightarrow>
          Ok \<lparr>rp_Signature = sr_Signature result, rp_SignatureAlgorithm = sr_SignatureAlgorithm result,
              rp_RsaPadding = certstorePaddingToProto (sr_Padding result)\<rparr>)"
proof -
  from assms have "rq_Thumbprint req \<noteq> []" "rq_Digest req \<noteq> []"
    and "rq_HashAlgorithm req \<in> {1, 2, 3}" "rq_RsaPadding req \<in> {0, 1, 2}"
    by (simp_all add: request_valid_def)
  then show ?thesis
    by (simp only: service_SignHash_def protoHash_valid protoPadding_valid sum.case length_0_conv if_False)
qed

lemma service_SignHash_invalid:
  assumes "\<not> request_valid req"
  shows "service_SignHash sign req = Err (Status InvalidArgument (invalidMessage req))"
proof -
  consider "rq_Thumbprint req = [] \<or> rq_Digest req = []"
    | "rq_Thumbprint req \<noteq> []" "rq_Digest req \<noteq> []" "rq_HashAlgorithm req \<notin> {1, 2, 3}"
    | "rq_Thumbprint req \<noteq> []" "rq_Digest req \<noteq> []" "rq_HashAlgorithm req \<in> {1, 2, 3}"
      "rq_RsaPadding req \<notin> {0, 1, 2}"
    using assms unfolding request_valid_def by blast
  then show ?thesis
  proof cases
    case 1
    then show ?thesis by (auto simp: service_SignHash_def invalidMessage_def)
  next
    case 2
    then show ?thesis
      by (simp only: service_SignHash_def invalidMessage_def protoHash_invalid sum.case length_0_conv
          if_False if_True not_False_eq_True Error.simps)
  next
    case 3
    then show ?thesis
      by (simp only: service_SignHash_def invalidMessage_def protoHash_valid protoPadding_invalid sum.case
          length_0_conv if_False not_False_eq_True not_True_eq_False Error.simps)
  qed
qed

lemma service_SignHash_Ok_valid: "service_SignHash sign req = Ok resp \<Longrightarrow> request_valid req"
  using service_SignHash_invalid [of req sign] by auto

context cert_backend
begin

text \<open>The service over any backend: what a successful reply says about the request.\<close>

lemma service_sign_guarantee:
  assumes "ok s" and "service_SignHash (sign s) req = Ok resp"
  shows "request_valid req \<and> DigestSize (rq_HashAlgorithm req) = Ok (length (rq_Digest req)) \<and>
    rp_RsaPadding resp = (if rq_RsaPadding req = 2 then 2 else 1) \<and>
    rp_SignatureAlgorithm resp \<in> signature_algorithms \<and>
    (rp_SignatureAlgorithm resp = ''RSASSA-PSS'' \<longleftrightarrow> rq_RsaPadding req = 2)"
proof -
  have v: "request_valid req" by (rule service_SignHash_Ok_valid [OF assms(2)])
  with assms(2) obtain r where
    r: "sign s (rq_Thumbprint req) (rq_Digest req) (rq_HashAlgorithm req) (storePadding (rq_RsaPadding req)) = Ok r"
    and resp: "resp = \<lparr>rp_Signature = sr_Signature r, rp_SignatureAlgorithm = sr_SignatureAlgorithm r,
              rp_RsaPadding = certstorePaddingToProto (sr_Padding r)\<rparr>"
    by (auto simp: service_SignHash_valid split: sum.splits)
  from sign_padding [OF assms(1) r] have "sr_Padding r = storePadding (rq_RsaPadding req)" by simp
  with sign_digest [OF assms(1) r] sign_alg [OF assms(1) r] v resp show ?thesis
    by (auto simp: storePadding_def certstorePaddingToProto_def go_defs)
qed

lemma service_bad_digest:
  assumes "ok s" and "request_valid req" and "DigestSize (rq_HashAlgorithm req) \<noteq> Ok (length (rq_Digest req))"
  shows "\<exists>m. service_SignHash (sign s) req = Err (Status InvalidArgument m) \<or>
    sign s (rq_Thumbprint req) (rq_Digest req) (rq_HashAlgorithm req) (storePadding (rq_RsaPadding req))
      = Err ErrUnsupportedPlatform"
proof -
  from assms(2) obtain n where n: "DigestSize (rq_HashAlgorithm req) = Ok n"
    by (auto simp: request_valid_def DigestSize_Ok_iff)
  with assms(3) have "length (rq_Digest req) \<noteq> n" by auto
  from bad_digest_refused [OF assms(1) n this] obtain e
    where "sign s (rq_Thumbprint req) (rq_Digest req) (rq_HashAlgorithm req) (storePadding (rq_RsaPadding req)) = Err e"
    and "e = ErrInvalidDigest \<or> e = ErrUnsupportedPlatform" by blast
  with assms(2) show ?thesis
    by (auto simp: service_SignHash_valid signErrorStatus_def)
qed

lemma service_list_private:
  assumes "ok s" and "service_ListCertificates ts (list s) = Ok resp" and "c \<in> set (lr_Certificates resp)"
  shows "pc_HasPrivateKey c"
  using assms list_private
  by (force simp: service_ListCertificates_def toProtoInfo_def split: sum.splits)

end

section \<open>Concrete requests\<close>

definition demo_request :: "string \<Rightarrow> SignHashRequest" where
  "demo_request tp = \<lparr>rq_Thumbprint = tp, rq_Digest = replicate 32 7, rq_HashAlgorithm = 1, rq_RsaPadding = 0\<rparr>"

lemma demo_request_valid: "tp \<noteq> [] \<Longrightarrow> request_valid (demo_request tp)"
  by (simp add: request_valid_def demo_request_def)

lemma demo_inv: "store_inv demo_uc demo_lib demo_store"
  by (rule store_reachable_inv [OF demo_reachable])

lemma demo_linux_sign:
  "linux_SignHash demo_uc demo_lib demo_store (thumbOfHash demo_uc (replicate 20 1)) (replicate 32 7) 1 1
     = Ok \<lparr>sr_Signature = 1 # replicate 32 7, sr_SignatureAlgorithm = ''RSASSA-PKCS1-v1_5'', sr_Padding = 1\<rparr>"
  by (simp add: linux_SignHash_def CertDir_def signWithFileStore_def matchThumbprint_def demo_store_def
      demo_id_def DigestSize_def CryptoHash_def signWithKey_def effPadding_def demo_lib_def go_defs Let_def)

lemma demo_service_sign:
  "service_SignHash (linux_SignHash demo_uc demo_lib demo_store)
     (demo_request (thumbOfHash demo_uc (replicate 20 1)))
   = Ok \<lparr>rp_Signature = 1 # replicate 32 7, rp_SignatureAlgorithm = ''RSASSA-PKCS1-v1_5'', rp_RsaPadding = 1\<rparr>"
proof -
  have "thumbOfHash demo_uc (replicate 20 1) \<noteq> []"
    using length_thumbOfHash [of demo_uc "replicate 20 1"] by fastforce
  from service_SignHash_valid [OF demo_request_valid [OF this]] demo_linux_sign show ?thesis
    by (simp add: demo_request_def storePadding_def certstorePaddingToProto_def go_defs)
qed

section \<open>Properties\<close>

text \<open>
  The handler refuses a request with an empty thumbprint, an empty digest, an unknown hash
  algorithm or an unknown padding with \<open>InvalidArgument\<close>, and the store is not asked: the
  answer is the same over every store.
\<close>

lemma SignHash_invalid_request:
  assumes "\<not> request_valid req"
  shows "\<exists>m. \<forall>sign. service_SignHash sign req = Err (Status InvalidArgument m)"
  using service_SignHash_invalid [OF assms] by blast

lemma SignHash_invalid_request_witness:
  "\<not> request_valid (demo_request []) \<and>
   (\<exists>m. \<forall>sign. service_SignHash sign (demo_request []) = Err (Status InvalidArgument m))"
proof -
  have "\<not> request_valid (demo_request [])" by (simp add: request_valid_def demo_request_def)
  with SignHash_invalid_request [OF this] show ?thesis by blast
qed

text \<open>
  For a valid request the store is asked once, with the hash of the request and PKCS#1 unless
  PSS is requested, and the outcome of the store decides the reply: \<open>NotFound\<close> exactly for
  \<open>ErrCertificateNotFound\<close>, \<open>InvalidArgument\<close> exactly for the three sentinels of a bad
  request, \<open>Internal\<close> for every other error, and the signature otherwise.
\<close>

lemma SignHash_status_table:
  fixes sign req
  defines "out \<equiv> sign (rq_Thumbprint req) (rq_Digest req) (rq_HashAlgorithm req)
      (if rq_RsaPadding req = 2 then RSAPaddingPSS else RSAPaddingPKCS1)"
  assumes "request_valid req"
  shows "(isOk (service_SignHash sign req) \<longleftrightarrow> isOk out) \<and>
    ((\<exists>m. service_SignHash sign req = Err (Status NotFound m)) \<longleftrightarrow> out = Err ErrCertificateNotFound) \<and>
    ((\<exists>m. service_SignHash sign req = Err (Status InvalidArgument m)) \<longleftrightarrow>
       out \<in> {Err ErrInvalidDigest, Err ErrNoPrivateKey, Err ErrInvalidPadding}) \<and>
    (\<forall>r. out = Ok r \<longrightarrow> service_SignHash sign req = Ok
       \<lparr>rp_Signature = sr_Signature r, rp_SignatureAlgorithm = sr_SignatureAlgorithm r,
        rp_RsaPadding = certstorePaddingToProto (sr_Padding r)\<rparr>)"
proof -
  have "out = sign (rq_Thumbprint req) (rq_Digest req) (rq_HashAlgorithm req) (storePadding (rq_RsaPadding req))"
    by (simp add: out_def storePadding_def go_defs)
  with assms(2) have svc: "service_SignHash sign req =
      (case out of Inl err \<Rightarrow> Err (signErrorStatus err) | Inr r \<Rightarrow> Ok
       \<lparr>rp_Signature = sr_Signature r, rp_SignatureAlgorithm = sr_SignatureAlgorithm r,
        rp_RsaPadding = certstorePaddingToProto (sr_Padding r)\<rparr>)"
    by (simp add: service_SignHash_valid)
  show ?thesis
    unfolding svc by (cases out) (auto simp: signErrorStatus_def)
qed

lemma SignHash_status_table_witness:
  "(\<exists>m. service_SignHash (\<lambda>_ _ _ _. Err ErrCertificateNotFound) (demo_request ''AA'') = Err (Status NotFound m))"
  using SignHash_status_table [OF demo_request_valid, of "''AA''" "\<lambda>_ _ _ _. Err ErrCertificateNotFound"]
  by simp

text \<open>
  C30: a thumbprint that is empty after normalisation passes the check for a missing thumbprint and
  is a prefix of every thumbprint: a request for \<^verbatim>\<open>":"\<close>, for instance, is signed with the
  first key of the store.
\<close>

theorem separator_thumbprint_signs_with_first_key:
  assumes "store_reachable uc lib st" and "sha_lengths lib" and ne: "fileStore st \<noteq> []"
    and tp: "rq_Thumbprint req \<noteq> []" "list_all is_sep (rq_Thumbprint req)"
    and valid: "rq_HashAlgorithm req \<in> {1, 2, 3}" "rq_RsaPadding req \<in> {0, 1, 2}"
    and size: "DigestSize (rq_HashAlgorithm req) = Ok (length (rq_Digest req))"
    and h: "CryptoHash (rq_HashAlgorithm req) = Ok h"
    and sig: "signed_by lib (fi_signer (hd (fileStore st))) (rq_Digest req) h
      (if rq_RsaPadding req = 2 then RSAPaddingPSS else RSAPaddingPKCS1) sig alg"
  shows "\<exists>resp. service_SignHash (linux_SignHash uc lib st) req = Ok resp \<and> rp_Signature resp = sig"
proof -
  have dir: "CertDir st \<noteq> []"
    using store_reachable_inv [OF assms(1)] ne by (auto simp: store_inv_def CertDir_def)
  have "cleanThumbprint uc (rq_Thumbprint req) = []"
    unfolding cleanThumbprint_def NormalizeThumbprint_closed [OF seps_ascii [OF tp(2)] seps_ctrl_free [OF tp(2)]]
    using tp(2) by (simp add: list_all_iff)
  with fs.match_empty [OF reachable_wf [OF assms(1,2)] ne]
  have m: "matchThumbprint uc fi_thumbSHA1 fi_thumbSHA256 (cleanThumbprint uc (rq_Thumbprint req)) (fileStore st)
      = Some (hd (fileStore st))" by simp
  from size have "rq_Digest req \<noteq> []" by (auto simp: DigestSize_Ok_iff)
  with tp valid have v: "request_valid req" by (simp add: request_valid_def)
  from signWithFileStore_step [OF size m, of lib "storePadding (rq_RsaPadding req)"] h
    sig [folded storePadding_def]
  have "linux_SignHash uc lib st (rq_Thumbprint req) (rq_Digest req) (rq_HashAlgorithm req) (storePadding (rq_RsaPadding req))
    = Ok \<lparr>sr_Signature = sig, sr_SignatureAlgorithm = alg, sr_Padding = storePadding (rq_RsaPadding req)\<rparr>"
    using dir by (simp add: linux_SignHash_def signWithKey_Ok_iff [symmetric])
  with v show ?thesis by (simp add: service_SignHash_valid)
qed

theorem separator_thumbprint_signs_with_first_key_witness:
  "\<exists>resp. service_SignHash (linux_SignHash demo_uc demo_lib demo_store) (demo_request '':'') = Ok resp \<and>
     rp_Signature resp = 1 # replicate 32 7"
  by (rule separator_thumbprint_signs_with_first_key [OF demo_reachable demo_sha_lengths,
        where h = SHA256 and alg = "''RSASSA-PKCS1-v1_5''"])
    (simp_all add: demo_store_def demo_id_def demo_request_def is_sep_def DigestSize_def CryptoHash_def
      signed_by_def demo_lib_def go_defs)

text \<open>
  \<open>ListCertificates\<close> reports every certificate of the store, in the order of the store,
  with its fields unchanged; a key size is unchanged when it fits 32 bits.
\<close>

lemma ListCertificates_faithful:
  assumes "service_ListCertificates ts (Ok certs) = Ok resp" and "i < length certs"
    and "- (2 ^ 31) \<le> ci_KeySize (certs ! i)" and "ci_KeySize (certs ! i) < 2 ^ 31"
  shows "length (lr_Certificates resp) = length certs \<and>
    lr_Certificates resp ! i =
      \<lparr>pc_Thumbprint = ci_Thumbprint (certs ! i), pc_Subject = ci_Subject (certs ! i),
       pc_Issuer = ci_Issuer (certs ! i), pc_NotBefore = ts (ci_NotBefore (certs ! i)),
       pc_NotAfter = ts (ci_NotAfter (certs ! i)), pc_KeyAlgorithm = ci_KeyAlgorithm (certs ! i),
       pc_KeySize = ci_KeySize (certs ! i), pc_HasPrivateKey = ci_HasPrivateKey (certs ! i),
       pc_IsTpm = ci_IsTPM (certs ! i), pc_ProviderName = ci_ProviderName (certs ! i),
       pc_CertificateDer = ci_CertificateDER (certs ! i)\<rparr>"
  using assms by (auto simp: service_ListCertificates_def toProtoInfo_def int32_id)

text \<open>
  Logging does not interfere: with and without \<^verbatim>\<open>-verbose\<close> the reply is the handler's, and
  the logged lines depend on the digest and on the signature only through their lengths.
\<close>

lemma interceptor_transparent:
  assumes "length (rq_Digest r) = length d'" and "length (rp_Signature p) = length s'"
  shows "fst (VerboseUnaryInterceptor uc verbose peer dur meth req handler) = handler req \<and>
    snd (VerboseUnaryInterceptor uc verbose peer dur meth (MSignRequest r) (\<lambda>_. out)) =
    snd (VerboseUnaryInterceptor uc verbose peer dur meth (MSignRequest (r\<lparr>rq_Digest := d'\<rparr>)) (\<lambda>_. out)) \<and>
    formatResponse meth (MSignResponse p) =
    formatResponse meth (MSignResponse (p\<lparr>rp_Signature := s'\<rparr>))"
  using assms
  by (simp add: VerboseUnaryInterceptor_def formatRequest_def formatResponse_def Let_def)

lemma interceptor_transparent_witness:
  "fst (VerboseUnaryInterceptor demo_uc True NoPeer ''1ms'' SignHash_FullMethodName (MOther ''t'')
      (\<lambda>m. Ok (MOther ''x'' :: unit message))) = Ok (MOther ''x'')"
proof -
  let ?r = "demo_request ''AA''" and ?p = "\<lparr>rp_Signature = [1], rp_SignatureAlgorithm = [], rp_RsaPadding = 1\<rparr>"
  have 1: "length (rq_Digest ?r) = length (replicate 32 (0 :: byte))" by (simp add: demo_request_def)
  have 2: "length (rp_Signature ?p) = length [2 :: byte]" by simp
  show ?thesis by (rule interceptor_transparent [OF 1 2, THEN conjunct1])
qed

end
