(* ===== verification/Store_Windows.thy ===== *)
theory Store_Windows
  imports File_Store Cert_Service
begin

text \<open>
  The Windows backend: \<^verbatim>\<open>internal/certstore/ncrypt.go\<close> and \<^verbatim>\<open>store_windows.go\<close>. The Windows
  certificate store and the CNG key store are outside the program: the parameter \<open>win_api\<close> is what
  their calls return. The type variable \<open>'c\<close> is a certificate context; a key handle is a number,
  0 for none. Indexing an empty buffer panics: \<open>Panicked\<close> is a run that does not return. The handles
  that a run frees are part of its result.
\<close>

unbundle bit_operations_syntax

section \<open>Runs that may panic\<close>

datatype 'a run = Panicked | Ret 'a

fun runBind :: "'a run \<Rightarrow> ('a \<Rightarrow> 'b run) \<Rightarrow> 'b run" where
  "runBind Panicked f = Panicked"
| "runBind (Ret x) f = f x"

lemma runBind_Ret_iff: "runBind r f = Ret y \<longleftrightarrow> (\<exists>x. r = Ret x \<and> f x = Ret y)"
  by (cases r) auto

section \<open>The Windows interfaces\<close>

datatype win_store = CurrentUserMy | LocalMachineMy

datatype pad_info = NoPadding | PadPKCS1 string | PadPSS string nat

text \<open>
  \<open>wa_Encoded\<close>: the bytes at \<^verbatim>\<open>EncodedCert\<close>, as many as \<^verbatim>\<open>Length\<close> says, \<open>None\<close> for a nil pointer with a length
  that is not 0. \<open>wa_Enum\<close>: the contexts an enumeration yields and the error it ends with, \<open>None\<close> for
  \<^verbatim>\<open>CRYPT_E_NOT_FOUND\<close> or a nil context. \<open>wa_ProvSize\<close> and \<open>wa_ProvName\<close>: the two calls for the
  provider property, \<open>None\<close> for failure. \<open>wa_Acquire\<close>: handle, key specification and whether the
  caller frees. \<open>wa_PropSize\<close> and \<open>wa_PropData\<close>: the size call and the data call of
  \<^verbatim>\<open>NCryptGetProperty\<close>; the data call gets the buffer and returns it filled, with the size used;
  likewise \<open>wa_SignSize\<close> and \<open>wa_SignData\<close> for \<^verbatim>\<open>NCryptSignHash\<close>. \<open>wa_ECDSA_DER\<close> is the DER sequence of
  two integers that \<^verbatim>\<open>cryptobyte\<close> builds.
\<close>

record 'c win_api =
  wa_Open :: "win_store \<Rightarrow> goerror option"
  wa_Enum :: "win_store \<Rightarrow> 'c list \<times> goerror option"
  wa_Find :: "string \<Rightarrow> 'c option"
  wa_Encoded :: "'c \<Rightarrow> bytes option"
  wa_ProvSize :: "'c \<Rightarrow> nat option"
  wa_ProvName :: "'c \<Rightarrow> string option option"
  wa_Acquire :: "'c \<Rightarrow> (nat \<times> nat \<times> bool) option"
  wa_PropSize :: "nat \<Rightarrow> goerror + nat"
  wa_PropData :: "nat \<Rightarrow> nat \<Rightarrow> goerror + bytes \<times> nat"
  wa_SignSize :: "nat \<Rightarrow> pad_info \<Rightarrow> bytes \<Rightarrow> goerror + nat"
  wa_SignData :: "nat \<Rightarrow> pad_info \<Rightarrow> bytes \<Rightarrow> nat \<Rightarrow> goerror + bytes \<times> nat"
  wa_UTF16ToString :: "16 word list \<Rightarrow> string"
  wa_ECDSA_DER :: "nat \<Rightarrow> nat \<Rightarrow> goerror + bytes"

definition winNcryptKeySpec :: nat where "winNcryptKeySpec = 0xFFFFFFFF"
definition providerMPCP :: string where "providerMPCP = ''Microsoft Platform Crypto Provider''"

section \<open>ncrypt.go\<close>

text \<open>\<^verbatim>\<open>buf[:size]\<close> of a buffer that the second call filled: it panics beyond the buffer.\<close>

definition sliceTo :: "bytes \<Rightarrow> nat \<Rightarrow> bytes run" where
  "sliceTo buf sz = (if sz \<le> length buf then Ret (take sz buf) else Panicked)"

definition getProperty :: "'c win_api \<Rightarrow> nat \<Rightarrow> (goerror + bytes) run" where
  "getProperty api kh =
     (case wa_PropSize api kh of
        Inl e \<Rightarrow> Ret (Err e)
      | Inr sz \<Rightarrow>
          if sz = 0 then Panicked
          else case wa_PropData api kh sz of
                 Inl e \<Rightarrow> Ret (Err e)
               | Inr (buf, sz) \<Rightarrow> runBind (sliceTo buf sz) (\<lambda>b. Ret (Ok b)))"

definition getPropertyString :: "'c win_api \<Rightarrow> nat \<Rightarrow> (goerror + string) run" where
  "getPropertyString api kh =
     runBind (getProperty api kh) (\<lambda>r.
       case r of
         Inl e \<Rightarrow> Ret (Err e)
       | Inr buf \<Rightarrow>
           if length buf < 2 then Ret (Err (ErrorString ''empty property value''))
           else Ret (Ok (wa_UTF16ToString api
             (map (\<lambda>i. ucast (buf ! (2 * i)) OR push_bit 8 (ucast (buf ! (2 * i + 1)))) [0..<length buf div 2]))))"

definition acquirePrivateKey :: "'c win_api \<Rightarrow> 'c \<Rightarrow> (goerror + nat \<times> string \<times> bool) run" where
  "acquirePrivateKey api cert =
     (case wa_Acquire api cert of
        None \<Rightarrow> Ret (Err ErrNoPrivateKey)
      | Some (kh, spec, mustFree) \<Rightarrow>
          if spec \<noteq> winNcryptKeySpec then Ret (Err ErrNoPrivateKey)
          else runBind (getPropertyString api kh) (\<lambda>r.
            Ret (Ok (kh, (case r of Inl _ \<Rightarrow> ''RSA'' | Inr algGroup \<Rightarrow> algGroup), mustFree))))"

definition freeNCryptObject :: "nat \<Rightarrow> nat list" where
  "freeNCryptObject handle = (if handle \<noteq> 0 then [handle] else [])"

text \<open>The two calls of \<^verbatim>\<open>NCryptSignHash\<close> that the three signing functions share.\<close>

definition ncryptSign :: "'c win_api \<Rightarrow> nat \<Rightarrow> pad_info \<Rightarrow> bytes \<Rightarrow> (goerror + bytes) run" where
  "ncryptSign api kh pad digest =
     (if digest = [] then Panicked
      else case wa_SignSize api kh pad digest of
             Inl e \<Rightarrow> Ret (Err e)
           | Inr sz \<Rightarrow>
               if sz = 0 then Panicked
               else case wa_SignData api kh pad digest sz of
                      Inl e \<Rightarrow> Ret (Err e)
                    | Inr (buf, sz) \<Rightarrow> runBind (sliceTo buf sz) (\<lambda>b. Ret (Ok b)))"

definition SetBytes :: "bytes \<Rightarrow> nat" where
  "SetBytes bs = foldl (\<lambda>n b. 256 * n + unat b) 0 bs"

definition packECDSASignature :: "'c win_api \<Rightarrow> bytes \<Rightarrow> nat \<Rightarrow> goerror + bytes" where
  "packECDSASignature api raw halfLen =
     (if length raw < halfLen * 2 then Err (ErrorString ''invalid ECDSA signature length'')
      else let sigR = take halfLen raw; sigS = take halfLen (drop halfLen raw)
           in wa_ECDSA_DER api (SetBytes sigR) (SetBytes sigS))"

definition signECDSA :: "'c win_api \<Rightarrow> nat \<Rightarrow> bytes \<Rightarrow> (goerror + bytes) run" where
  "signECDSA api kh digest =
     runBind (ncryptSign api kh NoPadding digest) (\<lambda>r.
       case r of
         Inl e \<Rightarrow> Ret (Err e)
       | Inr buf \<Rightarrow> Ret (packECDSASignature api buf (length buf div 2)))"

definition signRSAPKCS1 :: "'c win_api \<Rightarrow> nat \<Rightarrow> bytes \<Rightarrow> string \<Rightarrow> (goerror + bytes) run" where
  "signRSAPKCS1 api kh digest algID = ncryptSign api kh (PadPKCS1 algID) digest"

definition signRSAPSS :: "'c win_api \<Rightarrow> nat \<Rightarrow> bytes \<Rightarrow> string \<Rightarrow> nat \<Rightarrow> (goerror + bytes) run" where
  "signRSAPSS api kh digest algID saltLen = ncryptSign api kh (PadPSS algID saltLen) digest"

definition winAlgIDs :: "crypto_hash \<Rightarrow> string option" where
  "winAlgIDs h =
     (case h of SHA256 \<Rightarrow> Some ''SHA256'' | SHA384 \<Rightarrow> Some ''SHA384'' | SHA512 \<Rightarrow> Some ''SHA512'')"

definition withAlg :: "string \<Rightarrow> goerror + bytes \<Rightarrow> goerror + bytes \<times> string" where
  "withAlg alg r = andThen r (\<lambda>sig. Ok (sig, alg))"

text \<open>The result and the handles freed.\<close>

definition signHashWithCert :: "'c win_api \<Rightarrow> 'c \<Rightarrow> bytes \<Rightarrow> crypto_hash \<Rightarrow> RSAPadding \<Rightarrow>
    (goerror + bytes \<times> string) run \<times> nat list" where
  "signHashWithCert api cert digest hash padding0 =
     (let padding = effPadding padding0 in
      case acquirePrivateKey api cert of
        Panicked \<Rightarrow> (Panicked, [])
      | Ret (Inl e) \<Rightarrow> (Ret (Err e), [])
      | Ret (Inr (kh, algGroup, callerMustFree)) \<Rightarrow>
          ((if algGroup = ''ECDSA'' \<or> algGroup = ''ECDH'' then
              (if padding = RSAPaddingPSS then Ret (Err ErrInvalidPadding)
               else runBind (signECDSA api kh digest) (\<lambda>r. Ret (withAlg ''ECDSA'' r)))
            else if algGroup = ''RSA'' then
              (case winAlgIDs hash of
                 None \<Rightarrow> Ret (Err (ErrorString ''unsupported hash algorithm''))
               | Some algID \<Rightarrow>
                   if padding = RSAPaddingPSS
                   then runBind (signRSAPSS api kh digest algID (length digest)) (\<lambda>r. Ret (withAlg ''RSASSA-PSS'' r))
                   else runBind (signRSAPKCS1 api kh digest algID) (\<lambda>r. Ret (withAlg ''RSASSA-PKCS1-v1_5'' r)))
            else Ret (Err (ErrorString ''unsupported signing algorithm''))),
           if callerMustFree then freeNCryptObject kh else []))"

definition certProviderName :: "'c win_api \<Rightarrow> 'c \<Rightarrow> string" where
  "certProviderName api cert =
     (case wa_ProvSize api cert of
        None \<Rightarrow> []
      | Some sz \<Rightarrow>
          if sz = 0 then []
          else case wa_ProvName api cert of
                 None \<Rightarrow> []
               | Some None \<Rightarrow> []
               | Some (Some name) \<Rightarrow> name)"

definition isTPMCert :: "string \<Rightarrow> bool" where
  "isTPMCert providerName \<longleftrightarrow> providerName = providerMPCP"

definition hasPrivateKey :: "'c win_api \<Rightarrow> 'c \<Rightarrow> bool run \<times> nat list" where
  "hasPrivateKey api cert =
     (case acquirePrivateKey api cert of
        Panicked \<Rightarrow> (Panicked, [])
      | Ret (Inl e) \<Rightarrow> (Ret False, [])
      | Ret (Inr (kh, _, callerMustFree)) \<Rightarrow> (Ret True, if callerMustFree then freeNCryptObject kh else []))"

section \<open>store\_windows.go\<close>

definition thumbprintFromCert :: "unicode \<Rightarrow> ('k, 'm) crypto_lib_scheme \<Rightarrow> x509_cert \<Rightarrow> string" where
  "thumbprintFromCert uc lib cert = thumbOfHash uc (sha1_Sum lib (x_Raw cert))"

definition win_keyMetadata :: "x509_cert \<Rightarrow> string \<times> int" where
  "win_keyMetadata cert =
     (case x_PublicKey cert of
        RSAPublicKey n e \<Rightarrow> (''RSA'', int (BitLen n))
      | ECDSAPublicKey bits \<Rightarrow> (''ECDSA'', int bits)
      | OtherPublicKey \<Rightarrow> (x_PublicKeyAlgorithm cert, 0))"

definition contextInfo :: "unicode \<Rightarrow> ('k, 'm) crypto_lib_scheme \<Rightarrow> bytes \<Rightarrow> x509_cert \<Rightarrow> string \<Rightarrow> CertificateInfo" where
  "contextInfo uc lib der cert providerName =
     (let (keyAlg, keySize) = win_keyMetadata cert in
      \<lparr>ci_Thumbprint = thumbprintFromCert uc lib cert, ci_Subject = x_Subject cert, ci_Issuer = x_Issuer cert,
       ci_NotBefore = x_NotBefore cert, ci_NotAfter = x_NotAfter cert, ci_KeyAlgorithm = keyAlg, ci_KeySize = keySize,
       ci_HasPrivateKey = True, ci_IsTPM = isTPMCert providerName, ci_ProviderName = providerName,
       ci_CertificateDER = der\<rparr>)"

definition certInfoFromContextWithoutKeyCheck :: "unicode \<Rightarrow> ('k, 'm) crypto_lib_scheme \<Rightarrow> 'c win_api \<Rightarrow> 'c \<Rightarrow> string \<Rightarrow>
    CertificateInfo option" where
  "certInfoFromContextWithoutKeyCheck uc lib api ctx providerName =
     (case wa_Encoded api ctx of
        None \<Rightarrow> None
      | Some der \<Rightarrow>
          if der = [] then None
          else case ParseCertificate lib der of
                 Inl _ \<Rightarrow> None
               | Inr cert \<Rightarrow> Some (contextInfo uc lib der cert providerName))"

text \<open>\<^verbatim>\<open>unsafe.Slice\<close> of a nil pointer panics when the length is not 0.\<close>

definition certInfoFromContext :: "unicode \<Rightarrow> ('k, 'm) crypto_lib_scheme \<Rightarrow> 'c win_api \<Rightarrow> 'c \<Rightarrow>
    CertificateInfo option run \<times> nat list" where
  "certInfoFromContext uc lib api ctx =
     (case hasPrivateKey api ctx of
        (Panicked, freed) \<Rightarrow> (Panicked, freed)
      | (Ret has, freed) \<Rightarrow>
          (if \<not> has then Ret None
           else case wa_Encoded api ctx of
                  None \<Rightarrow> Panicked
                | Some der \<Rightarrow>
                    Ret (case ParseCertificate lib der of
                           Inl _ \<Rightarrow> None
                         | Inr cert \<Rightarrow> Some (contextInfo uc lib der cert (certProviderName api ctx))),
           freed))"

definition openStoreWithFlags :: "'c win_api \<Rightarrow> win_store \<Rightarrow> goerror option" where
  "openStoreWithFlags api which = map_option (Wrapped ''open certificate store'') (wa_Open api which)"

definition openMyStore :: "'c win_api \<Rightarrow> goerror option" where
  "openMyStore api = openStoreWithFlags api CurrentUserMy"

text \<open>\<^verbatim>\<open>UTF16PtrFromString\<close> refuses a string with a NUL byte.\<close>

definition findCertByThumbprint :: "unicode \<Rightarrow> 'c win_api \<Rightarrow> string \<Rightarrow> goerror + 'c" where
  "findCertByThumbprint uc api thumbprint =
     (let normalized = removeAll (CHR '' '') (ToUpper uc thumbprint) in
      if CHR 0x00 \<in> set normalized then Err ErrCertificateNotFound
      else case wa_Find api normalized of
             None \<Rightarrow> Err ErrCertificateNotFound
           | Some ctx \<Rightarrow> Ok ctx)"

text \<open>The loops of the two listings, over the contexts an enumeration yields.\<close>

type_synonym seen_list = "string list \<times> CertificateInfo list"

definition byProviderStep :: "unicode \<Rightarrow> ('k, 'm) crypto_lib_scheme \<Rightarrow> 'c win_api \<Rightarrow> string \<Rightarrow> seen_list \<Rightarrow> 'c \<Rightarrow> seen_list" where
  "byProviderStep uc lib api providerName acc ctx =
     (case acc of (seen, out) \<Rightarrow>
        (let prov = certProviderName api ctx in
         if prov \<noteq> [] \<and> (providerName = [] \<or> EqualFold uc prov providerName) then
           (case certInfoFromContextWithoutKeyCheck uc lib api ctx prov of
              None \<Rightarrow> acc
            | Some info \<Rightarrow>
                (let tp = NormalizeThumbprint uc (ci_Thumbprint info) in
                 if tp \<in> set seen then acc else (tp # seen, out @ [info])))
         else acc))"

definition win_ListCertificatesByProvider :: "unicode \<Rightarrow> ('k, 'm) crypto_lib_scheme \<Rightarrow> 'c win_api \<Rightarrow> 'k file_store \<Rightarrow> string \<Rightarrow>
    goerror + CertificateInfo list" where
  "win_ListCertificatesByProvider uc lib api st providerName =
     (if CertDir st \<noteq> [] then Ok (listFromFileStoreByProvider uc providerName st)
      else Ok (snd (foldl (\<lambda>acc which.
             if openStoreWithFlags api which \<noteq> None then acc
             else foldl (byProviderStep uc lib api providerName) acc (fst (wa_Enum api which)))
           ([], []) [CurrentUserMy, LocalMachineMy])))"

fun listLoop :: "unicode \<Rightarrow> ('k, 'm) crypto_lib_scheme \<Rightarrow> 'c win_api \<Rightarrow> 'c list \<Rightarrow> CertificateInfo list run \<times> nat list" where
  "listLoop uc lib api [] = (Ret [], [])"
| "listLoop uc lib api (ctx # ctxs) =
     (case certInfoFromContext uc lib api ctx of
        (Panicked, freed) \<Rightarrow> (Panicked, freed)
      | (Ret info, freed) \<Rightarrow>
          (case listLoop uc lib api ctxs of
             (r, freed') \<Rightarrow>
               (runBind r (\<lambda>rest. Ret (case info of None \<Rightarrow> rest | Some i \<Rightarrow> i # rest)), freed @ freed')))"

definition win_ListCertificates :: "unicode \<Rightarrow> ('k, 'm) crypto_lib_scheme \<Rightarrow> 'c win_api \<Rightarrow> 'k file_store \<Rightarrow>
    (goerror + CertificateInfo list) run \<times> nat list" where
  "win_ListCertificates uc lib api st =
     (if CertDir st \<noteq> [] then (Ret (Ok (listFromFileStore st)), [])
      else case openMyStore api of
             Some e \<Rightarrow> (Ret (Err e), [])
           | None \<Rightarrow>
               (case wa_Enum api CurrentUserMy of (ctxs, fin) \<Rightarrow>
                (case listLoop uc lib api ctxs of (r, freed) \<Rightarrow>
                 (runBind r (\<lambda>out. Ret (case fin of
                     Some e \<Rightarrow> Err (Wrapped ''enumerate certificates'' e)
                   | None \<Rightarrow> Ok out)), freed))))"

definition win_SignHash :: "unicode \<Rightarrow> ('k, 'm) crypto_lib_scheme \<Rightarrow> 'c win_api \<Rightarrow> 'k file_store \<Rightarrow> string \<Rightarrow> bytes \<Rightarrow>
    HashAlgorithm \<Rightarrow> RSAPadding \<Rightarrow> (goerror + SignResult) run \<times> nat list" where
  "win_SignHash uc lib api st thumbprint digest hash padding0 =
     (if CertDir st \<noteq> [] then (Ret (signWithFileStore uc lib st thumbprint digest hash padding0), [])
      else case CryptoHash hash of
        Inl e \<Rightarrow> (Ret (Err e), [])
      | Inr cryptoHash \<Rightarrow>
     (case DigestSize hash of
        Inl e \<Rightarrow> (Ret (Err e), [])
      | Inr expectedLen \<Rightarrow>
     (if length digest \<noteq> expectedLen then (Ret (Err ErrInvalidDigest), [])
      else let padding = effPadding padding0 in
     case openMyStore api of
       Some e \<Rightarrow> (Ret (Err e), [])
     | None \<Rightarrow>
     (case findCertByThumbprint uc api thumbprint of
        Inl e \<Rightarrow> (Ret (Err e), [])
      | Inr ctx \<Rightarrow>
     (case signHashWithCert api ctx digest cryptoHash padding of
        (Panicked, freed) \<Rightarrow> (Panicked, freed)
      | (Ret (Inl e), freed) \<Rightarrow> (Ret (Err (Wrapped ''sign hash'' e)), freed)
      | (Ret (Inr (sig, algName)), freed) \<Rightarrow>
          (Ret (Ok \<lparr>sr_Signature = sig, sr_SignatureAlgorithm = algName, sr_Padding = padding\<rparr>), freed))))))"

section \<open>Signing\<close>

lemma acquirePrivateKey_OkE:
  assumes "acquirePrivateKey api cert = Ret (Ok (kh, grp, mf))"
  obtains spec where "wa_Acquire api cert = Some (kh, winNcryptKeySpec, mf)"
  using assms by (auto simp: acquirePrivateKey_def runBind_Ret_iff split: option.splits prod.splits if_splits)

text \<open>
  The algorithm group of a key: the property \<^verbatim>\<open>Algorithm Group\<close> that the two calls of \<^verbatim>\<open>NCryptGetProperty\<close> give, a
  string of little-endian 16-bit characters, and RSA where it cannot be read or is shorter than a character.
\<close>

fun utf16le :: "bytes \<Rightarrow> 16 word list" where
  "utf16le (lo # hi # bs) = word_of_nat (unat lo + 256 * unat hi) # utf16le bs"
| "utf16le bs = []"

definition alg_group :: "'c win_api \<Rightarrow> nat \<Rightarrow> string \<Rightarrow> bool" where
  "alg_group api kh grp \<longleftrightarrow>
     (case wa_PropSize api kh of
        Inl e \<Rightarrow> grp = ''RSA''
      | Inr n \<Rightarrow>
          (case wa_PropData api kh n of
             Inl e \<Rightarrow> grp = ''RSA''
           | Inr (buf, m) \<Rightarrow> grp = (if m < 2 then ''RSA'' else wa_UTF16ToString api (utf16le (take m buf)))))"

lemma utf16_char: "(ucast lo OR push_bit 8 (ucast hi) :: 16 word) = word_of_nat (unat (lo :: byte) + 256 * unat (hi :: byte))"
proof -
  have "(ucast lo :: 16 word) OR push_bit 8 (ucast hi) = ucast lo + push_bit 8 (ucast hi)"
    by (rule disjunctive_add [symmetric]) (auto simp: bit_simps dest: bit_imp_le_length)
  then show ?thesis by (simp add: push_bit_eq_mult mult.commute)
qed

lemma utf16le_loop:
  "map (\<lambda>i. ucast (buf ! (2 * i)) OR push_bit 8 (ucast (buf ! (2 * i + 1)))) [0..<length buf div 2] = utf16le buf"
proof (induction buf rule: utf16le.induct)
  case (1 lo hi bs)
  have "[0..<length (lo # hi # bs) div 2] = 0 # map Suc [0..<length bs div 2]"
    by (simp add: upt_conv_Cons map_Suc_upt del: upt_Suc)
  with 1 show ?case by (simp add: utf16_char comp_def)
qed simp_all

lemma getPropertyString_utf16le:
  "getPropertyString api kh =
     runBind (getProperty api kh) (\<lambda>r.
       case r of
         Inl e \<Rightarrow> Ret (Err e)
       | Inr buf \<Rightarrow>
           if length buf < 2 then Ret (Err (ErrorString ''empty property value''))
           else Ret (Ok (wa_UTF16ToString api (utf16le buf))))"
  by (simp only: getPropertyString_def utf16le_loop)

lemma acquirePrivateKey_group:
  "acquirePrivateKey api cert = Ret (Ok (kh, grp, mf)) \<Longrightarrow> alg_group api kh grp"
  by (auto simp: acquirePrivateKey_def getPropertyString_utf16le getProperty_def sliceTo_def alg_group_def runBind_Ret_iff
      split: option.splits prod.splits if_splits sum.splits)

lemma acquirePrivateKey_Err:
  "acquirePrivateKey api cert = Ret (Err e) \<Longrightarrow> e = ErrNoPrivateKey"
  by (auto simp: acquirePrivateKey_def runBind_Ret_iff split: option.splits prod.splits if_splits)

lemma withAlg_Ok_iff: "withAlg alg r = Ok (sig, a) \<longleftrightarrow> r = Ok sig \<and> a = alg"
  by (auto simp: withAlg_def andThen_Ok_iff)

text \<open>
  What a signature by a key handle is: the bytes of \<^verbatim>\<open>NCryptSignHash\<close> on the digest, called for the size and then for the
  data, without padding for an elliptic curve, where the two halves become a DER sequence of integers, and with
  the padding structure of the hash and the padding for RSA.
\<close>

definition ncrypt_signature :: "'c win_api \<Rightarrow> nat \<Rightarrow> pad_info \<Rightarrow> bytes \<Rightarrow> bytes \<Rightarrow> bool" where
  "ncrypt_signature api kh pad digest sig \<longleftrightarrow>
     (\<exists>n buf m. wa_SignSize api kh pad digest = Ok n \<and> wa_SignData api kh pad digest n = Ok (buf, m) \<and> sig = take m buf)"

fun cng_hash_name :: "crypto_hash \<Rightarrow> string" where
  "cng_hash_name SHA256 = ''SHA256''"
| "cng_hash_name SHA384 = ''SHA384''"
| "cng_hash_name SHA512 = ''SHA512''"

definition cng_signed :: "'c win_api \<Rightarrow> nat \<Rightarrow> string \<Rightarrow> bytes \<Rightarrow> crypto_hash \<Rightarrow> RSAPadding \<Rightarrow> bytes \<Rightarrow> string \<Rightarrow> bool" where
  "cng_signed api kh grp digest h padding sig alg \<longleftrightarrow>
     (grp \<in> {''ECDSA'', ''ECDH''} \<and> padding \<noteq> 2 \<and> alg = ''ECDSA'' \<and>
        (\<exists>raw. ncrypt_signature api kh NoPadding digest raw \<and>
           wa_ECDSA_DER api (SetBytes (take (length raw div 2) raw))
             (SetBytes (take (length raw div 2) (drop (length raw div 2) raw))) = Ok sig)) \<or>
     (grp = ''RSA'' \<and> padding = 2 \<and> alg = ''RSASSA-PSS'' \<and>
        ncrypt_signature api kh (PadPSS (cng_hash_name h) (length digest)) digest sig) \<or>
     (grp = ''RSA'' \<and> padding \<noteq> 2 \<and> alg = ''RSASSA-PKCS1-v1_5'' \<and>
        ncrypt_signature api kh (PadPKCS1 (cng_hash_name h)) digest sig)"

lemma ncryptSign_Ok: "ncryptSign api kh pad digest = Ret (Ok sig) \<Longrightarrow> ncrypt_signature api kh pad digest sig"
  by (auto simp: ncryptSign_def ncrypt_signature_def runBind_Ret_iff sliceTo_def split: if_splits sum.splits prod.splits)

lemma signECDSA_Ok:
  assumes "signECDSA api kh digest = Ret (Ok sig)"
  shows "\<exists>raw. ncrypt_signature api kh NoPadding digest raw \<and>
     wa_ECDSA_DER api (SetBytes (take (length raw div 2) raw))
       (SetBytes (take (length raw div 2) (drop (length raw div 2) raw))) = Ok sig"
proof -
  from assms obtain x where x: "ncryptSign api kh NoPadding digest = Ret x"
    and "(case x of Inl e \<Rightarrow> Ret (Err e) | Inr buf \<Rightarrow> Ret (packECDSASignature api buf (length buf div 2))) = Ret (Ok sig)"
    by (auto simp: signECDSA_def runBind_Ret_iff)
  then obtain raw where "x = Ok raw" "packECDSASignature api raw (length raw div 2) = Ok sig" by (cases x) auto
  with x ncryptSign_Ok [of api kh NoPadding digest raw] show ?thesis
    by (auto simp: packECDSASignature_def Let_def split: if_splits)
qed

lemma winAlgIDs_name: "winAlgIDs h = Some (cng_hash_name h)"
  by (cases h) (simp_all add: winAlgIDs_def)

lemma signHashWithCert_Ok:
  assumes "fst (signHashWithCert api cert digest h padding) = Ret (Ok (sig, alg))"
  shows "\<exists>kh grp mf. acquirePrivateKey api cert = Ret (Ok (kh, grp, mf)) \<and>
    cng_signed api kh grp digest h (effPadding padding) sig alg"
proof -
  obtain kh grp mf where a: "acquirePrivateKey api cert = Ret (Ok (kh, grp, mf))"
    using assms by (auto simp: signHashWithCert_def Let_def split: run.splits sum.splits prod.splits)
  have "cng_signed api kh grp digest h (effPadding padding) sig alg"
    using assms
    by (auto simp: signHashWithCert_def Let_def a winAlgIDs_name cng_signed_def withAlg_Ok_iff runBind_Ret_iff
        signRSAPSS_def signRSAPKCS1_def RSAPaddingPSS_def dest: ncryptSign_Ok signECDSA_Ok split: if_splits)
  with a show ?thesis by blast
qed

lemma effPadding_idem [simp]: "effPadding (effPadding p) = effPadding p"
  by (auto simp: effPadding_def RSAPaddingPKCS1_def)

lemma win_SignHash_Ok:
  assumes "fst (win_SignHash uc lib api st tp digest hash padding) = Ret (Ok r)" and "CertDir st = []"
  shows "\<exists>h ctx kh grp mf. CryptoHash hash = Ok h \<and> DigestSize hash = Ok (length digest) \<and>
    findCertByThumbprint uc api tp = Ok ctx \<and> acquirePrivateKey api ctx = Ret (Ok (kh, grp, mf)) \<and>
    sr_Padding r = effPadding padding \<and>
    cng_signed api kh grp digest h (effPadding padding) (sr_Signature r) (sr_SignatureAlgorithm r)"
proof -
  obtain h where h: "CryptoHash hash = Ok h"
    using assms by (cases "CryptoHash hash") (auto simp: win_SignHash_def)
  obtain n where n: "DigestSize hash = Ok n"
    using assms h by (cases "DigestSize hash") (auto simp: win_SignHash_def)
  have len: "length digest = n" and op: "openMyStore api = None"
    using assms h n by (auto simp: win_SignHash_def Let_def split: if_splits option.splits)
  obtain ctx where ctx: "findCertByThumbprint uc api tp = Ok ctx"
    using assms h n len op by (cases "findCertByThumbprint uc api tp") (auto simp: win_SignHash_def Let_def)
  obtain res freed where s: "signHashWithCert api ctx digest h (effPadding padding) = (res, freed)" by force
  obtain sig alg where res: "res = Ret (Ok (sig, alg))"
      and r: "r = \<lparr>sr_Signature = sig, sr_SignatureAlgorithm = alg, sr_Padding = effPadding padding\<rparr>"
    using assms by (auto simp: win_SignHash_def Let_def h n len op ctx s split: run.splits sum.splits)
  have "fst (signHashWithCert api ctx digest h (effPadding padding)) = Ret (Ok (sig, alg))" by (simp add: s res)
  from signHashWithCert_Ok [OF this] show ?thesis using h n len ctx r by auto
qed

lemma win_signature:
  assumes "fst (win_SignHash uc lib api st tp digest hash padding) = Ret (Ok r)" and "CertDir st = []"
  shows "\<exists>h ctx kh grp mf. CryptoHash hash = Ok h \<and> DigestSize hash = Ok (length digest) \<and>
    wa_Find api (removeAll (CHR '' '') (ToUpper uc tp)) = Some ctx \<and>
    wa_Acquire api ctx = Some (kh, winNcryptKeySpec, mf) \<and> alg_group api kh grp \<and>
    sr_Padding r = effPadding padding \<and>
    cng_signed api kh grp digest h (effPadding padding) (sr_Signature r) (sr_SignatureAlgorithm r)"
proof -
  obtain h ctx kh grp mf where "CryptoHash hash = Ok h" "DigestSize hash = Ok (length digest)"
      "findCertByThumbprint uc api tp = Ok ctx" "sr_Padding r = effPadding padding"
      "cng_signed api kh grp digest h (effPadding padding) (sr_Signature r) (sr_SignatureAlgorithm r)"
    and a: "acquirePrivateKey api ctx = Ret (Ok (kh, grp, mf))"
    using win_SignHash_Ok [OF assms] by blast
  moreover from this(3) have "wa_Find api (removeAll (CHR '' '') (ToUpper uc tp)) = Some ctx"
    by (auto simp: findCertByThumbprint_def Let_def split: option.splits if_splits)
  moreover from a have "wa_Acquire api ctx = Some (kh, winNcryptKeySpec, mf)" by (rule acquirePrivateKey_OkE)
  ultimately show ?thesis using acquirePrivateKey_group [OF a] by blast
qed

text \<open>
  C8: a signature of the Windows backend (without a certificate directory) is made by the CNG key of
  the certificate found for the upper-cased thumbprint without its spaces, over exactly the requested digest, which has
  the length of the hash. The key's property \<^verbatim>\<open>Algorithm Group\<close> decides how: without padding for ECDSA and
  ECDH, where the signature is the DER sequence of the two halves, and for RSA with the padding structure of the
  hash and the requested padding, PSS with a salt as long as the digest. The reported padding and algorithm are the ones used.
\<close>

theorem win_SignHash_sound:
  assumes "fst (win_SignHash uc lib api st tp digest hash padding) = Ret (Ok r)" and "CertDir st = []"
  shows "\<exists>h ctx kh grp mf. CryptoHash hash = Ok h \<and> DigestSize hash = Ok (length digest) \<and>
    wa_Find api (removeAll (CHR '' '') (ToUpper uc tp)) = Some ctx \<and>
    wa_Acquire api ctx = Some (kh, winNcryptKeySpec, mf) \<and> alg_group api kh grp \<and>
    sr_Padding r = effPadding padding \<and>
    cng_signed api kh grp digest h (effPadding padding) (sr_Signature r) (sr_SignatureAlgorithm r)"
  using assms by (rule win_signature)

definition demo_win :: "nat win_api" where
  "demo_win = \<lparr>wa_Open = (\<lambda>_. None), wa_Enum = (\<lambda>w. if w = CurrentUserMy then ([1, 2], None) else ([2, 1], None)),
     wa_Find = (\<lambda>s. if s = ''AA'' then Some 1 else if s = ''BB'' then Some 3 else None),
     wa_Encoded = (\<lambda>c. Some [of_nat c]), wa_ProvSize = (\<lambda>_. Some 8), wa_ProvName = (\<lambda>_. Some (Some ''P'')),
     wa_Acquire = (\<lambda>c. if c = 3 then None else Some (7, winNcryptKeySpec, c = 1)),
     wa_PropSize = (\<lambda>_. Err (ErrorString ''none'')), wa_PropData = (\<lambda>_ _. Err (ErrorString ''none'')),
     wa_SignSize = (\<lambda>_ _ _. Ok 3), wa_SignData = (\<lambda>_ _ _ _. Ok ([4, 5, 6], 3)),
     wa_UTF16ToString = (\<lambda>_. []), wa_ECDSA_DER = (\<lambda>r s. Ok [])\<rparr>"

lemma demo_empty: "CertDir (empty_store :: nat file_store) = []"
  by (simp add: CertDir_def empty_store_def)

lemma demo_upper: "removeAll (CHR '' '') (ToUpper demo_uc ''a A'') = ''AA''"
  by code_simp

lemma demo_win_sign:
  "win_SignHash demo_uc demo_lib demo_win (empty_store :: nat file_store) ''a A'' (replicate 32 7) 1 0 =
     (Ret (Ok \<lparr>sr_Signature = [4, 5, 6], sr_SignatureAlgorithm = ''RSASSA-PKCS1-v1_5'', sr_Padding = 1\<rparr>), [7])"
  by (simp add: win_SignHash_def demo_empty CryptoHash_def DigestSize_def HashSHA256_def openMyStore_def
      openStoreWithFlags_def findCertByThumbprint_def demo_upper signHashWithCert_def acquirePrivateKey_def
      getPropertyString_def getProperty_def signRSAPKCS1_def ncryptSign_def sliceTo_def withAlg_def
      freeNCryptObject_def winAlgIDs_def effPadding_def padding_consts demo_win_def)

theorem win_SignHash_sound_witness:
  "\<exists>h ctx kh grp mf. wa_Find demo_win ''AA'' = Some ctx \<and> wa_Acquire demo_win ctx = Some (kh, winNcryptKeySpec, mf) \<and>
     alg_group demo_win kh grp \<and> cng_signed demo_win kh grp (replicate 32 7) h 1 [4, 5, 6] ''RSASSA-PKCS1-v1_5''"
proof -
  from win_SignHash_sound [OF _ demo_empty, of demo_uc demo_lib demo_win "''a A''" "replicate 32 7" 1 0] demo_win_sign
  obtain h ctx kh grp mf where "wa_Find demo_win ''AA'' = Some ctx" "wa_Acquire demo_win ctx = Some (kh, winNcryptKeySpec, mf)"
    "alg_group demo_win kh grp" "cng_signed demo_win kh grp (replicate 32 7) h 1 [4, 5, 6] ''RSASSA-PKCS1-v1_5''"
    unfolding demo_upper by (auto simp: effPadding_def padding_consts)
  then show ?thesis by blast
qed

section \<open>The contract of a certificate store\<close>

fun returned :: "(goerror + 'a) run \<Rightarrow> goerror + 'a" where
  "returned (Ret r) = r"
| "returned Panicked = Err (ErrorString ''panic'')"

lemma returned_Ok_iff: "returned r = Ok x \<longleftrightarrow> r = Ret (Ok x)"
  by (cases r) simp_all

lemma cng_signed_alg:
  "cng_signed api kh grp d h p sig alg \<Longrightarrow>
   alg \<in> signature_algorithms \<and> (alg = ''RSASSA-PSS'' \<longleftrightarrow> p = RSAPaddingPSS)"
  by (auto simp: cng_signed_def signature_algorithms_def RSAPaddingPSS_def)

lemma listLoop_private:
  "fst (listLoop uc lib api ctxs) = Ret cs \<Longrightarrow> c \<in> set cs \<Longrightarrow> ci_HasPrivateKey c"
proof (induction ctxs arbitrary: cs)
  case (Cons ctx ctxs)
  have info: "ci_HasPrivateKey i" if "fst (certInfoFromContext uc lib api ctx) = Ret (Some i)" for i
    using that by (auto simp: certInfoFromContext_def contextInfo_def Let_def
        split: run.splits prod.splits sum.splits if_splits option.splits)
  show ?case
  proof (cases "certInfoFromContext uc lib api ctx")
    case (Pair r freed)
    with Cons.prems obtain i rest where "r = Ret i" "fst (listLoop uc lib api ctxs) = Ret rest"
      and "cs = (case i of None \<Rightarrow> rest | Some x \<Rightarrow> x # rest)"
      by (cases r; cases "listLoop uc lib api ctxs") (auto simp: runBind_Ret_iff)
    with Cons info Pair show ?thesis by (auto split: option.splits)
  qed
qed simp

interpretation wn: cert_backend "store_inv uc lib"
    "\<lambda>st. returned (fst (win_ListCertificates uc lib api st))"
    "\<lambda>st t d h p. returned (fst (win_SignHash uc lib api st t d h p))"
  for uc :: unicode and lib :: "('k, 'm) crypto_lib_scheme" and api :: "'c win_api"
proof unfold_locales
  fix s :: "'k file_store" and t d h p r
  assume "returned (fst (win_SignHash uc lib api s t d h p)) = Ok r"
  then have r: "fst (win_SignHash uc lib api s t d h p) = Ret (Ok r)" by (simp add: returned_Ok_iff)
  have "DigestSize h = Ok (length d) \<and> sr_Padding r = effPadding p \<and> sr_SignatureAlgorithm r \<in> signature_algorithms \<and>
      (sr_SignatureAlgorithm r = ''RSASSA-PSS'' \<longleftrightarrow> sr_Padding r = RSAPaddingPSS)"
  proof (cases "CertDir s = []")
    case True
    with win_SignHash_Ok [OF r] show ?thesis by (auto dest: cng_signed_alg)
  next
    case False
    with r have "signWithFileStore uc lib s t d h p = Ok r" by (simp add: win_SignHash_def)
    from signWithFileStore_Ok [OF this] show ?thesis by (auto dest: signed_by_alg)
  qed
  then show "DigestSize h = Ok (length d)" and "sr_Padding r = effPadding p"
    and "sr_SignatureAlgorithm r \<in> signature_algorithms \<and>
      (sr_SignatureAlgorithm r = ''RSASSA-PSS'' \<longleftrightarrow> sr_Padding r = RSAPaddingPSS)" by auto
next
  fix s :: "'k file_store" and t d h n p e
  assume a: "DigestSize h = Ok n" "length d \<noteq> n" "returned (fst (win_SignHash uc lib api s t d h p)) = Err e"
  then have "\<exists>c. CryptoHash h = Ok c" by (auto simp: DigestSize_def CryptoHash_def split: if_splits)
  with a show "e = ErrInvalidDigest \<or> e = ErrUnsupportedPlatform"
    by (auto simp: win_SignHash_def signWithFileStore_bad_digest split: if_splits)
next
  fix s :: "'k file_store" and cs c
  assume a: "store_inv uc lib s" "returned (fst (win_ListCertificates uc lib api s)) = Ok cs" "c \<in> set cs"
  show "ci_HasPrivateKey c"
  proof (cases "CertDir s = []")
    case True
    with a(2) have "fst (listLoop uc lib api (fst (wa_Enum api CurrentUserMy))) = Ret cs"
      by (auto simp: win_ListCertificates_def returned_Ok_iff runBind_Ret_iff split: option.splits prod.splits)
    with a(3) show ?thesis using listLoop_private by blast
  next
    case False
    with a show ?thesis
      by (auto simp: win_ListCertificates_def listFromFileStore_def store_inv_def identity_ok_def)
  qed
qed

text \<open>
  On Windows the store wraps every error of the signing step, so the service, which compares
  errors with \<^verbatim>\<open>==\<close>, recognises none of them: a certificate without a private key or PSS padding
  for an ECDSA key is reported to the client as Internal, where the other backends make the service
  report InvalidArgument.
\<close>

lemma windows_sign_errors_are_internal:
  assumes "CertDir st = []" and "request_valid req" and "DigestSize (rq_HashAlgorithm req) = Ok (length (rq_Digest req))"
    and "openMyStore api = None" and "findCertByThumbprint uc api (rq_Thumbprint req) = Ok ctx"
    and "CryptoHash (rq_HashAlgorithm req) = Ok h"
    and "fst (signHashWithCert api ctx (rq_Digest req) h (storePadding (rq_RsaPadding req))) = Ret (Err e)"
  shows "\<exists>m. service_SignHash (\<lambda>t d h p. returned (fst (win_SignHash uc lib api st t d h p))) req =
    Err (Status Internal m)"
proof -
  have "fst (win_SignHash uc lib api st (rq_Thumbprint req) (rq_Digest req) (rq_HashAlgorithm req)
      (storePadding (rq_RsaPadding req))) = Ret (Err (Wrapped ''sign hash'' e))"
    using assms by (auto simp: win_SignHash_def Let_def split: prod.splits run.splits sum.splits)
  then show ?thesis
    by (simp add: service_SignHash_valid [OF assms(2)] signErrorStatus_def sentinel_defs)
qed

lemma windows_sign_errors_are_internal_witness:
  "\<exists>m. service_SignHash (\<lambda>t d h p. returned (fst (win_SignHash demo_uc demo_lib demo_win (empty_store :: nat file_store) t d h p)))
     (demo_request ''BB'') = Err (Status Internal m)"
proof -
  have v: "request_valid (demo_request ''BB'')" by (simp add: demo_request_valid)
  have u: "removeAll (CHR '' '') (ToUpper demo_uc ''BB'') = ''BB''" by code_simp
  have f: "findCertByThumbprint demo_uc demo_win (rq_Thumbprint (demo_request ''BB'')) = Ok 3"
    by (simp add: findCertByThumbprint_def demo_request_def u demo_win_def)
  have s: "fst (signHashWithCert demo_win 3 (rq_Digest (demo_request ''BB'')) SHA256
      (storePadding (rq_RsaPadding (demo_request ''BB'')))) = Ret (Err ErrNoPrivateKey)"
    by (simp add: signHashWithCert_def acquirePrivateKey_def demo_win_def)
  show ?thesis
    by (rule windows_sign_errors_are_internal [OF demo_empty v _ _ f _ s])
      (simp_all add: demo_request_def DigestSize_def CryptoHash_def HashSHA256_def openMyStore_def
        openStoreWithFlags_def demo_win_def)
qed

section \<open>Listing by provider\<close>

text \<open>The entry a context contributes, and the contexts of the stores that can be opened.\<close>

definition provider_entry :: "unicode \<Rightarrow> ('k, 'm) crypto_lib_scheme \<Rightarrow> 'c win_api \<Rightarrow> string \<Rightarrow> 'c \<Rightarrow> CertificateInfo option" where
  "provider_entry uc lib api providerName ctx =
     (let prov = certProviderName api ctx in
      if prov \<noteq> [] \<and> (providerName = [] \<or> EqualFold uc prov providerName)
      then certInfoFromContextWithoutKeyCheck uc lib api ctx prov else None)"

definition open_contexts :: "'c win_api \<Rightarrow> 'c list" where
  "open_contexts api =
     concat (map (\<lambda>which. if wa_Open api which = None then fst (wa_Enum api which) else []) [CurrentUserMy, LocalMachineMy])"

definition entry_key :: "unicode \<Rightarrow> CertificateInfo \<Rightarrow> string" where
  "entry_key uc info = NormalizeThumbprint uc (ci_Thumbprint info)"

definition dedup_ok :: "unicode \<Rightarrow> CertificateInfo list \<Rightarrow> seen_list \<Rightarrow> bool" where
  "dedup_ok uc entries acc \<longleftrightarrow>
     set (fst acc) = entry_key uc ` set (snd acc) \<and> distinct (map (entry_key uc) (snd acc)) \<and>
     set (snd acc) \<subseteq> set entries \<and> entry_key uc ` set (snd acc) = entry_key uc ` set entries"

lemma byProviderStep_dedup:
  assumes "dedup_ok uc entries acc"
  shows "dedup_ok uc (entries @ (case provider_entry uc lib api p ctx of None \<Rightarrow> [] | Some i \<Rightarrow> [i]))
    (byProviderStep uc lib api p acc ctx)"
proof -
  obtain seen out where acc: "acc = (seen, out)" by (cases acc)
  have "byProviderStep uc lib api p acc ctx =
      (case provider_entry uc lib api p ctx of
         None \<Rightarrow> acc
       | Some i \<Rightarrow> if entry_key uc i \<in> set seen then acc else (entry_key uc i # seen, out @ [i]))"
    by (simp add: byProviderStep_def provider_entry_def acc Let_def entry_key_def split: option.split)
  with assms acc show ?thesis
    by (auto simp: dedup_ok_def split: option.split)
qed

lemma foldl_byProvider_dedup:
  "dedup_ok uc entries acc \<Longrightarrow>
   dedup_ok uc (entries @ List.map_filter (provider_entry uc lib api p) ctxs) (foldl (byProviderStep uc lib api p) acc ctxs)"
proof (induction ctxs arbitrary: entries acc)
  case (Cons ctx ctxs)
  from Cons.IH [OF byProviderStep_dedup [OF Cons.prems, of lib api p ctx]] show ?case
    by (simp add: List.map_filter_simps split: option.splits)
qed (simp add: map_filter_def)

text \<open>
  Listing by provider never lists a certificate twice. Without a certificate directory the result
  holds, for every context of the current user's and the machine's store that names a matching provider
  and has a certificate that parses, one entry with its thumbprint, and nothing else; no two entries
  have the same normalised thumbprint. A store that cannot be opened is skipped; the call never fails.
\<close>

lemma win_ListCertificatesByProvider_dedup:
  assumes "CertDir st = []"
  shows "\<exists>out. win_ListCertificatesByProvider uc lib api st providerName = Ok out \<and>
    distinct (map (entry_key uc) out) \<and>
    set out \<subseteq> set (List.map_filter (provider_entry uc lib api providerName) (open_contexts api)) \<and>
    entry_key uc ` set out = entry_key uc ` set (List.map_filter (provider_entry uc lib api providerName) (open_contexts api))"
proof -
  let ?step = "byProviderStep uc lib api providerName"
  have flat: "snd (foldl (\<lambda>acc which. if openStoreWithFlags api which \<noteq> None then acc
        else foldl ?step acc (fst (wa_Enum api which))) ([], []) [CurrentUserMy, LocalMachineMy]) =
      snd (foldl ?step ([], []) (open_contexts api))"
    by (simp add: open_contexts_def openStoreWithFlags_def)
  have "dedup_ok uc [] ([], [])" by (simp add: dedup_ok_def)
  from foldl_byProvider_dedup [OF this, of lib api providerName "open_contexts api"]
  have inv: "dedup_ok uc (List.map_filter (provider_entry uc lib api providerName) (open_contexts api))
      (foldl ?step ([], []) (open_contexts api))" by simp
  have "win_ListCertificatesByProvider uc lib api st providerName = Ok (snd (foldl ?step ([], []) (open_contexts api)))"
    unfolding win_ListCertificatesByProvider_def flat using assms by simp
  with inv show ?thesis unfolding dedup_ok_def by blast
qed

lemma win_ListCertificatesByProvider_dedup_witness:
  "\<exists>out. win_ListCertificatesByProvider demo_uc demo_lib demo_win (empty_store :: nat file_store) ''p'' = Ok out \<and>
     distinct (map (entry_key demo_uc) out)"
  using win_ListCertificatesByProvider_dedup [OF demo_empty] by blast

section \<open>Key handles\<close>

definition owned_handles :: "'c win_api \<Rightarrow> 'c \<Rightarrow> nat list" where
  "owned_handles api ctx =
     (case wa_Acquire api ctx of
        Some (kh, spec, True) \<Rightarrow> if spec = winNcryptKeySpec \<and> kh \<noteq> 0 then [kh] else []
      | _ \<Rightarrow> [])"

lemma acquire_owned:
  "acquirePrivateKey api ctx = Ret (Err e) \<Longrightarrow> owned_handles api ctx = []"
  "acquirePrivateKey api ctx = Ret (Ok (kh, grp, mf)) \<Longrightarrow>
     owned_handles api ctx = (if mf then freeNCryptObject kh else [])"
proof -
  consider "wa_Acquire api ctx = None" | k sp m where "wa_Acquire api ctx = Some (k, sp, m)"
    by (cases "wa_Acquire api ctx") auto
  then have "(acquirePrivateKey api ctx = Ret (Err e) \<longrightarrow> owned_handles api ctx = []) \<and>
      (acquirePrivateKey api ctx = Ret (Ok (kh, grp, mf)) \<longrightarrow>
         owned_handles api ctx = (if mf then freeNCryptObject kh else []))"
  proof cases
    case 1
    then show ?thesis by (simp add: acquirePrivateKey_def owned_handles_def)
  next
    case 2
    then show ?thesis
      by (cases m) (auto simp: acquirePrivateKey_def owned_handles_def freeNCryptObject_def runBind_Ret_iff)
  qed
  then show "acquirePrivateKey api ctx = Ret (Err e) \<Longrightarrow> owned_handles api ctx = []"
    "acquirePrivateKey api ctx = Ret (Ok (kh, grp, mf)) \<Longrightarrow>
     owned_handles api ctx = (if mf then freeNCryptObject kh else [])" by auto
qed

lemma hasPrivateKey_frees:
  "fst (hasPrivateKey api ctx) \<noteq> Panicked \<Longrightarrow> snd (hasPrivateKey api ctx) = owned_handles api ctx"
  by (auto simp: hasPrivateKey_def acquire_owned split: run.splits sum.splits)

lemma signHashWithCert_frees:
  "fst (signHashWithCert api ctx d h p) \<noteq> Panicked \<Longrightarrow> snd (signHashWithCert api ctx d h p) = owned_handles api ctx"
proof -
  assume "fst (signHashWithCert api ctx d h p) \<noteq> Panicked"
  moreover have "snd (signHashWithCert api ctx d h p) =
      (case acquirePrivateKey api ctx of Ret (Inr (kh, _, mf)) \<Rightarrow> if mf then freeNCryptObject kh else [] | _ \<Rightarrow> [])"
    by (simp add: signHashWithCert_def Let_def split: run.split sum.split prod.split)
  moreover have "acquirePrivateKey api ctx = Panicked \<Longrightarrow> fst (signHashWithCert api ctx d h p) = Panicked"
    by (simp add: signHashWithCert_def)
  ultimately show ?thesis
    by (auto simp: acquire_owned split: run.splits sum.splits)
qed

text \<open>
  No key handle leaks and none is freed that belongs to the system's cache: a listing that returns
  has freed, once each and in order, exactly the handles that the calls for its contexts handed to the
  caller, and a signing step that returns, with a signature or with an error, exactly the one of its key.
\<close>

lemma win_handles_freed:
  "(fst (listLoop uc lib api ctxs) \<noteq> Panicked \<longrightarrow>
     snd (listLoop uc lib api ctxs) = concat (map (owned_handles api) ctxs)) \<and>
   (fst (signHashWithCert api ctx d h p) \<noteq> Panicked \<longrightarrow>
     snd (signHashWithCert api ctx d h p) = owned_handles api ctx)"
proof -
  have "snd (listLoop uc lib api ctxs) = concat (map (owned_handles api) ctxs)"
    if "fst (listLoop uc lib api ctxs) \<noteq> Panicked"
    using that
  proof (induction ctxs)
    case (Cons ctx ctxs)
    obtain r freed where i: "certInfoFromContext uc lib api ctx = (r, freed)" by force
    with Cons.prems have "r \<noteq> Panicked" by auto
    with i have "freed = owned_handles api ctx"
      using hasPrivateKey_frees [of api ctx]
      by (auto simp: certInfoFromContext_def split: prod.splits run.splits if_splits option.splits)
    moreover have "fst (listLoop uc lib api ctxs) \<noteq> Panicked"
      using Cons.prems i by (cases r; cases "listLoop uc lib api ctxs") auto
    ultimately show ?case
      using Cons.IH i \<open>r \<noteq> Panicked\<close> by (cases r; cases "listLoop uc lib api ctxs") auto
  qed simp
  with signHashWithCert_frees [of api ctx d h p] show ?thesis by blast
qed

lemma win_handles_freed_witness:
  "snd (signHashWithCert demo_win 1 (replicate 32 7) SHA256 0) = [7]"
proof -
  have "fst (signHashWithCert demo_win 1 (replicate 32 7) SHA256 0) \<noteq> Panicked"
    by (simp add: signHashWithCert_def acquirePrivateKey_def getPropertyString_def getProperty_def signRSAPKCS1_def
        ncryptSign_def sliceTo_def winAlgIDs_def effPadding_def padding_consts demo_win_def)
  with win_handles_freed [of demo_uc demo_lib demo_win "[]" 1 "replicate 32 7" SHA256 0] show ?thesis
    by (simp add: owned_handles_def demo_win_def)
qed

end
