(* ===== verification/Win_Resources.thy ===== *)
theory Win_Resources
  imports Store_Windows
begin

text \<open>
  The certificate contexts and store handles of the Windows backend (\<^verbatim>\<open>internal/certstore/store_windows.go\<close>): for
  each of its three operations the calls on the certificate store in the order in which they are made, the
  deferred ones included, also when the operation panics. \<^verbatim>\<open>CertEnumCertificatesInStore\<close> frees
  the context it is given, as its documentation says, whatever it returns.
\<close>

section \<open>The calls\<close>

datatype 'c store_op =
    CertOpenStore win_store
  | CertEnumCertificatesInStore "'c option" "'c option"
  | CertFindCertificateInStore "'c option"
  | CertFreeCertificateContext 'c
  | CertCloseStore win_store

text \<open>
  An enumeration: each call gets the context before and yields the next; the last one yields none. The loop of
  \<^verbatim>\<open>ListCertificates\<close> stops where looking at a context panics.
\<close>

fun enumOps :: "('c \<Rightarrow> bool) \<Rightarrow> 'c option \<Rightarrow> 'c list \<Rightarrow> 'c store_op list" where
  "enumOps panics prev [] = [CertEnumCertificatesInStore prev None]"
| "enumOps panics prev (ctx # ctxs) =
     CertEnumCertificatesInStore prev (Some ctx) # (if panics ctx then [] else enumOps panics (Some ctx) ctxs)"

definition infoPanics :: "unicode \<Rightarrow> ('k, 'm) crypto_lib_scheme \<Rightarrow> 'c win_api \<Rightarrow> 'c \<Rightarrow> bool" where
  "infoPanics uc lib api ctx \<longleftrightarrow> (case fst (certInfoFromContext uc lib api ctx) of Panicked \<Rightarrow> True | Ret _ \<Rightarrow> False)"

definition win_ListCertificates_ops :: "unicode \<Rightarrow> ('k, 'm) crypto_lib_scheme \<Rightarrow> 'c win_api \<Rightarrow> 'k file_store \<Rightarrow> 'c store_op list" where
  "win_ListCertificates_ops uc lib api st =
     (if CertDir st \<noteq> [] then []
      else case openMyStore api of
             Some e \<Rightarrow> []
           | None \<Rightarrow> CertOpenStore CurrentUserMy #
               enumOps (infoPanics uc lib api) None (fst (wa_Enum api CurrentUserMy)) @ [CertCloseStore CurrentUserMy])"

definition win_ListCertificatesByProvider_ops :: "'c win_api \<Rightarrow> 'k file_store \<Rightarrow> 'c store_op list" where
  "win_ListCertificatesByProvider_ops api st =
     (if CertDir st \<noteq> [] then []
      else concat (map (\<lambda>which.
             case openStoreWithFlags api which of
               Some e \<Rightarrow> []
             | None \<Rightarrow> CertOpenStore which # enumOps (\<lambda>_. False) None (fst (wa_Enum api which)) @ [CertCloseStore which])
           [CurrentUserMy, LocalMachineMy]))"

definition findOps :: "unicode \<Rightarrow> 'c win_api \<Rightarrow> string \<Rightarrow> 'c store_op list" where
  "findOps uc api thumbprint =
     (let normalized = removeAll (CHR '' '') (ToUpper uc thumbprint) in
      if CHR 0x00 \<in> set normalized then [] else [CertFindCertificateInStore (wa_Find api normalized)])"

definition win_SignHash_ops :: "unicode \<Rightarrow> 'c win_api \<Rightarrow> 'k file_store \<Rightarrow> string \<Rightarrow> bytes \<Rightarrow> HashAlgorithm \<Rightarrow> 'c store_op list" where
  "win_SignHash_ops uc api st thumbprint digest hash =
     (if CertDir st \<noteq> [] then []
      else if \<not> isOk (CryptoHash hash) then []
      else case DigestSize hash of
        Inl e \<Rightarrow> []
      | Inr expectedLen \<Rightarrow>
     (if length digest \<noteq> expectedLen then []
      else case openMyStore api of
        Some e \<Rightarrow> []
      | None \<Rightarrow>
          CertOpenStore CurrentUserMy # findOps uc api thumbprint @
          (case findCertByThumbprint uc api thumbprint of
             Inl e \<Rightarrow> []
           | Inr ctx \<Rightarrow> [CertFreeCertificateContext ctx]) @ [CertCloseStore CurrentUserMy]))"

section \<open>What is taken and given back\<close>

fun ctxTaken :: "'c store_op \<Rightarrow> 'c list" where
  "ctxTaken (CertEnumCertificatesInStore prev (Some c)) = [c]"
| "ctxTaken (CertFindCertificateInStore (Some c)) = [c]"
| "ctxTaken _ = []"

fun ctxReturned :: "'c store_op \<Rightarrow> 'c list" where
  "ctxReturned (CertEnumCertificatesInStore (Some c) r) = [c]"
| "ctxReturned (CertFreeCertificateContext c) = [c]"
| "ctxReturned _ = []"

fun storeTaken :: "'c store_op \<Rightarrow> win_store list" where
  "storeTaken (CertOpenStore w) = [w]"
| "storeTaken _ = []"

fun storeReturned :: "'c store_op \<Rightarrow> win_store list" where
  "storeReturned (CertCloseStore w) = [w]"
| "storeReturned _ = []"

definition opsOf :: "('c store_op \<Rightarrow> 'a list) \<Rightarrow> 'c store_op list \<Rightarrow> 'a list" where
  "opsOf f ops = concat (map f ops)"

lemma opsOf_simps [simp]: "opsOf f [] = []" "opsOf f (x # xs) = f x @ opsOf f xs" "opsOf f (xs @ ys) = opsOf f xs @ opsOf f ys"
  by (simp_all add: opsOf_def)

definition all_returned :: "'c store_op list \<Rightarrow> bool" where
  "all_returned ops \<longleftrightarrow> opsOf ctxTaken ops = opsOf ctxReturned ops \<and> opsOf storeTaken ops = opsOf storeReturned ops"

lemma enumOps_stores [simp]: "opsOf storeTaken (enumOps P prev ctxs) = []" "opsOf storeReturned (enumOps P prev ctxs) = []"
  by (induction ctxs arbitrary: prev) simp_all

lemma enumOps_contexts:
  "if list_ex P ctxs
   then (\<exists>c. P c \<and> (case prev of None \<Rightarrow> [] | Some c0 \<Rightarrow> [c0]) @ opsOf ctxTaken (enumOps P prev ctxs) = opsOf ctxReturned (enumOps P prev ctxs) @ [c])
   else (case prev of None \<Rightarrow> [] | Some c0 \<Rightarrow> [c0]) @ opsOf ctxTaken (enumOps P prev ctxs) = opsOf ctxReturned (enumOps P prev ctxs)"
proof (induction ctxs arbitrary: prev)
  case Nil
  show ?case by (cases prev) simp_all
next
  case (Cons c ctxs)
  from Cons.IH [of "Some c"] show ?case by (cases prev) auto
qed

lemma listLoop_panics: "fst (listLoop uc lib api ctxs) = Panicked \<longleftrightarrow> list_ex (infoPanics uc lib api) ctxs"
proof (induction ctxs)
  case (Cons c ctxs)
  obtain r freed where c: "certInfoFromContext uc lib api c = (r, freed)" by fastforce
  obtain r' freed' where l: "listLoop uc lib api ctxs = (r', freed')" by fastforce
  from Cons show ?case by (cases r; cases r') (simp_all add: c l infoPanics_def)
qed simp

lemma infoPanics_iff: "infoPanics uc lib api ctx \<longleftrightarrow> fst (certInfoFromContext uc lib api ctx) = Panicked"
  by (simp add: infoPanics_def split: run.split)

lemma win_ListCertificates_panics:
  "fst (win_ListCertificates uc lib api st) = Panicked \<longleftrightarrow>
     CertDir st = [] \<and> openMyStore api = None \<and> list_ex (infoPanics uc lib api) (fst (wa_Enum api CurrentUserMy))"
proof -
  obtain ctxs fin where e: "wa_Enum api CurrentUserMy = (ctxs, fin)" by fastforce
  obtain r freed where l: "listLoop uc lib api ctxs = (r, freed)" by fastforce
  with listLoop_panics [of uc lib api ctxs] show ?thesis
    by (cases r) (auto simp: win_ListCertificates_def e split: option.split)
qed

section \<open>Properties\<close>

text \<open>
  C38: the Windows backend gives back every certificate context and every store handle it takes, each
  once and in order, on every path of listing by provider and of signing, and on every path of listing that returns. Where
  listing panics (the algorithm group of a key has size zero, a context has no bytes), the store is still closed, and exactly the context
  that was looked at is not freed.
\<close>

theorem win_backend_resources:
  "all_returned (win_ListCertificatesByProvider_ops api st) \<and>
   all_returned (win_SignHash_ops uc api st thumbprint digest hash) \<and>
   (case fst (win_ListCertificates uc lib api st) of
      Ret r \<Rightarrow> all_returned (win_ListCertificates_ops uc lib api st)
    | Panicked \<Rightarrow>
        opsOf storeTaken (win_ListCertificates_ops uc lib api st) = opsOf storeReturned (win_ListCertificates_ops uc lib api st) \<and>
        (\<exists>ctx. fst (certInfoFromContext uc lib api ctx) = Panicked \<and>
           opsOf ctxTaken (win_ListCertificates_ops uc lib api st) = opsOf ctxReturned (win_ListCertificates_ops uc lib api st) @ [ctx]))"
proof (intro conjI)
  note enum = enumOps_contexts [of _ _ None]
  show "all_returned (win_ListCertificatesByProvider_ops api st)"
    using enum [of "\<lambda>_. False"]
    by (auto simp: win_ListCertificatesByProvider_ops_def all_returned_def list_ex_iff split: option.split)
  show "all_returned (win_SignHash_ops uc api st thumbprint digest hash)"
    by (auto simp: win_SignHash_ops_def all_returned_def findOps_def findCertByThumbprint_def Let_def
        split: option.split sum.split)
  show "case fst (win_ListCertificates uc lib api st) of
      Ret r \<Rightarrow> all_returned (win_ListCertificates_ops uc lib api st)
    | Panicked \<Rightarrow>
        opsOf storeTaken (win_ListCertificates_ops uc lib api st) = opsOf storeReturned (win_ListCertificates_ops uc lib api st) \<and>
        (\<exists>ctx. fst (certInfoFromContext uc lib api ctx) = Panicked \<and>
           opsOf ctxTaken (win_ListCertificates_ops uc lib api st) = opsOf ctxReturned (win_ListCertificates_ops uc lib api st) @ [ctx])"
  proof (cases "fst (win_ListCertificates uc lib api st)")
    case Panicked
    then have "CertDir st = []" "openMyStore api = None" "list_ex (infoPanics uc lib api) (fst (wa_Enum api CurrentUserMy))"
      by (simp_all add: win_ListCertificates_panics)
    with Panicked enum [of "infoPanics uc lib api" "fst (wa_Enum api CurrentUserMy)"] show ?thesis
      by (auto simp: win_ListCertificates_ops_def infoPanics_iff)
  next
    case (Ret r)
    with win_ListCertificates_panics [of uc lib api st] enum [of "infoPanics uc lib api" "fst (wa_Enum api CurrentUserMy)"]
    show ?thesis by (auto simp: win_ListCertificates_ops_def all_returned_def split: option.split)
  qed
qed

end
