(* ===== verification/Go_Json.thy ===== *)
theory Go_Json
  imports Go_Prelude
begin

text \<open>
  The package \<^verbatim>\<open>encoding/json\<close> as the program uses it: \<^verbatim>\<open>json.Marshal\<close> of a struct whose
  fields are strings, and \<^verbatim>\<open>json.Unmarshal\<close> of any input into such a struct. Decoding
  first checks that the whole input is one JSON value; then the members of the top-level object
  whose names match a field, exactly or up to case folding, are stored in it, later members
  overwriting earlier ones; a \<^verbatim>\<open>null\<close> leaves the field alone and a value of another type is an
  error. The round trip on ASCII strings is proved at the end.
\<close>

section \<open>UTF-8\<close>

abbreviation byteval :: "char \<Rightarrow> nat" where "byteval c \<equiv> of_char c"

definition cont_in :: "nat \<Rightarrow> nat \<Rightarrow> char \<Rightarrow> bool" where
  "cont_in lo hi c \<longleftrightarrow> lo \<le> byteval c \<and> byteval c \<le> hi"

definition contv :: "char \<Rightarrow> nat" where "contv c = byteval c mod 64"

text \<open>\<^verbatim>\<open>utf8.DecodeRune\<close>: the code point and its size in bytes, or \<open>None\<close> for an invalid byte.\<close>

definition DecodeRune :: "string \<Rightarrow> (nat \<times> nat) option" where
  "DecodeRune s =
     (case s of
        [] \<Rightarrow> None
      | a # r1 \<Rightarrow>
        (let n = byteval a in
         if n < 0x80 then Some (n, 1)
         else if 0xC2 \<le> n \<and> n \<le> 0xDF then
           (case r1 of b # _ \<Rightarrow> if cont_in 0x80 0xBF b then Some ((n mod 32) * 64 + contv b, 2) else None | [] \<Rightarrow> None)
         else if 0xE0 \<le> n \<and> n \<le> 0xEF then
           (let lo = (if n = 0xE0 then 0xA0 else 0x80); hi = (if n = 0xED then 0x9F else 0xBF) in
            case r1 of b # c # _ \<Rightarrow>
              if cont_in lo hi b \<and> cont_in 0x80 0xBF c
              then Some ((n mod 16) * 4096 + contv b * 64 + contv c, 3) else None
            | _ \<Rightarrow> None)
         else if 0xF0 \<le> n \<and> n \<le> 0xF4 then
           (let lo = (if n = 0xF0 then 0x90 else 0x80); hi = (if n = 0xF4 then 0x8F else 0xBF) in
            case r1 of b # c # d # _ \<Rightarrow>
              if cont_in lo hi b \<and> cont_in 0x80 0xBF c \<and> cont_in 0x80 0xBF d
              then Some ((n mod 8) * 262144 + contv b * 4096 + contv c * 64 + contv d, 4) else None
            | _ \<Rightarrow> None)
         else None))"

text \<open>\<^verbatim>\<open>utf8.AppendRune\<close>; a surrogate or a number above 0x10FFFF becomes U+FFFD.\<close>

definition EncodeRune :: "nat \<Rightarrow> string" where
  "EncodeRune r =
     (let c = (\<lambda>n :: nat. char_of n :: char) in
      if r < 0x80 then [c r]
      else if r < 0x800 then [c (0xC0 + r div 64), c (0x80 + r mod 64)]
      else if (0xD800 \<le> r \<and> r \<le> 0xDFFF) \<or> 0x10FFFF < r then [c 0xEF, c 0xBF, c 0xBD]
      else if r < 0x10000 then [c (0xE0 + r div 4096), c (0x80 + r div 64 mod 64), c (0x80 + r mod 64)]
      else [c (0xF0 + r div 262144), c (0x80 + r div 4096 mod 64), c (0x80 + r div 64 mod 64), c (0x80 + r mod 64)])"

definition RuneError :: nat where "RuneError = 0xFFFD"

text \<open>The code points that \<^verbatim>\<open>for _, r := range s\<close> visits; an invalid byte counts as U+FFFD.\<close>

function runes :: "string \<Rightarrow> nat list" where
  "runes [] = []"
| "runes (c # s) =
     (case DecodeRune (c # s) of
        None \<Rightarrow> RuneError # runes s
      | Some (r, n) \<Rightarrow> r # runes (drop (n - 1) s))"
  by pat_completeness auto
termination
  by (relation "measure length") auto

lemma runes_ascii: "is_ascii s \<Longrightarrow> runes s = map of_char s"
  by (induction s) (simp_all add: is_ascii_def ascii_char_def DecodeRune_def)

section \<open>Encoding\<close>

definition bslash :: char where "bslash = CHR 0x5C"
definition dquote :: char where "dquote = CHR 0x22"

text \<open>One ASCII byte inside a JSON string, with the HTML escaping of \<^verbatim>\<open>json.Marshal\<close>.\<close>

definition escape_ascii :: "char \<Rightarrow> string" where
  "escape_ascii c =
     (let n = byteval c in
      if c = bslash \<or> c = dquote then [bslash, c]
      else if n = 8 then [bslash, CHR ''b''] else if n = 12 then [bslash, CHR ''f'']
      else if n = 10 then [bslash, CHR ''n''] else if n = 13 then [bslash, CHR ''r'']
      else if n = 9 then [bslash, CHR ''t'']
      else if n < 32 \<or> c = CHR ''<'' \<or> c = CHR ''>'' \<or> c = CHR ''&''
      then [bslash, CHR ''u'', CHR ''0'', CHR ''0'', hex_digit (n div 16), hex_digit (n mod 16)]
      else [c])"

function escape :: "string \<Rightarrow> string" where
  "escape [] = []"
| "escape (c # s) =
     (if byteval c < 0x80 then escape_ascii c @ escape s
      else case DecodeRune (c # s) of
             None \<Rightarrow> bslash # ''ufffd'' @ escape s
           | Some (r, n) \<Rightarrow>
               (if r = 0x2028 \<or> r = 0x2029
                then bslash # ''u202'' @ [hex_digit (r mod 16)] else take n (c # s))
               @ escape (drop (n - 1) s))"
  by pat_completeness auto
termination
  by (relation "measure length") auto

definition quoteString :: "string \<Rightarrow> string" where
  "quoteString s = dquote # escape s @ [dquote]"

text \<open>A struct with string fields: the members in the order of its declaration.\<close>

definition member :: "string \<times> string \<Rightarrow> string" where
  "member kv = quoteString (fst kv) @ '':'' @ quoteString (snd kv)"

fun members :: "(string \<times> string) list \<Rightarrow> string" where
  "members [] = []"
| "members [kv] = member kv"
| "members (kv # kv' # kvs) = member kv @ '','' @ members (kv' # kvs)"

definition Marshal :: "(string \<times> string) list \<Rightarrow> string" where
  "Marshal kvs = CHR ''{'' # members kvs @ ''}''"

text \<open>\<^verbatim>\<open>json.MarshalIndent(v, "", "  ")\<close> of such a struct.\<close>


definition indentMember :: "string \<times> string \<Rightarrow> string" where
  "indentMember kv = newline # ''  '' @ quoteString (fst kv) @ '': '' @ quoteString (snd kv)"

fun indentMembers :: "(string \<times> string) list \<Rightarrow> string" where
  "indentMembers [] = []"
| "indentMembers [kv] = indentMember kv"
| "indentMembers (kv # kv' # kvs) = indentMember kv @ '','' @ indentMembers (kv' # kvs)"

definition MarshalIndent :: "(string \<times> string) list \<Rightarrow> string" where
  "MarshalIndent kvs = CHR ''{'' # indentMembers kvs @ [newline, CHR ''}'']"

section \<open>Decoding\<close>

datatype json =
    JNull
  | JBool bool
  | JNumber string
  | JString string
  | JArray "json list"
  | JObject "(string \<times> json) list"

definition is_ws :: "char \<Rightarrow> bool" where
  "is_ws c \<longleftrightarrow> byteval c = 32 \<or> byteval c = 9 \<or> byteval c = 10 \<or> byteval c = 13"

definition skip :: "string \<Rightarrow> string" where
  "skip s = dropWhile is_ws s"

definition hexval :: "char \<Rightarrow> nat option" where
  "hexval c =
     (let n = byteval c in
      if 48 \<le> n \<and> n \<le> 57 then Some (n - 48)
      else if 97 \<le> n \<and> n \<le> 102 then Some (n - 87)
      else if 65 \<le> n \<and> n \<le> 70 then Some (n - 55)
      else None)"

text \<open>The scanner on a string literal, after its opening quote: the raw content and the rest.\<close>

fun scanString :: "string \<Rightarrow> (string \<times> string) option" where
  "scanString [] = None"
| "scanString (c # s) =
     (if c = dquote then Some ([], s)
      else if c = bslash then
        (case s of
           [] \<Rightarrow> None
         | e # s' \<Rightarrow>
             if e \<in> {dquote, bslash, CHR ''/'', CHR ''b'', CHR ''f'', CHR ''n'', CHR ''r'', CHR ''t''}
             then map_option (\<lambda>(raw, r). (c # e # raw, r)) (scanString s')
             else if e = CHR ''u'' then
               (case s' of
                  h1 # h2 # h3 # h4 # s'' \<Rightarrow>
                    if hexval h1 \<noteq> None \<and> hexval h2 \<noteq> None \<and> hexval h3 \<noteq> None \<and> hexval h4 \<noteq> None
                    then map_option (\<lambda>(raw, r). (c # e # h1 # h2 # h3 # h4 # raw, r)) (scanString s'')
                    else None
                | _ \<Rightarrow> None)
             else None)
      else if byteval c < 32 then None
      else map_option (\<lambda>(raw, r). (c # raw, r)) (scanString s))"

text \<open>\<^verbatim>\<open>getu4\<close>: the value of an escape \<^verbatim>\<open>\uXXXX\<close> at the start of the input.\<close>

fun getu4 :: "string \<Rightarrow> nat option" where
  "getu4 (b # u # h1 # h2 # h3 # h4 # s) =
     (if b = bslash \<and> u = CHR ''u'' then
        (case (hexval h1, hexval h2, hexval h3, hexval h4) of
           (Some w, Some x, Some y, Some z) \<Rightarrow> Some (w * 4096 + x * 256 + y * 16 + z)
         | _ \<Rightarrow> None)
      else None)"
| "getu4 _ = None"

definition is_surrogate :: "nat \<Rightarrow> bool" where
  "is_surrogate r \<longleftrightarrow> 0xD800 \<le> r \<and> r \<le> 0xDFFF"

definition utf16_Decode :: "nat \<Rightarrow> nat \<Rightarrow> nat option" where
  "utf16_Decode r1 r2 =
     (if 0xD800 \<le> r1 \<and> r1 < 0xDC00 \<and> 0xDC00 \<le> r2 \<and> r2 < 0xE000
      then Some ((r1 - 0xD800) * 1024 + (r2 - 0xDC00) + 0x10000) else None)"

text \<open>\<^verbatim>\<open>unquote\<close> on the raw content of a scanned literal.\<close>

function unquote :: "string \<Rightarrow> string" where
  "unquote [] = []"
| "unquote (c # s) =
     (if c = bslash then
        (case s of
           [] \<Rightarrow> []
         | e # s' \<Rightarrow>
             if e = CHR ''u'' then
               (case getu4 (c # s) of
                  None \<Rightarrow> []
                | Some r \<Rightarrow>
                    if is_surrogate r then
                      (case Option.bind (getu4 (drop 5 s)) (utf16_Decode r) of
                         Some d \<Rightarrow> EncodeRune d @ unquote (drop 11 s)
                       | None \<Rightarrow> EncodeRune RuneError @ unquote (drop 5 s))
                    else EncodeRune r @ unquote (drop 5 s))
             else (if e = CHR ''b'' then char_of (8 :: nat) else if e = CHR ''f'' then char_of (12 :: nat)
                   else if e = CHR ''n'' then char_of (10 :: nat) else if e = CHR ''r'' then char_of (13 :: nat)
                   else if e = CHR ''t'' then char_of (9 :: nat) else e) # unquote s')
      else if byteval c < 0x80 then c # unquote s
      else case DecodeRune (c # s) of
             None \<Rightarrow> EncodeRune RuneError @ unquote s
           | Some (r, n) \<Rightarrow> EncodeRune r @ unquote (drop (n - 1) s))"
  by pat_completeness auto
termination
  by (relation "measure length") (auto split: if_splits)

definition is_digit :: "char \<Rightarrow> bool" where
  "is_digit c \<longleftrightarrow> 48 \<le> byteval c \<and> byteval c \<le> 57"

text \<open>The grammar of numbers: sign, integer part, fraction, exponent.\<close>

definition scanDigits :: "string \<Rightarrow> (string \<times> string) option" where
  "scanDigits s = (if takeWhile is_digit s = [] then None else Some (takeWhile is_digit s, dropWhile is_digit s))"

definition scanInt :: "string \<Rightarrow> (string \<times> string) option" where
  "scanInt s =
     (case s of
        [] \<Rightarrow> None
      | c # r \<Rightarrow> if c = CHR ''0'' then Some ([c], r) else scanDigits s)"

definition scanFrac :: "string \<Rightarrow> (string \<times> string) option" where
  "scanFrac s =
     (case s of
        [] \<Rightarrow> Some ([], [])
      | c # r \<Rightarrow> if c = CHR ''.'' then map_option (\<lambda>(d, t). (c # d, t)) (scanDigits r) else Some ([], s))"

definition scanExp :: "string \<Rightarrow> (string \<times> string) option" where
  "scanExp s =
     (case s of
        [] \<Rightarrow> Some ([], [])
      | c # r \<Rightarrow>
          if c = CHR ''e'' \<or> c = CHR ''E'' then
            (case r of
               sg # r' \<Rightarrow>
                 if sg = CHR ''+'' \<or> sg = CHR ''-''
                 then map_option (\<lambda>(d, t). (c # sg # d, t)) (scanDigits r')
                 else map_option (\<lambda>(d, t). (c # d, t)) (scanDigits r)
             | [] \<Rightarrow> None)
          else Some ([], s))"

definition scanNumber :: "string \<Rightarrow> (string \<times> string) option" where
  "scanNumber s =
     (let (sign, s1) = (case s of c # r \<Rightarrow> if c = CHR ''-'' then ([c], r) else ([], s) | [] \<Rightarrow> ([], s))
      in Option.bind (scanInt s1) (\<lambda>(i, s2).
         Option.bind (scanFrac s2) (\<lambda>(f, s3).
         Option.bind (scanExp s3) (\<lambda>(e, s4).
         Some (sign @ i @ f @ e, s4)))))"

text \<open>
  The parser. The fuel bounds the number of nested calls; each call consumes a byte, so the
  length of the input is enough.
\<close>

fun parseValue :: "nat \<Rightarrow> string \<Rightarrow> (json \<times> string) option"
  and parseElems :: "nat \<Rightarrow> string \<Rightarrow> (json list \<times> string) option"
  and parseMembers :: "nat \<Rightarrow> string \<Rightarrow> ((string \<times> json) list \<times> string) option" where
  "parseValue 0 s = None"
| "parseValue (Suc n) s =
     (case skip s of
        [] \<Rightarrow> None
      | c # r \<Rightarrow>
          if c = CHR ''{'' then
            (case skip r of
               d # r' \<Rightarrow> if d = CHR ''}'' then Some (JObject [], r')
                        else map_option (\<lambda>(ms, t). (JObject ms, t)) (parseMembers n r)
             | [] \<Rightarrow> None)
          else if c = CHR ''['' then
            (case skip r of
               d # r' \<Rightarrow> if d = CHR '']'' then Some (JArray [], r')
                        else map_option (\<lambda>(vs, t). (JArray vs, t)) (parseElems n r)
             | [] \<Rightarrow> None)
          else if c = dquote then map_option (\<lambda>(raw, t). (JString (unquote raw), t)) (scanString r)
          else if HasPrefix (c # r) ''null'' then Some (JNull, drop 3 r)
          else if HasPrefix (c # r) ''true'' then Some (JBool True, drop 3 r)
          else if HasPrefix (c # r) ''false'' then Some (JBool False, drop 4 r)
          else map_option (\<lambda>(num, t). (JNumber num, t)) (scanNumber (c # r)))"
| "parseElems 0 s = None"
| "parseElems (Suc n) s =
     Option.bind (parseValue n s) (\<lambda>(v, t).
       case skip t of
         [] \<Rightarrow> None
       | c # r \<Rightarrow>
           if c = CHR '']'' then Some ([v], r)
           else if c = CHR '','' then map_option (\<lambda>(vs, u). (v # vs, u)) (parseElems n r)
           else None)"
| "parseMembers 0 s = None"
| "parseMembers (Suc n) s =
     (case skip s of
        [] \<Rightarrow> None
      | q # s1 \<Rightarrow>
          if q \<noteq> dquote then None
          else Option.bind (scanString s1) (\<lambda>(raw, s2).
            case skip s2 of
              [] \<Rightarrow> None
            | c # s3 \<Rightarrow>
                if c \<noteq> CHR '':'' then None
                else Option.bind (parseValue n s3) (\<lambda>(v, t).
                  case skip t of
                    [] \<Rightarrow> None
                  | d # r \<Rightarrow>
                      if d = CHR ''}'' then Some ([(unquote raw, v)], r)
                      else if d = CHR '','' then map_option (\<lambda>(ms, u). ((unquote raw, v) # ms, u)) (parseMembers n r)
                      else None)))"

definition parseJson :: "string \<Rightarrow> json option" where
  "parseJson s =
     (case parseValue (Suc (2 * length s)) s of
        Some (v, t) \<Rightarrow> if skip t = [] then Some v else None
      | None \<Rightarrow> None)"

text \<open>
  \<^verbatim>\<open>foldName\<close>: ASCII letters to upper case. Of the other code points only U+017F and U+212A fold
  to an ASCII letter; all others keep a byte above 0x7f, so they match no field of the program.
\<close>

function foldName :: "string \<Rightarrow> string" where
  "foldName [] = []"
| "foldName (c # s) =
     (if byteval c < 0x80 then ascii_upper c # foldName s
      else case DecodeRune (c # s) of
             None \<Rightarrow> c # foldName s
           | Some (r, n) \<Rightarrow>
               (if r = 0x17F then ''S'' else if r = 0x212A then ''K'' else take n (c # s)) @ foldName (drop (n - 1) s))"
  by pat_completeness auto
termination
  by (relation "measure length") auto

definition fieldFor :: "string list \<Rightarrow> string \<Rightarrow> string option" where
  "fieldFor names key =
     (if key \<in> set names then Some key
      else find (\<lambda>f. foldName f = foldName key) names)"

text \<open>Storing the members of an object in the fields, in order.\<close>

fun storeMembers :: "string list \<Rightarrow> (string \<Rightarrow> string) \<Rightarrow> (string \<times> json) list \<Rightarrow> (string \<Rightarrow> string) option" where
  "storeMembers names flds [] = Some flds"
| "storeMembers names flds ((key, v) # ms) =
     (case fieldFor names key of
        None \<Rightarrow> storeMembers names flds ms
      | Some f \<Rightarrow>
          (case v of
             JString x \<Rightarrow> storeMembers names (flds(f := x)) ms
           | JNull \<Rightarrow> storeMembers names flds ms
           | _ \<Rightarrow> None))"

text \<open>
  \<^verbatim>\<open>json.Unmarshal\<close> into the zero value of a struct with the given string fields: the fields, or
  \<open>None\<close> for a non-nil error.
\<close>

definition Unmarshal :: "string list \<Rightarrow> string \<Rightarrow> (string \<Rightarrow> string) option" where
  "Unmarshal names data =
     (case parseJson data of
        None \<Rightarrow> None
      | Some JNull \<Rightarrow> Some (\<lambda>_. [])
      | Some (JObject ms) \<Rightarrow> storeMembers names (\<lambda>_. []) ms
      | Some _ \<Rightarrow> None)"

section \<open>Round trip\<close>

lemma hexval_hex_digit [simp]:
  "n < 16 \<Longrightarrow> hexval (hex_digit n) = Some n"
  by (simp add: hexval_def of_char_hex_digit)

lemma hexval_0 [simp]: "hexval (CHR ''0'') = Some 0"
  by (simp add: hexval_def)

lemma escape_ascii_cases:
  assumes "byteval c < 0x80"
  obtains (plain) "escape_ascii c = [c]" "c \<noteq> bslash" "c \<noteq> dquote" "\<not> byteval c < 32"
  | (short) e where "escape_ascii c = [bslash, e]"
      "e \<in> {dquote, bslash, CHR ''/'', CHR ''b'', CHR ''f'', CHR ''n'', CHR ''r'', CHR ''t''}"
      "e \<noteq> CHR ''u''"
      "(if e = CHR ''b'' then char_of (8 :: nat) else if e = CHR ''f'' then char_of (12 :: nat)
        else if e = CHR ''n'' then char_of (10 :: nat) else if e = CHR ''r'' then char_of (13 :: nat)
        else if e = CHR ''t'' then char_of (9 :: nat) else e) = c"
  | (hex) "escape_ascii c = [bslash, CHR ''u'', CHR ''0'', CHR ''0'', hex_digit (byteval c div 16), hex_digit (byteval c mod 16)]"
proof -
  have code: "c = char_of n" if "byteval c = n" for n :: nat
    using that by auto
  consider "c = bslash \<or> c = dquote" | "byteval c = 8" | "byteval c = 12" | "byteval c = 10" | "byteval c = 13"
    | "byteval c = 9" | "escape_ascii c = [c]" "c \<noteq> bslash" "c \<noteq> dquote" "\<not> byteval c < 32"
    | "escape_ascii c = [bslash, CHR ''u'', CHR ''0'', CHR ''0'', hex_digit (byteval c div 16), hex_digit (byteval c mod 16)]"
    unfolding escape_ascii_def Let_def by argo
  then show thesis
  proof cases
    case 1
    then show thesis by (intro short [of c]) (auto simp: escape_ascii_def bslash_def dquote_def)
  next
    case 2
    then have "c \<noteq> bslash" "c \<noteq> dquote" by (auto simp: bslash_def dquote_def)
    with 2 code [OF 2] show thesis by (intro short [of "CHR ''b''"]) (simp_all add: escape_ascii_def)
  next
    case 3
    then have "c \<noteq> bslash" "c \<noteq> dquote" by (auto simp: bslash_def dquote_def)
    with 3 code [OF 3] show thesis by (intro short [of "CHR ''f''"]) (simp_all add: escape_ascii_def)
  next
    case 4
    then have "c \<noteq> bslash" "c \<noteq> dquote" by (auto simp: bslash_def dquote_def)
    with 4 code [OF 4] show thesis by (intro short [of "CHR ''n''"]) (simp_all add: escape_ascii_def)
  next
    case 5
    then have "c \<noteq> bslash" "c \<noteq> dquote" by (auto simp: bslash_def dquote_def)
    with 5 code [OF 5] show thesis by (intro short [of "CHR ''r''"]) (simp_all add: escape_ascii_def)
  next
    case 6
    then have "c \<noteq> bslash" "c \<noteq> dquote" by (auto simp: bslash_def dquote_def)
    with 6 code [OF 6] show thesis by (intro short [of "CHR ''t''"]) (simp_all add: escape_ascii_def)
  qed (use plain hex in simp_all)
qed

lemma scanString_escape_ascii:
  assumes "byteval c < 0x80"
  shows "scanString (escape_ascii c @ t) = map_option (\<lambda>(raw, r). (escape_ascii c @ raw, r)) (scanString t)"
  using assms
proof (cases c rule: escape_ascii_cases)
  case plain
  then show ?thesis by simp
next
  case (short e)
  then show ?thesis by (simp add: bslash_def dquote_def)
next
  case hex
  have "byteval c div 16 < 16" using assms by simp
  then show ?thesis
    unfolding hex by (simp add: bslash_def dquote_def)
qed

lemma unquote_escape_ascii:
  assumes "byteval c < 0x80"
  shows "unquote (escape_ascii c @ t) = c # unquote t"
  using assms
proof (cases c rule: escape_ascii_cases)
  case plain
  then show ?thesis using assms by simp
next
  case (short e)
  then show ?thesis by simp
next
  case hex
  have d: "byteval c div 16 < 16" using assms by simp
  have n: "byteval c div 16 * 16 + byteval c mod 16 = byteval c" by simp
  show ?thesis
    unfolding hex using d assms by (simp add: n is_surrogate_def EncodeRune_def bslash_def)
qed

lemma scanString_escape:
  "is_ascii s \<Longrightarrow> scanString (escape s @ dquote # r) = Some (escape s, r)"
  by (induction s) (simp_all add: scanString_escape_ascii ascii_char_def)

lemma unquote_escape:
  "is_ascii s \<Longrightarrow> unquote (escape s) = s"
  by (induction s) (simp_all add: unquote_escape_ascii ascii_char_def)

lemma skip_dquote [simp]: "skip (dquote # s) = dquote # s"
  by (simp add: skip_def is_ws_def dquote_def)

lemma skip_punct [simp]:
  "skip (CHR '':'' # s) = CHR '':'' # s" "skip (CHR '','' # s) = CHR '','' # s"
  "skip (CHR ''{'' # s) = CHR ''{'' # s" "skip (CHR ''}'' # s) = CHR ''}'' # s" "skip [] = []"
  by (simp_all add: skip_def is_ws_def)

lemma dquote_neq [simp]: "dquote \<noteq> CHR ''{''" "dquote \<noteq> CHR ''[''" "dquote \<noteq> CHR ''}''"
  by (simp_all add: dquote_def)

lemma parseValue_quoteString:
  "is_ascii s \<Longrightarrow> parseValue (Suc n) (quoteString s @ r) = Some (JString s, r)"
  by (simp add: quoteString_def scanString_escape unquote_escape)

lemma skip_ws_append [simp]: "list_all is_ws w \<Longrightarrow> skip (w @ s) = skip s"
  by (induction w) (simp_all add: skip_def)

lemma parseMembers_step:
  assumes "is_ascii k" "is_ascii v" "\<not> is_ws d" "list_all is_ws w1" "list_all is_ws w2" "list_all is_ws w3"
  shows "parseMembers (Suc (Suc m)) (w1 @ quoteString k @ CHR '':'' # w2 @ quoteString v @ w3 @ d # r) =
    (if d = CHR ''}'' then Some ([(k, JString v)], r)
     else if d = CHR '','' then map_option (\<lambda>(ms, u). ((k, JString v) # ms, u)) (parseMembers (Suc m) r)
     else None)"
proof -
  have "skip (d # r) = d # r" using assms(3) by (simp add: skip_def)
  then show ?thesis
    using assms by (simp add: quoteString_def scanString_escape unquote_escape
        del: parseMembers.simps(2) add: parseMembers.simps(2) [of "Suc m"])
qed

lemma parseMembers_member:
  assumes "is_ascii k" "is_ascii v" "\<not> is_ws d"
  shows "parseMembers (Suc (Suc m)) (member (k, v) @ d # r) =
    (if d = CHR ''}'' then Some ([(k, JString v)], r)
     else if d = CHR '','' then map_option (\<lambda>(ms, u). ((k, JString v) # ms, u)) (parseMembers (Suc m) r)
     else None)"
  using parseMembers_step [OF assms, of "[]" "[]" "[]" m r]
  by (simp add: member_def del: parseMembers.simps)

lemma parseMembers_indentMember:
  assumes "is_ascii k" "is_ascii v" "\<not> is_ws d" "list_all is_ws w"
  shows "parseMembers (Suc (Suc m)) (indentMember (k, v) @ w @ d # r) =
    (if d = CHR ''}'' then Some ([(k, JString v)], r)
     else if d = CHR '','' then map_option (\<lambda>(ms, u). ((k, JString v) # ms, u)) (parseMembers (Suc m) r)
     else None)"
  using parseMembers_step [OF assms(1-3) _ _ assms(4), of "newline # ''  ''" "'' ''" m r]
  by (simp add: indentMember_def is_ws_def del: parseMembers.simps)

lemma parseMembers_members:
  assumes "kvs \<noteq> []" "\<forall>(k, v) \<in> set kvs. is_ascii k \<and> is_ascii v" "length kvs < n"
  shows "parseMembers n (members kvs @ CHR ''}'' # r) = Some (map (\<lambda>(k, v). (k, JString v)) kvs, r)"
  using assms
proof (induction kvs arbitrary: n rule: members.induct)
  case (2 kv)
  then obtain m where "n = Suc (Suc m)" by (cases n; cases "n - 1") auto
  with 2 show ?case
    by (cases kv) (simp add: parseMembers_member is_ws_def del: parseMembers.simps)
next
  case (3 kv kv' kvs)
  then obtain m where n: "n = Suc (Suc m)" by (cases n; cases "n - 1") auto
  have "parseMembers (Suc m) (members (kv' # kvs) @ CHR ''}'' # r) =
      Some (map (\<lambda>(k, v). (k, JString v)) (kv' # kvs), r)"
    by (rule 3(1)) (use 3 n in simp_all)
  with 3(3) n show ?case
    by (cases kv) (simp add: parseMembers_member is_ws_def del: parseMembers.simps)
qed simp

lemma parseMembers_indentMembers:
  assumes "kvs \<noteq> []" "\<forall>(k, v) \<in> set kvs. is_ascii k \<and> is_ascii v" "length kvs < n"
  shows "parseMembers n (indentMembers kvs @ newline # CHR ''}'' # r) = Some (map (\<lambda>(k, v). (k, JString v)) kvs, r)"
  using assms
proof (induction kvs arbitrary: n rule: indentMembers.induct)
  case (2 kv)
  then obtain m where n: "n = Suc (Suc m)" by (cases n; cases "n - 1") auto
  obtain k v where kv: "kv = (k, v)" by (cases kv)
  show ?case
    using 2 parseMembers_indentMember [of k v "CHR ''}''" "[newline]" m r]
    by (simp add: n kv is_ws_def del: parseMembers.simps)
next
  case (3 kv kv' kvs)
  then obtain m where n: "n = Suc (Suc m)" by (cases n; cases "n - 1") auto
  obtain k v where kv: "kv = (k, v)" by (cases kv)
  have "parseMembers (Suc m) (indentMembers (kv' # kvs) @ newline # CHR ''}'' # r) =
      Some (map (\<lambda>(k, v). (k, JString v)) (kv' # kvs), r)"
    by (rule 3(1)) (use 3 n in simp_all)
  then show ?case
    using 3(3) parseMembers_indentMember [of k v "CHR '',''" "[]" m "indentMembers (kv' # kvs) @ newline # CHR ''}'' # r"]
    by (simp add: n kv is_ws_def del: parseMembers.simps)
qed simp

lemma length_members: "length kvs \<le> length (members kvs)"
  by (induction kvs rule: members.induct) (auto simp: member_def)

lemma skip_members:
  "kvs \<noteq> [] \<Longrightarrow> \<exists>t. skip (members kvs @ r) = dquote # t"
  by (induction kvs rule: members.induct) (auto simp: member_def quoteString_def)

lemma parseJson_Marshal:
  assumes "kvs \<noteq> []" "\<forall>(k, v) \<in> set kvs. is_ascii k \<and> is_ascii v"
  shows "parseJson (Marshal kvs) = Some (JObject (map (\<lambda>(k, v). (k, JString v)) kvs))"
proof -
  let ?n = "2 * length (Marshal kvs)"
  have "length kvs < ?n"
    using length_members [of kvs] by (simp add: Marshal_def)
  then have m: "parseMembers ?n (members kvs @ CHR ''}'' # []) = Some (map (\<lambda>(k, v). (k, JString v)) kvs, [])"
    by (rule parseMembers_members [OF assms])
  obtain t where "skip (members kvs @ CHR ''}'' # []) = dquote # t"
    using skip_members [OF assms(1)] by blast
  with m have "parseValue (Suc ?n) (Marshal kvs) = Some (JObject (map (\<lambda>(k, v). (k, JString v)) kvs), [])"
    unfolding parseValue.simps(2) by (simp add: Marshal_def)
  then show ?thesis by (simp add: parseJson_def)
qed

lemma storeMembers_strings:
  assumes "set (map fst kvs) \<subseteq> set names"
  shows "storeMembers names flds (map (\<lambda>(k, v). (k, JString v)) kvs) = Some (fold (\<lambda>(k, v) f. f(k := v)) kvs flds)"
  using assms by (induction kvs arbitrary: flds) (auto simp: fieldFor_def)

lemma fold_upd_notin:
  "k \<notin> fst ` set kvs \<Longrightarrow> fold (\<lambda>(k, v) f. f(k := v)) kvs flds k = flds k"
  by (induction kvs arbitrary: flds) auto

lemma fold_upd_map_of:
  "distinct (map fst kvs) \<Longrightarrow>
    fold (\<lambda>(k, v) f. f(k := v)) kvs flds = (\<lambda>k. case map_of kvs k of Some v \<Rightarrow> v | None \<Rightarrow> flds k)"
  by (induction kvs arbitrary: flds)
    (auto simp: fun_eq_iff fold_upd_notin map_of_eq_None_iff [THEN iffD2] split: option.splits)

lemma Unmarshal_Marshal:
  assumes "kvs \<noteq> []" "\<forall>(k, v) \<in> set kvs. is_ascii k \<and> is_ascii v"
    and "distinct (map fst kvs)" "set (map fst kvs) \<subseteq> set names"
  shows "Unmarshal names (Marshal kvs) = Some (\<lambda>k. case map_of kvs k of Some v \<Rightarrow> v | None \<Rightarrow> [])"
  using parseJson_Marshal [OF assms(1,2)] storeMembers_strings [OF assms(4)] fold_upd_map_of [OF assms(3)]
  by (simp add: Unmarshal_def)

lemma length_indentMembers: "length kvs \<le> length (indentMembers kvs)"
  by (induction kvs rule: indentMembers.induct) (auto simp: indentMember_def)

lemma skip_indentMembers:
  "kvs \<noteq> [] \<Longrightarrow> \<exists>t. skip (indentMembers kvs @ r) = dquote # t"
  by (induction kvs rule: indentMembers.induct)
    (auto simp: indentMember_def quoteString_def skip_def is_ws_def dquote_def)

lemma parseJson_MarshalIndent:
  assumes "kvs \<noteq> []" "\<forall>(k, v) \<in> set kvs. is_ascii k \<and> is_ascii v"
  shows "parseJson (MarshalIndent kvs) = Some (JObject (map (\<lambda>(k, v). (k, JString v)) kvs))"
proof -
  let ?n = "2 * length (MarshalIndent kvs)"
  have "length kvs < ?n"
    using length_indentMembers [of kvs] by (simp add: MarshalIndent_def)
  then have m: "parseMembers ?n (indentMembers kvs @ newline # CHR ''}'' # []) =
      Some (map (\<lambda>(k, v). (k, JString v)) kvs, [])"
    by (rule parseMembers_indentMembers [OF assms])
  obtain t where "skip (indentMembers kvs @ newline # CHR ''}'' # []) = dquote # t"
    using skip_indentMembers [OF assms(1)] by blast
  with m have "parseValue (Suc ?n) (MarshalIndent kvs) = Some (JObject (map (\<lambda>(k, v). (k, JString v)) kvs), [])"
    unfolding parseValue.simps(2) by (simp add: MarshalIndent_def)
  then show ?thesis by (simp add: parseJson_def)
qed

lemma Unmarshal_MarshalIndent:
  assumes "kvs \<noteq> []" "\<forall>(k, v) \<in> set kvs. is_ascii k \<and> is_ascii v"
    and "distinct (map fst kvs)" "set (map fst kvs) \<subseteq> set names"
  shows "Unmarshal names (MarshalIndent kvs) = Some (\<lambda>k. case map_of kvs k of Some v \<Rightarrow> v | None \<Rightarrow> [])"
  using parseJson_MarshalIndent [OF assms(1,2)] storeMembers_strings [OF assms(4)] fold_upd_map_of [OF assms(3)]
  by (simp add: Unmarshal_def)

section \<open>The fuel of the parser\<close>

text \<open>
  Every successful call consumes input, hence twice the length of the input bounds the nesting
  of calls: with more fuel than that the result no longer depends on the fuel, so the fuel of
  \<^const>\<open>parseJson\<close> never cuts a parse short.
\<close>

lemma length_skip: "length (skip s) \<le> length s"
  by (simp add: skip_def length_dropWhile_le)

lemma skip_ConsD: "skip s = c # r \<Longrightarrow> length r < length s"
  using length_skip [of s] by simp

lemma scanString_length: "scanString s = Some (raw, r) \<Longrightarrow> length r < length s"
proof (induction s arbitrary: raw r rule: length_induct)
  case (1 s)
  note IH = 1(1) [rule_format, rotated]
  from 1(2) show ?case
    by (cases s) (auto split: if_splits list.splits dest!: IH)
qed

lemma scanDigits_length: "scanDigits s = Some (d, r) \<Longrightarrow> length r < length s"
  by (cases s) (auto simp: scanDigits_def length_dropWhile_le less_Suc_eq_le split: if_splits)

lemma scanNumber_length:
  assumes "scanNumber s = Some (d, r)" shows "length r < length s"
proof -
  have i: "length t < length u" if "scanInt u = Some (x, t)" for u x t
    using that by (auto simp: scanInt_def dest: scanDigits_length split: list.splits if_splits)
  have f: "length t \<le> length u" if "scanFrac u = Some (x, t)" for u x t
    using that by (auto simp: scanFrac_def dest: scanDigits_length split: list.splits if_splits)
  have e: "length t \<le> length u" if "scanExp u = Some (x, t)" for u x t
    using that by (auto simp: scanExp_def dest: scanDigits_length split: list.splits if_splits)
  show ?thesis
    using assms unfolding scanNumber_def Let_def
    by (auto simp: bind_eq_Some_conv split: list.splits if_splits dest!: i f e)
qed

definition consumes :: "(string \<Rightarrow> ('a \<times> string) option) \<Rightarrow> bool" where
  "consumes p \<longleftrightarrow> (\<forall>s v t. p s = Some (v, t) \<longrightarrow> length t < length s)"

lemma consumesD: "consumes p \<Longrightarrow> p s = Some (v, t) \<Longrightarrow> length t < length s"
  by (auto simp: consumes_def)

lemma parseMembers_SucE:
  assumes "parseMembers (Suc n) s = Some (ms, u)"
  obtains q s1 raw s2 s3 v t d r where
    "skip s = q # s1" "scanString s1 = Some (raw, s2)" "skip s2 = CHR '':'' # s3"
    "parseValue n s3 = Some (v, t)" "skip t = d # r" "u = r \<or> (\<exists>ms'. parseMembers n r = Some (ms', u))"
proof -
  note p = assms [unfolded parseMembers.simps]
  obtain q s1 where a: "skip s = q # s1" using p by (cases "skip s") auto
  obtain raw s2 where b: "scanString s1 = Some (raw, s2)"
    using p unfolding a by (cases "scanString s1") (auto split: if_splits)
  obtain s3 where c: "skip s2 = CHR '':'' # s3"
    using p unfolding a by (cases "skip s2") (auto simp: b split: if_splits)
  obtain v t where d: "parseValue n s3 = Some (v, t)"
    using p unfolding a by (cases "parseValue n s3") (auto simp: b c split: if_splits)
  obtain e r where e: "skip t = e # r"
    using p unfolding a by (cases "skip t") (auto simp: b c d split: if_splits)
  show thesis
    by (rule that [OF a b c d e]) (use p in \<open>auto simp: a b c d e split: if_splits\<close>)
qed

lemma parse_consumes:
  "consumes (parseValue n) \<and> consumes (parseElems n) \<and> consumes (parseMembers n)"
proof (induction n)
  case 0
  show ?case by (simp add: consumes_def)
next
  case (Suc n)
  then have IH: "consumes (parseValue n)" "consumes (parseElems n)" "consumes (parseMembers n)"
    by blast+
  note less = IH [THEN consumesD]
  have "consumes (parseValue (Suc n))"
    unfolding consumes_def
  proof (intro allI impI)
    fix s v t assume p: "parseValue (Suc n) s = Some (v, t)"
    then obtain c r where c: "skip s = c # r" by (auto split: list.splits)
    have *: "length t \<le> length r"
      using p [unfolded parseValue.simps c list.case]
      by (simp split: list.split_asm if_split_asm)
        (auto dest: less(2,3) skip_ConsD scanString_length scanNumber_length)
    with skip_ConsD [OF c] show "length t < length s" by simp
  qed
  moreover have "consumes (parseElems (Suc n))"
    unfolding consumes_def
    by (auto simp: bind_eq_Some_conv split: list.split_asm if_split_asm) (auto dest!: less(1,2) skip_ConsD)
  moreover have "consumes (parseMembers (Suc n))"
    unfolding consumes_def
  proof (intro allI impI)
    fix s ms u assume "parseMembers (Suc n) s = Some (ms, u)"
    then obtain q s1 raw s2 s3 v t d r where
      "skip s = q # s1" "scanString s1 = Some (raw, s2)" "skip s2 = CHR '':'' # s3"
      "parseValue n s3 = Some (v, t)" "skip t = d # r" and u: "u = r \<or> (\<exists>ms'. parseMembers n r = Some (ms', u))"
      by (rule parseMembers_SucE)
    then have "length r < length s"
      by (auto dest!: less(1) skip_ConsD scanString_length)
    moreover have "length u \<le> length r"
      using u by (auto dest: less(3))
    ultimately show "length u < length s" by simp
  qed
  ultimately show ?case by blast
qed

lemma parse_fuel_Suc:
  "(2 * length s < n \<longrightarrow> parseValue (Suc n) s = parseValue n s) \<and>
   (2 * length s + 1 < n \<longrightarrow> parseElems (Suc n) s = parseElems n s) \<and>
   (2 * length s < n \<longrightarrow> parseMembers (Suc n) s = parseMembers n s)"
proof (induction n arbitrary: s)
  case 0
  show ?case by simp
next
  case (Suc n)
  have v: "parseValue (Suc n) t = parseValue n t" if "2 * length t < n" for t
    using that Suc.IH by blast
  have e: "parseElems (Suc n) t = parseElems n t" if "2 * length t + 1 < n" for t
    using that Suc.IH by blast
  have m: "parseMembers (Suc n) t = parseMembers n t" if "2 * length t < n" for t
    using that Suc.IH by blast
  note unf = parseValue.simps(2) [of "Suc n"] parseValue.simps(2) [of n]
    parseElems.simps(2) [of "Suc n"] parseElems.simps(2) [of n]
    parseMembers.simps(2) [of "Suc n"] parseMembers.simps(2) [of n]
  note val_less = parse_consumes [THEN conjunct1, THEN consumesD]
  have "parseValue (Suc (Suc n)) s = parseValue (Suc n) s" if "2 * length s < Suc n"
  proof (cases "skip s")
    case (Cons c r)
    then have "length r < length s" by (rule skip_ConsD)
    with that have "parseMembers (Suc n) r = parseMembers n r" "parseElems (Suc n) r = parseElems n r"
      by (auto intro!: m e simp del: parseMembers.simps parseElems.simps)
    then show ?thesis unfolding unf(1,2) Cons
      by (simp del: parseMembers.simps parseElems.simps split: list.split)
  qed (simp add: unf(1,2))
  moreover have "parseElems (Suc (Suc n)) s = parseElems (Suc n) s" if l: "2 * length s + 1 < Suc n"
  proof -
    have "parseElems (Suc n) r = parseElems n r" if "parseValue n s = Some (w, t)" "skip t = c # r" for w t c r
      using l val_less [OF that(1)] skip_ConsD [OF that(2)] by (intro e) simp
    then show ?thesis
      using l by (intro trans [OF unf(3) trans [OF _ unf(4) [symmetric]]])
        (auto simp: v simp del: parseValue.simps parseElems.simps intro!: Option.bind_cong split: list.split)
  qed
  moreover have "parseMembers (Suc (Suc n)) s = parseMembers (Suc n) s" if l: "2 * length s < Suc n"
  proof -
    have a: "parseValue (Suc n) s3 = parseValue n s3"
      if "skip s = q # s1" "scanString s1 = Some (raw, s2)" "skip s2 = c # s3" for q s1 raw s2 c s3
      using l skip_ConsD [OF that(1)] scanString_length [OF that(2)] skip_ConsD [OF that(3)] by (intro v) simp
    have b: "parseMembers (Suc n) r = parseMembers n r"
      if "skip s = q # s1" "scanString s1 = Some (raw, s2)" "skip s2 = c # s3"
        "parseValue n s3 = Some (w, t)" "skip t = d # r" for q s1 raw s2 c s3 w t d r
      using l skip_ConsD [OF that(1)] scanString_length [OF that(2)] skip_ConsD [OF that(3)]
        val_less [OF that(4)] skip_ConsD [OF that(5)] by (intro m) simp
    show ?thesis
      by (rule trans [OF unf(5) trans [OF _ unf(6) [symmetric]]])
        (auto simp: a b simp del: parseValue.simps parseMembers.simps intro!: Option.bind_cong split: list.split)
  qed
  ultimately show ?case by blast
qed

lemma parseValue_fuel:
  assumes "2 * length s < n"
  shows "parseValue n s = parseValue (Suc (2 * length s)) s"
  using assms
proof (induction n)
  case (Suc n)
  then show ?case
    using parse_fuel_Suc [of s n] by (cases "2 * length s < n") (auto simp: less_Suc_eq simp del: parseValue.simps)
qed simp

end
