(* ===== verification/Ksp_Config.thy ===== *)
theory Ksp_Config
  imports Go_Json Crypto_Lib
begin

text \<open>
  Where the key storage provider finds its configuration: \<^verbatim>\<open>internal/kspcommon/paths.go\<close>,
  \<^verbatim>\<open>internal/kspclient/config.go\<close> and the configuration lookup of
  \<^verbatim>\<open>internal/kspbridge/bridge_linux.go\<close>. The operating system is the parameter \<open>cfg_env\<close>; the files are a
  state that \<^verbatim>\<open>SaveConfig\<close> updates and \<^verbatim>\<open>LoadConfig\<close> reads.
\<close>

section \<open>Paths (kspcommon/paths.go)\<close>

definition ProviderName :: string where "ProviderName = ''Fred Proxy Key Storage Provider''"
definition KSPLibrary :: string where "KSPLibrary = ''fredprx_ksp.dll''"
definition ConfigDir :: string where "ConfigDir = ''fredprx-ksp''"

text \<open>
  The operating system: environment variables (unset is the empty string), the home directory,
  path joining, absolute paths, and whether making a directory or writing a file succeeds.
\<close>

record cfg_env =
  Getenv :: "string \<Rightarrow> string"
  UserHomeDir :: "goerror + string"
  path_Join :: "string list \<Rightarrow> string"
  path_Abs :: "string \<Rightarrow> goerror + string"
  MkdirAll :: "string \<Rightarrow> goerror option"
  WriteFile :: "string \<Rightarrow> goerror option"

type_synonym files = "string \<Rightarrow> goerror + string"

definition DataDir :: "cfg_env \<Rightarrow> string" where
  "DataDir env =
     (let base = Getenv env ''ProgramData'' in
      path_Join env [if base = [] then ''C:'' @ [CHR 0x5C] @ ''ProgramData'' else base, ConfigDir])"

definition ConfigPath :: "cfg_env \<Rightarrow> string" where
  "ConfigPath env = path_Join env [DataDir env, ''config.json'']"

section \<open>The configuration file (kspclient/config.go)\<close>

record Config =
  cf_Addr :: string
  cf_CA :: string
  cf_Cert :: string
  cf_Key :: string

definition os_ErrInvalid :: goerror where "os_ErrInvalid = Sentinel ''invalid argument''"

definition json_error :: goerror where "json_error = ErrorString ''json''"

definition config_fields :: "Config \<Rightarrow> (string \<times> string) list" where
  "config_fields c = [(''addr'', cf_Addr c), (''ca'', cf_CA c), (''cert'', cf_Cert c), (''key'', cf_Key c)]"

definition decodeConfig :: "string \<Rightarrow> Config option" where
  "decodeConfig data =
     map_option (\<lambda>f. \<lparr>cf_Addr = f ''addr'', cf_CA = f ''ca'', cf_Cert = f ''cert'', cf_Key = f ''key''\<rparr>)
       (Unmarshal [''addr'', ''ca'', ''cert'', ''key''] data)"

definition LoadConfig :: "cfg_env \<Rightarrow> files \<Rightarrow> string \<Rightarrow> goerror + Config" where
  "LoadConfig env fs path0 =
     (let path = (if path0 = [] then ConfigPath env else path0) in
      andThen (fs path) (\<lambda>data.
        case decodeConfig data of
          None \<Rightarrow> Err json_error
        | Some cfg \<Rightarrow> if cf_Addr cfg = [] then Err os_ErrInvalid else Ok cfg))"

definition LoadConfigFromEnv :: "cfg_env \<Rightarrow> Config option" where
  "LoadConfigFromEnv env =
     (let addr = Getenv env ''KSP11_ADDR'' in
      if addr = [] then None
      else Some \<lparr>cf_Addr = addr, cf_CA = Getenv env ''KSP11_CA'', cf_Cert = Getenv env ''KSP11_CERT'',
                 cf_Key = Getenv env ''KSP11_KEY''\<rparr>)"

definition absField :: "cfg_env \<Rightarrow> string \<Rightarrow> goerror + string" where
  "absField env p = (if p = [] then Ok p else path_Abs env p)"

text \<open>
  \<^verbatim>\<open>SaveConfig\<close> changes the configuration it is given, field by field, also when it fails later;
  the result is the files, the configuration and the error.
\<close>

definition SaveConfig :: "cfg_env \<Rightarrow> files \<Rightarrow> Config \<Rightarrow> string \<Rightarrow> files \<times> Config \<times> goerror option" where
  "SaveConfig env fs cfg path0 =
     (let path = (if path0 = [] then ConfigPath env else path0) in
      case MkdirAll env (DataDir env) of
        Some e \<Rightarrow> (fs, cfg, Some e)
      | None \<Rightarrow>
     (case absField env (cf_CA cfg) of
        Inl e \<Rightarrow> (fs, cfg, Some e)
      | Inr ca \<Rightarrow>
     (let cfg = cfg\<lparr>cf_CA := ca\<rparr> in
      case absField env (cf_Cert cfg) of
        Inl e \<Rightarrow> (fs, cfg, Some e)
      | Inr cert \<Rightarrow>
     (let cfg = cfg\<lparr>cf_Cert := cert\<rparr> in
      case absField env (cf_Key cfg) of
        Inl e \<Rightarrow> (fs, cfg, Some e)
      | Inr key \<Rightarrow>
     (let cfg = cfg\<lparr>cf_Key := key\<rparr>; data = MarshalIndent (config_fields cfg) in
      case WriteFile env path of
        Some e \<Rightarrow> (fs, cfg, Some e)
      | None \<Rightarrow> (fs(path := Ok data), cfg, None))))))"

section \<open>The lookup of the Linux bridge (kspbridge/bridge_linux.go)\<close>

definition defaultConfigPath :: "cfg_env \<Rightarrow> string" where
  "defaultConfigPath env =
     (let base = Getenv env ''XDG_CONFIG_HOME'';
          base = (if base = [] then (case UserHomeDir env of Inl _ \<Rightarrow> base | Inr home \<Rightarrow> path_Join env [home, ''.config'']) else base)
      in path_Join env [base, ''fredprx-ksp'', ''config.json''])"

definition loadConfig :: "cfg_env \<Rightarrow> files \<Rightarrow> string \<Rightarrow> goerror + Config" where
  "loadConfig env fs configPath =
     (if configPath \<noteq> [] then LoadConfig env fs configPath
      else case LoadConfigFromEnv env of
             Some cfg \<Rightarrow> Ok cfg
           | None \<Rightarrow> LoadConfig env fs (defaultConfigPath env))"

section \<open>Properties\<close>

definition config_ascii :: "Config \<Rightarrow> bool" where
  "config_ascii c \<longleftrightarrow> is_ascii (cf_Addr c) \<and> is_ascii (cf_CA c) \<and> is_ascii (cf_Cert c) \<and> is_ascii (cf_Key c)"

lemma decodeConfig_MarshalIndent:
  "config_ascii c \<Longrightarrow> decodeConfig (MarshalIndent (config_fields c)) = Some c"
  by (simp add: decodeConfig_def config_fields_def config_ascii_def Unmarshal_MarshalIndent ascii_char_def)

lemma SaveConfig_success:
  assumes "SaveConfig env fs cfg path = (fs', cfg', None)"
  shows "absField env (cf_CA cfg) = Ok (cf_CA cfg') \<and> absField env (cf_Cert cfg) = Ok (cf_Cert cfg') \<and>
    absField env (cf_Key cfg) = Ok (cf_Key cfg') \<and> cf_Addr cfg' = cf_Addr cfg \<and>
    fs' = fs((if path = [] then ConfigPath env else path) := Ok (MarshalIndent (config_fields cfg')))"
  using assms by (auto simp: SaveConfig_def Let_def split: option.split_asm sum.split_asm)

text \<open>
  C34: a configuration that was saved is the one loaded afterwards from the same path, with its
  non-empty certificate and key paths made absolute and its address unchanged; only an empty
  address makes the load fail. Saving touches no other file, and a failed save touches none.
  (The fields written are ASCII.)
\<close>

theorem SaveConfig_LoadConfig:
  assumes "SaveConfig env fs cfg path = (fs', cfg', r)"
  shows "(\<forall>q. q \<noteq> (if path = [] then ConfigPath env else path) \<longrightarrow> fs' q = fs q) \<and>
    (r \<noteq> None \<longrightarrow> fs' = fs) \<and>
    (r = None \<and> config_ascii cfg' \<longrightarrow>
       LoadConfig env fs' path = (if cf_Addr cfg = [] then Err os_ErrInvalid else Ok cfg') \<and>
       cf_Addr cfg' = cf_Addr cfg \<and> absField env (cf_CA cfg) = Ok (cf_CA cfg') \<and>
       absField env (cf_Cert cfg) = Ok (cf_Cert cfg') \<and> absField env (cf_Key cfg) = Ok (cf_Key cfg'))"
proof (cases r)
  case None
  with assms have s: "SaveConfig env fs cfg path = (fs', cfg', None)" by simp
  from SaveConfig_success [OF s] None show ?thesis
    by (auto simp: LoadConfig_def Let_def decodeConfig_MarshalIndent)
next
  case (Some e)
  with assms have "fs' = fs"
    by (auto simp: SaveConfig_def Let_def split: option.split_asm sum.split_asm)
  with Some show ?thesis by simp
qed

definition demo_cfg_env :: cfg_env where
  "demo_cfg_env = \<lparr>Getenv = (\<lambda>_. []), UserHomeDir = Ok ''/root'', path_Join = concat,
     path_Abs = (\<lambda>p. Ok (CHR ''/'' # p)), MkdirAll = (\<lambda>_. None), WriteFile = (\<lambda>_. None)\<rparr>"

definition demo_cfg :: Config where
  "demo_cfg = \<lparr>cf_Addr = ''h:1'', cf_CA = ''ca'', cf_Cert = [], cf_Key = ''k''\<rparr>"

theorem SaveConfig_LoadConfig_witness:
  "LoadConfig demo_cfg_env (fst (SaveConfig demo_cfg_env (\<lambda>_. Err json_error) demo_cfg ''p'')) ''p'' =
     Ok \<lparr>cf_Addr = ''h:1'', cf_CA = ''/ca'', cf_Cert = [], cf_Key = ''/k''\<rparr>"
proof -
  obtain fs' where s: "SaveConfig demo_cfg_env (\<lambda>_. Err json_error) demo_cfg ''p'' =
      (fs', \<lparr>cf_Addr = ''h:1'', cf_CA = ''/ca'', cf_Cert = [], cf_Key = ''/k''\<rparr>, None)"
    by (simp add: SaveConfig_def demo_cfg_env_def demo_cfg_def absField_def Let_def)
  show ?thesis
    using SaveConfig_LoadConfig [OF s] s by (simp add: config_ascii_def ascii_char_def demo_cfg_def)
qed

text \<open>
  The Linux bridge takes its configuration from the first of three sources that applies: a
  path given by the caller, the environment (when \<^verbatim>\<open>KSP11_ADDR\<close> is set; its other variables may be
  empty), the default file. Whatever the source, a configuration it accepts has an address.
\<close>

lemma loadConfig_precedence:
  "(p \<noteq> [] \<longrightarrow> loadConfig env fs p = LoadConfig env fs p) \<and>
   (p = [] \<and> Getenv env ''KSP11_ADDR'' \<noteq> [] \<longrightarrow>
      (\<exists>cfg. loadConfig env fs p = Ok cfg \<and> cf_Addr cfg = Getenv env ''KSP11_ADDR'' \<and>
         cf_CA cfg = Getenv env ''KSP11_CA'' \<and> cf_Cert cfg = Getenv env ''KSP11_CERT'' \<and>
         cf_Key cfg = Getenv env ''KSP11_KEY'')) \<and>
   (p = [] \<and> Getenv env ''KSP11_ADDR'' = [] \<longrightarrow> loadConfig env fs p = LoadConfig env fs (defaultConfigPath env)) \<and>
   (\<forall>cfg. loadConfig env fs p = Ok cfg \<longrightarrow> cf_Addr cfg \<noteq> [])"
  by (auto simp: loadConfig_def LoadConfigFromEnv_def LoadConfig_def Let_def andThen_Ok_iff
      split: option.splits if_splits)

end
