(* ===== verification/Tls_Util.thy ===== *)
theory Tls_Util
  imports Crypto_Lib Sample_Env
begin

text \<open>
  \<^verbatim>\<open>internal/tlsutil/tls.go\<close>: the TLS configurations of the two ends of the gRPC connection. The
  packages \<^verbatim>\<open>crypto/tls\<close> and \<^verbatim>\<open>crypto/x509\<close> are the parameter \<open>tls_lib\<close>: a certificate pool is
  the list of its certificates, \<open>AppendCertsFromPEM\<close> the certificates it finds in a PEM text
  (empty when it reports failure), \<open>Verify\<close> the chain verification against roots and
  intermediates. \<^verbatim>\<open>VerifyPeerCertificate\<close>, a closure in the code, is the definition
  \<open>verifyPeer\<close>; a configuration holds the pool the closure captured.
\<close>

record 'kp tls_lib =
  AppendCertsFromPEM :: "bytes \<Rightarrow> x509_cert list"
  X509KeyPair :: "bytes \<Rightarrow> bytes \<Rightarrow> goerror + 'kp"
  tls_ParseCertificate :: "bytes \<Rightarrow> goerror + x509_cert"
  Verify :: "x509_cert list \<Rightarrow> x509_cert list \<Rightarrow> x509_cert \<Rightarrow> goerror option"

datatype ClientAuthType = NoClientCert | RequireAndVerifyClientCert

definition VersionTLS12 :: nat where "VersionTLS12 = 0x0303"

record 'kp tls_Config =
  tc_Certificates :: "'kp list"
  tc_RootCAs :: "x509_cert list option"
  tc_ClientCAs :: "x509_cert list option"
  tc_ClientAuth :: ClientAuthType
  tc_ServerName :: string
  tc_InsecureSkipVerify :: bool
  tc_VerifyPeerCertificate :: "x509_cert list option"
  tc_MinVersion :: nat

definition loadPEMOrFile :: "unicode \<Rightarrow> os_env \<Rightarrow> string \<Rightarrow> goerror + bytes" where
  "loadPEMOrFile uc env input0 =
     (let input = TrimSpace uc input0 in
      if Contains input ''-----BEGIN'' then Ok (bytes_of_string input) else os_ReadFile env input)"

definition LoadServerTLSConfig :: "unicode \<Rightarrow> os_env \<Rightarrow> 'kp tls_lib \<Rightarrow> string \<Rightarrow> string \<Rightarrow> string \<Rightarrow> goerror + 'kp tls_Config" where
  "LoadServerTLSConfig uc env lib caPath certPath keyPath =
     andThen (mapErr (Wrapped ''read CA cert'') (loadPEMOrFile uc env caPath)) (\<lambda>caPEM.
     let caPool = AppendCertsFromPEM lib caPEM in
     if caPool = [] then Err (ErrorString ''parse CA cert'')
     else andThen (mapErr (Wrapped ''read server cert'') (loadPEMOrFile uc env certPath)) (\<lambda>certPEM.
     andThen (mapErr (Wrapped ''read server key'') (loadPEMOrFile uc env keyPath)) (\<lambda>keyPEM.
     andThen (mapErr (Wrapped ''load server key pair'') (X509KeyPair lib certPEM keyPEM)) (\<lambda>cert.
     Ok \<lparr>tc_Certificates = [cert], tc_RootCAs = None, tc_ClientCAs = Some caPool,
         tc_ClientAuth = RequireAndVerifyClientCert, tc_ServerName = [], tc_InsecureSkipVerify = False,
         tc_VerifyPeerCertificate = None, tc_MinVersion = VersionTLS12\<rparr>))))"

definition LoadClientTLSConfig :: "unicode \<Rightarrow> os_env \<Rightarrow> 'kp tls_lib \<Rightarrow> string \<Rightarrow> string \<Rightarrow> string \<Rightarrow> string \<Rightarrow>
    goerror + 'kp tls_Config" where
  "LoadClientTLSConfig uc env lib caPath certPath keyPath serverName =
     andThen (mapErr (Wrapped ''read CA cert'') (loadPEMOrFile uc env caPath)) (\<lambda>caPEM.
     let caPool = AppendCertsFromPEM lib caPEM in
     if caPool = [] then Err (ErrorString ''parse CA cert'')
     else andThen (mapErr (Wrapped ''read client cert'') (loadPEMOrFile uc env certPath)) (\<lambda>certPEM.
     andThen (mapErr (Wrapped ''read client key'') (loadPEMOrFile uc env keyPath)) (\<lambda>keyPEM.
     andThen (mapErr (Wrapped ''load client key pair'') (X509KeyPair lib certPEM keyPEM)) (\<lambda>cert.
     Ok \<lparr>tc_Certificates = [cert], tc_RootCAs = Some caPool, tc_ClientCAs = None,
         tc_ClientAuth = NoClientCert, tc_ServerName = serverName, tc_InsecureSkipVerify = True,
         tc_VerifyPeerCertificate = Some caPool, tc_MinVersion = VersionTLS12\<rparr>))))"

text \<open>The closure: parse every certificate, then verify the first with the others as intermediates.\<close>

fun parsePeers :: "'kp tls_lib \<Rightarrow> bytes list \<Rightarrow> goerror + x509_cert list" where
  "parsePeers lib [] = Ok []"
| "parsePeers lib (raw # raws) =
     andThen (mapErr (Wrapped ''parse peer certificate'') (tls_ParseCertificate lib raw)) (\<lambda>c.
     andThen (parsePeers lib raws) (\<lambda>cs. Ok (c # cs)))"

definition verifyPeer :: "'kp tls_lib \<Rightarrow> x509_cert list \<Rightarrow> bytes list \<Rightarrow> goerror option" where
  "verifyPeer lib caPool rawCerts =
     (if rawCerts = [] then Some (ErrorString ''no peer certificates presented'')
      else case parsePeers lib rawCerts of
             Inl e \<Rightarrow> Some e
           | Inr certs \<Rightarrow> Verify lib caPool (tl certs) (hd certs))"

text \<open>
  How the handshake of a client uses the configuration: with \<^verbatim>\<open>InsecureSkipVerify\<close> the library
  checks nothing itself and the peer is accepted exactly when the callback returns nil.
\<close>

definition client_accepts :: "'kp tls_lib \<Rightarrow> 'kp tls_Config \<Rightarrow> bytes list \<Rightarrow> bool" where
  "client_accepts lib cfg rawCerts \<longleftrightarrow>
     tc_InsecureSkipVerify cfg \<and>
     (case tc_VerifyPeerCertificate cfg of None \<Rightarrow> True | Some pool \<Rightarrow> verifyPeer lib pool rawCerts = None)"

section \<open>Properties\<close>

lemma mapErr_Ok [simp]: "mapErr f x = Ok y \<longleftrightarrow> x = Ok y"
  by (cases x) simp_all

lemma parsePeers_Ok_iff:
  "parsePeers lib raws = Ok cs \<longleftrightarrow> list_all2 (\<lambda>raw c. tls_ParseCertificate lib raw = Ok c) raws cs"
proof (induction raws arbitrary: cs)
  case (Cons raw raws)
  then show ?case
    by (auto simp: andThen_Ok_iff list_all2_Cons1)
qed auto

text \<open>
  Whenever the server's TLS configuration loads, it demands a client certificate and has it
  verified against the certificates of the CA file, of which there is at least one, refuses TLS
  below 1.2 and presents exactly the configured key pair.
\<close>

lemma LoadServerTLSConfig_mutual:
  assumes "LoadServerTLSConfig uc env lib ca cert key = Ok cfg"
  shows "tc_ClientAuth cfg = RequireAndVerifyClientCert \<and> tc_MinVersion cfg = 0x0303 \<and>
    \<not> tc_InsecureSkipVerify cfg \<and>
    (\<exists>caPEM certPEM keyPEM pair. loadPEMOrFile uc env ca = Ok caPEM \<and> loadPEMOrFile uc env cert = Ok certPEM \<and>
       loadPEMOrFile uc env key = Ok keyPEM \<and> X509KeyPair lib certPEM keyPEM = Ok pair \<and>
       tc_Certificates cfg = [pair] \<and> tc_ClientCAs cfg = Some (AppendCertsFromPEM lib caPEM) \<and>
       AppendCertsFromPEM lib caPEM \<noteq> [])"
  using assms by (auto simp: LoadServerTLSConfig_def Let_def VersionTLS12_def split: if_splits)

definition demo_tls :: "nat tls_lib" where
  "demo_tls = \<lparr>AppendCertsFromPEM = (\<lambda>b. if b = [1] then [demo_cert 1] else []),
     X509KeyPair = (\<lambda>c k. if c = [1] \<and> k = [11] then Ok 7 else Err (ErrorString ''mismatch'')),
     tls_ParseCertificate = ParseCertificate demo_lib,
     Verify = (\<lambda>roots inter c. if c \<in> set roots \<or> c = demo_cert 2 \<and> demo_cert 3 \<in> set inter
        then None else Some (ErrorString ''unknown authority''))\<rparr>"

lemma demo_server_tls:
  "LoadServerTLSConfig demo_uc demo_env demo_tls ''d/a.crt'' ''d/a.crt'' ''d/a.key'' =
     Ok \<lparr>tc_Certificates = [7], tc_RootCAs = None, tc_ClientCAs = Some [demo_cert 1],
         tc_ClientAuth = RequireAndVerifyClientCert, tc_ServerName = [], tc_InsecureSkipVerify = False,
         tc_VerifyPeerCertificate = None, tc_MinVersion = VersionTLS12\<rparr>"
  by code_simp

lemma LoadServerTLSConfig_mutual_witness:
  "\<exists>cfg. LoadServerTLSConfig demo_uc demo_env demo_tls ''d/a.crt'' ''d/a.crt'' ''d/a.key'' = Ok cfg \<and>
     tc_ClientAuth cfg = RequireAndVerifyClientCert \<and> tc_MinVersion cfg = 0x0303"
  using LoadServerTLSConfig_mutual [OF demo_server_tls] demo_server_tls by blast

text \<open>
  C33: with the client's TLS configuration a server is accepted exactly when it presents at least
  one certificate, all it presents parse, and the first verifies against the certificates of the
  CA file with the remaining ones as intermediates. The server name plays no part.
\<close>

theorem client_accepts_iff_chain_verifies:
  assumes "LoadClientTLSConfig uc env lib ca cert key serverName = Ok cfg"
    and "loadPEMOrFile uc env ca = Ok caPEM"
  shows "client_accepts lib cfg rawCerts \<longleftrightarrow>
    (\<exists>leaf rest. list_all2 (\<lambda>raw c. tls_ParseCertificate lib raw = Ok c) rawCerts (leaf # rest) \<and>
       Verify lib (AppendCertsFromPEM lib caPEM) rest leaf = None)"
proof -
  have cfg: "client_accepts lib cfg rawCerts \<longleftrightarrow> verifyPeer lib (AppendCertsFromPEM lib caPEM) rawCerts = None"
    using assms by (auto simp: LoadClientTLSConfig_def Let_def client_accepts_def split: if_splits)
  show ?thesis
  proof (cases "parsePeers lib rawCerts")
    case (Inl e)
    then have "\<not> list_all2 (\<lambda>raw c. tls_ParseCertificate lib raw = Ok c) rawCerts cs" for cs
      using parsePeers_Ok_iff [of lib rawCerts cs] by simp
    with Inl show ?thesis unfolding cfg by (simp add: verifyPeer_def)
  next
    case (Inr certs)
    have p: "list_all2 (\<lambda>raw c. tls_ParseCertificate lib raw = Ok c) rawCerts cs \<longleftrightarrow> cs = certs" for cs
      using parsePeers_Ok_iff [of lib rawCerts cs] Inr by auto
    have "rawCerts = [] \<longleftrightarrow> certs = []" using p [of certs] by auto
    then show ?thesis unfolding cfg p by (cases certs) (auto simp: verifyPeer_def Inr)
  qed
qed

lemma demo_client_tls:
  "LoadClientTLSConfig demo_uc demo_env demo_tls ''d/a.crt'' ''d/a.crt'' ''d/a.key'' ''srv'' =
     Ok \<lparr>tc_Certificates = [7], tc_RootCAs = Some [demo_cert 1], tc_ClientCAs = None,
         tc_ClientAuth = NoClientCert, tc_ServerName = ''srv'', tc_InsecureSkipVerify = True,
         tc_VerifyPeerCertificate = Some [demo_cert 1], tc_MinVersion = VersionTLS12\<rparr>"
  "loadPEMOrFile demo_uc demo_env ''d/a.crt'' = Ok [1]"
  by code_simp+

theorem client_accepts_iff_chain_verifies_witness:
  "\<exists>cfg. LoadClientTLSConfig demo_uc demo_env demo_tls ''d/a.crt'' ''d/a.crt'' ''d/a.key'' ''srv'' = Ok cfg \<and>
     client_accepts demo_tls cfg [[2], [3]] \<and> \<not> client_accepts demo_tls cfg [[2]] \<and> \<not> client_accepts demo_tls cfg []"
proof -
  note iff = client_accepts_iff_chain_verifies [OF demo_client_tls]
  have "list_all2 (\<lambda>raw c. tls_ParseCertificate demo_tls raw = Ok c) [[2], [3]] (demo_cert 2 # [demo_cert 3])"
    by (simp add: demo_tls_def demo_lib_def)
  moreover have "Verify demo_tls (AppendCertsFromPEM demo_tls [1]) [demo_cert 3] (demo_cert 2) = None"
    by (simp add: demo_tls_def)
  moreover have "\<not> (\<exists>leaf rest. list_all2 (\<lambda>raw c. tls_ParseCertificate demo_tls raw = Ok c) [[2]] (leaf # rest) \<and>
      Verify demo_tls (AppendCertsFromPEM demo_tls [1]) rest leaf = None)"
    by (auto simp: demo_tls_def demo_lib_def list_all2_Cons1 demo_cert_def)
  ultimately show ?thesis
    using demo_client_tls(1) iff [of "[[2], [3]]"] iff [of "[[2]]"] iff [of "[]"] by auto
qed

end
