(* ===== verification/Go_Net.thy ===== *)
theory Go_Net
  imports Go_Prelude
begin

text \<open>
  The part of Go's package \<^verbatim>\<open>net\<close> that the program uses: splitting and joining of
  \<^verbatim>\<open>host:port\<close> addresses, IP addresses and masks. An IP address is a byte slice, 4 or 16 bytes
  long, or \<^verbatim>\<open>nil\<close> (\<open>None\<close>).
\<close>

unbundle bit_operations_syntax

section \<open>Host and port\<close>

definition addrErr :: "string \<Rightarrow> string \<Rightarrow> goerror + string \<times> string" where
  "addrErr addr why = Err (ErrorString (if addr = [] then why else ''address '' @ addr @ '': '' @ why))"

definition SplitHostPort :: "string \<Rightarrow> goerror + string \<times> string" where
  "SplitHostPort hostport =
     (case LastIndexByte hostport (CHR '':'') of
        None \<Rightarrow> addrErr hostport ''missing port in address''
      | Some i \<Rightarrow>
          (if hostport ! 0 = CHR ''['' then
             (case IndexByte hostport (CHR '']'') of
                None \<Rightarrow> addrErr hostport ''missing ']' in address''
              | Some e \<Rightarrow>
                  if e + 1 = length hostport then addrErr hostport ''missing port in address''
                  else if e + 1 = i then
                    (if CHR ''['' \<in> set (drop 1 hostport) then addrErr hostport ''unexpected '[' in address''
                     else if CHR '']'' \<in> set (drop (e + 1) hostport) then addrErr hostport ''unexpected ']' in address''
                     else Ok (take (e - 1) (drop 1 hostport), drop (i + 1) hostport))
                  else if hostport ! (e + 1) = CHR '':'' then addrErr hostport ''too many colons in address''
                  else addrErr hostport ''missing port in address'')
           else if CHR '':'' \<in> set (take i hostport) then addrErr hostport ''too many colons in address''
           else if CHR ''['' \<in> set hostport then addrErr hostport ''unexpected '[' in address''
           else if CHR '']'' \<in> set hostport then addrErr hostport ''unexpected ']' in address''
           else Ok (take i hostport, drop (i + 1) hostport)))"

definition JoinHostPort :: "string \<Rightarrow> string \<Rightarrow> string" where
  "JoinHostPort host port =
     (if CHR '':'' \<in> set host then ''['' @ host @ '']:'' @ port else host @ '':'' @ port)"

section \<open>IP addresses\<close>

type_synonym IP = "bytes option"
type_synonym IPMask = bytes

definition To4 :: "IP \<Rightarrow> IP" where
  "To4 ip =
     (case ip of
        None \<Rightarrow> None
      | Some b \<Rightarrow>
          if length b = 4 then Some b
          else if length b = 16 \<and> take 10 b = replicate 10 0 \<and> b ! 10 = 255 \<and> b ! 11 = 255
          then Some (drop 12 b)
          else None)"

definition IsLoopback :: "IP \<Rightarrow> bool" where
  "IsLoopback ip =
     (case To4 ip of
        Some b \<Rightarrow> b ! 0 = 127
      | None \<Rightarrow> ip = Some (replicate 15 0 @ [1]))"

text \<open>\<^verbatim>\<open>net.IPv4bcast\<close>: 255.255.255.255 in its 16-byte form.\<close>

definition IPv4bcast :: IP where
  "IPv4bcast = Some (replicate 10 0 @ replicate 6 255)"

definition dotted :: "bytes \<Rightarrow> string" where
  "dotted b = dec_of_nat (unat (b ! 0)) @ ''.'' @ dec_of_nat (unat (b ! 1)) @ ''.''
     @ dec_of_nat (unat (b ! 2)) @ ''.'' @ dec_of_nat (unat (b ! 3))"

fun hex_of_nat :: "nat \<Rightarrow> string" where
  "hex_of_nat n = (if n < 16 then [hex_digit n] else hex_of_nat (n div 16) @ [hex_digit (n mod 16)])"

declare hex_of_nat.simps [simp del]

text \<open>The eight 16-bit groups of an IPv6 address, and the first longest run of zero groups.\<close>

definition groups6 :: "bytes \<Rightarrow> nat list" where
  "groups6 b = map (\<lambda>i. 256 * unat (b ! (2 * i)) + unat (b ! (2 * i + 1))) [0..<8]"

definition zeroRun :: "nat list \<Rightarrow> nat \<Rightarrow> nat" where
  "zeroRun gs i = length (takeWhile (\<lambda>g. g = 0) (drop i gs))"

definition longestZeros :: "nat list \<Rightarrow> (nat \<times> nat) option" where
  "longestZeros gs =
     fold (\<lambda>i best. let l = zeroRun gs i in
             if 2 \<le> l \<and> (case best of None \<Rightarrow> True | Some (s, e) \<Rightarrow> e - s < l) then Some (i, i + l) else best)
       [0..<length gs] None"

fun joinColon :: "string list \<Rightarrow> string" where
  "joinColon [] = []"
| "joinColon [x] = x"
| "joinColon (x # y # ys) = x @ '':'' @ joinColon (y # ys)"

definition string6 :: "bytes \<Rightarrow> string" where
  "string6 b =
     (let gs = groups6 b; hex = map hex_of_nat gs
      in case longestZeros gs of
           None \<Rightarrow> joinColon hex
         | Some (s, e) \<Rightarrow> joinColon (take s hex) @ ''::'' @ joinColon (drop e hex))"

definition IP_String :: "IP \<Rightarrow> string" where
  "IP_String ip =
     (case ip of
        None \<Rightarrow> ''<nil>''
      | Some b \<Rightarrow>
          if b = [] then ''<nil>''
          else if length b \<noteq> 4 \<and> length b \<noteq> 16 then ''?'' @ EncodeToString b
          else (case To4 ip of Some p4 \<Rightarrow> dotted p4 | None \<Rightarrow> string6 b))"

section \<open>Socket and interface addresses\<close>

definition Itoa :: "int \<Rightarrow> string" where
  "Itoa n = (if n < 0 then ''-'' @ dec_of_nat (nat (- n)) else dec_of_nat (nat n))"

record UDPAddr =
  ua_IP :: IP
  ua_Port :: int
  ua_Zone :: string

definition ipEmptyString :: "IP \<Rightarrow> string" where
  "ipEmptyString ip = (if ip = None \<or> ip = Some [] then [] else IP_String ip)"

definition UDPAddr_String :: "UDPAddr \<Rightarrow> string" where
  "UDPAddr_String a =
     (if ua_Zone a \<noteq> [] then JoinHostPort (ipEmptyString (ua_IP a) @ ''%'' @ ua_Zone a) (Itoa (ua_Port a))
      else JoinHostPort (ipEmptyString (ua_IP a)) (Itoa (ua_Port a)))"

text \<open>The dynamic type of a \<^verbatim>\<open>net.Addr\<close> that a type assertion of the program tells apart.\<close>

datatype remote_addr = RemoteUDP UDPAddr | RemoteOther

datatype if_addr = IPNet IP IPMask | IfOther

section \<open>Lemmas\<close>

lemma SplitHostPort_JoinHostPort:
  assumes "CHR ''['' \<notin> set h" "CHR '']'' \<notin> set h"
    and "CHR ''['' \<notin> set p" "CHR '']'' \<notin> set p" "CHR '':'' \<notin> set p"
  shows "SplitHostPort (JoinHostPort h p) = Ok (h, p)"
proof (cases "CHR '':'' \<in> set h")
  case True
  let ?a = "CHR ''['' # h @ [CHR '']'']"
  have "LastIndexByte (?a @ CHR '':'' # p) (CHR '':'') = Some (length ?a)"
    by (rule LastIndexByte_append [OF assms(5)])
  then have i: "LastIndexByte (CHR ''['' # h @ CHR '']'' # CHR '':'' # p) (CHR '':'') = Some (length h + 2)"
    by simp
  have "IndexByte ((CHR ''['' # h) @ CHR '']'' # CHR '':'' # p) (CHR '']'') = Some (length (CHR ''['' # h))"
    by (rule IndexByte_append) (use assms in auto)
  then have e: "IndexByte (CHR ''['' # h @ CHR '']'' # CHR '':'' # p) (CHR '']'') = Some (length h + 1)"
    by simp
  have j: "JoinHostPort h p = CHR ''['' # h @ CHR '']'' # CHR '':'' # p"
    using True by (simp add: JoinHostPort_def)
  show ?thesis
    unfolding j SplitHostPort_def i e using assms by simp
next
  case False
  have "LastIndexByte (h @ CHR '':'' # p) (CHR '':'') = Some (length h)"
    by (rule LastIndexByte_append [OF assms(5)])
  moreover have "(h @ CHR '':'' # p) ! 0 \<noteq> CHR ''[''"
    using assms(1) by (cases h) auto
  ultimately show ?thesis
    using False assms by (simp add: SplitHostPort_def JoinHostPort_def)
qed

lemma SplitHostPort_Ok:
  assumes "SplitHostPort s = Ok (h, p)"
  shows "CHR ''['' \<notin> set h \<and> CHR '']'' \<notin> set h \<and>
    CHR ''['' \<notin> set p \<and> CHR '']'' \<notin> set p \<and> CHR '':'' \<notin> set p"
proof -
  from assms obtain i where i: "LastIndexByte s (CHR '':'') = Some i"
    by (cases "LastIndexByte s (CHR '':'')") (auto simp: SplitHostPort_def addrErr_def)
  note last = LastIndexByte_SomeD [OF i]
  show ?thesis
  proof (cases "s ! 0 = CHR ''[''")
    case True
    with assms i obtain e where e: "IndexByte s (CHR '']'') = Some e" and ei: "i = e + 1"
      and nb: "CHR ''['' \<notin> set (drop 1 s)" "CHR '']'' \<notin> set (drop (e + 1) s)"
      and hp: "h = take (e - 1) (drop 1 s)" "p = drop (i + 1) s"
      by (auto simp: SplitHostPort_def addrErr_def split: option.splits if_splits)
    have "set p \<subseteq> set (drop 1 s)" and "set p \<subseteq> set (drop (e + 1) s)"
      unfolding hp(2) ei by (simp_all add: set_drop_subset_set_drop)
    moreover have "set h \<subseteq> set (drop 1 s)"
      unfolding hp(1) by (rule set_take_subset)
    moreover have "set h \<subseteq> set (take e s)"
      unfolding hp(1) by (cases s; cases e) auto
    ultimately show ?thesis
      using nb IndexByte_SomeD [OF e] last hp(2) by auto
  next
    case False
    with assms i have "CHR ''['' \<notin> set s" "CHR '']'' \<notin> set s"
      and hp: "h = take i s" "p = drop (i + 1) s"
      by (auto simp: SplitHostPort_def addrErr_def split: if_splits)
    with last show ?thesis by (auto dest: in_set_takeD in_set_dropD)
  qed
qed

lemma To4_length: "To4 ip = Some b \<Longrightarrow> length b = 4"
  by (auto simp: To4_def split: option.splits if_splits)

lemma To4_idem [simp]: "To4 (To4 ip) = To4 ip"
  by (auto simp: To4_def split: option.splits if_splits)

lemma To4_4 [simp]: "length b = 4 \<Longrightarrow> To4 (Some b) = Some b"
  by (simp add: To4_def)

lemma dec_of_nat_digits: "c \<in> set (dec_of_nat n) \<Longrightarrow> (of_char c :: nat) \<in> {48..57}"
proof (induction n rule: dec_of_nat.induct)
  case (1 n)
  then show ?case
    by (cases "n < 10") (auto simp: dec_of_nat.simps [of n])
qed

lemma dotted_chars: "c \<in> set (dotted b) \<Longrightarrow> (of_char c :: nat) \<in> {46} \<union> {48..57}"
  by (auto simp: dotted_def dest!: dec_of_nat_digits)

lemma dotted_plain:
  "CHR ''['' \<notin> set (dotted b)" "CHR '']'' \<notin> set (dotted b)" "CHR '':'' \<notin> set (dotted b)"
  by (auto dest!: dotted_chars)


lemma append_sep_inj:
  assumes "xs @ c # r = ys @ c # r'" "c \<notin> set xs" "c \<notin> set ys"
  shows "xs = ys \<and> r = r'"
  using assms
proof (induction xs arbitrary: ys)
  case Nil
  then show ?case by (cases ys) auto
next
  case (Cons x xs)
  then show ?case by (cases ys) auto
qed

lemma dec_digit_inj: "a < 10 \<Longrightarrow> b < 10 \<Longrightarrow> (char_of (48 + a) :: char) = char_of (48 + b) \<Longrightarrow> a = (b :: nat)"
  by (drule arg_cong [where f = "of_char :: char \<Rightarrow> nat"]) simp

lemma dec_of_nat_nonempty [simp]: "dec_of_nat n \<noteq> []" "[] \<noteq> dec_of_nat n"
  by (subst dec_of_nat.simps, simp)+

lemma dec_of_nat_inj: "dec_of_nat a = dec_of_nat b \<Longrightarrow> a = b"
proof (induction a arbitrary: b rule: less_induct)
  case (less a)
  show ?case
  proof (cases "a < 10 \<or> b < 10")
    case True
    with less.prems show ?thesis
      by (cases "a < 10"; cases "b < 10")
        (auto simp: dec_of_nat.simps [of a] dec_of_nat.simps [of b] dest: dec_digit_inj)
  next
    case False
    with less.prems have "dec_of_nat (a div 10) = dec_of_nat (b div 10)"
      and "(char_of (48 + a mod 10) :: char) = char_of (48 + b mod 10)"
      by (auto simp: dec_of_nat.simps [of a] dec_of_nat.simps [of b])
    with False less.IH [of "a div 10" "b div 10"] have "a div 10 = b div 10" "a mod 10 = b mod 10"
      by (auto dest!: dec_digit_inj [rotated 2])
    then show ?thesis by (metis div_mult_mod_eq)
  qed
qed

lemma dec_no_dot: "CHR ''.'' \<notin> set (dec_of_nat n)"
  by (auto dest!: dec_of_nat_digits)

lemma dec_sep_inj:
  "dec_of_nat m @ CHR ''.'' # r = dec_of_nat n @ CHR ''.'' # r' \<longleftrightarrow> m = n \<and> r = r'"
  using append_sep_inj [OF _ dec_no_dot dec_no_dot] dec_of_nat_inj by blast

lemma dotted_inj:
  assumes "dotted a = dotted b" "length a = 4" "length b = 4"
  shows "a = b"
proof -
  have "unat (a ! 0) = unat (b ! 0)" "unat (a ! 1) = unat (b ! 1)" "unat (a ! 2) = unat (b ! 2)"
    "unat (a ! 3) = unat (b ! 3)"
    using assms(1) dec_of_nat_inj by (auto simp: dotted_def dec_sep_inj)
  then have "unat (a ! i) = unat (b ! i)" if "i < 4" for i
    using that less_Suc_eq [of i] by (auto simp: numeral_eq_Suc)
  with assms(2,3) show ?thesis
    by (intro nth_equalityI) (auto simp: word_unat_eq_iff)
qed

lemma dotted_literals:
  "dotted [0, 0, 0, 0] = ''0.0.0.0''" "dotted [127, 0, 0, 1] = ''127.0.0.1''"
  by code_simp+

end
