(* ===== verification/Ksp_Client.thy ===== *)
theory Ksp_Client
  imports Cert_Service Ksp_Config Tls_Util Go_Net
begin

text \<open>
  \<^verbatim>\<open>internal/kspclient/client.go\<close>: the client of the certificate service that the key storage
  providers link. Its state is the list of remote keys it has cached and when; \<open>global\<close> is the
  process-wide client. The connection is a parameter: \<open>rpc_ListCertificates\<close> and \<open>rpc_SignHash\<close> are
  what the remote calls return. Times are nanoseconds; a fresh client has the zero time, \<open>None\<close>.
\<close>

section \<open>Data\<close>

definition ErrNotInstalled :: goerror where
  "ErrNotInstalled = Sentinel ''certificate not installed in store for KSP provider''"

definition listCacheTTL :: int where "listCacheTTL = 30000000000"

record KeyInfo =
  ki_Thumbprint :: string
  ki_Subject :: string
  ki_Issuer :: string
  ki_KeyAlgorithm :: string
  ki_KeySize :: int
  ki_CertificateDER :: bytes
  ki_RSAPublicBlob :: bytes

record Client =
  cl_cfg :: Config
  cl_cachedList :: "KeyInfo list"
  cl_cachedAt :: "int option"

text \<open>The remote service, as one call of each method answers.\<close>

record 'ts rpc =
  rpc_ListCertificates :: "goerror + 'ts ListCertificatesResponse"
  rpc_SignHash :: "SignHashRequest \<Rightarrow> goerror + SignHashResponse"

section \<open>The RSA public key blob\<close>

text \<open>\<^verbatim>\<open>(*big.Int).Bytes\<close>: big-endian, without leading zeros.\<close>

fun big_Bytes :: "nat \<Rightarrow> bytes" where
  "big_Bytes n = (if n = 0 then [] else big_Bytes (n div 256) @ [of_nat (n mod 256)])"

declare big_Bytes.simps [simp del]

text \<open>Writing a slice of a byte array: \<^verbatim>\<open>copy(blob[off:], src)\<close> with room for \<open>src\<close>.\<close>

definition putAt :: "nat \<Rightarrow> bytes \<Rightarrow> bytes \<Rightarrow> bytes" where
  "putAt off src blob = take off blob @ src @ drop (off + length src) blob"

definition rsaPublicBlobFromDER :: "('k, 'm) crypto_lib_scheme \<Rightarrow> bytes \<Rightarrow> goerror + bytes" where
  "rsaPublicBlobFromDER lib der =
     andThen (ParseCertificate lib der) (\<lambda>cert.
       case x_PublicKey cert of
         RSAPublicKey n e \<Rightarrow>
           (let modulus = big_Bytes n; exp = be32 (word_of_int e); headerSize = 24;
                blob = replicate (headerSize + length exp + length modulus) 0;
                blob = putAt 0 (le32 0x31415352) blob;
                blob = putAt 4 (le32 (of_nat (BitLen n))) blob;
                blob = putAt 8 (le32 (of_nat (length exp))) blob;
                blob = putAt 12 (le32 (of_nat (length modulus))) blob;
                blob = putAt headerSize exp blob
            in Ok (putAt (headerSize + length exp) modulus blob))
       | _ \<Rightarrow> Err (ErrorString ''not RSA''))"

section \<open>The remote list\<close>

definition keyInfoOf :: "unicode \<Rightarrow> ('k, 'm) crypto_lib_scheme \<Rightarrow> 'ts proto_CertificateInfo \<Rightarrow> KeyInfo" where
  "keyInfoOf uc lib cert =
     (let der = pc_CertificateDer cert;
          issuer = (if pc_Issuer cert = [] \<and> der \<noteq> [] then
                      (case ParseCertificate lib der of
                         Inr parsed \<Rightarrow> if x_IssuerCN parsed \<noteq> [] then ''CN='' @ x_IssuerCN parsed else x_Issuer parsed
                       | Inl _ \<Rightarrow> pc_Issuer cert)
                    else pc_Issuer cert);
          blob = (if pc_KeyAlgorithm cert = ''RSA'' \<and> der \<noteq> [] then
                    (case rsaPublicBlobFromDER lib der of Inr b \<Rightarrow> b | Inl _ \<Rightarrow> [])
                  else [])
      in \<lparr>ki_Thumbprint = NormalizeThumbprint uc (pc_Thumbprint cert), ki_Subject = pc_Subject cert,
          ki_Issuer = issuer, ki_KeyAlgorithm = pc_KeyAlgorithm cert, ki_KeySize = pc_KeySize cert,
          ki_CertificateDER = der, ki_RSAPublicBlob = blob\<rparr>)"

text \<open>\<^verbatim>\<open>time.Since\<close>; for the zero time it is the largest duration.\<close>

definition Since :: "int \<Rightarrow> int option \<Rightarrow> int" where
  "Since now t = (case t of None \<Rightarrow> 2 ^ 63 - 1 | Some t0 \<Rightarrow> now - t0)"

text \<open>The clock is read before the call and, when it succeeds, after it.\<close>

definition refreshRemoteListLocked :: "unicode \<Rightarrow> ('k, 'm) crypto_lib_scheme \<Rightarrow> 'ts rpc \<Rightarrow> int \<Rightarrow> int \<Rightarrow> Client \<Rightarrow>
    Client \<times> goerror option" where
  "refreshRemoteListLocked uc lib rpc now now' c =
     (if Since now (cl_cachedAt c) < listCacheTTL \<and> 0 < length (cl_cachedList c) then (c, None)
      else case rpc_ListCertificates rpc of
             Inl e \<Rightarrow> (c, Some e)
           | Inr resp \<Rightarrow>
               (c\<lparr>cl_cachedList := map (keyInfoOf uc lib) (filter pc_HasPrivateKey (lr_Certificates resp)),
                  cl_cachedAt := Some now'\<rparr>, None))"

definition AllKeys :: "unicode \<Rightarrow> ('k, 'm) crypto_lib_scheme \<Rightarrow> 'ts rpc \<Rightarrow> int \<Rightarrow> int \<Rightarrow> Client \<Rightarrow>
    Client \<times> (goerror + KeyInfo list)" where
  "AllKeys uc lib rpc now now' c =
     (case refreshRemoteListLocked uc lib rpc now now' c of
        (c', Some e) \<Rightarrow> (c', Err e)
      | (c', None) \<Rightarrow> (c', Ok (cl_cachedList c')))"

section \<open>Installed keys\<close>

definition storeKeyInfo :: "unicode \<Rightarrow> ('k, 'm) crypto_lib_scheme \<Rightarrow> CertificateInfo \<Rightarrow> KeyInfo" where
  "storeKeyInfo uc lib sc =
     \<lparr>ki_Thumbprint = NormalizeThumbprint uc (ci_Thumbprint sc), ki_Subject = ci_Subject sc,
      ki_Issuer = ci_Issuer sc, ki_KeyAlgorithm = ci_KeyAlgorithm sc, ki_KeySize = int32 (ci_KeySize sc),
      ki_CertificateDER = ci_CertificateDER sc,
      ki_RSAPublicBlob = (if ci_KeyAlgorithm sc = ''RSA'' \<and> ci_CertificateDER sc \<noteq> [] then
          (case rsaPublicBlobFromDER lib (ci_CertificateDER sc) of Inr b \<Rightarrow> b | Inl _ \<Rightarrow> []) else [])\<rparr>"

text \<open>
  The argument \<open>byProvider\<close> is what \<^verbatim>\<open>certstore.ListCertificatesByProvider(kspcommon.ProviderName)\<close>
  returns. The Go result \<^verbatim>\<open>nil, nil\<close> is the empty list.
\<close>

definition InstalledKeys :: "unicode \<Rightarrow> ('k, 'm) crypto_lib_scheme \<Rightarrow> 'ts rpc \<Rightarrow> int \<Rightarrow> int \<Rightarrow>
    goerror + CertificateInfo list \<Rightarrow> Client \<Rightarrow> Client \<times> (goerror + KeyInfo list)" where
  "InstalledKeys uc lib rpc now now' byProvider c =
     (case byProvider of
        Inr storeCerts \<Rightarrow>
          if 0 < length storeCerts then (c, Ok (map (storeKeyInfo uc lib) storeCerts)) else (c, Ok [])
      | Inl err \<Rightarrow> if err = ErrUnsupportedPlatform then AllKeys uc lib rpc now now' c else (c, Ok []))"

definition FindInstalled :: "unicode \<Rightarrow> ('k, 'm) crypto_lib_scheme \<Rightarrow> 'ts rpc \<Rightarrow> int \<Rightarrow> int \<Rightarrow>
    goerror + CertificateInfo list \<Rightarrow> string \<Rightarrow> Client \<Rightarrow> Client \<times> (goerror + KeyInfo)" where
  "FindInstalled uc lib rpc now now' byProvider thumbprint c =
     (let tp = NormalizeThumbprint uc thumbprint in
      case InstalledKeys uc lib rpc now now' byProvider c of
        (c', Inl e) \<Rightarrow> (c', Err e)
      | (c', Inr keys) \<Rightarrow>
          (c', case find (\<lambda>k. ki_Thumbprint k = tp) keys of
                 Some k \<Rightarrow> Ok k
               | None \<Rightarrow> Err ErrNotInstalled))"

section \<open>Signing\<close>

definition SignHashDirect :: "unicode \<Rightarrow> 'ts rpc \<Rightarrow> string \<Rightarrow> bytes \<Rightarrow> proto_HashAlgorithm \<Rightarrow> proto_RSAPadding \<Rightarrow>
    goerror + bytes" where
  "SignHashDirect uc rpc thumbprint digest hashAlg padding =
     (let tp = NormalizeThumbprint uc thumbprint in
      andThen (rpc_SignHash rpc \<lparr>rq_Thumbprint = tp, rq_Digest = digest, rq_HashAlgorithm = hashAlg,
                                rq_RsaPadding = padding\<rparr>) (\<lambda>resp. Ok (rp_Signature resp)))"

definition client_SignHash :: "unicode \<Rightarrow> ('k, 'm) crypto_lib_scheme \<Rightarrow> 'ts rpc \<Rightarrow> int \<Rightarrow> int \<Rightarrow>
    goerror + CertificateInfo list \<Rightarrow> string \<Rightarrow> bytes \<Rightarrow> proto_HashAlgorithm \<Rightarrow> proto_RSAPadding \<Rightarrow> Client \<Rightarrow>
    Client \<times> (goerror + bytes)" where
  "client_SignHash uc lib rpc now now' byProvider thumbprint digest hashAlg padding c =
     (let tp = NormalizeThumbprint uc thumbprint in
      case FindInstalled uc lib rpc now now' byProvider tp c of
        (c', Inl e) \<Rightarrow> (c', Err e)
      | (c', Inr _) \<Rightarrow> (c', SignHashDirect uc rpc tp digest hashAlg padding))"

definition HashAlgFromInt :: "int \<Rightarrow> proto_HashAlgorithm" where
  "HashAlgFromInt v =
     (if v = 2 then HashAlgorithm_SHA384 else if v = 3 then HashAlgorithm_SHA512 else HashAlgorithm_SHA256)"

definition PaddingFromInt :: "int \<Rightarrow> proto_RSAPadding" where
  "PaddingFromInt v = (if v = 2 then RSAPadding_PSS else RSAPadding_PKCS1)"

definition Ping :: "'ts rpc \<Rightarrow> goerror option" where
  "Ping rpc = (case rpc_ListCertificates rpc of Inl e \<Rightarrow> Some e | Inr _ \<Rightarrow> None)"

definition ReloadManifest :: "Client \<Rightarrow> goerror option" where
  "ReloadManifest c = None"

section \<open>The process-wide client\<close>

text \<open>
  \<^verbatim>\<open>New\<close>: the TLS configuration of \<^verbatim>\<open>tlsutil\<close> for the host of the address, then the connection;
  \<open>dial\<close> is what \<^verbatim>\<open>grpc.NewClient\<close> returns. The state of the process is the client and the
  number of connections that are open.
\<close>

definition New :: "unicode \<Rightarrow> os_env \<Rightarrow> 'kp tls_lib \<Rightarrow> goerror option \<Rightarrow> Config \<Rightarrow> goerror + Client" where
  "New uc env tls dial cfg =
     (let host = (case SplitHostPort (cf_Addr cfg) of Inr (host, _) \<Rightarrow> host | Inl _ \<Rightarrow> cf_Addr cfg) in
      andThen (mapErr (Wrapped ''tls config'')
                (LoadClientTLSConfig uc env tls (cf_CA cfg) (cf_Cert cfg) (cf_Key cfg) host)) (\<lambda>tlsConfig.
      case dial of
        Some e \<Rightarrow> Err (Wrapped ''grpc dial'' e)
      | None \<Rightarrow> Ok \<lparr>cl_cfg = cfg, cl_cachedList = [], cl_cachedAt = None\<rparr>))"

record process =
  pr_global :: "Client option"
  pr_open :: nat

definition closeGlobal :: "process \<Rightarrow> process" where
  "closeGlobal p =
     (case pr_global p of
        None \<Rightarrow> p
      | Some c \<Rightarrow> p\<lparr>pr_global := None, pr_open := pr_open p - 1\<rparr>)"

definition InitGlobal :: "unicode \<Rightarrow> os_env \<Rightarrow> 'kp tls_lib \<Rightarrow> goerror option \<Rightarrow> Config \<Rightarrow> process \<Rightarrow> process \<times> goerror option" where
  "InitGlobal uc env tls dial cfg p =
     (let p = closeGlobal p in
      case New uc env tls dial cfg of
        Inl e \<Rightarrow> (p, Some e)
      | Inr c \<Rightarrow> (p\<lparr>pr_global := Some c, pr_open := Suc (pr_open p)\<rparr>, None))"

definition ShutdownGlobal :: "process \<Rightarrow> process" where
  "ShutdownGlobal p = closeGlobal p"

section \<open>The public key blob\<close>

definition bytes_nat :: "bytes \<Rightarrow> nat" where
  "bytes_nat bs = foldl (\<lambda>n b. 256 * n + unat b) 0 bs"

lemma bytes_nat_snoc [simp]: "bytes_nat (bs @ [b]) = 256 * bytes_nat bs + unat b"
  by (simp add: bytes_nat_def)

lemma unat_of_nat_byte: "unat (of_nat (n mod 256) :: byte) = n mod 256"
  by (simp add: unat_of_nat take_bit_eq_mod)

lemma bytes_nat_big_Bytes: "bytes_nat (big_Bytes n) = n"
proof (induction n rule: big_Bytes.induct)
  case (1 n)
  show ?case
  proof (cases "n = 0")
    case True
    then show ?thesis by (simp add: big_Bytes.simps [of 0] bytes_nat_def)
  next
    case False
    with 1 show ?thesis
      by (subst big_Bytes.simps) (simp add: unat_of_nat_byte)
  qed
qed

lemma BitLen_shift: "2 ^ k \<le> n \<Longrightarrow> BitLen n = k + BitLen (n div 2 ^ k)"
proof (induction k)
  case (Suc k)
  then have "0 < n div 2 ^ k" by (simp add: div_greater_zero_iff)
  then have "BitLen (n div 2 ^ k) = Suc (BitLen (n div 2 ^ k div 2))" by (subst BitLen.simps) simp
  moreover have "n div 2 ^ Suc k = n div 2 ^ k div 2" by (simp add: power_Suc2 div_mult2_eq del: power_Suc)
  ultimately show ?case using Suc by simp
qed simp

lemma BitLen_div256: "256 \<le> n \<Longrightarrow> BitLen n = 8 + BitLen (n div 256)"
  using BitLen_shift [of 8 n] by simp

lemma BitLen_le: "n < 256 \<Longrightarrow> 0 < n \<Longrightarrow> 1 \<le> BitLen n \<and> BitLen n \<le> 8"
proof -
  have le: "BitLen n \<le> k" if "n < 2 ^ k" for n k
    using that
  proof (induction k arbitrary: n)
    case 0
    then show ?case by (simp add: BitLen.simps)
  next
    case (Suc k)
    then show ?case by (subst BitLen.simps) (simp add: less_mult_imp_div_less mult.commute)
  qed
  assume "n < 256" "0 < n"
  with le [of n 8] show ?thesis by (subst BitLen.simps) simp
qed

lemma length_big_Bytes: "length (big_Bytes n) = (BitLen n + 7) div 8"
proof (induction n rule: big_Bytes.induct)
  case (1 n)
  show ?case
  proof (cases "n < 256")
    case True
    show ?thesis
    proof (cases "n = 0")
      case True
      then show ?thesis by (simp add: big_Bytes.simps BitLen.simps)
    next
      case False
      with True have "1 \<le> BitLen n" "BitLen n \<le> 8" using BitLen_le by auto
      then have "(BitLen n + 7) div 8 = 1" by auto
      with True False show ?thesis by (subst big_Bytes.simps) (simp add: big_Bytes.simps [of 0])
    qed
  next
    case False
    with 1 have "length (big_Bytes n) = (BitLen (n div 256) + 7) div 8 + 1"
      by (subst big_Bytes.simps) simp
    with False BitLen_div256 [of n] show ?thesis by simp
  qed
qed

lemma putAt_mid: "length a = off \<Longrightarrow> length b = length src \<Longrightarrow> putAt off src (a @ b @ c) = a @ src @ c"
  by (simp add: putAt_def)

lemma rsaPublicBlob_bytes:
  assumes "ParseCertificate lib der = Ok cert" "x_PublicKey cert = RSAPublicKey n e"
  shows "rsaPublicBlobFromDER lib der = Ok (le32 0x31415352 @ le32 (of_nat (BitLen n)) @ le32 4 @
    le32 (of_nat (length (big_Bytes n))) @ replicate 8 0 @ be32 (word_of_int e) @ big_Bytes n)"
proof -
  let ?z = "replicate 4 (0 :: byte)" and ?g = "replicate 8 (0 :: byte)" and ?m = "big_Bytes n"
  let ?k = "replicate (length ?m) (0 :: byte)"
  define a b c d x where defs: "a = le32 0x31415352" "b = le32 (of_nat (BitLen n))" "c = le32 4"
    "d = le32 (of_nat (length ?m))" "x = be32 (word_of_int e)"
  have len: "length a = 4" "length b = 4" "length c = 4" "length d = 4" "length x = 4" by (simp_all add: defs)
  have zero: "replicate (28 + length ?m) 0 = ?z @ ?z @ ?z @ ?z @ ?g @ ?z @ ?k"
    by (simp only: replicate_add [symmetric]) simp
  have "putAt 28 ?m (putAt 24 x (putAt 12 d (putAt 8 c (putAt 4 b (putAt 0 a (replicate (28 + length ?m) 0)))))) =
      a @ b @ c @ d @ ?g @ x @ ?m"
    unfolding zero
    using putAt_mid [of "[]" 0 ?z a "?z @ ?z @ ?z @ ?g @ ?z @ ?k"] putAt_mid [of a 4 ?z b "?z @ ?z @ ?g @ ?z @ ?k"]
      putAt_mid [of "a @ b" 8 ?z c "?z @ ?g @ ?z @ ?k"] putAt_mid [of "a @ b @ c" 12 ?z d "?g @ ?z @ ?k"]
      putAt_mid [of "a @ b @ c @ d @ ?g" 24 ?z x ?k] putAt_mid [of "a @ b @ c @ d @ ?g @ x" 28 ?k ?m "[]"]
    by (simp only: len length_append length_replicate append_assoc append_Nil append_Nil2 list.size)
  then show ?thesis
    using assms by (simp add: rsaPublicBlobFromDER_def Let_def defs)
qed

text \<open>
  For a certificate with an RSA key the client builds a well-formed \<^verbatim>\<open>BCRYPT_RSAPUBLIC_BLOB\<close>: the
  magic number, the bit length, the lengths of exponent and modulus and eight zero bytes, all 32-bit
  little endian, then the exponent in four big-endian bytes and the modulus in as many bytes as
  its bit length needs; the modulus read back from the blob is the key's. Any other key is an error.
\<close>

lemma rsaPublicBlobFromDER_layout:
  assumes "ParseCertificate lib der = Ok cert"
  shows "(case x_PublicKey cert of
      RSAPublicKey n e \<Rightarrow>
        (\<exists>blob. rsaPublicBlobFromDER lib der = Ok blob \<and>
           take 24 blob = le32 0x31415352 @ le32 (of_nat (BitLen n)) @ le32 4 @
             le32 (of_nat ((BitLen n + 7) div 8)) @ replicate 8 0 \<and>
           take 4 (drop 24 blob) = be32 (word_of_int e) \<and>
           bytes_nat (drop 28 blob) = n \<and> length blob = 28 + (BitLen n + 7) div 8)
    | _ \<Rightarrow> rsaPublicBlobFromDER lib der = Err (ErrorString ''not RSA''))"
proof (cases "x_PublicKey cert")
  case (RSAPublicKey n e)
  with assms show ?thesis
    by (simp add: rsaPublicBlob_bytes bytes_nat_big_Bytes length_big_Bytes)
qed (use assms in \<open>simp_all add: rsaPublicBlobFromDER_def\<close>)

lemma rsaPublicBlobFromDER_layout_witness:
  "\<exists>blob. rsaPublicBlobFromDER demo_lib [1] = Ok blob \<and> bytes_nat (drop 28 blob) = 3233 \<and>
     take 4 (drop 24 blob) = be32 65537"
proof -
  have c: "ParseCertificate demo_lib [1] = Ok (demo_cert 1)" by (simp add: demo_lib_def)
  from rsaPublicBlobFromDER_layout [OF c] show ?thesis by (auto simp: demo_cert_def)
qed

section \<open>The cache\<close>

definition remoteKeys :: "unicode \<Rightarrow> ('k, 'm) crypto_lib_scheme \<Rightarrow> 'ts ListCertificatesResponse \<Rightarrow> KeyInfo list" where
  "remoteKeys uc lib resp = map (keyInfoOf uc lib) (filter pc_HasPrivateKey (lr_Certificates resp))"

text \<open>
  The states of a client, with the last answer of the service it stored and when: a new client,
  and a client after a call of \<^verbatim>\<open>AllKeys\<close> at any times with any answer of the service.
\<close>

inductive client_state ::
  "unicode \<Rightarrow> ('k, 'm) crypto_lib_scheme \<Rightarrow> (int \<times> 'ts ListCertificatesResponse) option \<Rightarrow> Client \<Rightarrow> bool"
  for uc lib where
  fresh: "client_state uc lib None \<lparr>cl_cfg = cfg, cl_cachedList = [], cl_cachedAt = None\<rparr>"
| kept: "client_state uc lib stored c \<Longrightarrow> AllKeys uc lib (rpc :: 'ts rpc) now now' c = (c, r) \<Longrightarrow> client_state uc lib stored c"
| refreshed: "client_state uc lib stored c \<Longrightarrow> rpc_ListCertificates rpc = Ok resp \<Longrightarrow>
    AllKeys uc lib rpc now now' c = (c', r) \<Longrightarrow> c' \<noteq> c \<Longrightarrow> client_state uc lib (Some (now', resp)) c'"

lemma AllKeys_cases:
  "AllKeys uc lib rpc now now' c =
     (if Since now (cl_cachedAt c) < listCacheTTL \<and> cl_cachedList c \<noteq> [] then (c, Ok (cl_cachedList c))
      else case rpc_ListCertificates rpc of
             Inl e \<Rightarrow> (c, Err e)
           | Inr resp \<Rightarrow>
               (c\<lparr>cl_cachedList := remoteKeys uc lib resp, cl_cachedAt := Some now'\<rparr>, Ok (remoteKeys uc lib resp)))"
  by (auto simp: AllKeys_def refreshRemoteListLocked_def remoteKeys_def split: sum.split)

lemma client_state_inv:
  "client_state uc lib stored c \<Longrightarrow>
    (case stored of
       None \<Rightarrow> cl_cachedAt c = None \<and> cl_cachedList c = []
     | Some (t, resp) \<Rightarrow> cl_cachedAt c = Some t \<and> cl_cachedList c = remoteKeys uc lib resp)"
proof (induction rule: client_state.induct)
  case (refreshed stored c rpc resp now now' c' r)
  then show ?case by (auto simp: AllKeys_cases split: if_splits)
qed simp_all

text \<open>
  C11: bounded staleness. The keys that \<^verbatim>\<open>AllKeys\<close> returns are those with a private key in one
  answer of the service: the answer it has just received, or the last one it stored, less than
  30 seconds old on the client's clock. With a stored answer that is young enough and lists a key
  the service is not asked; otherwise its answer, or its error, is the result, and an error leaves
  the client as it was.
\<close>

theorem AllKeys_bounded_staleness:
  assumes "client_state uc lib stored c" and "AllKeys uc lib rpc now now' c = (c', r)"
  shows "(\<exists>t resp. stored = Some (t, resp) \<and> now - t < 30 * 10 ^ 9 \<and> remoteKeys uc lib resp \<noteq> [] \<and>
            r = Ok (remoteKeys uc lib resp) \<and> c' = c) \<or>
    (\<exists>resp. rpc_ListCertificates rpc = Ok resp \<and> r = Ok (remoteKeys uc lib resp) \<and>
            cl_cachedAt c' = Some now' \<and> cl_cachedList c' = remoteKeys uc lib resp) \<or>
    (\<exists>e. rpc_ListCertificates rpc = Err e \<and> r = Err e \<and> c' = c)"
  using assms(2) client_state_inv [OF assms(1)]
  by (auto simp: AllKeys_cases listCacheTTL_def Since_def split: if_splits option.splits sum.splits prod.splits)

definition demo_remote :: "nat ListCertificatesResponse" where
  "demo_remote = \<lparr>lr_Certificates = [\<lparr>pc_Thumbprint = ''aa:bb'', pc_Subject = ''CN=x'', pc_Issuer = [], pc_NotBefore = 0,
     pc_NotAfter = 1, pc_KeyAlgorithm = ''RSA'', pc_KeySize = 2048, pc_HasPrivateKey = True, pc_IsTpm = False,
     pc_ProviderName = [], pc_CertificateDer = [1]\<rparr>]\<rparr>"

definition demo_rpc :: "nat rpc" where
  "demo_rpc = \<lparr>rpc_ListCertificates = Ok demo_remote,
     rpc_SignHash = (\<lambda>q. Ok \<lparr>rp_Signature = rq_Digest q, rp_SignatureAlgorithm = ''ECDSA'', rp_RsaPadding = 1\<rparr>)\<rparr>"

definition demo_client :: Client where
  "demo_client = \<lparr>cl_cfg = demo_cfg, cl_cachedList = [], cl_cachedAt = None\<rparr>"

lemma demo_refresh:
  "AllKeys demo_uc demo_lib demo_rpc 0 5 demo_client =
     (demo_client\<lparr>cl_cachedList := remoteKeys demo_uc demo_lib demo_remote, cl_cachedAt := Some 5\<rparr>,
      Ok (remoteKeys demo_uc demo_lib demo_remote))"
  by (simp add: AllKeys_cases demo_client_def demo_rpc_def)

theorem AllKeys_bounded_staleness_witness:
  "client_state demo_uc demo_lib (None :: (int \<times> nat ListCertificatesResponse) option) demo_client \<and>
   (\<exists>c'. AllKeys demo_uc demo_lib demo_rpc 0 5 demo_client = (c', Ok (remoteKeys demo_uc demo_lib demo_remote)) \<and>
     cl_cachedAt c' = Some 5)"
proof -
  have f: "client_state demo_uc demo_lib (None :: (int \<times> nat ListCertificatesResponse) option) demo_client"
    unfolding demo_client_def by (rule client_state.fresh)
  from AllKeys_bounded_staleness [OF f demo_refresh] f demo_refresh show ?thesis
    by (auto simp: demo_rpc_def)
qed

section \<open>Finding and signing\<close>

lemma InstalledKeys_refreshes_only:
  "InstalledKeys uc lib rpc now now' byProvider c = (c', r) \<Longrightarrow>
     (\<exists>r'. AllKeys uc lib rpc now now' c = (c', r')) \<or> c' = c"
  by (auto simp: InstalledKeys_def split: sum.splits if_splits)

lemma FindInstalled_Ok_iff:
  "FindInstalled uc lib rpc now now' byProvider tp c = (c', Ok k) \<longleftrightarrow>
     (\<exists>keys. InstalledKeys uc lib rpc now now' byProvider c = (c', Ok keys) \<and>
        find (\<lambda>k. ki_Thumbprint k = NormalizeThumbprint uc tp) keys = Some k)"
  by (auto simp: FindInstalled_def Let_def split: prod.splits sum.splits option.splits)

lemma client_SignHash_installed:
  assumes "n = NormalizeThumbprint uc (NormalizeThumbprint uc tp)"
    and "InstalledKeys uc lib rpc now now' byProvider c = (c', keys)"
  shows "client_SignHash uc lib rpc now now' byProvider tp digest hashAlg padding c =
    (c', case keys of
           Inl e \<Rightarrow> Err e
         | Inr ks \<Rightarrow>
             if \<exists>k \<in> set ks. ki_Thumbprint k = n
             then andThen (rpc_SignHash rpc \<lparr>rq_Thumbprint = n, rq_Digest = digest, rq_HashAlgorithm = hashAlg,
                    rq_RsaPadding = padding\<rparr>) (\<lambda>resp. Ok (rp_Signature resp))
             else Err ErrNotInstalled)"
  using assms
  by (auto simp: client_SignHash_def FindInstalled_def SignHashDirect_def Let_def find_None_iff
      find_Some_iff split: sum.split option.split)

text \<open>
  C12: the client signs only for an installed key, for any spelling of the thumbprint. The thumbprint that is looked up
  and the one that is sent to the service are the same \<open>n\<close>: the given one in normal form, for ASCII
  strings without control characters its letters in upper case without the separators. Where the Windows store lists the certificates of the
  provider, one of them must have this thumbprint; where it cannot be listed, nothing is signed; on
  other systems one of the keys of the service must have it, in the list that the cache holds or fetches. Then the service is asked to sign the digest
  with the given hash and padding for exactly this thumbprint, and its signature or error is the result; otherwise the result is
  \<^verbatim>\<open>ErrNotInstalled\<close>, or the error of the listing, whatever the service would have signed.
\<close>

theorem client_SignHash_only_installed:
  assumes "n = NormalizeThumbprint uc (NormalizeThumbprint uc tp)"
    and "asked = andThen (rpc_SignHash rpc \<lparr>rq_Thumbprint = n, rq_Digest = digest, rq_HashAlgorithm = hashAlg,
       rq_RsaPadding = padding\<rparr>) (\<lambda>resp. Ok (rp_Signature resp))"
  shows "(is_ascii tp \<and> ctrl_free tp \<longrightarrow> n = map ascii_upper (filter (\<lambda>ch. ch \<notin> {CHR '':'', CHR '' '', CHR ''-''}) tp)) \<and>
    client_SignHash uc lib rpc now now' byProvider tp digest hashAlg padding c =
    (case byProvider of
       Inr certs \<Rightarrow>
         (c, if \<exists>sc \<in> set certs. NormalizeThumbprint uc (ci_Thumbprint sc) = n then asked else Err ErrNotInstalled)
     | Inl e \<Rightarrow>
         if e \<noteq> ErrUnsupportedPlatform then (c, Err ErrNotInstalled)
         else (case AllKeys uc lib rpc now now' c of
                 (c', Inl e') \<Rightarrow> (c', Err e')
               | (c', Inr keys) \<Rightarrow> (c', if \<exists>k \<in> set keys. ki_Thumbprint k = n then asked else Err ErrNotInstalled)))"
proof (intro conjI impI)
  have sep: "is_sep = (\<lambda>ch. ch \<in> {CHR '':'', CHR '' '', CHR ''-''})" by (auto simp: is_sep_def)
  assume tp: "is_ascii tp \<and> ctrl_free tp"
  then have "n = NormalizeThumbprint uc tp" using assms(1) NormalizeThumbprint_idem by simp
  with tp show "n = map ascii_upper (filter (\<lambda>ch. ch \<notin> {CHR '':'', CHR '' '', CHR ''-''}) tp)"
    using NormalizeThumbprint_closed [of tp uc] unfolding sep by simp
next
  obtain c' keys where k: "InstalledKeys uc lib rpc now now' byProvider c = (c', keys)" by fastforce
  note sign = client_SignHash_installed [OF assms(1) k, of digest hashAlg padding, folded assms(2)]
  show "client_SignHash uc lib rpc now now' byProvider tp digest hashAlg padding c =
    (case byProvider of
       Inr certs \<Rightarrow>
         (c, if \<exists>sc \<in> set certs. NormalizeThumbprint uc (ci_Thumbprint sc) = n then asked else Err ErrNotInstalled)
     | Inl e \<Rightarrow>
         if e \<noteq> ErrUnsupportedPlatform then (c, Err ErrNotInstalled)
         else (case AllKeys uc lib rpc now now' c of
                 (c', Inl e') \<Rightarrow> (c', Err e')
               | (c', Inr keys) \<Rightarrow> (c', if \<exists>k \<in> set keys. ki_Thumbprint k = n then asked else Err ErrNotInstalled)))"
  proof (cases byProvider)
    case (Inl e)
    with k sign show ?thesis by (auto simp: InstalledKeys_def split: prod.split sum.split if_splits)
  next
    case (Inr certs)
    with k have "c' = c" "keys = Ok (map (storeKeyInfo uc lib) certs)"
      by (auto simp: InstalledKeys_def split: if_splits)
    with sign Inr show ?thesis by (simp add: storeKeyInfo_def)
  qed
qed

theorem client_SignHash_only_installed_witness:
  "snd (client_SignHash demo_uc demo_lib demo_rpc 0 5 (Err ErrUnsupportedPlatform) ''Aa-bB'' [1, 2] 1 1 demo_client) = Ok [1, 2] \<and>
   snd (client_SignHash demo_uc demo_lib demo_rpc 0 5 (Err ErrUnsupportedPlatform) ''AA'' [1, 2] 1 1 demo_client) =
     Err ErrNotInstalled"
proof -
  have n: "''AABB'' = NormalizeThumbprint demo_uc (NormalizeThumbprint demo_uc ''Aa-bB'')"
    "''AA'' = NormalizeThumbprint demo_uc (NormalizeThumbprint demo_uc ''AA'')" by code_simp+
  have "NormalizeThumbprint demo_uc ''aa:bb'' = ''AABB''" by code_simp
  then have t: "map ki_Thumbprint (remoteKeys demo_uc demo_lib demo_remote) = [''AABB'']"
    by (simp add: remoteKeys_def demo_remote_def keyInfoOf_def Let_def)
  then obtain k where "remoteKeys demo_uc demo_lib demo_remote = [k]" "ki_Thumbprint k = ''AABB''" by auto
  then show ?thesis
    using client_SignHash_only_installed [OF n(1) refl, where lib = demo_lib and rpc = demo_rpc and now = 0 and now' = 5 and digest = "[1, 2]" and hashAlg = 1
        and padding = 1 and byProvider = "Err ErrUnsupportedPlatform" and c = demo_client]
      client_SignHash_only_installed [OF n(2) refl, where lib = demo_lib and rpc = demo_rpc and now = 0 and now' = 5 and digest = "[1, 2]" and hashAlg = 1
        and padding = 1 and byProvider = "Err ErrUnsupportedPlatform" and c = demo_client]
    by (simp add: demo_refresh) (simp add: demo_rpc_def)
qed

section \<open>The process-wide client\<close>

text \<open>
  The states of the process: calls of \<^verbatim>\<open>InitGlobal\<close> and \<^verbatim>\<open>ShutdownGlobal\<close> in any order, and
  calls on the client, which change its cache only.
\<close>

inductive process_reachable :: "'kp tls_lib \<Rightarrow> process \<Rightarrow> bool" for tls where
  start: "process_reachable tls \<lparr>pr_global = None, pr_open = 0\<rparr>"
| init: "process_reachable tls p \<Longrightarrow> InitGlobal uc env tls dial cfg p = (p', r) \<Longrightarrow> process_reachable tls p'"
| shutdown: "process_reachable tls p \<Longrightarrow> process_reachable tls (ShutdownGlobal p)"
| used: "process_reachable tls p \<Longrightarrow> pr_global p = Some c \<Longrightarrow>
    process_reachable tls (p\<lparr>pr_global := Some (c\<lparr>cl_cachedList := keys, cl_cachedAt := t\<rparr>)\<rparr>)"

lemma process_inv: "process_reachable tls p \<Longrightarrow> pr_open p = (if pr_global p = None then 0 else 1)"
proof (induction rule: process_reachable.induct)
  case (init p uc env dial cfg p' r)
  then show ?case
    by (auto simp: InitGlobal_def closeGlobal_def Let_def split: sum.splits option.splits if_splits)
next
  case (shutdown p)
  then show ?case by (auto simp: ShutdownGlobal_def closeGlobal_def split: option.split)
qed simp_all

text \<open>
  The process never holds more than one connection to the service: however initialisation,
  use and shutdown follow one another, a connection is open exactly while there is a global
  client. Initialising again replaces the client by a new one with an empty cache; when it fails,
  the old client is closed and none is left.
\<close>

lemma global_client_single_connection:
  assumes "process_reachable tls p"
  shows "pr_open p = (if pr_global p = None then 0 else 1) \<and>
    (case InitGlobal uc env tls dial cfg p of
       (p', None) \<Rightarrow> pr_global p' = Some \<lparr>cl_cfg = cfg, cl_cachedList = [], cl_cachedAt = None\<rparr> \<and> pr_open p' = 1
     | (p', Some e) \<Rightarrow> pr_global p' = None \<and> pr_open p' = 0) \<and>
    pr_global (ShutdownGlobal p) = None \<and> pr_open (ShutdownGlobal p) = 0"
proof -
  note inv = process_inv [OF assms]
  have close: "pr_global (closeGlobal p) = None" "pr_open (closeGlobal p) = 0"
    using inv by (auto simp: closeGlobal_def split: option.split)
  have "New uc env tls dial cfg = Ok c \<Longrightarrow> c = \<lparr>cl_cfg = cfg, cl_cachedList = [], cl_cachedAt = None\<rparr>" for c
    by (auto simp: New_def Let_def andThen_Ok_iff split: option.splits)
  with inv close show ?thesis
    by (auto simp: InitGlobal_def ShutdownGlobal_def Let_def split: sum.split)
qed

lemma global_client_single_connection_witness:
  "pr_open (fst (InitGlobal demo_uc demo_env demo_tls None
     \<lparr>cf_Addr = ''h:1'', cf_CA = ''d/a.crt'', cf_Cert = ''d/a.crt'', cf_Key = ''d/a.key''\<rparr> \<lparr>pr_global = None, pr_open = 0\<rparr>)) = 1"
  (is "pr_open (fst (InitGlobal _ _ _ _ ?cfg ?p)) = 1")
proof -
  have "snd (InitGlobal demo_uc demo_env demo_tls None ?cfg ?p) = None" by code_simp
  then show ?thesis
    using global_client_single_connection [OF process_reachable.start, where cfg = ?cfg and uc = demo_uc and env = demo_env and tls = demo_tls and dial = None]
    by (auto split: prod.splits option.splits)
qed

end
