(* ===== verification/Ksp_Bridge.thy ===== *)
theory Ksp_Bridge
  imports Ksp_Client
begin

text \<open>
  The C interface of the key storage provider, \<^verbatim>\<open>internal/kspbridge\<close>: \<^verbatim>\<open>bridge_common.go\<close>, the
  Windows exports of \<^verbatim>\<open>bridge.go\<close> and the Linux exports of \<^verbatim>\<open>bridge_linux.go\<close>.

  C memory is explicit. A heap maps addresses of blocks to their bytes; freeing an address that
  is not allocated has no value (\<open>None\<close>), as it is undefined in C. A pointer argument is
  \<open>None\<close> for \<^verbatim>\<open>NULL\<close>, otherwise the memory it points to. A call returns a code, panics (a Go
  run-time panic ends the process), or is undefined when it would read or write outside the memory
  it was given. The two platforms share the text of their exports up to where the keys come from and
  how a digest is signed; the shared text is a definition with these two as arguments.
\<close>

section \<open>C values\<close>

definition NUL :: char where "NUL = CHR 0x00"

definition c_string :: "string \<Rightarrow> string" where
  "c_string s = takeWhile (\<lambda>c. c \<noteq> NUL) s"

record c_heap =
  hp_next :: nat
  hp_mem :: "nat \<rightharpoonup> bytes"

text \<open>\<^verbatim>\<open>C.malloc\<close> followed by copying the bytes into the new block. In cgo it never returns \<^verbatim>\<open>NULL\<close>.\<close>

definition malloc_copy :: "bytes \<Rightarrow> c_heap \<Rightarrow> nat \<times> c_heap" where
  "malloc_copy bs h = (hp_next h, h\<lparr>hp_next := Suc (hp_next h), hp_mem := (hp_mem h)(hp_next h \<mapsto> bs)\<rparr>)"

definition c_free :: "nat \<Rightarrow> c_heap \<Rightarrow> c_heap option" where
  "c_free a h = (if a \<in> dom (hp_mem h) then Some (h\<lparr>hp_mem := (hp_mem h)(a := None)\<rparr>) else None)"

datatype 'a cgo = Returned 'a | Panics | Undefined

section \<open>bridge_common.go\<close>

record tpmcert_key_info =
  tk_thumbprint :: string
  tk_subject :: string
  tk_key_algorithm :: string
  tk_key_size :: int
  tk_cert_der :: "nat option"
  tk_cert_der_len :: nat
  tk_rsa_public_blob :: "nat option"
  tk_rsa_public_blob_len :: nat

definition codeOK :: int where "codeOK = 0"
definition codeErr :: int where "codeErr = -1"
definition codeNoMore :: int where "codeNoMore = -2"
definition codeNotFound :: int where "codeNotFound = -3"
definition codeBufferTooSmall :: int where "codeBufferTooSmall = -4"

lemmas bridge_codes [simp] = codeOK_def codeErr_def codeNoMore_def codeNotFound_def codeBufferTooSmall_def

definition copyToCChars :: "string \<Rightarrow> int \<Rightarrow> string \<Rightarrow> string" where
  "copyToCChars dst capacity s =
     (if capacity \<le> 0 then dst
      else let n = (if nat capacity - 1 > length s then length s else nat capacity - 1)
           in take n s @ [NUL] @ drop (n + 1) dst)"

text \<open>\<^verbatim>\<open>KeySize\<close> is an \<^verbatim>\<open>int32\<close> in Go already (\<^verbatim>\<open>client.go\<close>, where it is narrowed), so that its conversion to \<^verbatim>\<open>C.int32_t\<close> changes nothing.\<close>

definition fillKeyInfo :: "tpmcert_key_info \<Rightarrow> KeyInfo \<Rightarrow> c_heap \<Rightarrow> tpmcert_key_info \<times> c_heap" where
  "fillKeyInfo out k h =
     (let out = out\<lparr>tk_thumbprint := copyToCChars (tk_thumbprint out) (int (length (tk_thumbprint out))) (ki_Thumbprint k),
                    tk_subject := copyToCChars (tk_subject out) (int (length (tk_subject out))) (ki_Subject k),
                    tk_key_algorithm := copyToCChars (tk_key_algorithm out) (int (length (tk_key_algorithm out))) (ki_KeyAlgorithm k),
                    tk_key_size := ki_KeySize k\<rparr>;
          (out, h) = (if 0 < length (ki_CertificateDER k) then
             (let (a, h) = malloc_copy (ki_CertificateDER k) h
              in (out\<lparr>tk_cert_der := Some a, tk_cert_der_len := length (ki_CertificateDER k)\<rparr>, h))
             else (out, h))
      in (if 0 < length (ki_RSAPublicBlob k) then
             (let (a, h) = malloc_copy (ki_RSAPublicBlob k) h
              in (out\<lparr>tk_rsa_public_blob := Some a, tk_rsa_public_blob_len := length (ki_RSAPublicBlob k)\<rparr>, h))
          else (out, h)))"

section \<open>The exports\<close>

text \<open>What a call can consult: the library, the connection, the clock, the store and the configuration.\<close>

record ('k, 'ts, 'kp) bridge_env =
  be_uc :: unicode
  be_lib :: "'k crypto_lib"
  be_rpc :: "'ts rpc"
  be_now :: int
  be_later :: int
  be_byProvider :: "goerror + CertificateInfo list"
  be_cfg :: cfg_env
  be_files :: files
  be_os :: os_env
  be_tls :: "'kp tls_lib"
  be_dial :: "goerror option"

text \<open>Where the keys come from, and how a digest is signed.\<close>

type_synonym ('k, 'ts, 'kp) keys_fn = "('k, 'ts, 'kp) bridge_env \<Rightarrow> Client \<Rightarrow> Client \<times> (goerror + KeyInfo list)"
type_synonym ('k, 'ts, 'kp) sign_fn =
  "('k, 'ts, 'kp) bridge_env \<Rightarrow> string \<Rightarrow> bytes \<Rightarrow> int \<Rightarrow> int \<Rightarrow> Client \<Rightarrow> Client \<times> (goerror + bytes)"

definition windows_keys :: "('k, 'ts, 'kp) keys_fn" where
  "windows_keys env c = InstalledKeys (be_uc env) (be_lib env) (be_rpc env) (be_now env) (be_later env) (be_byProvider env) c"

definition linux_keys :: "('k, 'ts, 'kp) keys_fn" where
  "linux_keys env c = AllKeys (be_uc env) (be_lib env) (be_rpc env) (be_now env) (be_later env) c"

definition windows_sign :: "('k, 'ts, 'kp) sign_fn" where
  "windows_sign env tp d hashAlg rsaPadding c =
     client_SignHash (be_uc env) (be_lib env) (be_rpc env) (be_now env) (be_later env) (be_byProvider env)
       tp d (HashAlgFromInt hashAlg) (PaddingFromInt rsaPadding) c"

definition linux_sign :: "('k, 'ts, 'kp) sign_fn" where
  "linux_sign env tp d hashAlg rsaPadding c =
     (c, SignHashDirect (be_uc env) (be_rpc env) tp d (HashAlgFromInt hashAlg) (PaddingFromInt rsaPadding))"

subsection \<open>Initialisation and shutdown\<close>

definition goPath :: "string option \<Rightarrow> string" where
  "goPath configPath = (case configPath of None \<Rightarrow> [] | Some p \<Rightarrow> c_string p)"

definition windows_init :: "('k, 'ts, 'kp) bridge_env \<Rightarrow> string option \<Rightarrow> process \<Rightarrow> process \<times> int" where
  "windows_init env configPath p =
     (case LoadConfig (be_cfg env) (be_files env) (goPath configPath) of
        Inl _ \<Rightarrow> (p, codeErr)
      | Inr cfg \<Rightarrow>
     (case InitGlobal (be_uc env) (be_os env) (be_tls env) (be_dial env) cfg p of
        (p, Some _) \<Rightarrow> (p, codeErr)
      | (p, None) \<Rightarrow>
     (case pr_global p of
        None \<Rightarrow> (p, codeErr)
      | Some c \<Rightarrow> (case ReloadManifest c of Some _ \<Rightarrow> (p, codeErr) | None \<Rightarrow> (p, codeOK)))))"

definition linux_init :: "('k, 'ts, 'kp) bridge_env \<Rightarrow> string option \<Rightarrow> process \<Rightarrow> process \<times> int" where
  "linux_init env configPath p =
     (case loadConfig (be_cfg env) (be_files env) (goPath configPath) of
        Inl _ \<Rightarrow> (p, codeErr)
      | Inr cfg \<Rightarrow>
     (case InitGlobal (be_uc env) (be_os env) (be_tls env) (be_dial env) cfg p of
        (p, Some _) \<Rightarrow> (p, codeErr)
      | (p, None) \<Rightarrow>
     (case pr_global p of
        None \<Rightarrow> (p, codeErr)
      | Some c \<Rightarrow> (case Ping (be_rpc env) of Some _ \<Rightarrow> (ShutdownGlobal p, codeErr) | None \<Rightarrow> (p, codeOK)))))"

definition tpmcert_shutdown :: "process \<Rightarrow> process" where
  "tpmcert_shutdown p = ShutdownGlobal p"

definition windows_reload_manifest :: "process \<Rightarrow> int" where
  "windows_reload_manifest p =
     (case pr_global p of
        None \<Rightarrow> codeErr
      | Some c \<Rightarrow> (case ReloadManifest c of Some _ \<Rightarrow> codeErr | None \<Rightarrow> codeOK))"

definition linux_reload_manifest :: "process \<Rightarrow> int" where
  "linux_reload_manifest p = codeOK"

subsection \<open>Listing\<close>

definition installed_count :: "('k, 'ts, 'kp) keys_fn \<Rightarrow> ('k, 'ts, 'kp) bridge_env \<Rightarrow> process \<Rightarrow> process \<times> int" where
  "installed_count keysOf env p =
     (case pr_global p of
        None \<Rightarrow> (p, 0)
      | Some c \<Rightarrow>
          (case keysOf env c of
             (c', Inl _) \<Rightarrow> (p\<lparr>pr_global := Some c'\<rparr>, 0)
           | (c', Inr keys) \<Rightarrow> (p\<lparr>pr_global := Some c'\<rparr>, int32 (int (length keys)))))"

record bridge_out =
  bo_process :: process
  bo_heap :: c_heap
  bo_info :: "tpmcert_key_info option"
  bo_ret :: "int cgo"

definition bridge_ret :: "process \<Rightarrow> c_heap \<Rightarrow> tpmcert_key_info option \<Rightarrow> int \<Rightarrow> bridge_out" where
  "bridge_ret p h out code = \<lparr>bo_process = p, bo_heap = h, bo_info = out, bo_ret = Returned code\<rparr>"

definition get_installed :: "('k, 'ts, 'kp) keys_fn \<Rightarrow> ('k, 'ts, 'kp) bridge_env \<Rightarrow> int \<Rightarrow> tpmcert_key_info option \<Rightarrow>
    c_heap \<Rightarrow> process \<Rightarrow> bridge_out" where
  "get_installed keysOf env index out h p =
     (case out of
        None \<Rightarrow> bridge_ret p h out codeErr
      | Some info \<Rightarrow>
     (case pr_global p of
        None \<Rightarrow> bridge_ret p h out codeErr
      | Some c \<Rightarrow>
     (case keysOf env c of
        (c', Inl _) \<Rightarrow> bridge_ret (p\<lparr>pr_global := Some c'\<rparr>) h out codeErr
      | (c', Inr keys) \<Rightarrow>
          (let p = p\<lparr>pr_global := Some c'\<rparr> in
           if int (length keys) \<le> index then bridge_ret p h out codeNoMore
           else if index < 0 then \<lparr>bo_process = p, bo_heap = h, bo_info = out, bo_ret = Panics\<rparr>
           else (case fillKeyInfo info (keys ! nat index) h of
                   (info, h) \<Rightarrow> bridge_ret p h (Some info) codeOK)))))"

definition windows_find_installed :: "('k, 'ts, 'kp) bridge_env \<Rightarrow> string option \<Rightarrow> tpmcert_key_info option \<Rightarrow>
    c_heap \<Rightarrow> process \<Rightarrow> bridge_out" where
  "windows_find_installed env thumbprint out h p =
     (case (out, thumbprint) of
        (Some info, Some tp) \<Rightarrow>
          (case pr_global p of
             None \<Rightarrow> bridge_ret p h out codeErr
           | Some c \<Rightarrow>
               (case FindInstalled (be_uc env) (be_lib env) (be_rpc env) (be_now env) (be_later env)
                       (be_byProvider env) (c_string tp) c of
                  (c', Inl _) \<Rightarrow> bridge_ret (p\<lparr>pr_global := Some c'\<rparr>) h out codeNotFound
                | (c', Inr k) \<Rightarrow>
                    (case fillKeyInfo info k h of
                       (info, h) \<Rightarrow> bridge_ret (p\<lparr>pr_global := Some c'\<rparr>) h (Some info) codeOK)))
      | _ \<Rightarrow> bridge_ret p h out codeErr)"

text \<open>The Linux bridge normalises thumbprints with a loop of its own.\<close>

fun normalizeThumbprint :: "string \<Rightarrow> string" where
  "normalizeThumbprint [] = []"
| "normalizeThumbprint (ch # s) =
     (if ch = CHR '':'' \<or> ch = CHR '' '' \<or> ch = CHR ''-'' then normalizeThumbprint s
      else (if 97 \<le> (of_char ch :: nat) \<and> (of_char ch :: nat) \<le> 102 then char_of (of_char ch - 32 :: nat) else ch)
           # normalizeThumbprint s)"

definition linux_find_installed :: "('k, 'ts, 'kp) bridge_env \<Rightarrow> string option \<Rightarrow> tpmcert_key_info option \<Rightarrow>
    c_heap \<Rightarrow> process \<Rightarrow> bridge_out" where
  "linux_find_installed env thumbprint out h p =
     (case (out, thumbprint) of
        (Some info, Some tp) \<Rightarrow>
          (case pr_global p of
             None \<Rightarrow> bridge_ret p h out codeErr
           | Some c \<Rightarrow>
               (case linux_keys env c of
                  (c', Inl _) \<Rightarrow> bridge_ret (p\<lparr>pr_global := Some c'\<rparr>) h out codeErr
                | (c', Inr keys) \<Rightarrow>
                    (let p = p\<lparr>pr_global := Some c'\<rparr>; target = normalizeThumbprint (c_string tp) in
                     case find (\<lambda>k. normalizeThumbprint (ki_Thumbprint k) = target) keys of
                       Some k \<Rightarrow> (case fillKeyInfo info k h of (info, h) \<Rightarrow> bridge_ret p h (Some info) codeOK)
                     | None \<Rightarrow> bridge_ret p h out codeNotFound)))
      | _ \<Rightarrow> bridge_ret p h out codeErr)"

definition freeField :: "nat option \<Rightarrow> c_heap \<Rightarrow> c_heap option" where
  "freeField a h = (case a of None \<Rightarrow> Some h | Some addr \<Rightarrow> c_free addr h)"

definition tpmcert_free_key_info :: "tpmcert_key_info option \<Rightarrow> c_heap \<Rightarrow> (tpmcert_key_info option \<times> c_heap) option" where
  "tpmcert_free_key_info out h =
     (case out of
        None \<Rightarrow> Some (None, h)
      | Some info \<Rightarrow>
          Option.bind (freeField (tk_cert_der info) h) (\<lambda>h.
          Option.bind (freeField (tk_rsa_public_blob info) h) (\<lambda>h.
          Some (Some (info\<lparr>tk_cert_der := None, tk_rsa_public_blob := None\<rparr>), h))))"

subsection \<open>Signing\<close>

record sign_out =
  sg_process :: process
  sg_sigOut :: "bytes option"
  sg_sigLen :: "nat option"
  sg_ret :: "int cgo"

text \<open>
  \<open>digest\<close> and \<open>sigOut\<close> are the readable and the writable memory at the pointers. The length of the
  digest is converted to a 32-bit \<^verbatim>\<open>C.int\<close>.
\<close>

definition sign_hash :: "('k, 'ts, 'kp) sign_fn \<Rightarrow> ('k, 'ts, 'kp) bridge_env \<Rightarrow> string option \<Rightarrow> bytes option \<Rightarrow> nat \<Rightarrow>
    int \<Rightarrow> int \<Rightarrow> bytes option \<Rightarrow> nat option \<Rightarrow> process \<Rightarrow> sign_out" where
  "sign_hash signOf env thumbprint digest digestLen hashAlg rsaPadding sigOut sigLen p =
     (case (thumbprint, digest, sigLen) of
        (Some tp, Some mem, Some len) \<Rightarrow>
          (case pr_global p of
             None \<Rightarrow> \<lparr>sg_process = p, sg_sigOut = sigOut, sg_sigLen = sigLen, sg_ret = Returned codeErr\<rparr>
           | Some c \<Rightarrow>
               if int32 (int digestLen) < 0
               then \<lparr>sg_process = p, sg_sigOut = sigOut, sg_sigLen = sigLen, sg_ret = Panics\<rparr>
               else if length mem < nat (int32 (int digestLen))
               then \<lparr>sg_process = p, sg_sigOut = sigOut, sg_sigLen = sigLen, sg_ret = Undefined\<rparr>
               else
                 (case signOf env (c_string tp) (take (nat (int32 (int digestLen))) mem) hashAlg rsaPadding c of
                    (c', Inl _) \<Rightarrow>
                      \<lparr>sg_process = p\<lparr>pr_global := Some c'\<rparr>, sg_sigOut = sigOut, sg_sigLen = sigLen,
                       sg_ret = Returned codeNotFound\<rparr>
                  | (c', Inr sig) \<Rightarrow>
                      (let p = p\<lparr>pr_global := Some c'\<rparr> in
                       case sigOut of
                         None \<Rightarrow>
                           \<lparr>sg_process = p, sg_sigOut = None, sg_sigLen = Some (length sig), sg_ret = Returned codeOK\<rparr>
                       | Some buf \<Rightarrow>
                           if len < length sig
                           then \<lparr>sg_process = p, sg_sigOut = sigOut, sg_sigLen = Some (length sig),
                                 sg_ret = Returned codeBufferTooSmall\<rparr>
                           else if length buf < length sig
                           then \<lparr>sg_process = p, sg_sigOut = sigOut, sg_sigLen = sigLen, sg_ret = Undefined\<rparr>
                           else \<lparr>sg_process = p, sg_sigOut = Some (sig @ drop (length sig) buf),
                                 sg_sigLen = Some (length sig), sg_ret = Returned codeOK\<rparr>)))
      | _ \<Rightarrow> \<lparr>sg_process = p, sg_sigOut = sigOut, sg_sigLen = sigLen, sg_ret = Returned codeErr\<rparr>)"

subsection \<open>The exported functions of each platform\<close>

definition windows_installed_count :: "('k, 'ts, 'kp) bridge_env \<Rightarrow> process \<Rightarrow> process \<times> int" where
  "windows_installed_count = installed_count windows_keys"

definition linux_installed_count :: "('k, 'ts, 'kp) bridge_env \<Rightarrow> process \<Rightarrow> process \<times> int" where
  "linux_installed_count = installed_count linux_keys"

definition windows_get_installed ::
  "('k, 'ts, 'kp) bridge_env \<Rightarrow> int \<Rightarrow> tpmcert_key_info option \<Rightarrow> c_heap \<Rightarrow> process \<Rightarrow> bridge_out" where
  "windows_get_installed = get_installed windows_keys"

definition linux_get_installed ::
  "('k, 'ts, 'kp) bridge_env \<Rightarrow> int \<Rightarrow> tpmcert_key_info option \<Rightarrow> c_heap \<Rightarrow> process \<Rightarrow> bridge_out" where
  "linux_get_installed = get_installed linux_keys"

definition windows_sign_hash :: "('k, 'ts, 'kp) bridge_env \<Rightarrow> string option \<Rightarrow> bytes option \<Rightarrow> nat \<Rightarrow>
    int \<Rightarrow> int \<Rightarrow> bytes option \<Rightarrow> nat option \<Rightarrow> process \<Rightarrow> sign_out" where
  "windows_sign_hash = sign_hash windows_sign"

definition linux_sign_hash :: "('k, 'ts, 'kp) bridge_env \<Rightarrow> string option \<Rightarrow> bytes option \<Rightarrow> nat \<Rightarrow>
    int \<Rightarrow> int \<Rightarrow> bytes option \<Rightarrow> nat option \<Rightarrow> process \<Rightarrow> sign_out" where
  "linux_sign_hash = sign_hash linux_sign"

section \<open>C strings\<close>

lemma c_string_NUL: "c_string (s @ NUL # t) = c_string s"
  by (induction s) (simp_all add: c_string_def)

text \<open>
  Copying a string into a C array never writes outside it and always leaves it terminated: the
  array keeps its length, the C string in it is what fits of the source (with one byte kept for the
  terminator), and a source without NUL that fits is copied whole.
\<close>

lemma copyToCChars_bounded:
  assumes "0 < length dst"
  shows "length (copyToCChars dst (int (length dst)) s) = length dst \<and>
    NUL \<in> set (copyToCChars dst (int (length dst)) s) \<and>
    c_string (copyToCChars dst (int (length dst)) s) = c_string (take (length dst - 1) s) \<and>
    (NUL \<notin> set s \<and> length s < length dst \<longrightarrow> c_string (copyToCChars dst (int (length dst)) s) = s)"
proof -
  let ?n = "min (length s) (length dst - 1)"
  have copy: "copyToCChars dst (int (length dst)) s = take (length dst - 1) s @ NUL # drop (?n + 1) dst"
    using assms by (auto simp: copyToCChars_def Let_def min_def)
  have len: "length (take (length dst - 1) s @ NUL # drop (?n + 1) dst) = length dst"
    using assms by (cases dst) (auto simp: min_def)
  have "c_string s = s" if "NUL \<notin> set s"
    using that by (auto simp: c_string_def takeWhile_eq_all_conv)
  then show ?thesis
    unfolding copy using len assms by (intro conjI impI) (simp_all only: c_string_NUL, auto)
qed

lemma copyToCChars_bounded_witness:
  "c_string (copyToCChars (replicate 4 (CHR ''x'')) 4 ''abcdef'') = ''abc'' \<and>
   c_string (copyToCChars (replicate 4 (CHR ''x'')) 4 ''ab'') = ''ab''"
  using copyToCChars_bounded [of "replicate 4 (CHR ''x'')" "''abcdef''"]
    copyToCChars_bounded [of "replicate 4 (CHR ''x'')" "''ab''"]
  by (simp add: c_string_def NUL_def)

section \<open>Memory\<close>

text \<open>An allocator state: nothing is allocated at or above the next address.\<close>

definition heap_ok :: "c_heap \<Rightarrow> bool" where
  "heap_ok h \<longleftrightarrow> dom (hp_mem h) \<subseteq> {..<hp_next h}"

lemma fillKeyInfo_fields:
  assumes "fillKeyInfo out k h = (out', h')"
  shows "tk_thumbprint out' = copyToCChars (tk_thumbprint out) (int (length (tk_thumbprint out))) (ki_Thumbprint k)"
    and "tk_subject out' = copyToCChars (tk_subject out) (int (length (tk_subject out))) (ki_Subject k)"
    and "tk_key_size out' = ki_KeySize k"
    and "hp_mem h' = hp_mem h ++ map_of
      ((if ki_CertificateDER k \<noteq> [] then [(hp_next h, ki_CertificateDER k)] else []) @
       (if ki_RSAPublicBlob k \<noteq> [] then [(hp_next h + (if ki_CertificateDER k \<noteq> [] then 1 else 0), ki_RSAPublicBlob k)] else []))"
    and "tk_cert_der out' = (if ki_CertificateDER k \<noteq> [] then Some (hp_next h) else tk_cert_der out)"
    and "tk_rsa_public_blob out' = (if ki_RSAPublicBlob k \<noteq> []
      then Some (hp_next h + (if ki_CertificateDER k \<noteq> [] then 1 else 0)) else tk_rsa_public_blob out)"
  using assms by (auto simp: fillKeyInfo_def Let_def malloc_copy_def split: if_splits)

text \<open>
  C14: ownership of the buffers. Filling a structure whose pointers are NULL allocates fresh blocks
  that hold the certificate and the public key blob and changes no other block; freeing the
  structure then succeeds, releases exactly these blocks, so the heap is what it was before the
  call, and leaves the pointers NULL, so that freeing it once more is harmless.
\<close>

theorem fill_free_no_leak:
  assumes "heap_ok h" and "tk_cert_der out = None" "tk_rsa_public_blob out = None"
    and "fillKeyInfo out k h = (out', h')"
  shows "(\<forall>a \<in> dom (hp_mem h). hp_mem h' a = hp_mem h a) \<and>
    (ki_CertificateDER k \<noteq> [] \<longrightarrow> (\<exists>a. tk_cert_der out' = Some a \<and> hp_mem h' a = Some (ki_CertificateDER k))) \<and>
    (ki_RSAPublicBlob k \<noteq> [] \<longrightarrow> (\<exists>a. tk_rsa_public_blob out' = Some a \<and> hp_mem h' a = Some (ki_RSAPublicBlob k))) \<and>
    (\<exists>out2 h2. tpmcert_free_key_info (Some out') h' = Some (Some out2, h2) \<and> hp_mem h2 = hp_mem h \<and>
       tk_cert_der out2 = None \<and> tk_rsa_public_blob out2 = None \<and>
       tpmcert_free_key_info (Some out2) h2 = Some (Some out2, h2))"
proof -
  have fresh: "hp_mem h (hp_next h) = None" "hp_mem h (Suc (hp_next h)) = None"
    using assms(1) by (auto simp: heap_ok_def dest: subsetD [of _ _ "hp_next h"] subsetD [of _ _ "Suc (hp_next h)"])
  note f = fillKeyInfo_fields [OF assms(4)]
  have undo: "(m(a \<mapsto> x))(a := None) = m" if "m a = None" for m :: "nat \<rightharpoonup> bytes" and a x
    using that by auto
  show ?thesis
    using fresh assms(2,3)
    by (cases "ki_CertificateDER k = []"; cases "ki_RSAPublicBlob k = []")
      (auto simp: tpmcert_free_key_info_def freeField_def c_free_def f undo fun_upd_twist)
qed

definition zero_info :: tpmcert_key_info where
  "zero_info = \<lparr>tk_thumbprint = replicate 64 NUL, tk_subject = replicate 512 NUL, tk_key_algorithm = replicate 32 NUL,
     tk_key_size = 0, tk_cert_der = None, tk_cert_der_len = 0, tk_rsa_public_blob = None, tk_rsa_public_blob_len = 0\<rparr>"

definition demo_heap :: c_heap where
  "demo_heap = \<lparr>hp_next = 1, hp_mem = [0 \<mapsto> [9]]\<rparr>"

definition demo_key :: "string \<Rightarrow> KeyInfo" where
  "demo_key tp = \<lparr>ki_Thumbprint = tp, ki_Subject = ''CN=x'', ki_Issuer = [], ki_KeyAlgorithm = ''RSA'', ki_KeySize = 2048,
     ki_CertificateDER = [1, 2], ki_RSAPublicBlob = [3]\<rparr>"

theorem fill_free_no_leak_witness:
  "\<exists>out' h' out2 h2. fillKeyInfo zero_info (demo_key ''AA'') demo_heap = (out', h') \<and>
     tpmcert_free_key_info (Some out') h' = Some (Some out2, h2) \<and> hp_mem h2 = [0 \<mapsto> [9]]"
proof -
  obtain out' h' where f: "fillKeyInfo zero_info (demo_key ''AA'') demo_heap = (out', h')" by force
  have "heap_ok demo_heap" "tk_cert_der zero_info = None" "tk_rsa_public_blob zero_info = None"
    by (simp_all add: heap_ok_def demo_heap_def zero_info_def)
  from fill_free_no_leak [OF this f] f show ?thesis by (auto simp: demo_heap_def)
qed

section \<open>Enumeration\<close>

text \<open>
  The contract between an export and the source of its keys: asking again, in the same
  environment, gives the same list.
\<close>

locale key_source =
  fixes keysOf :: "('k, 'ts, 'kp) keys_fn"
  assumes stable: "keysOf env c = (c', Ok keys) \<Longrightarrow> keysOf env c' = (c', Ok keys)"
begin

lemma enumerates:
  assumes "pr_global p = Some c" and "keysOf env c = (c', Ok keys)" and "length keys < 2 ^ 31"
    and "installed_count keysOf env p = (p', n)"
  shows "n = int (length keys)"
    and "i < length keys \<Longrightarrow> get_installed keysOf env (int i) (Some out) h p' =
      (case fillKeyInfo out (keys ! i) h of (out', h') \<Rightarrow> bridge_ret p' h' (Some out') 0)"
    and "get_installed keysOf env n (Some out) h p' = bridge_ret p' h (Some out) (-2)"
proof -
  have p': "p' = p\<lparr>pr_global := Some c'\<rparr>" and n: "n = int32 (int (length keys))"
    using assms by (auto simp: installed_count_def)
  show n': "n = int (length keys)" using n assms(3) by (simp add: int32_id)
  have k: "keysOf env c' = (c', Ok keys)" using stable [OF assms(2)] .
  show "i < length keys \<Longrightarrow> get_installed keysOf env (int i) (Some out) h p' =
      (case fillKeyInfo out (keys ! i) h of (out', h') \<Rightarrow> bridge_ret p' h' (Some out') 0)"
    by (simp add: get_installed_def p' k Let_def)
  show "get_installed keysOf env n (Some out) h p' = bridge_ret p' h (Some out) (-2)"
    by (simp add: get_installed_def p' k n' Let_def)
qed

lemma negative_index_panics:
  assumes "pr_global p = Some c" and "keysOf env c = (c', Ok keys)" and "index < 0"
  shows "bo_ret (get_installed keysOf env index (Some out) h p) = Panics"
  using assms by (simp add: get_installed_def Let_def)

end

lemma AllKeys_stable:
  "AllKeys uc lib rpc now now' c = (c', Ok keys) \<Longrightarrow> AllKeys uc lib rpc now now' c' = (c', Ok keys)"
  by (auto simp: AllKeys_cases split: if_splits sum.splits)

interpretation lks: key_source linux_keys
  by unfold_locales (simp add: linux_keys_def AllKeys_stable)

interpretation wks: key_source windows_keys
  by unfold_locales
    (auto simp: windows_keys_def InstalledKeys_def AllKeys_stable split: sum.splits if_splits)

text \<open>
  The enumeration protocol of the Linux bridge. With a client and a list of fewer than 2^31
  keys, the count is the length of the list; then the call with each index below it fills the
  structure with the key at that place and returns OK, and the call with the count itself returns
  \<^verbatim>\<open>codeNoMore\<close> and leaves the structure and the heap alone, so a loop over the indices ends there.
\<close>

lemma linux_enumeration:
  assumes "pr_global p = Some c" and "linux_keys env c = (c', Ok keys)" and "length keys < 2 ^ 31"
    and "linux_installed_count env p = (p', n)"
  shows "n = int (length keys) \<and>
    (\<forall>i < length keys. linux_get_installed env (int i) (Some out) h p' =
       (case fillKeyInfo out (keys ! i) h of (out', h') \<Rightarrow> bridge_ret p' h' (Some out') 0)) \<and>
    linux_get_installed env n (Some out) h p' = bridge_ret p' h (Some out) (-2)"
proof -
  have cnt: "installed_count linux_keys env p = (p', n)"
    using assms(4) by (simp add: linux_installed_count_def)
  show ?thesis
    unfolding linux_get_installed_def using lks.enumerates [OF assms(1,2,3) cnt] by blast
qed

definition demo_bridge_env :: "(nat, nat, nat) bridge_env" where
  "demo_bridge_env = \<lparr>be_uc = demo_uc, be_lib = demo_lib, be_rpc = demo_rpc, be_now = 0, be_later = 5,
     be_byProvider = Err ErrUnsupportedPlatform, be_cfg = demo_cfg_env, be_files = (\<lambda>_. Err json_error),
     be_os = demo_env, be_tls = demo_tls, be_dial = None\<rparr>"

definition demo_process :: process where
  "demo_process = \<lparr>pr_global = Some demo_client, pr_open = 1\<rparr>"

lemma demo_linux_keys:
  "linux_keys demo_bridge_env demo_client =
     (demo_client\<lparr>cl_cachedList := remoteKeys demo_uc demo_lib demo_remote, cl_cachedAt := Some 5\<rparr>,
      Ok (remoteKeys demo_uc demo_lib demo_remote))"
  by (simp add: linux_keys_def demo_bridge_env_def demo_refresh)

lemma linux_enumeration_witness:
  "snd (linux_installed_count demo_bridge_env demo_process) = 1 \<and>
   bo_ret (linux_get_installed demo_bridge_env 1 (Some zero_info) demo_heap
     (fst (linux_installed_count demo_bridge_env demo_process))) = Returned (-2)"
proof -
  have len: "length (remoteKeys demo_uc demo_lib demo_remote) = 1"
    by (simp add: remoteKeys_def demo_remote_def)
  obtain p' n where pn: "linux_installed_count demo_bridge_env demo_process = (p', n)" by force
  have "pr_global demo_process = Some demo_client" by (simp add: demo_process_def)
  moreover have "length (remoteKeys demo_uc demo_lib demo_remote) < 2 ^ 31" by (simp add: len)
  ultimately have "n = int (length (remoteKeys demo_uc demo_lib demo_remote)) \<and>
      linux_get_installed demo_bridge_env n (Some zero_info) demo_heap p' = bridge_ret p' demo_heap (Some zero_info) (-2)"
    using linux_enumeration [OF _ demo_linux_keys _ pn, of zero_info demo_heap] by blast
  with pn len show ?thesis by (auto simp: bridge_ret_def)
qed

text \<open>
  The index is checked only against the number of keys. A negative index passes the check and
  the call panics, on both platforms, instead of returning an error code.
\<close>

lemma negative_index_panics_process:
  assumes "pr_global p = Some c" and "index < 0"
    and "linux_keys env c = (c1, Ok keys1)" and "windows_keys env c = (c2, Ok keys2)"
  shows "bo_ret (linux_get_installed env index (Some out) h p) = Panics \<and>
    bo_ret (windows_get_installed env index (Some out) h p) = Panics"
  unfolding linux_get_installed_def windows_get_installed_def
  using lks.negative_index_panics [OF assms(1,3,2)] wks.negative_index_panics [OF assms(1,4,2)] by blast

lemma negative_index_panics_process_witness:
  "bo_ret (linux_get_installed demo_bridge_env (-1) (Some zero_info) demo_heap demo_process) = Panics"
proof -
  have w: "windows_keys demo_bridge_env demo_client =
     (demo_client\<lparr>cl_cachedList := remoteKeys demo_uc demo_lib demo_remote, cl_cachedAt := Some 5\<rparr>,
      Ok (remoteKeys demo_uc demo_lib demo_remote))"
    by (simp add: windows_keys_def InstalledKeys_def demo_bridge_env_def demo_refresh)
  from negative_index_panics_process [OF _ _ demo_linux_keys w] show ?thesis by (simp add: demo_process_def)
qed

section \<open>The signature buffer\<close>

text \<open>
  C13: the two-call protocol for signatures. When the key signs, a call without a buffer reports the
  length of the signature; a call with a buffer and its true length never writes outside it: if the
  signature fits it is stored at the start of the buffer, the rest of the buffer is untouched and
  the length is the signature's; if it does not, the call returns \<^verbatim>\<open>codeBufferTooSmall\<close> with the
  length needed and the buffer is as before. In both cases the process keeps its client.
\<close>

theorem sign_hash_buffer_protocol:
  assumes "pr_global p = Some c" and "digestLen < 2 ^ 31" and "digestLen \<le> length mem"
    and "signOf env (c_string tp) (take digestLen mem) hashAlg rsaPadding c = (c', Ok sig)"
  shows "sign_hash signOf env (Some tp) (Some mem) digestLen hashAlg rsaPadding None (Some l) p =
      \<lparr>sg_process = p\<lparr>pr_global := Some c'\<rparr>, sg_sigOut = None, sg_sigLen = Some (length sig), sg_ret = Returned 0\<rparr> \<and>
    sign_hash signOf env (Some tp) (Some mem) digestLen hashAlg rsaPadding (Some buf) (Some (length buf)) p =
      (if length sig \<le> length buf
       then \<lparr>sg_process = p\<lparr>pr_global := Some c'\<rparr>, sg_sigOut = Some (sig @ drop (length sig) buf),
             sg_sigLen = Some (length sig), sg_ret = Returned 0\<rparr>
       else \<lparr>sg_process = p\<lparr>pr_global := Some c'\<rparr>, sg_sigOut = Some buf,
             sg_sigLen = Some (length sig), sg_ret = Returned (-4)\<rparr>)"
proof -
  have "int32 (int digestLen) = int digestLen" using assms(2) by (intro int32_id) simp_all
  with assms show ?thesis by (simp add: sign_hash_def Let_def)
qed

theorem sign_hash_buffer_protocol_witness:
  "sg_sigLen (linux_sign_hash demo_bridge_env (Some ''AABB'') (Some [1, 2, 3]) 3 1 1 None (Some 0) demo_process) = Some 3 \<and>
   sg_sigOut (linux_sign_hash demo_bridge_env (Some ''AABB'') (Some [1, 2, 3]) 3 1 1 (Some [0, 0, 0, 0]) (Some 4) demo_process) =
     Some [1, 2, 3, 0]"
proof -
  have c: "pr_global demo_process = Some demo_client" by (simp add: demo_process_def)
  have s: "linux_sign demo_bridge_env (c_string ''AABB'') (take 3 [1, 2, 3]) 1 1 demo_client = (demo_client, Ok [1, 2, 3])"
    by (simp add: linux_sign_def SignHashDirect_def demo_bridge_env_def demo_rpc_def)
  have four: "length [0, 0, 0, 0 :: byte] = 4" by simp
  from sign_hash_buffer_protocol [where signOf = linux_sign and env = demo_bridge_env and tp = "''AABB''" and
      mem = "[1, 2, 3]" and digestLen = 3 and hashAlg = 1 and rsaPadding = 1 and l = 0 and buf = "[0, 0, 0, 0]", OF c _ _ s, unfolded four]
  show ?thesis by (simp add: linux_sign_hash_def)
qed

section \<open>The bridge's own normalisation\<close>

definition hex_or_sep :: "char \<Rightarrow> bool" where
  "hex_or_sep c \<longleftrightarrow> is_sep c \<or> (of_char c :: nat) \<in> {48..57} \<union> {65..70} \<union> {97..102}"

lemma normalizeThumbprint_map:
  "list_all hex_or_sep s \<Longrightarrow> normalizeThumbprint s = map ascii_upper (filter (\<lambda>c. \<not> is_sep c) s)"
  by (induction s) (auto simp: hex_or_sep_def is_sep_def ascii_upper_def)

lemma hex_or_sep_plain:
  assumes "list_all hex_or_sep s"
  shows "is_ascii s" "ctrl_free s"
proof -
  have "ascii_char c" "ascii_space c \<longrightarrow> c = CHR '' ''" if "hex_or_sep c" for c
    using that by (auto simp: hex_or_sep_def is_sep_def ascii_char_def ascii_space_def)
  with assms show "is_ascii s" "ctrl_free s"
    by (auto simp: is_ascii_def ctrl_free_def list_all_iff)
qed

text \<open>
  On thumbprints as users write them (hex digits of either case, separated by colons, dashes or
  blanks) the loop in the Linux bridge computes what \<^verbatim>\<open>certstore.NormalizeThumbprint\<close> does: so a key
  of the service is found by \<^verbatim>\<open>tpmcert_find_installed\<close> exactly when the normalised thumbprints agree.
\<close>

lemma normalizeThumbprint_agrees:
  assumes "list_all hex_or_sep s"
  shows "normalizeThumbprint s = NormalizeThumbprint uc s"
  using normalizeThumbprint_map [OF assms] NormalizeThumbprint_closed [OF hex_or_sep_plain [OF assms]] by simp

end
