(* ===== verification/Ctk_Bridge.thy ===== *)
theory Ctk_Bridge
  imports Ksp_Bridge
begin

text \<open>
  The C interface of the macOS token extension, \<^verbatim>\<open>internal/ctkbridge/bridge.go\<close>. Its exports follow
  those of the Windows bridge, on a structure with an issuer and without a public key blob; it
  keeps the text of the last error, and passes hash and padding numbers through unchanged. What it
  prints on standard output is not modelled.
\<close>

section \<open>State\<close>

record ctk_key_info =
  ck_thumbprint :: string
  ck_subject :: string
  ck_issuer :: string
  ck_key_algorithm :: string
  ck_key_size :: int
  ck_cert_der :: "nat option"
  ck_cert_der_len :: nat

record ctk_state =
  cs_process :: process
  cs_lastError :: string

definition setLastError :: "string \<Rightarrow> ctk_state \<Rightarrow> ctk_state" where
  "setLastError msg s = s\<lparr>cs_lastError := msg\<rparr>"

definition ctk_bridge_last_error :: "ctk_state \<Rightarrow> string" where
  "ctk_bridge_last_error s = cs_lastError s"

section \<open>Initialisation\<close>

definition ctk_bridge_init :: "('k, 'ts, 'kp) bridge_env \<Rightarrow> string option \<Rightarrow> ctk_state \<Rightarrow> ctk_state \<times> int" where
  "ctk_bridge_init env configPath s =
     (case LoadConfig (be_cfg env) (be_files env) (goPath configPath) of
        Inl e \<Rightarrow> (setLastError (''load config error: '' @ Error e) s, codeErr)
      | Inr cfg \<Rightarrow>
          (case InitGlobal (be_uc env) (be_os env) (be_tls env) (be_dial env) cfg (cs_process s) of
             (p, Some e) \<Rightarrow> (setLastError (''init global error: '' @ Error e) (s\<lparr>cs_process := p\<rparr>), codeErr)
           | (p, None) \<Rightarrow> (setLastError [] (s\<lparr>cs_process := p\<rparr>), codeOK)))"

definition ctk_bridge_init_opts :: "('k, 'ts, 'kp) bridge_env \<Rightarrow> string option \<Rightarrow> string option \<Rightarrow> string option \<Rightarrow>
    string option \<Rightarrow> ctk_state \<Rightarrow> ctk_state \<times> int" where
  "ctk_bridge_init_opts env addr ca cert key s =
     (case (addr, ca, cert, key) of
        (Some addr, Some ca, Some cert, Some key) \<Rightarrow>
          (let cfg = \<lparr>cf_Addr = c_string addr, cf_CA = c_string ca, cf_Cert = c_string cert, cf_Key = c_string key\<rparr> in
           case InitGlobal (be_uc env) (be_os env) (be_tls env) (be_dial env) cfg (cs_process s) of
             (p, Some e) \<Rightarrow> (setLastError (Error e) (s\<lparr>cs_process := p\<rparr>), codeErr)
           | (p, None) \<Rightarrow> (setLastError [] (s\<lparr>cs_process := p\<rparr>), codeOK))
      | _ \<Rightarrow> (setLastError ''ctk_bridge_init_opts: null argument passed'' s, codeErr))"

definition ctk_bridge_shutdown :: "ctk_state \<Rightarrow> ctk_state" where
  "ctk_bridge_shutdown s = s\<lparr>cs_process := ShutdownGlobal (cs_process s)\<rparr>"

definition ctk_bridge_ping :: "('k, 'ts, 'kp) bridge_env \<Rightarrow> ctk_state \<Rightarrow> int" where
  "ctk_bridge_ping env s =
     (case pr_global (cs_process s) of
        None \<Rightarrow> codeErr
      | Some c \<Rightarrow> (case Ping (be_rpc env) of Some _ \<Rightarrow> codeErr | None \<Rightarrow> codeOK))"

section \<open>Listing\<close>

definition ctk_bridge_installed_count :: "('k, 'ts, 'kp) bridge_env \<Rightarrow> process \<Rightarrow> process \<times> int" where
  "ctk_bridge_installed_count env p = installed_count windows_keys env p"

definition fillCtkKeyInfo :: "ctk_key_info \<Rightarrow> KeyInfo \<Rightarrow> c_heap \<Rightarrow> ctk_key_info \<times> c_heap" where
  "fillCtkKeyInfo out k h =
     (let out = out\<lparr>ck_thumbprint := copyToCChars (ck_thumbprint out) (int (length (ck_thumbprint out))) (ki_Thumbprint k),
                    ck_subject := copyToCChars (ck_subject out) (int (length (ck_subject out))) (ki_Subject k),
                    ck_issuer := copyToCChars (ck_issuer out) (int (length (ck_issuer out))) (ki_Issuer k),
                    ck_key_algorithm := copyToCChars (ck_key_algorithm out) (int (length (ck_key_algorithm out))) (ki_KeyAlgorithm k),
                    ck_key_size := ki_KeySize k\<rparr>
      in if 0 < length (ki_CertificateDER k) then
           (let (a, h) = malloc_copy (ki_CertificateDER k) h
            in (out\<lparr>ck_cert_der := Some a, ck_cert_der_len := length (ki_CertificateDER k)\<rparr>, h))
         else (out, h))"

record ctk_out =
  co_process :: process
  co_heap :: c_heap
  co_info :: "ctk_key_info option"
  co_ret :: "int cgo"

definition ctk_ret :: "process \<Rightarrow> c_heap \<Rightarrow> ctk_key_info option \<Rightarrow> int \<Rightarrow> ctk_out" where
  "ctk_ret p h out code = \<lparr>co_process = p, co_heap = h, co_info = out, co_ret = Returned code\<rparr>"

definition ctk_bridge_get_installed :: "('k, 'ts, 'kp) bridge_env \<Rightarrow> int \<Rightarrow> ctk_key_info option \<Rightarrow> c_heap \<Rightarrow> process \<Rightarrow> ctk_out" where
  "ctk_bridge_get_installed env index out h p =
     (case out of
        None \<Rightarrow> ctk_ret p h out codeErr
      | Some info \<Rightarrow>
     (case pr_global p of
        None \<Rightarrow> ctk_ret p h out codeErr
      | Some c \<Rightarrow>
     (case windows_keys env c of
        (c', Inl _) \<Rightarrow> ctk_ret (p\<lparr>pr_global := Some c'\<rparr>) h out codeErr
      | (c', Inr keys) \<Rightarrow>
          (let p = p\<lparr>pr_global := Some c'\<rparr> in
           if int (length keys) \<le> index then ctk_ret p h out codeNoMore
           else if index < 0 then \<lparr>co_process = p, co_heap = h, co_info = out, co_ret = Panics\<rparr>
           else (case fillCtkKeyInfo info (keys ! nat index) h of
                   (info, h) \<Rightarrow> ctk_ret p h (Some info) codeOK)))))"

definition ctk_bridge_find_installed :: "('k, 'ts, 'kp) bridge_env \<Rightarrow> string option \<Rightarrow> ctk_key_info option \<Rightarrow>
    c_heap \<Rightarrow> process \<Rightarrow> ctk_out" where
  "ctk_bridge_find_installed env thumbprint out h p =
     (case (out, thumbprint) of
        (Some info, Some tp) \<Rightarrow>
          (case pr_global p of
             None \<Rightarrow> ctk_ret p h out codeErr
           | Some c \<Rightarrow>
               (case windows_keys env c of
                  (c', Inl _) \<Rightarrow> ctk_ret (p\<lparr>pr_global := Some c'\<rparr>) h out codeNotFound
                | (c', Inr keys) \<Rightarrow>
                    (let p = p\<lparr>pr_global := Some c'\<rparr> in
                     case find (\<lambda>k. ki_Thumbprint k = c_string tp) keys of
                       Some k \<Rightarrow> (case fillCtkKeyInfo info k h of (info, h) \<Rightarrow> ctk_ret p h (Some info) codeOK)
                     | None \<Rightarrow> ctk_ret p h out codeNotFound)))
      | _ \<Rightarrow> ctk_ret p h out codeErr)"

definition ctk_bridge_free_key_info :: "ctk_key_info option \<Rightarrow> c_heap \<Rightarrow> (ctk_key_info option \<times> c_heap) option" where
  "ctk_bridge_free_key_info out h =
     (case out of
        None \<Rightarrow> Some (None, h)
      | Some info \<Rightarrow>
          Option.bind (freeField (ck_cert_der info) h) (\<lambda>h. Some (Some (info\<lparr>ck_cert_der := None\<rparr>), h)))"

section \<open>Signing\<close>

definition ctk_sign :: "('k, 'ts, 'kp) sign_fn" where
  "ctk_sign env tp d hashAlg rsaPadding c =
     client_SignHash (be_uc env) (be_lib env) (be_rpc env) (be_now env) (be_later env) (be_byProvider env)
       tp d hashAlg rsaPadding c"

definition ctk_bridge_sign_hash :: "('k, 'ts, 'kp) bridge_env \<Rightarrow> string option \<Rightarrow> bytes option \<Rightarrow> nat \<Rightarrow>
    int \<Rightarrow> int \<Rightarrow> bytes option \<Rightarrow> nat option \<Rightarrow> process \<Rightarrow> sign_out" where
  "ctk_bridge_sign_hash = sign_hash ctk_sign"

section \<open>Properties\<close>

lemma fillCtkKeyInfo_fields:
  assumes "fillCtkKeyInfo out k h = (out', h')"
  shows "hp_mem h' = (if ki_CertificateDER k \<noteq> [] then (hp_mem h)(hp_next h \<mapsto> ki_CertificateDER k) else hp_mem h)"
    and "ck_cert_der out' = (if ki_CertificateDER k \<noteq> [] then Some (hp_next h) else ck_cert_der out)"
  using assms by (auto simp: fillCtkKeyInfo_def Let_def malloc_copy_def split: if_splits)

text \<open>
  Ownership in the macOS bridge. Filling a structure whose pointer is NULL and freeing it gives
  back the heap of before, whatever the key; between the two the pointer leads to the certificate,
  and a second free is harmless.
\<close>

lemma ctk_fill_free_no_leak:
  assumes "heap_ok h" and "ck_cert_der out = None" and "fillCtkKeyInfo out k h = (out', h')"
  shows "(ki_CertificateDER k \<noteq> [] \<longrightarrow> (\<exists>a. ck_cert_der out' = Some a \<and> hp_mem h' a = Some (ki_CertificateDER k))) \<and>
    (\<exists>out2 h2. ctk_bridge_free_key_info (Some out') h' = Some (Some out2, h2) \<and> hp_mem h2 = hp_mem h \<and>
       ck_cert_der out2 = None \<and> ctk_bridge_free_key_info (Some out2) h2 = Some (Some out2, h2))"
proof -
  have "hp_mem h (hp_next h) = None"
    using assms(1) by (auto simp: heap_ok_def dest: subsetD [of _ _ "hp_next h"])
  then have "(hp_mem h)(hp_next h := None) = hp_mem h" by auto
  with assms(2) fillCtkKeyInfo_fields [OF assms(3)] show ?thesis
    by (auto simp: ctk_bridge_free_key_info_def freeField_def c_free_def)
qed

definition zero_ctk :: ctk_key_info where
  "zero_ctk = \<lparr>ck_thumbprint = replicate 64 NUL, ck_subject = replicate 512 NUL, ck_issuer = replicate 512 NUL,
     ck_key_algorithm = replicate 32 NUL, ck_key_size = 0, ck_cert_der = None, ck_cert_der_len = 0\<rparr>"

lemma storeKeyInfo_Thumbprint: "ki_Thumbprint (storeKeyInfo uc lib sc) = NormalizeThumbprint uc (ci_Thumbprint sc)"
  by (simp add: storeKeyInfo_def)

text \<open>
  The macOS bridge looks a key up by the exact text of the thumbprint, where the Windows bridge
  normalises it first. For a key of the store whose thumbprint is canonical, the same thumbprint
  in lower case is found by the Windows bridge and not by the macOS one.
\<close>

lemma ctk_find_needs_exact_thumbprint:
  assumes "pr_global p = Some c" and "be_byProvider env = Ok [sc]" and "canonical (ci_Thumbprint sc)"
    and "map ascii_lower (ci_Thumbprint sc) \<noteq> ci_Thumbprint sc"
  shows "bo_ret (windows_find_installed env (Some (map ascii_lower (ci_Thumbprint sc))) (Some out) h p) = Returned 0 \<and>
    co_ret (ctk_bridge_find_installed env (Some (map ascii_lower (ci_Thumbprint sc))) (Some out2) h p) = Returned (-3)"
proof -
  let ?low = "map ascii_lower (ci_Thumbprint sc)"
  have hex: "hex_or_sep (ascii_lower x) \<and> ascii_lower x \<noteq> NUL \<and> \<not> is_sep (ascii_lower x) \<and> ascii_upper (ascii_lower x) = x"
    if "x \<in> set (ci_Thumbprint sc)" for x
    using assms(3) that
    by (auto simp: canonical_def list_all_iff upper_hex_def hex_or_sep_def ascii_lower_def ascii_upper_def is_sep_def NUL_def)
      (drule arg_cong [where f = "of_char :: char \<Rightarrow> nat"], simp)+
  then have h: "list_all hex_or_sep ?low" by (auto simp: list_all_iff)
  have c: "c_string ?low = ?low" using hex by (auto simp: c_string_def takeWhile_eq_all_conv)
  have n: "NormalizeThumbprint (be_uc env) ?low = ci_Thumbprint sc"
    using hex NormalizeThumbprint_closed [OF hex_or_sep_plain [OF h], of "be_uc env"]
    by (auto simp: filter_map o_def intro!: map_idI filter_True [THEN trans])
  have f: "FindInstalled (be_uc env) (be_lib env) (be_rpc env) (be_now env) (be_later env) (be_byProvider env) ?low c =
      (c, Ok (storeKeyInfo (be_uc env) (be_lib env) sc))"
    using assms(2,3) n by (simp add: FindInstalled_def InstalledKeys_def Let_def storeKeyInfo_Thumbprint)
  have "ki_Thumbprint (storeKeyInfo (be_uc env) (be_lib env) sc) \<noteq> ?low"
    using assms(3,4) by (simp add: storeKeyInfo_Thumbprint)
  then show ?thesis
    using assms(1,2) c f
    by (simp add: windows_find_installed_def ctk_bridge_find_installed_def windows_keys_def InstalledKeys_def
        bridge_ret_def ctk_ret_def Let_def split: prod.split)
qed

definition demo_store_cert :: CertificateInfo where
  "demo_store_cert = \<lparr>ci_Thumbprint = ''AB12'', ci_Subject = [], ci_Issuer = [], ci_NotBefore = 0, ci_NotAfter = 0,
     ci_KeyAlgorithm = ''ECDSA'', ci_KeySize = 256, ci_HasPrivateKey = True, ci_IsTPM = False, ci_ProviderName = [],
     ci_CertificateDER = []\<rparr>"

lemma ctk_find_needs_exact_thumbprint_witness:
  "bo_ret (windows_find_installed (demo_bridge_env\<lparr>be_byProvider := Ok [demo_store_cert]\<rparr>) (Some ''ab12'')
     (Some zero_info) demo_heap demo_process) = Returned 0 \<and>
   co_ret (ctk_bridge_find_installed (demo_bridge_env\<lparr>be_byProvider := Ok [demo_store_cert]\<rparr>) (Some ''ab12'')
     (Some zero_ctk) demo_heap demo_process) = Returned (-3)"
proof -
  have c: "canonical (ci_Thumbprint demo_store_cert)" by code_simp
  have l: "map ascii_lower (ci_Thumbprint demo_store_cert) = ''ab12''" by code_simp
  then have d: "map ascii_lower (ci_Thumbprint demo_store_cert) \<noteq> ci_Thumbprint demo_store_cert"
    by (simp add: demo_store_cert_def)
  have g: "pr_global demo_process = Some demo_client" by (simp add: demo_process_def)
  show ?thesis
    using ctk_find_needs_exact_thumbprint [OF g _ c d, where env = "demo_bridge_env\<lparr>be_byProvider := Ok [demo_store_cert]\<rparr>"]
    unfolding l by simp
qed

end
