(* ===== verification/Bridge_Types.thy ===== *)
theory Bridge_Types
  imports Ksp_Bridge
begin

text \<open>
  Type safety of the C interface. A caller holds one \<^verbatim>\<open>tpmcert_key_info\<close> and calls the exports of
  \<^verbatim>\<open>internal/kspbridge\<close> in any order. The structure stays well typed: its three arrays keep their sizes and are
  terminated, its key size is a 32-bit integer, each of its pointers is NULL or points to an allocated block of the length
  that is given beside it, and the two never point to the same block. In such a state freeing is defined.
\<close>

section \<open>Types\<close>

definition in_int32 :: "int \<Rightarrow> bool" where
  "in_int32 x \<longleftrightarrow> - (2 ^ 31) \<le> x \<and> x < 2 ^ 31"

lemma int32_in_int32 [simp]: "in_int32 (int32 x)"
  using int32_range [of x] by (simp add: in_int32_def)

definition block_typed :: "c_heap \<Rightarrow> nat option \<Rightarrow> nat \<Rightarrow> bool" where
  "block_typed h ptr n = (case ptr of None \<Rightarrow> True | Some a \<Rightarrow> (case hp_mem h a of None \<Rightarrow> False | Some bs \<Rightarrow> length bs = n))"

definition array_typed :: "nat \<Rightarrow> string \<Rightarrow> bool" where
  "array_typed n s \<longleftrightarrow> length s = n \<and> NUL \<in> set s"

definition info_typed :: "c_heap \<Rightarrow> tpmcert_key_info \<Rightarrow> bool" where
  "info_typed h info \<longleftrightarrow>
     array_typed 64 (tk_thumbprint info) \<and> array_typed 512 (tk_subject info) \<and> array_typed 32 (tk_key_algorithm info) \<and>
     in_int32 (tk_key_size info) \<and>
     block_typed h (tk_cert_der info) (tk_cert_der_len info) \<and>
     block_typed h (tk_rsa_public_blob info) (tk_rsa_public_blob_len info) \<and>
     (tk_cert_der info = None \<or> tk_cert_der info \<noteq> tk_rsa_public_blob info)"

definition keys_typed :: "KeyInfo list \<Rightarrow> bool" where
  "keys_typed ks \<longleftrightarrow> list_all (\<lambda>k. in_int32 (ki_KeySize k)) ks"

definition process_typed :: "process \<Rightarrow> bool" where
  "process_typed p \<longleftrightarrow> (case pr_global p of None \<Rightarrow> True | Some c \<Rightarrow> keys_typed (cl_cachedList c))"

text \<open>The key sizes in the messages of the service are of the protobuf type \<^verbatim>\<open>int32\<close>.\<close>

definition env_typed :: "('k, 'ts, 'kp) bridge_env \<Rightarrow> bool" where
  "env_typed env \<longleftrightarrow>
     (case rpc_ListCertificates (be_rpc env) of
        Inl _ \<Rightarrow> True
      | Inr resp \<Rightarrow> list_all (\<lambda>c. in_int32 (pc_KeySize c)) (lr_Certificates resp))"

section \<open>The calls of a caller\<close>

record bridge_state =
  bs_process :: process
  bs_heap :: c_heap
  bs_info :: tpmcert_key_info

datatype build = WindowsBuild | LinuxBuild

datatype bridge_call =
    Init_call "string option"
  | Shutdown_call
  | Count_call
  | Get_call int
  | Find_call "string option"
  | Free_call
  | Reload_call
  | Sign_call "string option" "bytes option" nat int int "bytes option" "nat option"

definition bridge_init :: "build \<Rightarrow> ('k, 'ts, 'kp) bridge_env \<Rightarrow> string option \<Rightarrow> process \<Rightarrow> process \<times> int" where
  "bridge_init b = (case b of WindowsBuild \<Rightarrow> windows_init | LinuxBuild \<Rightarrow> linux_init)"

definition bridge_count :: "build \<Rightarrow> ('k, 'ts, 'kp) bridge_env \<Rightarrow> process \<Rightarrow> process \<times> int" where
  "bridge_count b = (case b of WindowsBuild \<Rightarrow> windows_installed_count | LinuxBuild \<Rightarrow> linux_installed_count)"

definition bridge_get :: "build \<Rightarrow> ('k, 'ts, 'kp) bridge_env \<Rightarrow> int \<Rightarrow> tpmcert_key_info option \<Rightarrow> c_heap \<Rightarrow> process \<Rightarrow> bridge_out" where
  "bridge_get b = (case b of WindowsBuild \<Rightarrow> windows_get_installed | LinuxBuild \<Rightarrow> linux_get_installed)"

definition bridge_find :: "build \<Rightarrow> ('k, 'ts, 'kp) bridge_env \<Rightarrow> string option \<Rightarrow> tpmcert_key_info option \<Rightarrow> c_heap \<Rightarrow> process \<Rightarrow> bridge_out" where
  "bridge_find b = (case b of WindowsBuild \<Rightarrow> windows_find_installed | LinuxBuild \<Rightarrow> linux_find_installed)"

definition bridge_sign :: "build \<Rightarrow> ('k, 'ts, 'kp) bridge_env \<Rightarrow> string option \<Rightarrow> bytes option \<Rightarrow> nat \<Rightarrow> int \<Rightarrow> int \<Rightarrow>
    bytes option \<Rightarrow> nat option \<Rightarrow> process \<Rightarrow> sign_out" where
  "bridge_sign b = (case b of WindowsBuild \<Rightarrow> windows_sign_hash | LinuxBuild \<Rightarrow> linux_sign_hash)"

definition of_out :: "tpmcert_key_info \<Rightarrow> bridge_out \<Rightarrow> bridge_state option" where
  "of_out info out =
     (case bo_ret out of
        Returned code \<Rightarrow> Some \<lparr>bs_process = bo_process out, bs_heap = bo_heap out,
          bs_info = (case bo_info out of Some i \<Rightarrow> i | None \<Rightarrow> info)\<rparr>
      | _ \<Rightarrow> None)"

text \<open>The state after a call that returns; \<open>None\<close> when it panics or is undefined.\<close>

fun bridge_next :: "build \<Rightarrow> ('k, 'ts, 'kp) bridge_env \<Rightarrow> bridge_call \<Rightarrow> bridge_state \<Rightarrow> bridge_state option" where
  "bridge_next b env (Init_call path) s = Some (s\<lparr>bs_process := fst (bridge_init b env path (bs_process s))\<rparr>)"
| "bridge_next b env Shutdown_call s = Some (s\<lparr>bs_process := tpmcert_shutdown (bs_process s)\<rparr>)"
| "bridge_next b env Count_call s = Some (s\<lparr>bs_process := fst (bridge_count b env (bs_process s))\<rparr>)"
| "bridge_next b env (Get_call index) s =
     of_out (bs_info s) (bridge_get b env index (Some (bs_info s)) (bs_heap s) (bs_process s))"
| "bridge_next b env (Find_call thumbprint) s =
     of_out (bs_info s) (bridge_find b env thumbprint (Some (bs_info s)) (bs_heap s) (bs_process s))"
| "bridge_next b env Free_call s =
     (case tpmcert_free_key_info (Some (bs_info s)) (bs_heap s) of
        Some (Some info, h) \<Rightarrow> Some (s\<lparr>bs_heap := h, bs_info := info\<rparr>)
      | _ \<Rightarrow> None)"
| "bridge_next b env Reload_call s = Some s"
| "bridge_next b env (Sign_call thumbprint digest digestLen hashAlg rsaPadding sigOut sigLen) s =
     (let out = bridge_sign b env thumbprint digest digestLen hashAlg rsaPadding sigOut sigLen (bs_process s) in
      case sg_ret out of Returned code \<Rightarrow> Some (s\<lparr>bs_process := sg_process out\<rparr>) | _ \<Rightarrow> None)"

text \<open>
  Calls that misuse the interface: a negative index; a digest whose length does not fit in a 32-bit integer or exceeds the memory
  at its pointer; a signature buffer that is smaller than the length given for it.
\<close>

definition misuse :: "bridge_call \<Rightarrow> bool" where
  "misuse c =
     (case c of
        Get_call index \<Rightarrow> index < 0
      | Sign_call thumbprint digest digestLen hashAlg rsaPadding sigOut sigLen \<Rightarrow>
          (case digest of None \<Rightarrow> False | Some mem \<Rightarrow> 2 ^ 31 \<le> digestLen \<or> length mem < digestLen) \<or>
          (case (sigOut, sigLen) of (Some buf, Some len) \<Rightarrow> length buf < len | _ \<Rightarrow> False)
      | _ \<Rightarrow> False)"

definition state_typed :: "bridge_state \<Rightarrow> bool" where
  "state_typed s \<longleftrightarrow> heap_ok (bs_heap s) \<and> info_typed (bs_heap s) (bs_info s) \<and> process_typed (bs_process s)"

fun bridge_run :: "build \<Rightarrow> (('k, 'ts, 'kp) bridge_env \<times> bridge_call) list \<Rightarrow> bridge_state \<Rightarrow> bridge_state option" where
  "bridge_run b [] s = Some s"
| "bridge_run b ((env, c) # calls) s = Option.bind (bridge_next b env c s) (bridge_run b calls)"

definition bridge_start :: "c_heap \<Rightarrow> bridge_state" where
  "bridge_start h = \<lparr>bs_process = \<lparr>pr_global = None, pr_open = 0\<rparr>, bs_heap = h, bs_info = zero_info\<rparr>"

section \<open>Keys and processes\<close>

lemma AllKeys_typed:
  assumes "env_typed env" and "keys_typed (cl_cachedList c)"
    and "AllKeys (be_uc env) (be_lib env) (be_rpc env) now now' c = (c', r)"
  shows "keys_typed (cl_cachedList c') \<and> (\<forall>ks. r = Ok ks \<longrightarrow> keys_typed ks)"
proof -
  have "keys_typed (remoteKeys uc lib resp)" if "rpc_ListCertificates (be_rpc env) = Ok resp" for uc lib resp
    using assms(1) that by (auto simp: env_typed_def keys_typed_def remoteKeys_def keyInfoOf_def Let_def list_all_iff)
  with assms show ?thesis by (auto simp: AllKeys_cases split: if_splits sum.splits)
qed

lemma keys_of_typed:
  assumes "env_typed env" and "keys_typed (cl_cachedList c)" and "keysOf = windows_keys \<or> keysOf = linux_keys"
    and "keysOf env c = (c', r)"
  shows "keys_typed (cl_cachedList c') \<and> (\<forall>ks. r = Ok ks \<longrightarrow> keys_typed ks)"
proof -
  have "keys_typed (map (storeKeyInfo uc lib) cs)" for uc lib cs
    by (simp add: keys_typed_def storeKeyInfo_def list_all_iff)
  with assms AllKeys_typed [OF assms(1,2)] show ?thesis
    by (auto simp: windows_keys_def linux_keys_def InstalledKeys_def keys_typed_def split: sum.splits if_splits)
qed

lemma New_fresh: "New uc env tls dial cfg = Ok c \<Longrightarrow> cl_cachedList c = []"
  by (auto simp: New_def Let_def andThen_Ok_iff split: option.splits)

lemma init_typed:
  assumes "process_typed p"
  shows "process_typed (fst (bridge_init b env path p))"
proof -
  have i: "process_typed q" if "InitGlobal uc os tls dial cfg p = (q, r)" for uc os tls dial cfg q r
    using that by (auto simp: InitGlobal_def closeGlobal_def process_typed_def keys_typed_def Let_def New_fresh split: sum.splits option.splits)
  have s: "process_typed (ShutdownGlobal q)" for q
    by (simp add: ShutdownGlobal_def closeGlobal_def process_typed_def split: option.split)
  from assms show ?thesis
    by (cases b) (auto simp: bridge_init_def windows_init_def linux_init_def s intro: i split: sum.split prod.split option.split)
qed

lemma shutdown_typed: "process_typed (tpmcert_shutdown p)"
  by (simp add: tpmcert_shutdown_def ShutdownGlobal_def closeGlobal_def process_typed_def split: option.split)

lemma count_typed:
  assumes "env_typed env" and "process_typed p"
  shows "process_typed (fst (bridge_count b env p))"
proof -
  have "process_typed (fst (installed_count keysOf env p))" if k: "keysOf = windows_keys \<or> keysOf = linux_keys"
    for keysOf :: "('a, 'b, 'c) keys_fn"
  proof (cases "pr_global p")
    case None
    with assms(2) show ?thesis by (simp add: installed_count_def)
  next
    case (Some c)
    obtain c' r where r: "keysOf env c = (c', r)" by fastforce
    from assms(2) Some have "keys_typed (cl_cachedList c)" by (simp add: process_typed_def)
    from keys_of_typed [OF assms(1) this k r] show ?thesis
      by (cases r) (simp_all add: installed_count_def process_typed_def Some r)
  qed
  then show ?thesis by (cases b) (simp_all add: bridge_count_def windows_installed_count_def linux_installed_count_def)
qed

lemma sign_of_typed:
  assumes "env_typed env" and "keys_typed (cl_cachedList c)" and "signOf = windows_sign \<or> signOf = linux_sign"
    and "signOf env tp d hashAlg rsaPadding c = (c', r)"
  shows "keys_typed (cl_cachedList c')"
proof -
  obtain c2 r2 where k: "windows_keys env c = (c2, r2)" by fastforce
  then have i: "InstalledKeys (be_uc env) (be_lib env) (be_rpc env) (be_now env) (be_later env) (be_byProvider env) c = (c2, r2)"
    by (simp add: windows_keys_def)
  from keys_of_typed [OF assms(1,2) disjI1 [OF refl] k] have "keys_typed (cl_cachedList c2)" ..
  with assms(2-4) i show ?thesis
    by (auto simp: windows_sign_def linux_sign_def client_SignHash_def FindInstalled_def Let_def split: sum.splits prod.splits option.splits)
qed

lemma sign_typed:
  assumes "env_typed env" and "process_typed p" and "signOf = windows_sign \<or> signOf = linux_sign"
  shows "process_typed (sg_process (sign_hash signOf env thumbprint digest digestLen hashAlg rsaPadding sigOut sigLen p))"
proof (cases "pr_global p")
  case None
  with assms(2) show ?thesis by (auto simp: sign_hash_def split: option.split)
next
  case (Some c)
  with assms(2) have c: "keys_typed (cl_cachedList c)" by (simp add: process_typed_def)
  with assms(2) sign_of_typed [OF assms(1) c assms(3)] Some show ?thesis
    by (auto simp: sign_hash_def Let_def process_typed_def split: option.split prod.split sum.split)
qed

lemma int32_small: "x < 2 ^ 31 \<Longrightarrow> int32 (int x) = int x"
  by (simp add: int32_id)

lemma sign_returns:
  assumes "\<not> misuse (Sign_call thumbprint digest digestLen hashAlg rsaPadding sigOut sigLen)"
  shows "\<exists>code. sg_ret (sign_hash signOf env thumbprint digest digestLen hashAlg rsaPadding sigOut sigLen p) = Returned code"
  using assms
  by (auto simp: sign_hash_def misuse_def int32_small Let_def not_le split: option.splits prod.splits sum.splits)

lemma bridge_sign_cases:
  "bridge_sign b = sign_hash (case b of WindowsBuild \<Rightarrow> windows_sign | LinuxBuild \<Rightarrow> linux_sign)"
  by (cases b) (simp_all add: bridge_sign_def windows_sign_hash_def linux_sign_hash_def)

section \<open>Filling and freeing\<close>

lemma array_typed_copy: "array_typed n dst \<Longrightarrow> 0 < n \<Longrightarrow> array_typed n (copyToCChars dst (int (length dst)) s)"
  using copyToCChars_bounded [of dst s] by (auto simp: array_typed_def)

lemma malloc_heap_ok: "heap_ok h \<Longrightarrow> heap_ok (snd (malloc_copy bs h))"
  by (fastforce simp: malloc_copy_def heap_ok_def less_Suc_eq)

lemma malloc_block: "block_typed (snd (malloc_copy bs h)) (Some (fst (malloc_copy bs h))) (length bs)"
  by (simp add: malloc_copy_def block_typed_def)

lemma malloc_fresh: "heap_ok h \<Longrightarrow> block_typed h ptr n \<Longrightarrow> ptr \<noteq> Some (fst (malloc_copy bs h))"
  by (auto simp: malloc_copy_def block_typed_def heap_ok_def split: option.splits)

lemma malloc_keeps: "heap_ok h \<Longrightarrow> block_typed h ptr n \<Longrightarrow> block_typed (snd (malloc_copy bs h)) ptr n"
  by (auto simp: malloc_copy_def block_typed_def heap_ok_def split: option.splits)

lemma store_der_typed:
  assumes "heap_ok h" and "info_typed h info"
  shows "info_typed (snd (malloc_copy bs h)) (info\<lparr>tk_cert_der := Some (fst (malloc_copy bs h)), tk_cert_der_len := length bs\<rparr>)"
  using assms malloc_block [of bs h] malloc_keeps [OF assms(1), of _ _ bs]
    malloc_fresh [OF assms(1), of "tk_rsa_public_blob info" "tk_rsa_public_blob_len info" bs]
  by (auto simp: info_typed_def)

lemma store_blob_typed:
  assumes "heap_ok h" and "info_typed h info"
  shows "info_typed (snd (malloc_copy bs h)) (info\<lparr>tk_rsa_public_blob := Some (fst (malloc_copy bs h)), tk_rsa_public_blob_len := length bs\<rparr>)"
  using assms malloc_block [of bs h] malloc_keeps [OF assms(1), of _ _ bs]
    malloc_fresh [OF assms(1), of "tk_cert_der info" "tk_cert_der_len info" bs]
  by (auto simp: info_typed_def)

lemma fill_typed:
  assumes h: "heap_ok h" and info: "info_typed h info" and k: "in_int32 (ki_KeySize k)"
    and fill: "fillKeyInfo info k h = (info', h')"
  shows "heap_ok h' \<and> info_typed h' info'"
proof -
  let ?i = "info\<lparr>tk_thumbprint := copyToCChars (tk_thumbprint info) (int (length (tk_thumbprint info))) (ki_Thumbprint k),
      tk_subject := copyToCChars (tk_subject info) (int (length (tk_subject info))) (ki_Subject k),
      tk_key_algorithm := copyToCChars (tk_key_algorithm info) (int (length (tk_key_algorithm info))) (ki_KeyAlgorithm k),
      tk_key_size := ki_KeySize k\<rparr>"
  let ?der = "ki_CertificateDER k" and ?blob = "ki_RSAPublicBlob k"
  have i: "info_typed h ?i" using info k by (simp add: info_typed_def array_typed_copy)
  define i1 h1 where d: "i1 = (if 0 < length ?der then ?i\<lparr>tk_cert_der := Some (fst (malloc_copy ?der h)), tk_cert_der_len := length ?der\<rparr> else ?i)"
    "h1 = (if 0 < length ?der then snd (malloc_copy ?der h) else h)"
  have 1: "heap_ok h1" "info_typed h1 i1" using h i store_der_typed [OF h i] malloc_heap_ok [OF h] by (auto simp: d)
  have "(info', h') = (if 0 < length ?blob
      then (i1\<lparr>tk_rsa_public_blob := Some (fst (malloc_copy ?blob h1)), tk_rsa_public_blob_len := length ?blob\<rparr>, snd (malloc_copy ?blob h1))
      else (i1, h1))"
    using fill by (auto simp: fillKeyInfo_def Let_def d split_beta split: if_splits)
  with 1 store_blob_typed [OF 1] malloc_heap_ok [OF 1(1)] show ?thesis by (auto split: if_splits)
qed

lemma c_free_typed:
  assumes "heap_ok h" and "block_typed h (Some a) n"
  shows "\<exists>h'. c_free a h = Some h' \<and> heap_ok h' \<and> (\<forall>ptr m. block_typed h ptr m \<and> ptr \<noteq> Some a \<longrightarrow> block_typed h' ptr m)"
  using assms by (auto simp: c_free_def block_typed_def heap_ok_def split: option.splits)

lemma free_typed:
  assumes h: "heap_ok h" and info: "info_typed h info"
  shows "\<exists>info' h'. tpmcert_free_key_info (Some info) h = Some (Some info', h') \<and> heap_ok h' \<and> info_typed h' info'"
proof -
  note der = info [unfolded info_typed_def]
  have "\<exists>h1. freeField (tk_cert_der info) h = Some h1 \<and> heap_ok h1 \<and> block_typed h1 (tk_rsa_public_blob info) (tk_rsa_public_blob_len info)"
  proof (cases "tk_cert_der info")
    case None
    with h der show ?thesis by (simp add: freeField_def)
  next
    case (Some a)
    with der have "block_typed h (Some a) (tk_cert_der_len info)" "tk_rsa_public_blob info \<noteq> Some a" by auto
    with c_free_typed [OF h this(1)] der Some show ?thesis by (auto simp: freeField_def)
  qed
  then obtain h1 where 1: "freeField (tk_cert_der info) h = Some h1" "heap_ok h1"
      "block_typed h1 (tk_rsa_public_blob info) (tk_rsa_public_blob_len info)" by blast
  have "\<exists>h2. freeField (tk_rsa_public_blob info) h1 = Some h2 \<and> heap_ok h2"
  proof (cases "tk_rsa_public_blob info")
    case None
    with 1 show ?thesis by (simp add: freeField_def)
  next
    case (Some a)
    with c_free_typed [OF 1(2)] 1(3) show ?thesis by (fastforce simp: freeField_def)
  qed
  then obtain h2 where "freeField (tk_rsa_public_blob info) h1 = Some h2" "heap_ok h2" by blast
  with 1 der show ?thesis by (simp add: tpmcert_free_key_info_def info_typed_def block_typed_def)
qed

section \<open>Every call keeps the types\<close>

definition out_typed :: "bridge_out \<Rightarrow> bool" where
  "out_typed r \<longleftrightarrow> process_typed (bo_process r) \<and> heap_ok (bo_heap r) \<and>
     (case bo_info r of None \<Rightarrow> True | Some info \<Rightarrow> info_typed (bo_heap r) info)"

lemma fill_out_typed:
  assumes "heap_ok h" and "info_typed h info" and "in_int32 (ki_KeySize k)" and "keys_typed (cl_cachedList c)"
  shows "out_typed (case fillKeyInfo info k h of (info', h') \<Rightarrow> bridge_ret (p\<lparr>pr_global := Some c\<rparr>) h' (Some info') code)"
  using fill_typed [OF assms(1-3)] assms(4)
  by (auto simp: out_typed_def bridge_ret_def process_typed_def split: prod.split)

lemma get_typed:
  assumes "env_typed env" and "process_typed p" and h: "heap_ok h" and info: "info_typed h info"
    and k: "keysOf = windows_keys \<or> keysOf = linux_keys"
  shows "out_typed (get_installed keysOf env index (Some info) h p)"
proof (cases "pr_global p")
  case None
  with assms show ?thesis by (simp add: get_installed_def out_typed_def bridge_ret_def)
next
  case (Some c)
  obtain c' r where r: "keysOf env c = (c', r)" by fastforce
  from assms(2) Some have "keys_typed (cl_cachedList c)" by (simp add: process_typed_def)
  note t = keys_of_typed [OF assms(1) this k r]
  show ?thesis
  proof (cases r)
    case (Inl e)
    with t h info show ?thesis by (simp add: get_installed_def out_typed_def bridge_ret_def process_typed_def Some r)
  next
    case (Inr ks)
    have "in_int32 (ki_KeySize (ks ! nat index))" if "nat index < length ks"
      using t Inr that by (auto simp: keys_typed_def list_all_iff)
    with t h info Inr fill_out_typed [OF h info] show ?thesis
      by (auto simp: get_installed_def Some r Let_def) (auto simp: out_typed_def bridge_ret_def process_typed_def)
  qed
qed

lemma find_typed:
  assumes "env_typed env" and "process_typed p" and h: "heap_ok h" and info: "info_typed h info"
  shows "out_typed (bridge_find b env thumbprint (Some info) h p)"
proof (cases "thumbprint = None \<or> pr_global p = None")
  case True
  with assms show ?thesis
    by (cases b) (auto simp: bridge_find_def windows_find_installed_def linux_find_installed_def out_typed_def bridge_ret_def split: option.split)
next
  case False
  then obtain tp c where tp: "thumbprint = Some tp" and c: "pr_global p = Some c" by auto
  from assms(2) c have ct: "keys_typed (cl_cachedList c)" by (simp add: process_typed_def)
  have fail: "out_typed (bridge_ret (p\<lparr>pr_global := Some c'\<rparr>) h (Some info) code)" if "keys_typed (cl_cachedList c')" for c' code
    using that h info by (simp add: out_typed_def bridge_ret_def process_typed_def)
  show ?thesis
  proof (cases b)
    case WindowsBuild
    obtain c' r where r: "windows_keys env c = (c', r)" by fastforce
    note t = keys_of_typed [OF assms(1) ct disjI1 [OF refl] r]
    show ?thesis
    proof (cases "FindInstalled (be_uc env) (be_lib env) (be_rpc env) (be_now env) (be_later env) (be_byProvider env) (c_string tp) c")
      case (Pair c2 r2)
      with r have c2: "c2 = c'" by (cases r) (auto simp: FindInstalled_def windows_keys_def Let_def)
      have "r2 = Ok k \<Longrightarrow> in_int32 (ki_KeySize k)" for k
        using t r Pair
        by (auto simp: FindInstalled_Ok_iff windows_keys_def keys_typed_def list_all_iff dest!: find_Some_D)
      with t fail fill_out_typed [OF h info] show ?thesis
        by (cases r2) (simp_all add: WindowsBuild bridge_find_def windows_find_installed_def tp c Pair c2)
    qed
  next
    case LinuxBuild
    obtain c' r where r: "linux_keys env c = (c', r)" by fastforce
    note t = keys_of_typed [OF assms(1) ct disjI2 [OF refl] r]
    have "in_int32 (ki_KeySize k)" if "r = Ok ks" "find P ks = Some k" for ks k P
      using t that by (auto simp: keys_typed_def list_all_iff dest!: find_Some_D)
    with t fail fill_out_typed [OF h info] show ?thesis
      by (cases r) (auto simp: LinuxBuild bridge_find_def linux_find_installed_def tp c r Let_def split: option.split)
  qed
qed

lemma of_out_typed:
  "out_typed r \<Longrightarrow> bo_info r \<noteq> None \<Longrightarrow> of_out info r = Some s \<Longrightarrow> state_typed s"
  by (auto simp: of_out_def out_typed_def state_typed_def split: cgo.splits option.splits)

lemma get_info: "bo_info (get_installed keysOf env index (Some info) h p) \<noteq> None"
  by (auto simp: get_installed_def bridge_ret_def Let_def split: option.split sum.split prod.split)

lemma find_info: "bo_info (bridge_find b env thumbprint (Some info) h p) \<noteq> None"
  by (cases b) (auto simp: bridge_find_def windows_find_installed_def linux_find_installed_def bridge_ret_def Let_def
      split: option.split sum.split prod.split)

lemma bridge_get_cases:
  "bridge_get b env index out h p = get_installed (case b of WindowsBuild \<Rightarrow> windows_keys | LinuxBuild \<Rightarrow> linux_keys) env index out h p"
  by (cases b) (simp_all add: bridge_get_def windows_get_installed_def linux_get_installed_def)

lemma next_typed:
  assumes "env_typed env" and "state_typed s" and "bridge_next b env c s = Some s'"
  shows "state_typed s'"
proof -
  from assms(2) have s: "heap_ok (bs_heap s)" "info_typed (bs_heap s) (bs_info s)" "process_typed (bs_process s)"
    by (simp_all add: state_typed_def)
  show ?thesis
  proof (cases c)
    case (Init_call path)
    with assms(3) s init_typed [OF s(3), of b env path] show ?thesis by (auto simp: state_typed_def)
  next
    case Shutdown_call
    with assms(3) s shutdown_typed show ?thesis by (auto simp: state_typed_def)
  next
    case Count_call
    with assms(3) s count_typed [OF assms(1) s(3), of b] show ?thesis by (auto simp: state_typed_def)
  next
    case (Get_call index)
    let ?k = "case b of WindowsBuild \<Rightarrow> windows_keys | LinuxBuild \<Rightarrow> linux_keys"
    have "?k = windows_keys \<or> ?k = linux_keys" by (cases b) simp_all
    from of_out_typed [OF get_typed [OF assms(1) s(3,1,2) this, of index] get_info] assms(3) show ?thesis
      by (simp add: Get_call bridge_get_cases)
  next
    case (Find_call thumbprint)
    from of_out_typed [OF find_typed [OF assms(1) s(3,1,2), of b thumbprint] find_info] assms(3) show ?thesis
      by (simp add: Find_call)
  next
    case Free_call
    from free_typed [OF s(1,2)] assms(3) s(3) show ?thesis by (auto simp: Free_call state_typed_def)
  next
    case Reload_call
    with assms(2,3) show ?thesis by simp
  next
    case (Sign_call thumbprint digest digestLen hashAlg rsaPadding sigOut sigLen)
    let ?k = "case b of WindowsBuild \<Rightarrow> windows_sign | LinuxBuild \<Rightarrow> linux_sign"
    have "?k = windows_sign \<or> ?k = linux_sign" by (cases b) simp_all
    from sign_typed [OF assms(1) s(3) this, of thumbprint digest digestLen hashAlg rsaPadding sigOut sigLen] assms(3) s show ?thesis
      by (auto simp: Sign_call bridge_sign_cases Let_def state_typed_def split: cgo.splits)
  qed
qed

lemma run_typed:
  "state_typed s0 \<Longrightarrow> list_all (\<lambda>(env, c). env_typed env) calls \<Longrightarrow> bridge_run b calls s0 = Some s \<Longrightarrow> state_typed s"
proof (induction b calls s0 rule: bridge_run.induct)
  case (2 b env c calls s0)
  then obtain s1 where "bridge_next b env c s0 = Some s1" "bridge_run b calls s1 = Some s" by (auto simp: bind_eq_Some_conv)
  with 2 next_typed [of env s0 b c s1] show ?case by auto
qed simp

text \<open>The calls that do not return: only those that misuse the interface.\<close>

lemma of_out_None: "of_out info r = None \<longleftrightarrow> bo_ret r = Panics \<or> bo_ret r = Undefined"
  by (auto simp: of_out_def split: cgo.split)

lemma get_returns: "0 \<le> index \<Longrightarrow> \<exists>code. bo_ret (get_installed keysOf env index (Some info) h p) = Returned code"
  by (auto simp: get_installed_def bridge_ret_def Let_def split: option.split sum.split prod.split)

lemma find_returns: "\<exists>code. bo_ret (bridge_find b env thumbprint (Some info) h p) = Returned code"
  by (cases b) (auto simp: bridge_find_def windows_find_installed_def linux_find_installed_def bridge_ret_def Let_def
      split: option.split sum.split prod.split)

lemma next_returns:
  assumes "state_typed s" and "bridge_next b env c s = None"
  shows "misuse c"
proof (cases c)
  case (Get_call index)
  with assms(2) get_returns [of index _ env "bs_info s" "bs_heap s" "bs_process s"] show ?thesis
    by (auto simp: bridge_get_cases of_out_None misuse_def) (metis cgo.distinct(1,3) not_le)+
next
  case (Find_call thumbprint)
  with assms(2) find_returns [of b env thumbprint "bs_info s" "bs_heap s" "bs_process s"] show ?thesis
    by (auto simp: of_out_None)
next
  case Free_call
  with assms free_typed [of "bs_heap s" "bs_info s"] show ?thesis by (auto simp: state_typed_def)
next
  case (Sign_call thumbprint digest digestLen hashAlg rsaPadding sigOut sigLen)
  let ?k = "case b of WindowsBuild \<Rightarrow> windows_sign | LinuxBuild \<Rightarrow> linux_sign"
  have "\<nexists>code. sg_ret (sign_hash ?k env thumbprint digest digestLen hashAlg rsaPadding sigOut sigLen (bs_process s)) = Returned code"
    using assms(2) by (auto simp: Sign_call bridge_sign_cases Let_def split: cgo.splits)
  with sign_returns [of thumbprint digest digestLen hashAlg rsaPadding sigOut sigLen ?k env "bs_process s"] show ?thesis
    by (auto simp: Sign_call)
qed (use assms(2) in simp_all)

section \<open>Properties\<close>

text \<open>
  C17: type safety of the C interface, on both platforms. Start with a zeroed structure and call the exports in any order
  and any number of times, with any answers of the service and of the store. Then the structure is well typed: its
  arrays have their declared sizes and are terminated, the key size is a 32-bit integer, each pointer is NULL or
  points to an allocated block of the stated length, and no block is reached by both, so freeing
  is always defined. And the next call returns, whatever it is, unless it misuses the interface: a negative index,
  a digest length that does not fit in 32 bits or exceeds the memory, a buffer smaller than its stated length.
\<close>

theorem bridge_type_safety:
  fixes env :: "('k, 'ts, 'kp) bridge_env"
  assumes "heap_ok h" and "list_all (\<lambda>(env, c). env_typed env) calls"
    and "bridge_run b (calls :: (('k, 'ts, 'kp) bridge_env \<times> bridge_call) list) (bridge_start h) = Some s"
  shows "info_typed (bs_heap s) (bs_info s) \<and> heap_ok (bs_heap s) \<and>
    tpmcert_free_key_info (Some (bs_info s)) (bs_heap s) \<noteq> None \<and>
    (bridge_next b env c s = None \<longrightarrow> misuse c)"
proof -
  have "state_typed (bridge_start h)"
    using assms(1) by (simp add: state_typed_def bridge_start_def info_typed_def zero_info_def array_typed_def in_int32_def
        block_typed_def process_typed_def)
  from run_typed [OF this assms(2,3)] have t: "state_typed s" .
  with free_typed [of "bs_heap s" "bs_info s"] next_returns [OF t] show ?thesis by (auto simp: state_typed_def)
qed

text \<open>A caller that initialises, reads the first key and so owns two blocks.\<close>

definition demo_conn_cfg :: Config where
  "demo_conn_cfg = \<lparr>cf_Addr = ''h:1'', cf_CA = ''d/a.crt'', cf_Cert = ''d/a.crt'', cf_Key = ''d/a.key''\<rparr>"

definition demo_connected :: "(nat, nat, nat) bridge_env" where
  "demo_connected = demo_bridge_env\<lparr>be_files := (\<lambda>_. Ok (MarshalIndent (config_fields demo_conn_cfg)))\<rparr>"

definition demo_bridge_calls :: "((nat, nat, nat) bridge_env \<times> bridge_call) list" where
  "demo_bridge_calls = [(demo_connected, Init_call (Some ''p'')), (demo_connected, Get_call 0)]"

lemma demo_connect:
  "\<exists>c. cl_cachedAt c = None \<and> linux_init demo_connected (Some ''p'') \<lparr>pr_global = None, pr_open = 0\<rparr> =
     (\<lparr>pr_global = Some c, pr_open = 1\<rparr>, 0)"
proof -
  have "config_ascii demo_conn_cfg" by code_simp
  then have l: "loadConfig (be_cfg demo_connected) (be_files demo_connected) (goPath (Some ''p'')) = Ok demo_conn_cfg"
    by (simp add: loadConfig_def LoadConfig_def demo_connected_def decodeConfig_MarshalIndent goPath_def c_string_def NUL_def)
      (simp add: demo_conn_cfg_def)
  have "isOk (New demo_uc demo_env demo_tls None demo_conn_cfg)" by code_simp
  then obtain c where c: "New demo_uc demo_env demo_tls None demo_conn_cfg = Ok c" by (auto simp: isOk_iff)
  moreover from c have "cl_cachedAt c = None" by (auto simp: New_def Let_def andThen_Ok_iff)
  ultimately show ?thesis
    by (simp add: linux_init_def l InitGlobal_def closeGlobal_def Ping_def)
      (simp add: demo_connected_def demo_bridge_env_def demo_rpc_def Ping_def)
qed

lemma demo_first_key:
  "\<exists>k. remoteKeys demo_uc demo_lib demo_remote = [k] \<and> ki_CertificateDER k \<noteq> [] \<and> ki_RSAPublicBlob k \<noteq> []"
proof -
  have "ParseCertificate demo_lib [1] = Ok (demo_cert 1)" "x_PublicKey (demo_cert 1) = RSAPublicKey 3233 65537"
    by (simp_all add: demo_lib_def demo_cert_def)
  from rsaPublicBlob_bytes [OF this] show ?thesis
    by (simp add: remoteKeys_def demo_remote_def keyInfoOf_def Let_def le32_def)
qed

lemma demo_bridge_run:
  "\<exists>s. bridge_run LinuxBuild demo_bridge_calls (bridge_start \<lparr>hp_next = 1, hp_mem = Map.empty\<rparr>) = Some s \<and>
     tk_cert_der (bs_info s) = Some 1 \<and> tk_rsa_public_blob (bs_info s) = Some 2"
proof -
  let ?h = "\<lparr>hp_next = 1, hp_mem = Map.empty\<rparr>"
  obtain c where c: "cl_cachedAt c = None" and i: "linux_init demo_connected (Some ''p'') \<lparr>pr_global = None, pr_open = 0\<rparr> =
     (\<lparr>pr_global = Some c, pr_open = 1\<rparr>, 0)" using demo_connect by blast
  obtain k where k: "remoteKeys demo_uc demo_lib demo_remote = [k]" "ki_CertificateDER k \<noteq> []" "ki_RSAPublicBlob k \<noteq> []"
    using demo_first_key by blast
  have a: "linux_keys demo_connected c = (c\<lparr>cl_cachedList := [k], cl_cachedAt := Some 5\<rparr>, Ok [k])"
    using c k(1) by (simp add: linux_keys_def AllKeys_cases demo_connected_def demo_bridge_env_def demo_rpc_def Since_def listCacheTTL_def)
  obtain info h where f: "fillKeyInfo zero_info k ?h = (info, h)" by fastforce
  with fillKeyInfo_fields(5,6) [OF f] k(2,3) show ?thesis
    by (simp add: demo_bridge_calls_def bridge_start_def bridge_init_def i bridge_get_def linux_get_installed_def get_installed_def
        a of_out_def bridge_ret_def)
qed

theorem bridge_type_safety_witness:
  "\<exists>s :: bridge_state. tk_cert_der (bs_info s) = Some 1 \<and> tk_rsa_public_blob (bs_info s) = Some 2 \<and> info_typed (bs_heap s) (bs_info s) \<and>
     tpmcert_free_key_info (Some (bs_info s)) (bs_heap s) \<noteq> None"
proof -
  have h: "heap_ok \<lparr>hp_next = 1, hp_mem = Map.empty\<rparr>" by (simp add: heap_ok_def)
  have "env_typed demo_connected"
    by (simp add: env_typed_def demo_connected_def demo_bridge_env_def demo_rpc_def demo_remote_def in_int32_def)
  then have e: "list_all (\<lambda>(env, c). env_typed env) demo_bridge_calls" by (simp add: demo_bridge_calls_def)
  from demo_bridge_run obtain s where s: "bridge_run LinuxBuild demo_bridge_calls (bridge_start \<lparr>hp_next = 1, hp_mem = Map.empty\<rparr>) = Some s"
    "tk_cert_der (bs_info s) = Some 1" "tk_rsa_public_blob (bs_info s) = Some 2" by auto
  from bridge_type_safety [OF h e s(1)] s(2,3) show ?thesis by (intro exI [of _ s]) auto
qed

end
