(* ===== verification/Client_Sync.thy ===== *)
theory Client_Sync
  imports Ksp_Client Go_Sync
begin

text \<open>
  The two mutexes of \<^verbatim>\<open>internal/kspclient/client.go\<close>, statement by statement: \<^verbatim>\<open>Client.mu\<close>, under which
  \<^verbatim>\<open>AllKeys\<close> reads and refreshes the cache, and \<^verbatim>\<open>globalMu\<close>, under which the process-wide client is set,
  read and closed. The providers of the operating system call the bridges from any thread, so these
  calls interleave. The answer of the service and the clock, which a call reads inside, come with the
  call. The loop that turns the answer into keys touches locals only and is one statement.
\<close>

section \<open>The cache of the remote keys\<close>

datatype 'ts keys_call = AllKeys_call "'ts rpc" int int

text \<open>
  \<open>al_refreshed\<close> is the return of \<^verbatim>\<open>refreshRemoteListLocked\<close>: \<open>None\<close> while it runs,
  \<open>Some None\<close> for nil.
\<close>

record 'ts keys_locals =
  al_resp :: "'ts ListCertificatesResponse option"
  al_out :: "KeyInfo list"
  al_refreshed :: "goerror option option"
  al_ret :: "goerror + KeyInfo list"

definition unless_refreshed :: "(Client, 'ts keys_locals) action \<Rightarrow> (Client, 'ts keys_locals) action" where
  "unless_refreshed a = (\<lambda>(c, l). if al_refreshed l = None then a (c, l) else (c, l))"

definition refreshRemoteListLocked_body ::
  "unicode \<Rightarrow> ('k, 'm) crypto_lib_scheme \<Rightarrow> 'ts rpc \<Rightarrow> int \<Rightarrow> int \<Rightarrow> (Client, 'ts keys_locals) action list" where
  "refreshRemoteListLocked_body uc lib rpc now now' =
     [\<lambda>(c, l). (c, if Since now (cl_cachedAt c) < listCacheTTL \<and> 0 < length (cl_cachedList c)
                  then l\<lparr>al_refreshed := Some None\<rparr> else l),
      unless_refreshed (\<lambda>(c, l). (c, case rpc_ListCertificates rpc of
          Inl e \<Rightarrow> l\<lparr>al_refreshed := Some (Some e)\<rparr>
        | Inr resp \<Rightarrow> l\<lparr>al_resp := Some resp\<rparr>)),
      unless_refreshed (\<lambda>(c, l). (c, l\<lparr>al_out := (case al_resp l of
          Some resp \<Rightarrow> map (keyInfoOf uc lib) (filter pc_HasPrivateKey (lr_Certificates resp))
        | None \<Rightarrow> [])\<rparr>)),
      unless_refreshed (\<lambda>(c, l). (c\<lparr>cl_cachedList := al_out l\<rparr>, l)),
      unless_refreshed (\<lambda>(c, l). (c\<lparr>cl_cachedAt := Some now'\<rparr>, l\<lparr>al_refreshed := Some None\<rparr>))]"

definition AllKeys_body ::
  "unicode \<Rightarrow> ('k, 'm) crypto_lib_scheme \<Rightarrow> 'ts rpc \<Rightarrow> int \<Rightarrow> int \<Rightarrow> (Client, 'ts keys_locals) action list" where
  "AllKeys_body uc lib rpc now now' =
     refreshRemoteListLocked_body uc lib rpc now now' @
     [\<lambda>(c, l). (c, l\<lparr>al_ret := (case al_refreshed l of Some (Some e) \<Rightarrow> Err e | _ \<Rightarrow> Ok (cl_cachedList c))\<rparr>)]"

definition keys_program :: "unicode \<Rightarrow> ('k, 'm) crypto_lib_scheme \<Rightarrow> ('ts keys_call, Client, 'ts keys_locals) program" where
  "keys_program uc lib = \<lparr>pg_access = (\<lambda>_. Locked), pg_early = (\<lambda>_. False),
     pg_init = (\<lambda>_. \<lparr>al_resp = None, al_out = [], al_refreshed = None, al_ret = Ok []\<rparr>),
     pg_body = (\<lambda>c. case c of AllKeys_call rpc now now' \<Rightarrow> AllKeys_body uc lib rpc now now')\<rparr>"

definition keys_seq :: "unicode \<Rightarrow> ('k, 'm) crypto_lib_scheme \<Rightarrow> 'ts keys_call \<Rightarrow> Client \<Rightarrow> Client \<times> (goerror + KeyInfo list)" where
  "keys_seq uc lib op c = (case op of AllKeys_call rpc now now' \<Rightarrow> AllKeys uc lib rpc now now' c)"

lemma AllKeys_body_run:
  "run_actions (AllKeys_body uc lib rpc now now') (c, \<lparr>al_resp = None, al_out = [], al_refreshed = None, al_ret = Ok []\<rparr>)
     = (c', l) \<Longrightarrow> AllKeys uc lib rpc now now' c = (c', al_ret l)"
  by (auto simp: AllKeys_body_def refreshRemoteListLocked_body_def unless_refreshed_def AllKeys_def
      refreshRemoteListLocked_def split: sum.splits if_splits)

interpretation ks: guarded "keys_program uc lib" "keys_seq uc lib" al_ret
  for uc :: unicode and lib :: "('k, 'm) crypto_lib_scheme"
  by unfold_locales
    (auto simp: keys_program_def keys_seq_def AllKeys_body_run split: keys_call.splits)

section \<open>The process-wide client\<close>

datatype global_call =
    InitGlobal_call os_env "goerror option" Config
  | Global_call
  | ShutdownGlobal_call

datatype global_ret = RetInit "goerror option" | RetClient "Client option" | RetNone

record global_locals =
  gl_c :: "Client option"
  gl_ret :: global_ret

text \<open>
  \<^verbatim>\<open>if global != nil { _ = global.Close(); global = nil }\<close>. Only the goroutine inside writes
  \<^verbatim>\<open>global\<close>, so the condition is still the one that was tested when the second statement runs.
\<close>

definition closeGlobal_body :: "(process, global_locals) action list" where
  "closeGlobal_body =
     [\<lambda>(p, l). (if pr_global p \<noteq> None then p\<lparr>pr_open := pr_open p - 1\<rparr> else p, l),
      \<lambda>(p, l). (p\<lparr>pr_global := None\<rparr>, l)]"

definition InitGlobal_body :: "unicode \<Rightarrow> 'kp tls_lib \<Rightarrow> os_env \<Rightarrow> goerror option \<Rightarrow> Config \<Rightarrow>
    (process, global_locals) action list" where
  "InitGlobal_body uc tls env dial cfg =
     closeGlobal_body @
     [\<lambda>(p, l). (case New uc env tls dial cfg of
          Inl e \<Rightarrow> (p, l\<lparr>gl_ret := RetInit (Some e)\<rparr>)
        | Inr c \<Rightarrow> (p\<lparr>pr_open := Suc (pr_open p)\<rparr>, l\<lparr>gl_c := Some c, gl_ret := RetInit None\<rparr>)),
      \<lambda>(p, l). (case gl_c l of Some c \<Rightarrow> (p\<lparr>pr_global := Some c\<rparr>, l) | None \<Rightarrow> (p, l))]"

fun global_body :: "unicode \<Rightarrow> 'kp tls_lib \<Rightarrow> global_call \<Rightarrow> (process, global_locals) action list" where
  "global_body uc tls (InitGlobal_call env dial cfg) = InitGlobal_body uc tls env dial cfg"
| "global_body uc tls Global_call = [\<lambda>(p, l). (p, l\<lparr>gl_ret := RetClient (pr_global p)\<rparr>)]"
| "global_body uc tls ShutdownGlobal_call = closeGlobal_body"

definition global_program :: "unicode \<Rightarrow> 'kp tls_lib \<Rightarrow> (global_call, process, global_locals) program" where
  "global_program uc tls = \<lparr>pg_access = (\<lambda>_. Locked), pg_early = (\<lambda>_. False),
     pg_init = (\<lambda>_. \<lparr>gl_c = None, gl_ret = RetNone\<rparr>), pg_body = global_body uc tls\<rparr>"

fun global_seq :: "unicode \<Rightarrow> 'kp tls_lib \<Rightarrow> global_call \<Rightarrow> process \<Rightarrow> process \<times> global_ret" where
  "global_seq uc tls (InitGlobal_call env dial cfg) p =
     (case InitGlobal uc env tls dial cfg p of (p', r) \<Rightarrow> (p', RetInit r))"
| "global_seq uc tls Global_call p = (p, RetClient (pr_global p))"
| "global_seq uc tls ShutdownGlobal_call p = (ShutdownGlobal p, RetNone)"

lemma closeGlobal_body_run: "run_actions closeGlobal_body (p, l) = (closeGlobal p, l)"
  by (cases p) (auto simp: closeGlobal_body_def closeGlobal_def split: option.split)

lemma InitGlobal_body_run:
  "run_actions (InitGlobal_body uc tls env dial cfg) (p, \<lparr>gl_c = None, gl_ret = RetNone\<rparr>) = (p', l) \<Longrightarrow>
     \<exists>r. InitGlobal uc env tls dial cfg p = (p', r) \<and> gl_ret l = RetInit r"
  by (auto simp: InitGlobal_body_def closeGlobal_body_run InitGlobal_def Let_def split: sum.splits)

interpretation gs: guarded "global_program uc tls" "global_seq uc tls" gl_ret
  for uc :: unicode and tls :: "'kp tls_lib"
proof unfold_locales
  fix op s s' l
  assume r: "run_actions (pg_body (global_program uc tls) op) (s, pg_init (global_program uc tls) op) = (s', l)"
  show "global_seq uc tls op s = (s', gl_ret l)"
    using r by (cases op) (auto simp: global_program_def closeGlobal_body_run ShutdownGlobal_def dest!: InitGlobal_body_run)
qed (simp_all add: global_program_def)

section \<open>Properties\<close>

definition fresh_client :: "Config \<Rightarrow> Client" where
  "fresh_client cfg = \<lparr>cl_cfg = cfg, cl_cachedList = [], cl_cachedAt = None\<rparr>"

text \<open>The cache holds the answer of one of a set of calls, under the time that call stored it.\<close>

definition cached_from :: "unicode \<Rightarrow> ('k, 'm) crypto_lib_scheme \<Rightarrow> 'ts keys_call set \<Rightarrow> Client \<Rightarrow> bool" where
  "cached_from uc lib calls c \<longleftrightarrow>
     cl_cachedList c = [] \<or>
     (\<exists>rpc n n' resp. AllKeys_call rpc n n' \<in> calls \<and> rpc_ListCertificates rpc = Ok resp \<and>
        cl_cachedAt c = Some n' \<and> cl_cachedList c = remoteKeys uc lib resp)"

lemma cached_from_fresh: "cached_from uc lib calls (fresh_client cfg)"
  by (simp add: cached_from_def fresh_client_def)

lemma cached_from_step:
  "cached_from uc lib calls c \<Longrightarrow> op \<in> calls \<Longrightarrow> cached_from uc lib calls (fst (keys_seq uc lib op c))"
  by (cases op) (auto simp: cached_from_def keys_seq_def AllKeys_cases split: sum.split)

lemma AllKeys_from_cache:
  assumes "cached_from uc lib calls c" and "snd (AllKeys uc lib rpc now now' c) = Ok keys"
  shows "(\<exists>resp. rpc_ListCertificates rpc = Ok resp \<and> keys = remoteKeys uc lib resp) \<or>
    (\<exists>rpc0 n0 n0' resp. AllKeys_call rpc0 n0 n0' \<in> calls \<and> rpc_ListCertificates rpc0 = Ok resp \<and>
       now - n0' < 30 * 10 ^ 9 \<and> keys = remoteKeys uc lib resp)"
proof (cases "Since now (cl_cachedAt c) < listCacheTTL \<and> cl_cachedList c \<noteq> []")
  case True
  with assms have keys: "keys = cl_cachedList c" by (auto simp: AllKeys_cases)
  from True assms(1) obtain rpc0 n0 n0' resp where "AllKeys_call rpc0 n0 n0' \<in> calls"
    "rpc_ListCertificates rpc0 = Ok resp" "cl_cachedAt c = Some n0'" "cl_cachedList c = remoteKeys uc lib resp"
    unfolding cached_from_def by blast
  with True keys show ?thesis by (intro disjI2 exI conjI) (auto simp: Since_def listCacheTTL_def)
next
  case False
  with assms(2) show ?thesis by (auto simp: AllKeys_cases split: sum.splits)
qed

text \<open>
  C15: concurrent callers of one client share one cache without mixing answers. However calls of
  \<open>AllKeys\<close> interleave, the keys a call returns are those of one answer of the service: the one this
  call received, or the one another returned call received and stored less than 30 seconds before
  this call looked. All calls together behave as if made one after the other in the order in which
  they return.
\<close>

theorem concurrent_AllKeys:
  assumes "sync_reachable (keys_program uc lib) (fresh_client cfg) s"
    and "(AllKeys_call rpc now now', l) \<in> set (returned (sy_history s))" and "al_ret l = Ok keys"
  shows "((\<exists>resp. rpc_ListCertificates rpc = Ok resp \<and> keys = remoteKeys uc lib resp) \<or>
     (\<exists>rpc0 n0 n0' l0 resp. (AllKeys_call rpc0 n0 n0', l0) \<in> set (returned (sy_history s)) \<and>
        rpc_ListCertificates rpc0 = Ok resp \<and> now - n0' < 30 * 10 ^ 9 \<and> keys = remoteKeys uc lib resp)) \<and>
    snd (replay (keys_seq uc lib) (fresh_client cfg) (map fst (returned (sy_history s)))) =
      map (\<lambda>(op, l). al_ret l) (returned (sy_history s))"
proof -
  let ?calls = "fst ` set (returned (sy_history s))"
  have "\<exists>c. cached_from uc lib ?calls c \<and> snd (keys_seq uc lib (AllKeys_call rpc now now') c) = al_ret l"
    by (rule ks.returned_result [OF assms(1,2)])
      (auto intro: cached_from_step cached_from_fresh)
  with assms(3) obtain c where "cached_from uc lib ?calls c" "snd (AllKeys uc lib rpc now now' c) = Ok keys"
    by (auto simp: keys_seq_def)
  from AllKeys_from_cache [OF this] ks.linearizes(1) [OF assms(1) refl] show ?thesis by force
qed

text \<open>Two callers: the second waits for the mutex while the first asks the service, and is answered from the cache.\<close>

definition demo_keys_schedule :: "nat keys_call choice list" where
  "demo_keys_schedule =
     [Start 0 (AllKeys_call demo_rpc 0 5), Step 0, Start 1 (AllKeys_call (demo_rpc\<lparr>rpc_ListCertificates := Err (ErrorString [])\<rparr>) 6 7)]
     @ replicate 8 (Step 0) @ replicate 9 (Step 1)"

lemma demo_keys_run:
  "\<exists>s l. sync_reachable (keys_program demo_uc demo_lib) (fresh_client demo_cfg) s \<and>
     (AllKeys_call (demo_rpc\<lparr>rpc_ListCertificates := Err (ErrorString [])\<rparr>) 6 7, l) \<in> set (returned (sy_history s)) \<and>
     al_ret l = Ok (remoteKeys demo_uc demo_lib demo_remote)"
proof -
  have ne: "filter pc_HasPrivateKey (lr_Certificates demo_remote) \<noteq> []" by (simp add: demo_remote_def)
  have "\<exists>s l h. sync_exec (keys_program demo_uc demo_lib) demo_keys_schedule (sync_start (fresh_client demo_cfg)) = Some s \<and>
      sy_history s = h @ [Ret 1 (AllKeys_call (demo_rpc\<lparr>rpc_ListCertificates := Err (ErrorString [])\<rparr>) 6 7) l] \<and>
      al_ret l = Ok (remoteKeys demo_uc demo_lib demo_remote)"
    using ne
    by (simp add: demo_keys_schedule_def sync_start_def sync_call_def sync_next_def keys_program_def AllKeys_body_def
        refreshRemoteListLocked_body_def unless_refreshed_def fresh_client_def Since_def listCacheTTL_def
        numeral_eq_Suc demo_rpc_def remoteKeys_def)
  then show ?thesis using sync_exec_reachable [OF _ sync_reachable.start] by fastforce
qed

theorem concurrent_AllKeys_witness:
  "\<exists>(rpc0 :: nat rpc) n0' resp. rpc_ListCertificates rpc0 = Ok resp \<and> (6 :: int) - n0' < 30 * 10 ^ 9 \<and>
     remoteKeys demo_uc demo_lib demo_remote = remoteKeys demo_uc demo_lib resp"
proof -
  obtain s l where "sync_reachable (keys_program demo_uc demo_lib) (fresh_client demo_cfg) s"
    "(AllKeys_call (demo_rpc\<lparr>rpc_ListCertificates := Err (ErrorString [])\<rparr>) 6 7, l) \<in> set (returned (sy_history s))"
    "al_ret l = Ok (remoteKeys demo_uc demo_lib demo_remote)" using demo_keys_run by blast
  from concurrent_AllKeys [OF this] obtain rpc0 :: "nat rpc" and n0' :: int and resp where
    "rpc_ListCertificates rpc0 = Ok resp" "6 - n0' < 30 * 10 ^ 9"
    "remoteKeys demo_uc demo_lib demo_remote = remoteKeys demo_uc demo_lib resp" by (simp (no_asm_use)) blast
  then show ?thesis by blast
qed

definition process_ok :: "process \<Rightarrow> bool" where
  "process_ok p \<longleftrightarrow> pr_open p = (if pr_global p = None then 0 else 1)"

definition process_start :: process where
  "process_start = \<lparr>pr_global = None, pr_open = 0\<rparr>"

lemma process_start_ok: "process_ok process_start"
  by (simp add: process_ok_def process_start_def)

lemma global_seq_ok: "process_ok p \<Longrightarrow> process_ok (fst (global_seq uc tls op p))"
  by (cases op)
    (auto simp: process_ok_def InitGlobal_def ShutdownGlobal_def closeGlobal_def Let_def
      split: sum.splits option.splits prod.splits if_splits)

text \<open>Between any two statements of a call at most one connection is open.\<close>

lemma closeGlobal_prefix:
  assumes "process_ok p" and "closeGlobal_body = past @ acts"
  shows "pr_open (fst (run_actions past (p, l))) \<le> 1"
  using assms by (auto simp: closeGlobal_body_def process_ok_def Cons_eq_append_conv)

lemma global_body_prefix:
  assumes "process_ok p" and "global_body uc tls op = past @ acts"
  shows "pr_open (fst (run_actions past (p, \<lparr>gl_c = None, gl_ret = RetNone\<rparr>))) \<le> 1"
proof (cases op)
  case (InitGlobal_call env dial cfg)
  with assms show ?thesis
    by (auto simp: InitGlobal_body_def closeGlobal_body_def process_ok_def Cons_eq_append_conv split: sum.split option.split)
next
  case Global_call
  with assms show ?thesis by (auto simp: process_ok_def Cons_eq_append_conv)
next
  case ShutdownGlobal_call
  with assms show ?thesis using closeGlobal_prefix by simp
qed

text \<open>
  C16: one connection for the process, also when threads initialise, use and shut down at the same
  time. Between any two statements of any interleaving of \<open>InitGlobal\<close>, \<open>Global\<close> and
  \<open>ShutdownGlobal\<close> at most one connection to the service is open; whenever no goroutine holds or
  waits for the mutex, a connection is open exactly if there is a global client, and what the
  calls returned is what they return one after the other.
\<close>

theorem concurrent_single_connection:
  assumes "sync_reachable (global_program uc tls) process_start s"
    and "ops = map fst (returned (sy_history s))"
  shows "pr_open (sy_shared s) \<le> 1 \<and>
    snd (replay (global_seq uc tls) process_start ops) = map (\<lambda>(op, l). gl_ret l) (returned (sy_history s)) \<and>
    (sy_writer s = None \<longrightarrow>
       sy_shared s = fst (replay (global_seq uc tls) process_start ops) \<and>
       pr_open (sy_shared s) = (if pr_global (sy_shared s) = None then 0 else 1))"
proof -
  let ?p = "global_program uc tls" and ?b = "base (global_seq uc tls) process_start s"
  note inv = reachable_lock_inv [OF assms(1)] and data = gs.reachable_data [OF assms(1)]
  have b: "process_ok ?b"
    by (rule gs.base_invariant) (auto intro: global_seq_ok process_start_ok)
  have "pr_open (sy_shared s) \<le> 1"
  proof (cases "no_writer_inside ?p s")
    case True
    with data b show ?thesis by (simp add: data_inv_def process_ok_def)
  next
    case False
    then obtain t op acts l where "sy_threads s t = Inside op acts l" by (auto simp: no_writer_inside_def)
    with data obtain past where "pg_body ?p op = past @ acts" "run_actions past (?b, pg_init ?p op) = (sy_shared s, l)"
      unfolding data_inv_def section_ok_def by blast
    with global_body_prefix [OF b, of uc tls op past acts] show ?thesis by (simp add: global_program_def)
  qed
  moreover have "sy_writer s = None \<Longrightarrow> sy_shared s = ?b"
    using data reader_inside [OF inv] by (simp add: data_inv_def)
  ultimately show ?thesis
    using gs.linearizes(1) [OF assms] b assms(2) by (auto simp: process_ok_def base_def)
qed

definition demo_global_cfg :: Config where
  "demo_global_cfg = \<lparr>cf_Addr = ''h:1'', cf_CA = ''d/a.crt'', cf_Cert = ''d/a.crt'', cf_Key = ''d/a.key''\<rparr>"

text \<open>One thread has initialised; another has come to \<open>ShutdownGlobal\<close> while the first was inside.\<close>

lemma demo_global_run:
  "\<exists>s l. sync_reachable (global_program demo_uc demo_tls) process_start s \<and> sy_writer s = None \<and>
     pr_global (sy_shared s) \<noteq> None \<and> call_of (sy_threads s 1) = Some ShutdownGlobal_call \<and>
     returned (sy_history s) = [(InitGlobal_call demo_env None demo_global_cfg, l)]"
proof -
  have "isOk (New demo_uc demo_env demo_tls None demo_global_cfg)" by code_simp
  then obtain c where c: "New demo_uc demo_env demo_tls None demo_global_cfg = Ok c" by (auto simp: isOk_iff)
  have "\<exists>s l. sync_exec (global_program demo_uc demo_tls)
      ([Start 0 (InitGlobal_call demo_env None demo_global_cfg), Step 0, Start 1 ShutdownGlobal_call] @ replicate 6 (Step 0))
      (sync_start process_start) = Some s \<and> sy_writer s = None \<and> pr_global (sy_shared s) \<noteq> None \<and>
      call_of (sy_threads s 1) = Some ShutdownGlobal_call \<and>
      returned (sy_history s) = [(InitGlobal_call demo_env None demo_global_cfg, l)]"
    by (simp add: sync_start_def sync_call_def sync_next_def global_program_def InitGlobal_body_def closeGlobal_body_def
        process_start_def numeral_eq_Suc c returned_def List.map_filter_def)
  then show ?thesis using sync_exec_reachable [OF _ sync_reachable.start] by fastforce
qed

theorem concurrent_single_connection_witness:
  "\<exists>s :: (global_call, process, global_locals) sync_state.
     call_of (sy_threads s 1) = Some ShutdownGlobal_call \<and> pr_global (sy_shared s) \<noteq> None \<and> pr_open (sy_shared s) = 1"
proof -
  from demo_global_run obtain s where "sync_reachable (global_program demo_uc demo_tls) process_start s"
    "sy_writer s = None" "pr_global (sy_shared s) \<noteq> None" "call_of (sy_threads s 1) = Some ShutdownGlobal_call" by blast
  with concurrent_single_connection [OF this(1) refl] show ?thesis by auto
qed

end
