(* ===== verification/Discovery.thy ===== *)
theory Discovery
  imports Go_Net Go_Json
begin

text \<open>
  The UDP discovery responder, \<^verbatim>\<open>internal/server/discovery.go\<close>: the address it announces to a
  client, and the loop that answers probes. The socket, the interface table and the context are
  the environment: each iteration of the loop gets their answers as one \<open>read_event\<close>, and the
  loop is run over the sequence of these events.
\<close>

unbundle bit_operations_syntax

section \<open>Configuration and messages\<close>

definition defaultDiscoveryService :: string where
  "defaultDiscoveryService = ''tpm-cert-server''"

definition discoveryVersion :: string where
  "discoveryVersion = ''1''"

record DiscoveryConfig =
  dc_ListenAddr :: string
  dc_GRPCAddr :: string
  dc_Service :: string
  dc_Verbose :: bool

record discoverRequest =
  dq_Op :: string
  dq_Service :: string

record announceResponse =
  an_Op :: string
  an_Service :: string
  an_Version :: string
  an_Hostname :: string
  an_GRPCAddr :: string

text \<open>The JSON form that the struct tags give these messages.\<close>

definition request_fields :: "discoverRequest \<Rightarrow> (string \<times> string) list" where
  "request_fields q = [(''op'', dq_Op q), (''service'', dq_Service q)]"

definition decodeRequest :: "string \<Rightarrow> discoverRequest option" where
  "decodeRequest data =
     map_option (\<lambda>f. \<lparr>dq_Op = f ''op'', dq_Service = f ''service''\<rparr>)
       (Unmarshal [''op'', ''service''] data)"

definition announce_fields :: "announceResponse \<Rightarrow> (string \<times> string) list" where
  "announce_fields a =
     [(''op'', an_Op a), (''service'', an_Service a), (''version'', an_Version a),
      (''hostname'', an_Hostname a), (''grpc_addr'', an_GRPCAddr a)]"

definition decodeAnnounce :: "string \<Rightarrow> announceResponse option" where
  "decodeAnnounce data =
     map_option (\<lambda>f. \<lparr>an_Op = f ''op'', an_Service = f ''service'', an_Version = f ''version'',
                      an_Hostname = f ''hostname'', an_GRPCAddr = f ''grpc_addr''\<rparr>)
       (Unmarshal [''op'', ''service'', ''version'', ''hostname'', ''grpc_addr''] data)"

section \<open>The announced address\<close>

definition sameSubnet :: "IP \<Rightarrow> IP \<Rightarrow> IPMask \<Rightarrow> bool" where
  "sameSubnet a b msk =
     (case (To4 a, To4 b) of
        (Some a4, Some b4) \<Rightarrow>
          (let m = (if length msk = 16 then drop 12 msk else msk) in
           length m = 4 \<and> (\<forall>i \<in> set [0..<length a4]. a4 ! i AND m ! i = b4 ! i AND m ! i))
      | _ \<Rightarrow> False)"

fun localIPLoop :: "IP \<Rightarrow> if_addr list \<Rightarrow> IP" where
  "localIPLoop remote [] = None"
| "localIPLoop remote (addr # addrs) =
     (case addr of
        IfOther \<Rightarrow> localIPLoop remote addrs
      | IPNet ip msk \<Rightarrow>
          if IsLoopback ip then localIPLoop remote addrs
          else case To4 ip of
                 None \<Rightarrow> localIPLoop remote addrs
               | Some local \<Rightarrow>
                   if sameSubnet (Some local) remote msk then Some local
                   else localIPLoop remote addrs)"

definition localIPFor :: "goerror + if_addr list \<Rightarrow> IP \<Rightarrow> goerror + IP" where
  "localIPFor interfaceAddrs remote0 =
     (let remote = To4 remote0 in
      if remote = None then Err (ErrorString ''remote is not IPv4'')
      else andThen interfaceAddrs (\<lambda>addrs.
        case localIPLoop remote addrs of
          Some local \<Rightarrow> Ok (Some local)
        | None \<Rightarrow> Err (ErrorString (''no local interface on same subnet as '' @ IP_String remote))))"

definition grpcAddrForClient :: "goerror + if_addr list \<Rightarrow> string \<Rightarrow> UDPAddr \<Rightarrow> goerror + string" where
  "grpcAddrForClient interfaceAddrs grpcAddr remote =
     andThen (SplitHostPort grpcAddr) (\<lambda>(host, port).
       let remoteIP = ua_IP remote in
       if remoteIP = None then Err (ErrorString ''remote has no IP'')
       else if host = [] \<or> host = ''0.0.0.0'' \<or> host = ''::'' then
         andThen (localIPFor interfaceAddrs remoteIP) (\<lambda>localIP. Ok (JoinHostPort (IP_String localIP) port))
       else if host = ''127.0.0.1'' \<or> host = ''::1'' then
         (if \<not> IsLoopback remoteIP
          then andThen (localIPFor interfaceAddrs remoteIP) (\<lambda>localIP. Ok (JoinHostPort (IP_String localIP) port))
          else Ok (JoinHostPort host port))
       else Ok (JoinHostPort host port))"

section \<open>The responder\<close>

text \<open>
  What the environment answers in one iteration: setting the deadline fails; the read times out
  (with whether the context is done by then); the read fails otherwise (with whether
  \<^verbatim>\<open>ctx.Err()\<close> is set); or a datagram arrives, with the interface table and the result of
  the write should the iteration get that far. The buffer has 2048 bytes, so a longer datagram
  is cut.
\<close>

datatype read_event =
    DeadlineFailed goerror
  | TimedOut bool
  | ReadFailed goerror bool
  | Received string remote_addr "goerror + if_addr list" "goerror option"

datatype step_result = Continue | Return "goerror option"

record step_output =
  so_sent :: "(string \<times> UDPAddr) list"
  so_log :: "string list"
  so_next :: step_result

definition bufferSize :: nat where "bufferSize = 2048"

definition quiet :: "step_result \<Rightarrow> step_output" where
  "quiet r = \<lparr>so_sent = [], so_log = [], so_next = r\<rparr>"

definition answerProbe :: "DiscoveryConfig \<Rightarrow> string \<Rightarrow> discoverRequest \<Rightarrow> remote_addr \<Rightarrow>
    goerror + if_addr list \<Rightarrow> goerror option \<Rightarrow> step_output" where
  "answerProbe cfg hostname req remote interfaceAddrs wr =
     (if dq_Op req \<noteq> ''discover'' then quiet Continue
      else if dq_Service req \<noteq> [] \<and> dq_Service req \<noteq> dc_Service cfg then quiet Continue
      else case remote of
        RemoteOther \<Rightarrow> quiet Continue
      | RemoteUDP remoteUDP \<Rightarrow>
          (case grpcAddrForClient interfaceAddrs (dc_GRPCAddr cfg) remoteUDP of
             Inl e \<Rightarrow>
               \<lparr>so_sent = [],
                so_log = (if dc_Verbose cfg
                  then [''discovery: grpc addr for '' @ UDPAddr_String remoteUDP @ '': '' @ Error e] else []),
                so_next = Continue\<rparr>
           | Inr grpcAddr \<Rightarrow>
               (let resp = \<lparr>an_Op = ''announce'', an_Service = dc_Service cfg, an_Version = discoveryVersion,
                            an_Hostname = hostname, an_GRPCAddr = grpcAddr\<rparr>;
                    data = Marshal (announce_fields resp)
                in case wr of
                     Some e \<Rightarrow>
                       \<lparr>so_sent = [],
                        so_log = (if dc_Verbose cfg
                          then [''discovery: reply to '' @ UDPAddr_String remoteUDP @ '': '' @ Error e] else []),
                        so_next = Continue\<rparr>
                   | None \<Rightarrow>
                       \<lparr>so_sent = [(data, remoteUDP)],
                        so_log = (if dc_Verbose cfg
                          then [''discovery: announced '' @ grpcAddr @ '' to '' @ UDPAddr_String remoteUDP] else []),
                        so_next = Continue\<rparr>)))"

definition discoveryStep :: "DiscoveryConfig \<Rightarrow> string \<Rightarrow> read_event \<Rightarrow> step_output" where
  "discoveryStep cfg hostname ev =
     (case ev of
        DeadlineFailed e \<Rightarrow> quiet (Return (Some e))
      | TimedOut ctxDone \<Rightarrow> quiet (if ctxDone then Return None else Continue)
      | ReadFailed e ctxErr \<Rightarrow> quiet (if ctxErr then Return None else Return (Some (Wrapped ''read'' e)))
      | Received datagram remote interfaceAddrs wr \<Rightarrow>
          (case decodeRequest (take bufferSize datagram) of
             None \<Rightarrow> quiet Continue
           | Some req \<Rightarrow> answerProbe cfg hostname req remote interfaceAddrs wr))"

text \<open>
  The loop over the events: what was sent and logged, and the result, \<open>None\<close> while it is still
  running.
\<close>

record run_output =
  ro_sent :: "(string \<times> UDPAddr) list"
  ro_log :: "string list"
  ro_result :: "goerror option option"

fun discoveryLoop :: "DiscoveryConfig \<Rightarrow> string \<Rightarrow> read_event list \<Rightarrow> run_output" where
  "discoveryLoop cfg hostname [] = \<lparr>ro_sent = [], ro_log = [], ro_result = None\<rparr>"
| "discoveryLoop cfg hostname (ev # evs) =
     (let o1 = discoveryStep cfg hostname ev in
      case so_next o1 of
        Return r \<Rightarrow> \<lparr>ro_sent = so_sent o1, ro_log = so_log o1, ro_result = Some r\<rparr>
      | Continue \<Rightarrow>
          (let o2 = discoveryLoop cfg hostname evs
           in \<lparr>ro_sent = so_sent o1 @ ro_sent o2, ro_log = so_log o1 @ ro_log o2, ro_result = ro_result o2\<rparr>))"

definition withDefaults :: "DiscoveryConfig \<Rightarrow> DiscoveryConfig" where
  "withDefaults cfg =
     cfg\<lparr>dc_Service := (if dc_Service cfg = [] then defaultDiscoveryService else dc_Service cfg),
         dc_ListenAddr := (if dc_ListenAddr cfg = [] then '':6666'' else dc_ListenAddr cfg)\<rparr>"

definition RunDiscovery :: "unicode \<Rightarrow> goerror + unit \<Rightarrow> string \<Rightarrow> DiscoveryConfig \<Rightarrow> read_event list \<Rightarrow> run_output" where
  "RunDiscovery uc listen hostname cfg0 events =
     (let cfg = withDefaults cfg0 in
      case listen of
        Inl e \<Rightarrow>
          \<lparr>ro_sent = [], ro_log = [],
           ro_result = Some (Some (Wrapped (''listen udp '' @ dc_ListenAddr cfg) e))\<rparr>
      | Inr _ \<Rightarrow>
          (let o1 = discoveryLoop cfg hostname events
           in o1\<lparr>ro_log := (if dc_Verbose cfg
                then [''discovery listening on '' @ dc_ListenAddr cfg @ '' for service '' @ Quote uc (dc_Service cfg)]
                else []) @ ro_log o1\<rparr>))"

section \<open>Subnets\<close>

lemma be32_nth:
  "be32 w = [ucast (drop_bit 24 w), ucast (drop_bit 16 w), ucast (drop_bit 8 w), ucast w]"
  by (simp add: be32_def le32_def)

lemma be32_AND: "map2 (AND) (be32 a) (be32 m) = be32 (a AND m)"
  by (simp add: be32_nth bit_eq_iff bit_simps)

lemma be32_eq_iff [simp]: "be32 a = be32 b \<longleftrightarrow> a = b"
proof
  assume eq: "be32 a = be32 b"
  have b8: "bit a (k + i) = bit b (k + i)"
    if "(ucast (drop_bit k a) :: byte) = ucast (drop_bit k b)" "i < 8" for k i
    using arg_cong [OF that(1), where f = "\<lambda>w. bit w i"] that(2) by (simp add: bit_simps ac_simps)
  show "a = b"
  proof (rule bit_word_eqI)
    fix n assume "n < LENGTH(32)"
    then consider "n = 0 + n" "n < 8" | "n = 8 + (n - 8)" "n - 8 < 8" | "n = 16 + (n - 16)" "n - 16 < 8"
      | "n = 24 + (n - 24)" "n - 24 < 8" by fastforce
    then show "bit a n = bit b n"
      using eq b8 [of 0 n] b8 [of 8 "n - 8"] b8 [of 16 "n - 16"] b8 [of 24 "n - 24"]
      by cases (simp_all add: be32_nth)
  qed
qed simp

lemma sameSubnet_be32:
  "sameSubnet (Some (be32 a)) (Some (be32 b)) (be32 m) \<longleftrightarrow> a AND m = b AND m"
proof -
  have "sameSubnet (Some (be32 a)) (Some (be32 b)) (be32 m) \<longleftrightarrow>
      map2 (AND) (be32 a) (be32 m) = map2 (AND) (be32 b) (be32 m)"
    by (auto simp: sameSubnet_def list_eq_iff_nth_eq Let_def)
  then show ?thesis by (simp add: be32_AND)
qed

text \<open>\<^verbatim>\<open>net.CIDRMask(n, 32)\<close>, and the 16-byte form of an IPv4 address.\<close>

definition CIDRMask32 :: "nat \<Rightarrow> 32 word" where
  "CIDRMask32 n = NOT (mask (32 - n))"

definition mapped :: "bytes \<Rightarrow> bytes" where
  "mapped b = replicate 10 0 @ [255, 255] @ b"

lemma To4_mapped [simp]: "length b = 4 \<Longrightarrow> To4 (Some (mapped b)) = Some b"
  by (simp add: To4_def mapped_def nth_append)

lemma AND_CIDRMask32: "a AND CIDRMask32 n = b AND CIDRMask32 n \<longleftrightarrow> drop_bit (32 - n) a = drop_bit (32 - n) b"
proof
  assume eq: "a AND CIDRMask32 n = b AND CIDRMask32 n"
  show "drop_bit (32 - n) a = drop_bit (32 - n) b"
  proof (rule bit_word_eqI)
    fix i assume "i < LENGTH(32)"
    from arg_cong [OF eq, where f = "\<lambda>w. bit w (32 - n + i)"]
    show "bit (drop_bit (32 - n) a) i = bit (drop_bit (32 - n) b) i"
      by (cases "32 - n + i < 32") (auto simp: CIDRMask32_def bit_simps dest: bit_imp_le_length)
  qed
next
  assume eq: "drop_bit (32 - n) a = drop_bit (32 - n) b"
  show "a AND CIDRMask32 n = b AND CIDRMask32 n"
  proof (rule bit_word_eqI)
    fix i assume "i < LENGTH(32)"
    with arg_cong [OF eq, where f = "\<lambda>w. bit w (i - (32 - n))"]
    show "bit (a AND CIDRMask32 n) i = bit (b AND CIDRMask32 n) i"
      by (cases "i < 32 - n") (auto simp: CIDRMask32_def bit_simps)
  qed
qed

text \<open>
  \<^verbatim>\<open>sameSubnet\<close> under the mask of a prefix length decides that the two addresses agree on
  that many leading bits, whether the addresses and the mask are given in their 4-byte or in
  their 16-byte form; with a mask of any other length it is false.
\<close>

lemma sameSubnet_is_prefix_equality:
  "length x = 4 \<Longrightarrow> length y = 4 \<Longrightarrow>
     sameSubnet (Some (mapped x)) (Some y) msk = sameSubnet (Some x) (Some y) msk \<and>
     sameSubnet (Some x) (Some (mapped y)) msk = sameSubnet (Some x) (Some y) msk \<and>
     sameSubnet (Some (be32 a)) (Some (be32 b)) (be32 (CIDRMask32 n)) =
       (drop_bit (32 - n) a = drop_bit (32 - n) b) \<and>
     sameSubnet (Some (be32 a)) (Some (be32 b)) (replicate 12 255 @ be32 (CIDRMask32 n)) =
       (drop_bit (32 - n) a = drop_bit (32 - n) b) \<and>
     (length msk \<notin> {4, 16} \<longrightarrow> \<not> sameSubnet (Some x) (Some y) msk)"
  using sameSubnet_be32 [of a b "CIDRMask32 n"] AND_CIDRMask32 [of a n b]
  by (auto simp: sameSubnet_def Let_def)

lemma sameSubnet_is_prefix_equality_witness:
  "sameSubnet (Some (be32 0xC0A8010A)) (Some (be32 0xC0A801C8)) (be32 (CIDRMask32 24)) =
     (drop_bit 8 (0xC0A8010A :: 32 word) = drop_bit 8 0xC0A801C8) \<and>
   \<not> sameSubnet (Some [192, 168, 1, 10]) (Some [192, 168, 1, 10]) [255, 255]"
  using sameSubnet_is_prefix_equality [of "[192, 168, 1, 10]" "[192, 168, 1, 10]" "[255, 255]" "0xC0A8010A" "0xC0A801C8" 24]
  by simp

section \<open>Which address is announced\<close>

text \<open>An interface address that \<^verbatim>\<open>localIPFor\<close> accepts for a client, and the IPv4 address it gives.\<close>

fun usable :: "IP \<Rightarrow> if_addr \<Rightarrow> bytes \<Rightarrow> bool" where
  "usable remote (IPNet ip msk) local \<longleftrightarrow>
     \<not> IsLoopback ip \<and> To4 ip = Some local \<and> sameSubnet (Some local) remote msk"
| "usable remote IfOther local \<longleftrightarrow> False"

lemma localIPLoop_SomeD:
  "localIPLoop remote addrs = Some l \<Longrightarrow> \<exists>a \<in> set addrs. usable remote a l"
proof (induction addrs)
  case (Cons a addrs)
  then show ?case by (cases a) (auto split: if_splits option.splits)
qed simp

lemma localIPLoop_None_iff:
  "localIPLoop remote addrs = None \<longleftrightarrow> (\<forall>a \<in> set addrs. \<forall>l. \<not> usable remote a l)"
proof (induction addrs)
  case (Cons a addrs)
  then show ?case by (cases a) (auto split: if_splits option.splits)
qed simp

lemma localIPFor_OkD:
  assumes "localIPFor (Ok addrs) remote = Ok ip"
  shows "\<exists>l. ip = Some l \<and> (\<exists>a \<in> set addrs. usable (To4 remote) a l)"
proof -
  from assms obtain l where "localIPLoop (To4 remote) addrs = Some l" "ip = Some l"
    by (cases "localIPLoop (To4 remote) addrs") (auto simp: localIPFor_def Let_def split: if_splits)
  with localIPLoop_SomeD show ?thesis by blast
qed

lemma usable_facts:
  assumes "usable remote a l"
  shows "length l = 4" "l ! 0 \<noteq> 127" "IP_String (Some l) = dotted l"
proof -
  from assms show 4: "length l = 4" and "l ! 0 \<noteq> 127"
    by (cases a; auto simp: IsLoopback_def dest: To4_length)+
  from 4 show "IP_String (Some l) = dotted l"
    by (auto simp: IP_String_def)
qed

text \<open>
  The addresses of this host on the subnet of a client: IPv4, not loopback, and equal to the client's in every bit of the
  mask of the interface, which has 4 bytes, or 16 of which the last 4 count.
\<close>

definition shares_subnet :: "bytes \<Rightarrow> bytes \<Rightarrow> IPMask \<Rightarrow> bool" where
  "shares_subnet l r msk \<longleftrightarrow> length l = 4 \<and> length r = 4 \<and> length msk \<in> {4, 16} \<and>
     map2 (AND) l (drop (length msk - 4) msk) = map2 (AND) r (drop (length msk - 4) msk)"

definition on_client_subnet :: "if_addr list \<Rightarrow> IP \<Rightarrow> bytes \<Rightarrow> bool" where
  "on_client_subnet addrs client l \<longleftrightarrow> (\<exists>ip msk r. IPNet ip msk \<in> set addrs \<and> To4 ip = Some l \<and> l ! 0 \<noteq> 127 \<and>
     To4 client = Some r \<and> shares_subnet l r msk)"

lemma To4_To4: "To4 ip = Some l \<Longrightarrow> To4 (Some l) = Some l"
  using To4_length [of ip l] by (simp add: To4_def)

lemma sameSubnet_shares:
  assumes "To4 ip = Some l" and "To4 client = Some r"
  shows "sameSubnet (Some l) (Some r) msk \<longleftrightarrow> shares_subnet l r msk"
proof -
  have len: "length l = 4" "length r = 4" using assms To4_length by blast+
  have bytewise: "(\<forall>i \<in> set [0..<length l]. l ! i AND m ! i = r ! i AND m ! i) \<longleftrightarrow> map2 (AND) l m = map2 (AND) r m"
    if "length m = 4" for m
    using that len by (auto simp: list_eq_iff_nth_eq)
  show ?thesis
    using len bytewise [of msk] bytewise [of "drop 12 msk"] To4_To4 [OF assms(1)] To4_To4 [OF assms(2)]
    by (auto simp: sameSubnet_def shares_subnet_def Let_def)
qed

lemma usable_on_client_subnet:
  "To4 client = Some r \<Longrightarrow> (\<exists>a \<in> set addrs. usable (To4 client) a l) \<longleftrightarrow> on_client_subnet addrs client l"
proof -
  assume r: "To4 client = Some r"
  have one: "usable (To4 client) (IPNet ip msk) l \<longleftrightarrow> To4 ip = Some l \<and> l ! 0 \<noteq> 127 \<and> shares_subnet l r msk" for ip msk
    using r sameSubnet_shares [of ip l client r msk] by (auto simp: IsLoopback_def)
  show ?thesis
  proof
    assume "\<exists>a \<in> set addrs. usable (To4 client) a l"
    then obtain a where a: "a \<in> set addrs" "usable (To4 client) a l" by blast
    from a(2) obtain ip msk where "a = IPNet ip msk" by (cases "(To4 client, a, l)" rule: usable.cases) auto
    with a one r show "on_client_subnet addrs client l" unfolding on_client_subnet_def by blast
  next
    assume "on_client_subnet addrs client l"
    then obtain ip msk where "IPNet ip msk \<in> set addrs" "usable (To4 client) (IPNet ip msk) l"
      using one r unfolding on_client_subnet_def by auto
    then show "\<exists>a \<in> set addrs. usable (To4 client) a l" by blast
  qed
qed

lemma localIPFor_subnet:
  "case localIPFor (Ok addrs) client of
     Inr ip \<Rightarrow> \<exists>l. ip = Some l \<and> on_client_subnet addrs client l \<and> IP_String ip = dotted l
   | Inl _ \<Rightarrow> \<forall>l. \<not> on_client_subnet addrs client l"
proof (cases "To4 client")
  case None
  then show ?thesis by (simp add: localIPFor_def on_client_subnet_def)
next
  case (Some r)
  show ?thesis
  proof (cases "localIPFor (Ok addrs) client")
    case (Inl e)
    then have "localIPLoop (To4 client) addrs = None" using Some by (auto simp: localIPFor_def Let_def split: option.splits)
    with usable_on_client_subnet [OF Some, of addrs] Inl show ?thesis unfolding localIPLoop_None_iff by auto
  next
    case (Inr ip)
    from localIPFor_OkD [OF this] obtain l a where l: "ip = Some l" "a \<in> set addrs" "usable (To4 client) a l" by blast
    with usable_on_client_subnet [OF Some, of addrs l] usable_facts(3) [OF l(3)] Inr show ?thesis by auto
  qed
qed

text \<open>
  C29: which address is announced to a client. The announcement has the port of the configured gRPC address. When the
  configured host is empty, 0.0.0.0 or ::, or when it is 127.0.0.1 or ::1 and the client is not on the same host, it is the
  dotted form of an IPv4 address of this host, not loopback, on the client's subnet, and nothing is announced only when
  there is no such address. Any other host is announced as it is configured: that includes names, and also localhost or
  127.0.0.2, which a client on another host cannot use.
\<close>

theorem announced_address:
  assumes "SplitHostPort grpcAddr = Ok (host, port)" and "ua_IP remote \<noteq> None"
  shows "if host \<in> {[], ''0.0.0.0'', ''::''} \<or> host \<in> {''127.0.0.1'', ''::1''} \<and> \<not> IsLoopback (ua_IP remote)
    then (case grpcAddrForClient (Ok addrs) grpcAddr remote of
            Inr out \<Rightarrow> \<exists>l. on_client_subnet addrs (ua_IP remote) l \<and> SplitHostPort out = Ok (dotted l, port)
          | Inl _ \<Rightarrow> \<forall>l. \<not> on_client_subnet addrs (ua_IP remote) l)
    else (\<exists>out. grpcAddrForClient (Ok addrs) grpcAddr remote = Ok out \<and> SplitHostPort out = Ok (host, port))"
    (is "if ?local then _ else _")
proof (cases ?local)
  case True
  then have "grpcAddrForClient (Ok addrs) grpcAddr remote =
      andThen (localIPFor (Ok addrs) (ua_IP remote)) (\<lambda>ip. Ok (JoinHostPort (IP_String ip) port))"
    using assms by (auto simp: grpcAddrForClient_def Let_def)
  with True localIPFor_subnet [of addrs "ua_IP remote"] SplitHostPort_Ok [OF assms(1)] show ?thesis
    by (cases "localIPFor (Ok addrs) (ua_IP remote)") (auto simp: SplitHostPort_JoinHostPort dotted_plain)
next
  case False
  then have "grpcAddrForClient (Ok addrs) grpcAddr remote = Ok (JoinHostPort host port)"
    using assms by (auto simp: grpcAddrForClient_def Let_def)
  moreover have "SplitHostPort (JoinHostPort host port) = Ok (host, port)"
    using SplitHostPort_Ok [OF assms(1)] by (simp add: SplitHostPort_JoinHostPort)
  ultimately show ?thesis unfolding if_not_P [OF False] by blast
qed

definition lan_addrs :: "if_addr list" where
  "lan_addrs = [IPNet (Some [127, 0, 0, 1]) [255, 0, 0, 0], IPNet (Some [192, 168, 1, 10]) [255, 255, 255, 0]]"

definition lan_client :: UDPAddr where
  "lan_client = \<lparr>ua_IP = Some [192, 168, 1, 77], ua_Port = 40000, ua_Zone = []\<rparr>"

lemma lan_reply: "grpcAddrForClient (Ok lan_addrs) ''0.0.0.0:50051'' lan_client = Ok ''192.168.1.10:50051''"
  by code_simp

text \<open>The wildcard becomes the address on the client's subnet; localhost stays.\<close>

theorem announced_address_witness:
  "(\<exists>l. on_client_subnet lan_addrs (ua_IP lan_client) l \<and> SplitHostPort ''192.168.1.10:50051'' = Ok (dotted l, ''50051'')) \<and>
   (\<exists>out. grpcAddrForClient (Ok lan_addrs) ''localhost:50051'' lan_client = Ok out \<and>
     SplitHostPort out = Ok (''localhost'', ''50051''))"
proof -
  have s: "SplitHostPort ''0.0.0.0:50051'' = Ok (''0.0.0.0'', ''50051'')" "SplitHostPort ''localhost:50051'' = Ok (''localhost'', ''50051'')"
    by code_simp+
  have c: "ua_IP lan_client \<noteq> None" by (simp add: lan_client_def)
  from lan_reply announced_address [OF s(1) c, of lan_addrs] announced_address [OF s(2) c, of lan_addrs] show ?thesis by simp
qed

text \<open>
  \<^verbatim>\<open>grpcAddrForClient\<close> fails exactly when the configured address has no port, the client
  has no IP, or a local address is needed (the configured host is a wildcard, or it is loopback
  and the client is not) and the client is not IPv4, the interfaces cannot be listed or none of
  them is on its subnet.
\<close>

lemma grpcAddrForClient_fails_iff:
  "\<not> isOk (grpcAddrForClient interfaceAddrs grpcAddr remote) \<longleftrightarrow>
     (case SplitHostPort grpcAddr of
        Inl _ \<Rightarrow> True
      | Inr (host, port) \<Rightarrow>
          ua_IP remote = None \<or>
          ((host \<in> {[], ''0.0.0.0'', ''::''} \<or> host \<in> {''127.0.0.1'', ''::1''} \<and> \<not> IsLoopback (ua_IP remote)) \<and>
           (To4 (ua_IP remote) = None \<or>
            (case interfaceAddrs of
               Inl _ \<Rightarrow> True
             | Inr addrs \<Rightarrow> \<forall>a \<in> set addrs. \<forall>l. \<not> usable (To4 (ua_IP remote)) a l))))"
proof -
  have loc: "\<not> isOk (localIPFor interfaceAddrs ip) \<longleftrightarrow> To4 ip = None \<or>
      (case interfaceAddrs of Inl _ \<Rightarrow> True | Inr addrs \<Rightarrow> \<forall>a \<in> set addrs. \<forall>l. \<not> usable (To4 ip) a l)" for ip
    by (auto simp: localIPFor_def Let_def localIPLoop_None_iff [symmetric] simp del: not_None_eq
        split: sum.split option.split)
  have bind: "isOk (andThen r (\<lambda>x. Ok (f x))) = isOk r" for r :: "goerror + IP" and f :: "IP \<Rightarrow> string"
    by (cases r) simp_all
  show ?thesis
    by (cases "SplitHostPort grpcAddr") (auto simp: grpcAddrForClient_def Let_def bind loc split: prod.split)
qed

section \<open>The responder answers exactly the valid probes\<close>

text \<open>The reply owed to one event, if any.\<close>

definition reply_to :: "DiscoveryConfig \<Rightarrow> string \<Rightarrow> read_event \<Rightarrow> (announceResponse \<times> UDPAddr) option" where
  "reply_to cfg hostname ev =
     (case ev of
        Received datagram (RemoteUDP remote) interfaceAddrs None \<Rightarrow>
          (case (decodeRequest (take 2048 datagram), grpcAddrForClient interfaceAddrs (dc_GRPCAddr cfg) remote) of
             (Some req, Inr addr) \<Rightarrow>
               if dq_Op req = ''discover'' \<and> dq_Service req \<in> {[], dc_Service cfg}
               then Some (\<lparr>an_Op = ''announce'', an_Service = dc_Service cfg, an_Version = ''1'',
                           an_Hostname = hostname, an_GRPCAddr = addr\<rparr>, remote)
               else None
           | _ \<Rightarrow> None)
      | _ \<Rightarrow> None)"

text \<open>The events that end the loop, and its result there.\<close>

fun stops :: "read_event \<Rightarrow> goerror option option" where
  "stops (DeadlineFailed e) = Some (Some e)"
| "stops (TimedOut ctxDone) = (if ctxDone then Some None else None)"
| "stops (ReadFailed e ctxErr) = Some (if ctxErr then None else Some (Wrapped ''read'' e))"
| "stops (Received _ _ _ _) = None"

lemma answerProbe_next [simp]: "so_next (answerProbe cfg h req r i w) = Continue"
  by (auto simp: answerProbe_def quiet_def Let_def split: remote_addr.split sum.split option.split)

lemma discoveryStep_next:
  "so_next (discoveryStep cfg h ev) = (case stops ev of None \<Rightarrow> Continue | Some r \<Rightarrow> Return r)"
  by (cases ev) (auto simp: discoveryStep_def quiet_def split: option.split)

lemma discoveryStep_sent:
  "so_sent (discoveryStep cfg h ev) =
     (case reply_to cfg h ev of None \<Rightarrow> [] | Some (a, to) \<Rightarrow> [(Marshal (announce_fields a), to)])"
proof (cases ev)
  case (Received d r i w)
  then show ?thesis
    by (cases "decodeRequest (take 2048 d)"; cases r; cases w;
        cases "grpcAddrForClient i (dc_GRPCAddr cfg) (case r of RemoteUDP u \<Rightarrow> u)")
      (auto simp: discoveryStep_def answerProbe_def reply_to_def quiet_def Let_def
        bufferSize_def discoveryVersion_def)
qed (auto simp: discoveryStep_def reply_to_def quiet_def)

definition handled :: "read_event list \<Rightarrow> read_event list" where
  "handled evs = takeWhile (\<lambda>ev. stops ev = None) evs"

lemma stops_no_reply: "stops ev \<noteq> None \<Longrightarrow> reply_to cfg h ev = None"
  by (cases ev) (simp_all add: reply_to_def)

lemma discoveryLoop_sent:
  "ro_sent (discoveryLoop cfg h evs) =
     map (\<lambda>(a, to). (Marshal (announce_fields a), to)) (List.map_filter (reply_to cfg h) (handled evs))"
  by (induction evs)
    (auto simp: handled_def Let_def discoveryStep_next discoveryStep_sent stops_no_reply
      List.map_filter_simps split: option.split step_result.split)

lemma discoveryLoop_result:
  "ro_result (discoveryLoop cfg h evs) =
     (case dropWhile (\<lambda>ev. stops ev = None) evs of [] \<Rightarrow> None | ev # _ \<Rightarrow> stops ev)"
  by (induction evs) (auto simp: Let_def discoveryStep_next split: option.split)

lemma RunDiscovery_fields:
  "ro_sent (RunDiscovery uc (Ok ()) h cfg evs) = ro_sent (discoveryLoop (withDefaults cfg) h evs)"
  "ro_result (RunDiscovery uc (Ok ()) h cfg evs) = ro_result (discoveryLoop (withDefaults cfg) h evs)"
  by (simp_all add: RunDiscovery_def Let_def)

text \<open>
  The datagrams that \<^verbatim>\<open>RunDiscovery\<close> sends are, in order and one each, the announcements
  owed to the probes received before the loop ends: an answer goes only to a datagram that
  decodes to a \<^verbatim>\<open>discover\<close> request for this service or for any, from a UDP peer for which an
  address can be given, and every such datagram whose write succeeds is answered. The loop ends
  at the first event that stops it, with that event's result.
\<close>

lemma RunDiscovery_answers_probes:
  "ro_sent (RunDiscovery uc (Ok ()) hostname cfg evs) =
     map (\<lambda>(a, to). (Marshal (announce_fields a), to))
       (List.map_filter (reply_to (withDefaults cfg) hostname) (takeWhile (\<lambda>ev. stops ev = None) evs)) \<and>
   ro_result (RunDiscovery uc (Ok ()) hostname cfg evs) =
     (case dropWhile (\<lambda>ev. stops ev = None) evs of [] \<Rightarrow> None | ev # _ \<Rightarrow> stops ev)"
  by (simp add: RunDiscovery_fields discoveryLoop_sent discoveryLoop_result handled_def)

text \<open>
  The context is looked at only after a read that times out or fails, so as long as every
  read delivers a datagram the responder neither stops nor returns an error, whatever the
  datagrams are; and the first time-out after the context is done ends it without an error.
\<close>

lemma RunDiscovery_stops_at_timeout:
  assumes "\<forall>ev \<in> set evs. \<exists>d r i w. ev = Received d r i w"
  shows "ro_result (RunDiscovery uc (Ok ()) hostname cfg evs) = None \<and>
    ro_result (RunDiscovery uc (Ok ()) hostname cfg (evs @ TimedOut True # rest)) = Some None"
proof -
  have "\<forall>ev \<in> set evs. stops ev = None" using assms by fastforce
  then have "dropWhile (\<lambda>ev. stops ev = None) evs = []"
    and "dropWhile (\<lambda>ev. stops ev = None) (evs @ TimedOut True # rest) = TimedOut True # rest"
    by (simp_all add: dropWhile_append3 dropWhile_append2)
  then show ?thesis
    by (simp add: RunDiscovery_fields discoveryLoop_result del: dropWhile_eq_Nil_conv)
qed

lemma RunDiscovery_stops_at_timeout_witness:
  "\<forall>uc hostname cfg. ro_result (RunDiscovery uc (Ok ()) hostname cfg
     [Received ''x'' RemoteOther (Ok []) None, TimedOut True]) = Some None"
  using RunDiscovery_stops_at_timeout [of "[Received ''x'' RemoteOther (Ok []) None]" _ _ _ "[]"]
  by simp

end
