(* ===== verification/Cert_Server.thy ===== *)
theory Cert_Server
  imports Discovery Tls_Util File_Store
begin

text \<open>
  The server program \<^verbatim>\<open>cmd/cert-server/main.go\<close>: the truncation of its log file and its start-up.
  The calls on the log file may fail; what they return is the parameter \<open>log_env\<close>. The start-up is a
  function of the command-line flags, the files, the answers of the operating system and the state (the log
  file and the certificate store); its result is the fatal error that ended it or a description of
  what serves. From there on the program is a function of the events it reacts to: the ends of its two goroutines, the
  signal and the end of the graceful stop. The calls that are served meanwhile are those of the service.
\<close>

section \<open>The log file\<close>

definition logFileName :: string where "logFileName = ''cert-server.log''"
definition maxLogSize :: int where "maxLogSize = 5 * 1024 * 1024"

text \<open>
  \<open>le_Stat\<close> is an error other than a missing file. A failed write may leave other contents in the file.
\<close>

record log_env =
  le_Stat :: "goerror option"
  le_Open :: "goerror option"
  le_Seek :: "goerror option"
  le_ReadAll :: "goerror option"
  le_WriteFile :: "bytes \<Rightarrow> (goerror \<times> bytes) option"

definition cutAtLine :: "bytes \<Rightarrow> bytes" where
  "cutAtLine tail =
     (case IndexByte tail 10 of
        Some i \<Rightarrow> if i + 1 < length tail then drop (i + 1) tail else tail
      | None \<Rightarrow> tail)"

definition truncateLogFile :: "log_env \<Rightarrow> int \<Rightarrow> bytes option \<Rightarrow> bytes option \<times> goerror option" where
  "truncateLogFile env maxSize file =
     (case le_Stat env of
        Some e \<Rightarrow> (file, Some e)
      | None \<Rightarrow>
     (case file of
        None \<Rightarrow> (file, None)
      | Some data \<Rightarrow>
          if int (length data) \<le> maxSize then (file, None)
          else case le_Open env of
                 Some e \<Rightarrow> (file, Some e)
               | None \<Rightarrow>
              (case le_Seek env of
                 Some e \<Rightarrow> (file, Some e)
               | None \<Rightarrow>
              (case le_ReadAll env of
                 Some e \<Rightarrow> (file, Some e)
               | None \<Rightarrow>
              (let tail = cutAtLine (drop (nat (int (length data) - maxSize)) data) in
               case le_WriteFile env tail of
                 Some (e, left) \<Rightarrow> (Some left, Some e)
               | None \<Rightarrow> (Some tail, None))))))"

section \<open>Start-up\<close>

record server_flags =
  sf_addr :: string
  sf_ca :: string
  sf_cert :: string
  sf_key :: string
  sf_verbose :: bool
  sf_certDir :: string
  sf_discovery :: bool
  sf_discoveryAddr :: string

record 'kp serving =
  sv_TLS :: "'kp tls_Config"
  sv_Addr :: string
  sv_Verbose :: bool
  sv_Discovery :: "DiscoveryConfig option"
  sv_Banner :: string

datatype 'kp server_outcome = Fatal string | Serving "'kp serving"

text \<open>The answers of the operating system: opening the log file, listening, the host name.\<close>

record server_os =
  so_OpenFile :: "goerror option"
  so_Listen :: "string \<Rightarrow> goerror option"
  so_Hostname :: "goerror + string"

definition banner :: "server_flags \<Rightarrow> string \<Rightarrow> string" where
  "banner f hostname =
     ''cert-server listening on '' @ sf_addr f @ '' hostname='' @ hostname @ '' (mTLS, RSA padding: pkcs1|pss'' @
     (if sf_verbose f then
        (if sf_discovery f then '', UDP discovery on '' @ sf_discoveryAddr f @ '', verbose logging enabled)''
         else '', verbose logging enabled)'')
      else if sf_discovery f then '', UDP discovery on '' @ sf_discoveryAddr f @ '')''
      else '')'')"

definition openStore :: "unicode \<Rightarrow> ('k, 'm) crypto_lib_scheme \<Rightarrow> os_env \<Rightarrow> server_flags \<Rightarrow> 'k file_store \<Rightarrow>
    goerror option \<times> 'k file_store" where
  "openStore uc lib env f st = (if sf_certDir f \<noteq> [] then SetCertDir uc lib env (sf_certDir f) st else (None, st))"

definition startServing :: "unicode \<Rightarrow> os_env \<Rightarrow> 'kp tls_lib \<Rightarrow> server_os \<Rightarrow> server_flags \<Rightarrow> 'kp server_outcome" where
  "startServing uc env tls os f =
     (case LoadServerTLSConfig uc env tls (sf_ca f) (sf_cert f) (sf_key f) of
        Inl e \<Rightarrow> Fatal (''tls config: '' @ Error e)
      | Inr tlsConfig \<Rightarrow>
          (case so_Listen os (sf_addr f) of
             Some e \<Rightarrow> Fatal (''listen: '' @ Error e)
           | None \<Rightarrow>
               (let discovery = (if sf_discovery f then
                      Some \<lparr>dc_ListenAddr = sf_discoveryAddr f, dc_GRPCAddr = sf_addr f, dc_Service = [],
                            dc_Verbose = sf_verbose f\<rparr> else None);
                    hostname = (case so_Hostname os of Inl _ \<Rightarrow> ''unknown'' | Inr h \<Rightarrow> h)
                in Serving \<lparr>sv_TLS = tlsConfig, sv_Addr = sf_addr f, sv_Verbose = sf_verbose f,
                            sv_Discovery = discovery, sv_Banner = banner f hostname\<rparr>)))"

definition cert_server_main :: "unicode \<Rightarrow> ('k, 'm) crypto_lib_scheme \<Rightarrow> os_env \<Rightarrow> 'kp tls_lib \<Rightarrow> log_env \<Rightarrow> server_os \<Rightarrow>
    server_flags \<Rightarrow> bytes option \<Rightarrow> 'k file_store \<Rightarrow> 'kp server_outcome \<times> bytes option \<times> 'k file_store" where
  "cert_server_main uc lib env tls lenv os f logFile st =
     (case truncateLogFile lenv maxLogSize logFile of
        (file, Some e) \<Rightarrow> (Fatal (''truncate log file: '' @ Error e), file, st)
      | (file, None) \<Rightarrow>
     (case so_OpenFile os of
        Some e \<Rightarrow> (Fatal (''open log file: '' @ Error e), file, st)
      | None \<Rightarrow>
     (let file = (case file of None \<Rightarrow> Some [] | Some d \<Rightarrow> Some d) in
      case openStore uc lib env f st of
        (Some e, st) \<Rightarrow> (Fatal (''cert-dir: '' @ Error e), file, st)
      | (None, st) \<Rightarrow> (startServing uc env tls os f, file, st))))"

section \<open>Serving and stopping\<close>

datatype server_event =
    ServeReturned "goerror option"
  | DiscoveryReturned "goerror option"
  | StopSignal
  | GracefulStopReturned

datatype shutdown_op = cancel_call | GracefulStop_call | logFile_Close

datatype server_end = ServeFatal string | ServerStopped

text \<open>
  \<open>lf_stopping\<close>: \<^verbatim>\<open>main\<close> is past the receive on \<^verbatim>\<open>stop\<close>, so the context is cancelled. \<^verbatim>\<open>log.Fatalf\<close> in the goroutine that serves ends
  the process without the deferred calls. A second signal stays in the channel.
\<close>

record server_life =
  lf_stopping :: bool
  lf_ops :: "shutdown_op list"
  lf_log :: "string list"
  lf_end :: "server_end option"

definition main_event :: "server_event \<Rightarrow> server_life \<Rightarrow> server_life" where
  "main_event ev s =
     (if lf_end s \<noteq> None then s
      else case ev of
        ServeReturned (Some e) \<Rightarrow>
          s\<lparr>lf_log := lf_log s @ [''serve: '' @ Error e], lf_end := Some (ServeFatal (''serve: '' @ Error e))\<rparr>
      | ServeReturned None \<Rightarrow> s
      | DiscoveryReturned (Some e) \<Rightarrow>
          if lf_stopping s then s else s\<lparr>lf_log := lf_log s @ [''discovery: '' @ Error e]\<rparr>
      | DiscoveryReturned None \<Rightarrow> s
      | StopSignal \<Rightarrow>
          if lf_stopping s then s else s\<lparr>lf_stopping := True, lf_ops := lf_ops s @ [cancel_call, GracefulStop_call]\<rparr>
      | GracefulStopReturned \<Rightarrow>
          if lf_stopping s then s\<lparr>lf_ops := lf_ops s @ [cancel_call, logFile_Close], lf_end := Some ServerStopped\<rparr> else s)"

definition main_life :: "string \<Rightarrow> server_event list \<Rightarrow> server_life" where
  "main_life started evs = foldl (\<lambda>s ev. main_event ev s) \<lparr>lf_stopping = False, lf_ops = [], lf_log = [started], lf_end = None\<rparr> evs"

section \<open>Properties of the log file\<close>

lemma cutAtLine_suffix: "\<exists>pre. tail = pre @ cutAtLine tail"
  by (auto simp: cutAtLine_def split: option.split) (metis append_take_drop_id)

lemma length_cutAtLine: "length (cutAtLine tail) \<le> length tail"
  by (simp add: cutAtLine_def split: option.split)

lemma cutAtLine_line_start:
  assumes "10 \<in> set (butlast tail)"
  shows "\<exists>pre. tail = pre @ 10 # cutAtLine tail"
proof -
  from assms obtain i where i: "i < length tail - 1" "tail ! i = 10"
    by (auto simp: in_set_conv_nth nth_butlast)
  then have "10 \<in> set tail" by (auto simp: in_set_conv_nth intro!: exI [of _ i])
  then obtain j where j: "IndexByte tail 10 = Some j" by (cases "IndexByte tail 10") (auto simp: IndexByte_None_iff)
  note d = IndexByte_SomeD [OF j]
  have "j \<le> i"
  proof (rule ccontr)
    assume "\<not> j \<le> i"
    with i d have "10 \<in> set (take j tail)" by (auto simp: in_set_conv_nth intro!: exI [of _ i])
    with d show False by simp
  qed
  with i j have c: "cutAtLine tail = drop (Suc j) tail" by (simp add: cutAtLine_def)
  from d have "tail = take j tail @ 10 # cutAtLine tail" unfolding c by (metis id_take_nth_drop)
  then show ?thesis by blast
qed

lemma truncate_Ok:
  assumes "truncateLogFile env maxSize (Some data) = (file', None)"
  shows "file' = Some (if int (length data) \<le> maxSize then data
    else cutAtLine (drop (nat (int (length data) - maxSize)) data))"
  using assms by (auto simp: truncateLogFile_def Let_def split: option.splits if_splits)

text \<open>
  A successful truncation keeps the end of the log. What is left is a suffix of the log, the whole
  log when it was not longer than the limit and at most the limit otherwise; when the kept bytes had
  a newline before their last byte, the result starts at the beginning of a line. Truncating again changes
  nothing. A truncation that fails before it writes leaves the file as it was.
\<close>

lemma truncateLogFile_keeps_tail:
  assumes "truncateLogFile env (int m) (Some data) = (file', r)"
  shows "(r = None \<longrightarrow>
      (\<exists>data' pre. file' = Some data' \<and> data = pre @ data' \<and> length data' \<le> m \<and>
         (length data \<le> m \<longrightarrow> data' = data) \<and>
         (m < length data \<and> 10 \<in> set (butlast (drop (length data - m) data)) \<longrightarrow> (\<exists>p. pre = p @ [10])) \<and>
         truncateLogFile env (int m) file' = (file', None))) \<and>
    (r \<noteq> None \<and> (\<forall>b. le_WriteFile env b = None) \<longrightarrow> file' = Some data)"
proof (cases r)
  case None
  let ?t = "drop (length data - m) data"
  define data' where "data' = (if length data \<le> m then data else cutAtLine ?t)"
  from truncate_Ok [OF assms [unfolded None]] have file': "file' = Some data'"
    by (simp add: data'_def nat_diff_distrib)
  have len: "length data' \<le> m"
    using length_cutAtLine [of ?t] by (auto simp: data'_def)
  obtain pre where pre: "data = pre @ data'"
    using cutAtLine_suffix [of ?t] by (metis append.assoc append_Nil append_take_drop_id data'_def)
  have line: "\<exists>p. pre = p @ [10]" if "m < length data" "10 \<in> set (butlast ?t)"
  proof -
    from cutAtLine_line_start [OF that(2)] that(1) obtain q where "?t = q @ 10 # data'" by (auto simp: data'_def)
    then have "data = (take (length data - m) data @ q @ [10]) @ data'"
      by (metis append.assoc append_Cons append_Nil append_take_drop_id)
    with pre have "pre = (take (length data - m) data @ q) @ [10]" by simp
    then show ?thesis by blast
  qed
  have "le_Stat env = None" using assms None by (auto simp: truncateLogFile_def split: option.splits)
  with len file' have again: "truncateLogFile env (int m) file' = (file', None)"
    by (simp add: truncateLogFile_def)
  have small: "length data \<le> m \<longrightarrow> data' = data" by (simp add: data'_def)
  have "\<exists>data' pre. file' = Some data' \<and> data = pre @ data' \<and> length data' \<le> m \<and>
      (length data \<le> m \<longrightarrow> data' = data) \<and>
      (m < length data \<and> 10 \<in> set (butlast ?t) \<longrightarrow> (\<exists>p. pre = p @ [10])) \<and>
      truncateLogFile env (int m) file' = (file', None)"
    using file' pre len small line again by blast
  with None show ?thesis by simp
next
  case (Some e)
  with assms show ?thesis by (auto simp: truncateLogFile_def Let_def split: option.splits if_splits)
qed

definition demo_log_env :: log_env where
  "demo_log_env = \<lparr>le_Stat = None, le_Open = None, le_Seek = None, le_ReadAll = None, le_WriteFile = (\<lambda>_. None)\<rparr>"

lemma truncateLogFile_keeps_tail_witness:
  "truncateLogFile demo_log_env 5 (Some [1, 2, 3, 10, 4, 5, 6]) = (Some [4, 5, 6], None) \<and>
   truncateLogFile demo_log_env 5 (Some [4, 5, 6]) = (Some [4, 5, 6], None)"
proof -
  have t: "truncateLogFile demo_log_env (int 5) (Some [1, 2, 3, 10, 4, 5, 6]) = (Some [4, 5, 6], None)"
    by (simp add: truncateLogFile_def demo_log_env_def cutAtLine_def)
  from truncateLogFile_keeps_tail [OF t] t show ?thesis by simp
qed

section \<open>Properties of the start-up\<close>

text \<open>
  C35: when the server starts to serve, every connection uses TLS 1.2 or newer and has to present a client certificate that the CA
  file verifies; the certificate store is the untouched empty one or the loaded directory that
  was asked for, and in both cases one that the store package can reach; discovery is on exactly
  when asked for and announces the address that is served.
\<close>

theorem cert_server_serves_mutual_tls:
  assumes "cert_server_main uc lib env tls lenv os f logFile empty_store = (Serving s, file', st)"
  shows "tc_ClientAuth (sv_TLS s) = RequireAndVerifyClientCert \<and> tc_MinVersion (sv_TLS s) = 0x0303 \<and>
    (\<exists>caPEM. loadPEMOrFile uc env (sf_ca f) = Ok caPEM \<and> tc_ClientCAs (sv_TLS s) = Some (AppendCertsFromPEM tls caPEM)) \<and>
    store_reachable uc lib st \<and> CertDir st = sf_certDir f \<and>
    (sf_certDir f \<noteq> [] \<longrightarrow> loadCertDir uc lib env (sf_certDir f) = Ok (fileStore st)) \<and>
    map_option dc_GRPCAddr (sv_Discovery s) = (if sf_discovery f then Some (sv_Addr s) else None) \<and>
    sv_Addr s = sf_addr f \<and> so_Listen os (sf_addr f) = None"
proof -
  from assms have o: "openStore uc lib env f empty_store = (None, st)" and s: "startServing uc env tls os f = Serving s"
    by (auto simp: cert_server_main_def Let_def split: prod.splits option.splits)
  from s have "tc_ClientAuth (sv_TLS s) = RequireAndVerifyClientCert \<and> tc_MinVersion (sv_TLS s) = 0x0303 \<and>
      (\<exists>caPEM. loadPEMOrFile uc env (sf_ca f) = Ok caPEM \<and> tc_ClientCAs (sv_TLS s) = Some (AppendCertsFromPEM tls caPEM)) \<and>
      map_option dc_GRPCAddr (sv_Discovery s) = (if sf_discovery f then Some (sv_Addr s) else None) \<and>
      sv_Addr s = sf_addr f \<and> so_Listen os (sf_addr f) = None"
    by (auto simp: startServing_def LoadServerTLSConfig_def VersionTLS12_def Let_def split: sum.splits option.splits if_splits)
  moreover have "store_reachable uc lib st"
    using o by (auto simp: openStore_def split: if_splits intro: store_reachable.intros)
  moreover have "CertDir st = sf_certDir f \<and> (sf_certDir f \<noteq> [] \<longrightarrow> loadCertDir uc lib env (sf_certDir f) = Ok (fileStore st))"
    using o by (auto simp: openStore_def SetCertDir_def CertDir_def empty_store_def split: if_splits sum.splits)
  ultimately show ?thesis by blast
qed

definition demo_flags :: server_flags where
  "demo_flags = \<lparr>sf_addr = ''127.0.0.1:50051'', sf_ca = ''d/a.crt'', sf_cert = ''d/a.crt'', sf_key = ''d/a.key'',
     sf_verbose = False, sf_certDir = ''d'', sf_discovery = True, sf_discoveryAddr = '':6666''\<rparr>"

definition demo_server_os :: server_os where
  "demo_server_os = \<lparr>so_OpenFile = None, so_Listen = (\<lambda>_. None), so_Hostname = Ok ''host''\<rparr>"

theorem cert_server_serves_mutual_tls_witness:
  "\<exists>s. cert_server_main demo_uc demo_lib demo_env demo_tls demo_log_env demo_server_os demo_flags None empty_store =
     (Serving s, Some [], demo_store) \<and> tc_ClientAuth (sv_TLS s) = RequireAndVerifyClientCert \<and>
     tc_MinVersion (sv_TLS s) = 0x0303 \<and> map_option dc_GRPCAddr (sv_Discovery s) = Some ''127.0.0.1:50051''"
proof -
  obtain s where m: "cert_server_main demo_uc demo_lib demo_env demo_tls demo_log_env demo_server_os demo_flags None empty_store =
     (Serving s, Some [], demo_store)"
    using demo_SetCertDir demo_server_tls
    by (simp add: cert_server_main_def truncateLogFile_def demo_log_env_def demo_server_os_def openStore_def
        startServing_def demo_flags_def Let_def)
  from cert_server_serves_mutual_tls [OF m] m show ?thesis by (auto simp: demo_flags_def)
qed

section \<open>Properties of the stop\<close>

lemma main_life_snoc [simp]: "main_life b (evs @ [ev]) = main_event ev (main_life b evs)"
  by (simp add: main_life_def)

lemma main_life_init [simp]: "main_life b [] = \<lparr>lf_stopping = False, lf_ops = [], lf_log = [b], lf_end = None\<rparr>"
  by (simp add: main_life_def)

text \<open>
  The program stops in one order only: a signal, the cancellation of the context, the graceful stop of the service, and
  when that returns the deferred calls. It returns only after a signal and the return of the
  graceful stop; otherwise it ends only by a failure of serving, and then nothing is stopped gracefully after it.
\<close>

lemma main_life_stops:
  "lf_ops (main_life b evs) =
     (if \<not> lf_stopping (main_life b evs) then []
      else if lf_end (main_life b evs) = Some ServerStopped then [cancel_call, GracefulStop_call, cancel_call, logFile_Close]
      else [cancel_call, GracefulStop_call]) \<and>
   (lf_stopping (main_life b evs) \<longrightarrow> StopSignal \<in> set evs) \<and>
   (case lf_end (main_life b evs) of
      None \<Rightarrow> True
    | Some ServerStopped \<Rightarrow> lf_stopping (main_life b evs) \<and> GracefulStopReturned \<in> set evs
    | Some (ServeFatal msg) \<Rightarrow> \<exists>e. ServeReturned (Some e) \<in> set evs \<and> msg = ''serve: '' @ Error e)"
proof (induction evs rule: rev_induct)
  case (snoc ev evs)
  then show ?case
    by (auto simp: main_event_def split: server_event.splits option.splits server_end.splits)
qed simp

text \<open>Once a signal has come and while serving does not fail, the return of the graceful stop ends the program.\<close>

lemma main_life_ends:
  assumes "lf_stopping (main_life b evs)" and "lf_end (main_life b evs) = None"
  shows "lf_end (main_life b (evs @ [GracefulStopReturned])) = Some ServerStopped"
  using assms by (simp add: main_event_def)

end
