(* ===== verification/Ksp_Register.thy ===== *)
theory Ksp_Register
  imports Go_Net Ksp_Config Sample_Env
begin

text \<open>
  \<^verbatim>\<open>internal/kspregister\<close> and the command \<^verbatim>\<open>cmd/ksp-register/main.go\<close>: registering the provider with the
  Windows cryptography configuration. The configuration is the type variable \<open>'r\<close>; the functions of
  \<^verbatim>\<open>bcrypt.dll\<close> are the parameter \<open>bcrypt\<close>: each returns an NTSTATUS and the configuration afterwards. The
  parameter holds also the constants that the C preamble takes from the Windows headers.
\<close>

section \<open>The registration (register_windows.go)\<close>

type_synonym ntstatus = "32 word"

record CRYPT_INTERFACE_REG =
  ir_dwInterface :: "32 word"
  ir_dwFlags :: "32 word"
  ir_functions :: "string list"

record CRYPT_IMAGE_REG =
  im_pszImage :: string
  im_interfaces :: "CRYPT_INTERFACE_REG list"

record CRYPT_PROVIDER_REG =
  pv_aliases :: "string list"
  pv_UM :: "CRYPT_IMAGE_REG option"
  pv_KM :: "CRYPT_IMAGE_REG option"

record 'r bcrypt =
  CRYPT_LOCAL :: "32 word"
  CRYPT_PRIORITY_TOP :: "32 word"
  NCRYPT_KEY_STORAGE_INTERFACE :: "32 word"
  NCRYPT_KEY_STORAGE_ALGORITHM :: string
  BCryptRegisterProvider :: "string \<Rightarrow> 32 word \<Rightarrow> CRYPT_PROVIDER_REG \<Rightarrow> 'r \<Rightarrow> ntstatus \<times> 'r"
  BCryptUnregisterProvider :: "string \<Rightarrow> 'r \<Rightarrow> ntstatus \<times> 'r"
  BCryptAddContextFunction :: "32 word \<Rightarrow> string option \<Rightarrow> 32 word \<Rightarrow> string \<Rightarrow> 32 word \<Rightarrow> 'r \<Rightarrow> ntstatus \<times> 'r"
  BCryptAddContextFunctionProvider ::
    "32 word \<Rightarrow> string option \<Rightarrow> 32 word \<Rightarrow> string \<Rightarrow> string \<Rightarrow> 32 word \<Rightarrow> 'r \<Rightarrow> ntstatus \<times> 'r"
  BCryptRemoveContextFunctionProvider :: "32 word \<Rightarrow> string option \<Rightarrow> 32 word \<Rightarrow> string \<Rightarrow> string \<Rightarrow> 'r \<Rightarrow> ntstatus \<times> 'r"
  BCryptEnumRegisteredProviders :: "'r \<Rightarrow> 64 word \<times> string list option"

text \<open>The static structures and the wrappers of the C preamble; a count with an array is a list.\<close>

definition tpmcertAlgorithmClass :: "'r bcrypt \<Rightarrow> CRYPT_INTERFACE_REG" where
  "tpmcertAlgorithmClass b = \<lparr>ir_dwInterface = NCRYPT_KEY_STORAGE_INTERFACE b, ir_dwFlags = CRYPT_LOCAL b,
     ir_functions = [NCRYPT_KEY_STORAGE_ALGORITHM b]\<rparr>"

definition tpmcertKspImage :: "'r bcrypt \<Rightarrow> CRYPT_IMAGE_REG" where
  "tpmcertKspImage b = \<lparr>im_pszImage = ''fredprx_ksp.dll'', im_interfaces = [tpmcertAlgorithmClass b]\<rparr>"

definition tpmcertKspProvider :: "'r bcrypt \<Rightarrow> CRYPT_PROVIDER_REG" where
  "tpmcertKspProvider b = \<lparr>pv_aliases = [], pv_UM = Some (tpmcertKspImage b), pv_KM = None\<rparr>"

definition tpmcertRegisterProvider :: "'r bcrypt \<Rightarrow> 'r \<Rightarrow> ntstatus \<times> 'r" where
  "tpmcertRegisterProvider b = BCryptRegisterProvider b ''Fred Proxy Key Storage Provider'' 0 (tpmcertKspProvider b)"

definition tpmcertAddContextFunction :: "'r bcrypt \<Rightarrow> 'r \<Rightarrow> ntstatus \<times> 'r" where
  "tpmcertAddContextFunction b = BCryptAddContextFunction b (CRYPT_LOCAL b) None (NCRYPT_KEY_STORAGE_INTERFACE b)
     (NCRYPT_KEY_STORAGE_ALGORITHM b) (CRYPT_PRIORITY_TOP b)"

definition tpmcertAddContextFunctionProvider :: "'r bcrypt \<Rightarrow> 'r \<Rightarrow> ntstatus \<times> 'r" where
  "tpmcertAddContextFunctionProvider b = BCryptAddContextFunctionProvider b (CRYPT_LOCAL b) None
     (NCRYPT_KEY_STORAGE_INTERFACE b) (NCRYPT_KEY_STORAGE_ALGORITHM b) ''Fred Proxy Key Storage Provider'' (CRYPT_PRIORITY_TOP b)"

definition tpmcertRemoveContextFunctionProvider :: "'r bcrypt \<Rightarrow> 'r \<Rightarrow> ntstatus \<times> 'r" where
  "tpmcertRemoveContextFunctionProvider b = BCryptRemoveContextFunctionProvider b (CRYPT_LOCAL b) None
     (NCRYPT_KEY_STORAGE_INTERFACE b) (NCRYPT_KEY_STORAGE_ALGORITHM b) ''Fred Proxy Key Storage Provider''"

definition tpmcertUnregisterProvider :: "'r bcrypt \<Rightarrow> 'r \<Rightarrow> ntstatus \<times> 'r" where
  "tpmcertUnregisterProvider b = BCryptUnregisterProvider b ''Fred Proxy Key Storage Provider''"

text \<open>The verb \<^verbatim>\<open>%08X\<close>.\<close>

definition hex08 :: "nat \<Rightarrow> string" where
  "hex08 n = (let h = map ascii_upper (hex_of_nat n) in replicate (8 - length h) (CHR ''0'') @ h)"

definition statusError :: "string \<Rightarrow> nat \<Rightarrow> goerror" where
  "statusError what st = ErrorString (what @ '': NTSTATUS 0x'' @ hex08 st)"

definition STATUS_OBJECT_NAME_COLLISION :: ntstatus where "STATUS_OBJECT_NAME_COLLISION = 0xC0000035"

definition isIgnorableNotFound :: "ntstatus \<Rightarrow> bool" where
  "isIgnorableNotFound st \<longleftrightarrow> st = 0 \<or> st = 0xC0000034 \<or> st = 0xC0000225"

definition Unregister :: "'r bcrypt \<Rightarrow> 'r \<Rightarrow> goerror option \<times> 'r" where
  "Unregister b r =
     (case tpmcertRemoveContextFunctionProvider b r of (st1, r) \<Rightarrow>
      (let lastErr = (if \<not> isIgnorableNotFound st1
             then Some (statusError ''BCryptRemoveContextFunctionProvider'' (unat st1)) else None) in
      (case tpmcertUnregisterProvider b r of (st2, r) \<Rightarrow>
       (if \<not> isIgnorableNotFound st2 then
          (if lastErr = None then Some (statusError ''BCryptUnregisterProvider'' (unat st2)) else lastErr)
        else lastErr, r))))"

text \<open>One of the three steps of the registration: the status is an error unless 0 or a name collision.\<close>

definition regStep :: "string \<Rightarrow> ('r \<Rightarrow> ntstatus \<times> 'r) \<Rightarrow> 'r \<Rightarrow> goerror option \<times> 'r" where
  "regStep what call r =
     (case call r of (st, r) \<Rightarrow>
        (if st \<noteq> 0 \<and> st \<noteq> STATUS_OBJECT_NAME_COLLISION then Some (statusError what (unat st)) else None, r))"

definition Register :: "'r bcrypt \<Rightarrow> 'r \<Rightarrow> goerror option \<times> 'r" where
  "Register b r =
     (case Unregister b r of (_, r) \<Rightarrow>
     (case regStep ''BCryptRegisterProvider'' (tpmcertRegisterProvider b) r of
        (Some e, r) \<Rightarrow> (Some e, r)
      | (None, r) \<Rightarrow>
     (case regStep ''BCryptAddContextFunction'' (tpmcertAddContextFunction b) r of
        (Some e, r) \<Rightarrow> (Some e, r)
      | (None, r) \<Rightarrow>
     regStep ''BCryptAddContextFunctionProvider'' (tpmcertAddContextFunctionProvider b) r)))"

definition EnumProviders :: "'r bcrypt \<Rightarrow> 'r \<Rightarrow> goerror + string list" where
  "EnumProviders b r =
     (case BCryptEnumRegisteredProviders b r of (status, buf) \<Rightarrow>
        if status \<noteq> 0 then Err (statusError ''BCryptEnumRegisteredProviders'' (unat status))
        else case buf of None \<Rightarrow> Ok [] | Some names \<Rightarrow> Ok names)"

text \<open>The other platforms (\<^verbatim>\<open>register_stub.go\<close>).\<close>

definition stub_Register :: "goerror option" where
  "stub_Register = Some (ErrorString ''ksp-register requires Windows'')"

definition stub_Unregister :: "goerror option" where
  "stub_Unregister = Some (ErrorString ''ksp-register requires Windows'')"

definition stub_EnumProviders :: "goerror + string list" where
  "stub_EnumProviders = Err (ErrorString ''ksp-register requires Windows'')"

section \<open>The command (cmd/ksp-register/main.go)\<close>

record command_output =
  co_stdout :: "string list"
  co_stderr :: "string list"
  co_exit :: nat

definition register_usage :: command_output where
  "register_usage = \<lparr>co_stdout = [], co_stderr = [''Usage: ksp-register -register | -unregister | -enum''], co_exit = 1\<rparr>"

definition register_fatal :: "goerror \<Rightarrow> command_output" where
  "register_fatal e = \<lparr>co_stdout = [], co_stderr = [''error: '' @ Error e], co_exit = 1\<rparr>"

definition register_printed :: "string list \<Rightarrow> command_output" where
  "register_printed ls = \<lparr>co_stdout = ls, co_stderr = [], co_exit = 0\<rparr>"

definition register_main :: "unicode \<Rightarrow> 'r bcrypt \<Rightarrow> string list \<Rightarrow> 'r \<Rightarrow> command_output \<times> 'r" where
  "register_main uc b args r =
     (case args of
        [] \<Rightarrow> (register_usage, r)
      | arg # _ \<Rightarrow>
          (let cmd = ToLower uc arg in
           if cmd = ''-register'' \<or> cmd = ''register'' then
             (case Register b r of
                (Some e, r) \<Rightarrow> (register_fatal e, r)
              | (None, r) \<Rightarrow> (register_printed [''Registered Fred Proxy Key Storage Provider.''], r))
           else if cmd = ''-unregister'' \<or> cmd = ''unregister'' then
             (case Unregister b r of
                (Some e, r) \<Rightarrow> (register_fatal e, r)
              | (None, r) \<Rightarrow> (register_printed [''Unregistered Fred Proxy Key Storage Provider.''], r))
           else if cmd = ''-enum'' \<or> cmd = ''enum'' then
             (case EnumProviders b r of
                Inl e \<Rightarrow> (register_fatal e, r)
              | Inr providers \<Rightarrow> (register_printed providers, r))
           else (register_usage, r)))"

section \<open>Properties\<close>

text \<open>The configurations that the five calls of a registration see and leave, in order.\<close>

definition run_status :: "('r \<Rightarrow> ntstatus \<times> 'r) \<Rightarrow> 'r \<Rightarrow> ntstatus" where "run_status call r = fst (call r)"
definition run_state :: "('r \<Rightarrow> ntstatus \<times> 'r) \<Rightarrow> 'r \<Rightarrow> 'r" where "run_state call r = snd (call r)"

definition step_ok :: "('r \<Rightarrow> ntstatus \<times> 'r) \<Rightarrow> 'r \<Rightarrow> bool" where
  "step_ok call r \<longleftrightarrow> run_status call r \<in> {0, STATUS_OBJECT_NAME_COLLISION}"

lemma Unregister_state:
  "snd (Unregister b r) = run_state (tpmcertUnregisterProvider b) (run_state (tpmcertRemoveContextFunctionProvider b) r)"
  by (simp add: Unregister_def run_state_def Let_def split: prod.split)

lemma regStep_None: "fst (regStep what call r) = None \<longleftrightarrow> step_ok call r"
  by (simp add: regStep_def step_ok_def run_status_def split: prod.split)

lemma regStep_state [simp]: "snd (regStep what call r) = run_state call r"
  by (simp add: regStep_def run_state_def split: prod.split)

text \<open>
  A registration first removes what is there, whatever that reports, then makes the three
  registration calls in order, each on the configuration that the one before left, and stops at the first that
  reports neither success nor that the name exists. It succeeds exactly when none does, and then all
  three have been made.
\<close>

lemma Register_steps:
  "let r0 = snd (Unregister b r); r1 = run_state (tpmcertRegisterProvider b) r0;
       r2 = run_state (tpmcertAddContextFunction b) r1; r3 = run_state (tpmcertAddContextFunctionProvider b) r2;
       ok1 = step_ok (tpmcertRegisterProvider b) r0; ok2 = step_ok (tpmcertAddContextFunction b) r1;
       ok3 = step_ok (tpmcertAddContextFunctionProvider b) r2
   in (fst (Register b r) = None \<longleftrightarrow> ok1 \<and> ok2 \<and> ok3) \<and>
      snd (Register b r) = (if \<not> ok1 then r1 else if \<not> ok2 then r2 else r3)"
proof -
  obtain u r0 where u: "Unregister b r = (u, r0)" by force
  obtain e1 r1 where s1: "regStep ''BCryptRegisterProvider'' (tpmcertRegisterProvider b) r0 = (e1, r1)" by force
  obtain e2 r2 where s2: "regStep ''BCryptAddContextFunction'' (tpmcertAddContextFunction b) r1 = (e2, r2)" by force
  obtain e3 r3 where s3: "regStep ''BCryptAddContextFunctionProvider'' (tpmcertAddContextFunctionProvider b) r2 = (e3, r3)" by force
  note st = regStep_state [of "''BCryptRegisterProvider''" "tpmcertRegisterProvider b" r0, unfolded s1 snd_conv, symmetric]
    regStep_state [of "''BCryptAddContextFunction''" "tpmcertAddContextFunction b" r1, unfolded s2 snd_conv, symmetric]
    regStep_state [of "''BCryptAddContextFunctionProvider''" "tpmcertAddContextFunctionProvider b" r2, unfolded s3 snd_conv, symmetric]
  note ok = regStep_None [of "''BCryptRegisterProvider''" "tpmcertRegisterProvider b" r0, unfolded s1 fst_conv, symmetric]
    regStep_None [of "''BCryptAddContextFunction''" "tpmcertAddContextFunction b" r1, unfolded s2 fst_conv, symmetric]
    regStep_None [of "''BCryptAddContextFunctionProvider''" "tpmcertAddContextFunctionProvider b" r2, unfolded s3 fst_conv, symmetric]
  show ?thesis
    by (cases e1; cases e2) (simp_all add: Register_def u s1 s2 s3 st ok Let_def)
qed

section \<open>What the commands leave behind\<close>

text \<open>
  The documented behaviour of the configuration functions, in terms of what a configuration holds: the registered providers
  and, for a function of a context, the providers that offer it. The statuses are those of Windows: 0 is success, 0xC0000034 and
  0xC0000225 say that the object was not found, 0xC0000035 that the name is taken. A name collision means that the provider was
  registered and still is as it was. A call that names one provider leaves the others alone, whatever it returns; with any other status
  nothing is said of the one that it names, except that removing does not change a registration into another.
\<close>

type_synonym context_function = "32 word \<times> string option \<times> 32 word \<times> string"

definition register_law :: "'r bcrypt \<Rightarrow> ('r \<Rightarrow> string \<rightharpoonup> CRYPT_PROVIDER_REG) \<Rightarrow> ('r \<Rightarrow> context_function \<Rightarrow> string set) \<Rightarrow> bool" where
  "register_law b registered offered \<longleftrightarrow>
     (\<forall>p flags reg r st r'. BCryptRegisterProvider b p flags reg r = (st, r') \<longrightarrow>
        offered r' = offered r \<and> (\<forall>q. q \<noteq> p \<longrightarrow> registered r' q = registered r q) \<and>
        (st = 0 \<longrightarrow> registered r' p = Some reg) \<and>
        (st = 0xC0000035 \<longrightarrow> registered r p \<noteq> None \<and> registered r' p = registered r p))"

definition unregister_law :: "'r bcrypt \<Rightarrow> ('r \<Rightarrow> string \<rightharpoonup> CRYPT_PROVIDER_REG) \<Rightarrow> ('r \<Rightarrow> context_function \<Rightarrow> string set) \<Rightarrow> bool" where
  "unregister_law b registered offered \<longleftrightarrow>
     (\<forall>p r st r'. BCryptUnregisterProvider b p r = (st, r') \<longrightarrow>
        offered r' = offered r \<and> (\<forall>q. q \<noteq> p \<longrightarrow> registered r' q = registered r q) \<and>
        registered r' p \<in> {None, registered r p} \<and> (st \<in> {0, 0xC0000034, 0xC0000225} \<longrightarrow> registered r' p = None))"

definition only_offer :: "context_function \<Rightarrow> string \<Rightarrow> (context_function \<Rightarrow> string set) \<Rightarrow> (context_function \<Rightarrow> string set) \<Rightarrow> bool" where
  "only_offer k p old new \<longleftrightarrow> (\<forall>k' q. k' \<noteq> k \<or> q \<noteq> p \<longrightarrow> (q \<in> new k' \<longleftrightarrow> q \<in> old k'))"

definition function_laws :: "'r bcrypt \<Rightarrow> ('r \<Rightarrow> string \<rightharpoonup> CRYPT_PROVIDER_REG) \<Rightarrow> ('r \<Rightarrow> context_function \<Rightarrow> string set) \<Rightarrow> bool" where
  "function_laws b registered offered \<longleftrightarrow>
     (\<forall>t c i f pos r st r'. BCryptAddContextFunction b t c i f pos r = (st, r') \<longrightarrow>
        registered r' = registered r \<and> offered r' = offered r) \<and>
     (\<forall>t c i f p pos r st r'. BCryptAddContextFunctionProvider b t c i f p pos r = (st, r') \<longrightarrow>
        registered r' = registered r \<and> only_offer (t, c, i, f) p (offered r) (offered r') \<and>
        (st \<in> {0, 0xC0000035} \<longrightarrow> p \<in> offered r' (t, c, i, f))) \<and>
     (\<forall>t c i f p r st r'. BCryptRemoveContextFunctionProvider b t c i f p r = (st, r') \<longrightarrow>
        registered r' = registered r \<and> only_offer (t, c, i, f) p (offered r) (offered r') \<and>
        (st \<in> {0, 0xC0000034, 0xC0000225} \<longrightarrow> p \<notin> offered r' (t, c, i, f)))"

definition enum_law :: "'r bcrypt \<Rightarrow> ('r \<Rightarrow> string \<rightharpoonup> CRYPT_PROVIDER_REG) \<Rightarrow> bool" where
  "enum_law b registered \<longleftrightarrow>
     (\<forall>r names. BCryptEnumRegisteredProviders b r = (0, names) \<longrightarrow>
        set (case names of None \<Rightarrow> [] | Some ns \<Rightarrow> ns) = dom (registered r))"

definition cng_laws :: "'r bcrypt \<Rightarrow> ('r \<Rightarrow> string \<rightharpoonup> CRYPT_PROVIDER_REG) \<Rightarrow> ('r \<Rightarrow> context_function \<Rightarrow> string set) \<Rightarrow> bool" where
  "cng_laws b registered offered \<longleftrightarrow> register_law b registered offered \<and> unregister_law b registered offered \<and>
     function_laws b registered offered \<and> enum_law b registered"

definition key_storage :: "'r bcrypt \<Rightarrow> context_function" where
  "key_storage b = (CRYPT_LOCAL b, None, NCRYPT_KEY_STORAGE_INTERFACE b, NCRYPT_KEY_STORAGE_ALGORITHM b)"

text \<open>A system on which no call fails: each succeeds or finds that there is nothing to add or to remove.\<close>

definition cng_calls_succeed :: "'r bcrypt \<Rightarrow> bool" where
  "cng_calls_succeed b \<longleftrightarrow>
     (\<forall>p flags reg r. fst (BCryptRegisterProvider b p flags reg r) \<in> {0, 0xC0000035}) \<and>
     (\<forall>p r. fst (BCryptUnregisterProvider b p r) \<in> {0, 0xC0000034, 0xC0000225}) \<and>
     (\<forall>t c i f pos r. fst (BCryptAddContextFunction b t c i f pos r) \<in> {0, 0xC0000035}) \<and>
     (\<forall>t c i f p pos r. fst (BCryptAddContextFunctionProvider b t c i f p pos r) \<in> {0, 0xC0000035}) \<and>
     (\<forall>t c i f p r. fst (BCryptRemoveContextFunctionProvider b t c i f p r) \<in> {0, 0xC0000034, 0xC0000225}) \<and>
     (\<forall>r. fst (BCryptEnumRegisteredProviders b r) = 0)"

lemma cng_register:
  assumes "cng_laws b registered offered" and "tpmcertRegisterProvider b r = (st, r')"
  shows "offered r' = offered r" and "q \<noteq> ProviderName \<Longrightarrow> registered r' q = registered r q"
    and "st = 0 \<Longrightarrow> registered r' ProviderName = Some (tpmcertKspProvider b)"
    and "st = 0xC0000035 \<Longrightarrow> registered r ProviderName \<noteq> None \<and> registered r' ProviderName = registered r ProviderName"
  using assms unfolding cng_laws_def register_law_def tpmcertRegisterProvider_def ProviderName_def by blast+

lemma cng_unregister:
  assumes "cng_laws b registered offered" and "tpmcertUnregisterProvider b r = (st, r')"
  shows "offered r' = offered r" and "q \<noteq> ProviderName \<Longrightarrow> registered r' q = registered r q"
    and "registered r' ProviderName \<in> {None, registered r ProviderName}"
    and "st \<in> {0, 0xC0000034, 0xC0000225} \<Longrightarrow> registered r' ProviderName = None"
  using assms unfolding cng_laws_def unregister_law_def tpmcertUnregisterProvider_def ProviderName_def by blast+

lemma cng_functions:
  assumes "cng_laws b registered offered"
  shows "tpmcertAddContextFunction b r = (st, r') \<Longrightarrow> registered r' = registered r \<and> offered r' = offered r"
    and "tpmcertAddContextFunctionProvider b r = (st, r') \<Longrightarrow> registered r' = registered r \<and>
      only_offer (key_storage b) ProviderName (offered r) (offered r') \<and>
      (st \<in> {0, 0xC0000035} \<longrightarrow> ProviderName \<in> offered r' (key_storage b))"
    and "tpmcertRemoveContextFunctionProvider b r = (st, r') \<Longrightarrow> registered r' = registered r \<and>
      only_offer (key_storage b) ProviderName (offered r) (offered r') \<and>
      (st \<in> {0, 0xC0000034, 0xC0000225} \<longrightarrow> ProviderName \<notin> offered r' (key_storage b))"
  using assms
  unfolding cng_laws_def function_laws_def tpmcertAddContextFunction_def tpmcertAddContextFunctionProvider_def
    tpmcertRemoveContextFunctionProvider_def ProviderName_def key_storage_def
  by metis+

text \<open>No provider but this one is registered, unregistered, offered or withdrawn, and this one only for key storage.\<close>

definition others_same :: "'r bcrypt \<Rightarrow> ('r \<Rightarrow> string \<rightharpoonup> CRYPT_PROVIDER_REG) \<Rightarrow> ('r \<Rightarrow> context_function \<Rightarrow> string set) \<Rightarrow> 'r \<Rightarrow> 'r \<Rightarrow> bool" where
  "others_same b registered offered r r' \<longleftrightarrow>
     (\<forall>q. q \<noteq> ProviderName \<longrightarrow> registered r' q = registered r q) \<and>
     (\<forall>k q. k \<noteq> key_storage b \<or> q \<noteq> ProviderName \<longrightarrow> (q \<in> offered r' k \<longleftrightarrow> q \<in> offered r k))"

lemma others_same_refl: "others_same b registered offered r r"
  by (simp add: others_same_def)

lemma others_same_trans:
  "others_same b registered offered r r1 \<Longrightarrow> others_same b registered offered r1 r2 \<Longrightarrow> others_same b registered offered r r2"
  by (simp add: others_same_def)

lemma cng_others_same:
  assumes "cng_laws b registered offered"
  shows "tpmcertRegisterProvider b r = (st, r') \<Longrightarrow> others_same b registered offered r r'"
    and "tpmcertUnregisterProvider b r = (st, r') \<Longrightarrow> others_same b registered offered r r'"
    and "tpmcertAddContextFunction b r = (st, r') \<Longrightarrow> others_same b registered offered r r'"
    and "tpmcertAddContextFunctionProvider b r = (st, r') \<Longrightarrow> others_same b registered offered r r'"
    and "tpmcertRemoveContextFunctionProvider b r = (st, r') \<Longrightarrow> others_same b registered offered r r'"
  using cng_register(1,2) [OF assms] cng_unregister(1,2) [OF assms] cng_functions [OF assms]
  unfolding others_same_def only_offer_def by metis+

lemma Unregister_effect:
  assumes "cng_laws b registered offered" and "Unregister b r = (e, r')"
  shows "others_same b registered offered r r' \<and> registered r' ProviderName \<in> {None, registered r ProviderName} \<and>
    (e = None \<longrightarrow> registered r' ProviderName = None \<and> ProviderName \<notin> offered r' (key_storage b))"
proof -
  obtain st1 r1 where 1: "tpmcertRemoveContextFunctionProvider b r = (st1, r1)" by fastforce
  obtain st2 r2 where 2: "tpmcertUnregisterProvider b r1 = (st2, r2)" by fastforce
  let ?ok = "{0, 0xC0000034, 0xC0000225} :: ntstatus set"
  from assms(2) have r': "r' = r2" and ok: "e = None \<Longrightarrow> st1 \<in> ?ok \<and> st2 \<in> ?ok"
    by (auto simp: Unregister_def 1 2 isIgnorableNotFound_def Let_def split: if_splits)
  have "others_same b registered offered r r'"
    unfolding r' using cng_others_same(5) [OF assms(1) 1] cng_others_same(2) [OF assms(1) 2] by (rule others_same_trans)
  then show ?thesis
    using cng_functions(3) [OF assms(1) 1] cng_unregister(1,3,4) [OF assms(1) 2] ok r' by auto
qed

lemma Register_effect:
  assumes "cng_laws b registered offered" and "Register b r = (e, r')"
  shows "others_same b registered offered r r' \<and>
    (e = None \<longrightarrow> ProviderName \<in> offered r' (key_storage b) \<and>
       (registered r' ProviderName = Some (tpmcertKspProvider b) \<or>
        fst (Unregister b r) \<noteq> None \<and> registered r ProviderName \<noteq> None \<and> registered r' ProviderName = registered r ProviderName))"
proof -
  obtain e0 r0 where 0: "Unregister b r = (e0, r0)" by fastforce
  obtain st1 r1 where 1: "tpmcertRegisterProvider b r0 = (st1, r1)" by fastforce
  obtain st2 r2 where 2: "tpmcertAddContextFunction b r1 = (st2, r2)" by fastforce
  obtain st3 r3 where 3: "tpmcertAddContextFunctionProvider b r2 = (st3, r3)" by fastforce
  let ?ok = "{0, 0xC0000035} :: ntstatus set"
  have r': "r' \<in> {r1, r2, r3}" and ok: "e = None \<Longrightarrow> st1 \<in> ?ok \<and> st3 \<in> ?ok \<and> r' = r3"
    using assms(2) by (auto simp: Register_def 0 1 2 3 regStep_def STATUS_OBJECT_NAME_COLLISION_def split: if_splits)
  note u = Unregister_effect [OF assms(1) 0] and g = cng_register [OF assms(1) 1]
    and f = cng_functions(1) [OF assms(1) 2] cng_functions(2) [OF assms(1) 3]
  have o1: "others_same b registered offered r r1" using conjunct1 [OF u] cng_others_same(1) [OF assms(1) 1] by (rule others_same_trans)
  have o2: "others_same b registered offered r r2" using o1 cng_others_same(3) [OF assms(1) 2] by (rule others_same_trans)
  have o3: "others_same b registered offered r r3" using o2 cng_others_same(4) [OF assms(1) 3] by (rule others_same_trans)
  have keep: "registered r' = registered r1" using r' f by auto
  have "registered r' ProviderName = Some (tpmcertKspProvider b) \<or>
      e0 \<noteq> None \<and> registered r ProviderName \<noteq> None \<and> registered r' ProviderName = registered r ProviderName" if "e = None"
    using ok [OF that] g(3,4) u keep by auto
  with o1 o2 o3 r' ok f(2) 0 show ?thesis by auto
qed

lemma calls_succeed:
  assumes "cng_calls_succeed b"
  shows "fst (Unregister b r) = None" and "fst (Register b r) = None" and "\<exists>ps. EnumProviders b r = Ok ps"
proof -
  have st: "fst (tpmcertRegisterProvider b r) \<in> {0, 0xC0000035}" "fst (tpmcertAddContextFunction b r) \<in> {0, 0xC0000035}"
    "fst (tpmcertAddContextFunctionProvider b r) \<in> {0, 0xC0000035}"
    "fst (tpmcertUnregisterProvider b r) \<in> {0, 0xC0000034, 0xC0000225}"
    "fst (tpmcertRemoveContextFunctionProvider b r) \<in> {0, 0xC0000034, 0xC0000225}" for r
    using assms by (simp_all only: cng_calls_succeed_def tpmcertRegisterProvider_def tpmcertAddContextFunction_def
        tpmcertAddContextFunctionProvider_def tpmcertUnregisterProvider_def tpmcertRemoveContextFunctionProvider_def)
  have un: "isIgnorableNotFound (fst (tpmcertUnregisterProvider b r))" "isIgnorableNotFound (fst (tpmcertRemoveContextFunctionProvider b r))" for r
    using st(4,5) [of r] by (auto simp: isIgnorableNotFound_def)
  then show "fst (Unregister b r) = None"
    by (cases "tpmcertRemoveContextFunctionProvider b r", cases "tpmcertUnregisterProvider b (snd (tpmcertRemoveContextFunctionProvider b r))")
      (simp add: Unregister_def Let_def, metis fst_conv)
  have ok: "step_ok (tpmcertRegisterProvider b) r" "step_ok (tpmcertAddContextFunction b) r" "step_ok (tpmcertAddContextFunctionProvider b) r" for r
    using st(1,2,3) [of r] by (auto simp: step_ok_def run_status_def STATUS_OBJECT_NAME_COLLISION_def)
  then show "fst (Register b r) = None" using Register_steps [of b r] by (simp add: Let_def)
  have "fst (BCryptEnumRegisteredProviders b r) = 0" using assms by (simp only: cng_calls_succeed_def)
  then show "\<exists>ps. EnumProviders b r = Ok ps"
    by (cases "BCryptEnumRegisteredProviders b r"; cases "snd (BCryptEnumRegisteredProviders b r)") (simp_all add: EnumProviders_def)
qed

lemma EnumProviders_registered:
  assumes "cng_laws b registered offered" and "EnumProviders b r = Ok ps"
  shows "set ps = dom (registered r)"
proof -
  obtain st names where n: "BCryptEnumRegisteredProviders b r = (st, names)" by fastforce
  with assms(2) have "st = 0" "ps = (case names of None \<Rightarrow> [] | Some ns \<Rightarrow> ns)"
    by (auto simp: EnumProviders_def split: if_splits option.splits)
  with n assms(1) show ?thesis unfolding cng_laws_def enum_law_def by blast
qed

text \<open>
  C40: what the commands leave behind. Whatever command is given and however it ends, no provider but this one is registered or unregistered, and the
  lists of providers that offer a function keep every other provider, all but that of key storage also this one. A
  registration that reports success leaves the provider, under the name that the installer writes into the certificates,
  registered with the library of this program and offered for key storage, unless an older registration could not be removed and
  still stands; an unregistration that reports success leaves it neither registered nor offered; and
  the enumeration prints what is registered. The three commands report success when every call to Windows succeeds or finds nothing to
  add or to remove. A registration that reports an error may have taken its first steps, and then leaves the provider registered and not offered.
\<close>

theorem register_command_effect:
  assumes "cng_laws b registered offered" and "register_main uc b (cmd # args) r = (out, r')"
  shows "others_same b registered offered r r' \<and>
    (cng_calls_succeed b \<and> ToLower uc cmd \<in> {''-register'', ''register'', ''-unregister'', ''unregister'', ''-enum'', ''enum''} \<longrightarrow> co_exit out = 0) \<and>
    map_option im_pszImage (pv_UM (tpmcertKspProvider b)) = Some KSPLibrary \<and>
    (co_exit out = 0 \<longrightarrow>
       ToLower uc cmd \<in> {''-register'', ''register''} \<and> ProviderName \<in> offered r' (key_storage b) \<and>
         (registered r' ProviderName = Some (tpmcertKspProvider b) \<or>
          fst (Unregister b r) \<noteq> None \<and> registered r ProviderName \<noteq> None \<and> registered r' ProviderName = registered r ProviderName) \<or>
       ToLower uc cmd \<in> {''-unregister'', ''unregister''} \<and> registered r' ProviderName = None \<and>
         ProviderName \<notin> offered r' (key_storage b) \<or>
       ToLower uc cmd \<in> {''-enum'', ''enum''} \<and> r' = r \<and> set (co_stdout out) = dom (registered r))"
proof -
  have img: "map_option im_pszImage (pv_UM (tpmcertKspProvider b)) = Some KSPLibrary"
    by (simp add: tpmcertKspProvider_def tpmcertKspImage_def KSPLibrary_def)
  have outs: "co_exit (register_fatal e) = 1" "co_exit register_usage = 1" "co_stdout (register_printed ls) = ls" "co_exit (register_printed ls) = 0" for e ls
    by (simp_all add: register_fatal_def register_usage_def register_printed_def)
  consider "ToLower uc cmd \<in> {''-register'', ''register''}" | "ToLower uc cmd \<in> {''-unregister'', ''unregister''}"
    | "ToLower uc cmd \<in> {''-enum'', ''enum''}"
    | "ToLower uc cmd \<notin> {''-register'', ''register'', ''-unregister'', ''unregister'', ''-enum'', ''enum''}" by blast
  then show ?thesis
  proof cases
    case 1
    obtain e r1 where r1: "Register b r = (e, r1)" by fastforce
    have "(out, r') = (case e of Some x \<Rightarrow> (register_fatal x, r1) | None \<Rightarrow> (register_printed [''Registered Fred Proxy Key Storage Provider.''], r1))"
      using assms(2) 1 by (auto simp: register_main_def r1 split: option.split)
    then have o: "r' = r1" "co_exit out = 0 \<longleftrightarrow> e = None" using outs(1,4) by (auto split: option.splits)
    have "e = None" if "cng_calls_succeed b" using calls_succeed(2) [OF that, of r] r1 by simp
    with Register_effect [OF assms(1) r1, folded o(1)] o(2) img 1 show ?thesis by blast
  next
    case 2
    obtain e r1 where r1: "Unregister b r = (e, r1)" by fastforce
    have "(out, r') = (case e of Some x \<Rightarrow> (register_fatal x, r1) | None \<Rightarrow> (register_printed [''Unregistered Fred Proxy Key Storage Provider.''], r1))"
      using assms(2) 2 by (auto simp: register_main_def r1 split: option.split)
    then have o: "r' = r1" "co_exit out = 0 \<longleftrightarrow> e = None" using outs(1,4) by (auto split: option.splits)
    have "e = None" if "cng_calls_succeed b" using calls_succeed(1) [OF that, of r] r1 by simp
    with Unregister_effect [OF assms(1) r1, folded o(1)] o(2) img 2 show ?thesis by blast
  next
    case 3
    have m: "(out, r') = (case EnumProviders b r of Inl e \<Rightarrow> (register_fatal e, r) | Inr ps \<Rightarrow> (register_printed ps, r))"
      using assms(2) 3 by (auto simp: register_main_def)
    show ?thesis
    proof (cases "EnumProviders b r")
      case (Inl e)
      with m img outs(1) calls_succeed(3) [of b r] show ?thesis by (auto simp: others_same_refl)
    next
      case (Inr names)
      with m EnumProviders_registered [OF assms(1) Inr] img outs(3,4) 3 show ?thesis by (simp add: others_same_refl)
    qed
  next
    case 4
    then have "out = register_usage" "r' = r" using assms(2) by (auto simp: register_main_def Let_def)
    with 4 img outs(2) show ?thesis by (simp add: others_same_refl)
  qed
qed

text \<open>A configuration as two lists, with the behaviour that the laws describe.\<close>

definition demo_cng :: "((string \<times> CRYPT_PROVIDER_REG) list \<times> (context_function \<times> string) list) bcrypt" where
  "demo_cng = \<lparr>CRYPT_LOCAL = 1, CRYPT_PRIORITY_TOP = 0, NCRYPT_KEY_STORAGE_INTERFACE = 0x00010001,
     NCRYPT_KEY_STORAGE_ALGORITHM = ''KEY_STORAGE'',
     BCryptRegisterProvider = (\<lambda>p flags reg (ps, fs). if map_of ps p = None then (0, ((p, reg) # ps, fs))
       else (0xC0000035, (ps, fs))),
     BCryptUnregisterProvider = (\<lambda>p (ps, fs). (if map_of ps p = None then 0xC0000225 else 0, (filter (\<lambda>(q, _). q \<noteq> p) ps, fs))),
     BCryptAddContextFunction = (\<lambda>t c i f pos r. (0, r)),
     BCryptAddContextFunctionProvider = (\<lambda>t c i f p pos (ps, fs). (0, (ps, ((t, c, i, f), p) # fs))),
     BCryptRemoveContextFunctionProvider = (\<lambda>t c i f p (ps, fs). (0, (ps, filter (\<lambda>x. x \<noteq> ((t, c, i, f), p)) fs))),
     BCryptEnumRegisteredProviders = (\<lambda>(ps, fs). (0, if ps = [] then None else Some (map fst ps)))\<rparr>"

lemma map_of_filter_key: "map_of (filter (\<lambda>(q, _). q \<noteq> p) ps) q = (if q = p then None else map_of ps q)"
  by (induction ps) auto

lemma demo_cng_laws: "cng_laws demo_cng (\<lambda>r. map_of (fst r)) (\<lambda>r k. {p. (k, p) \<in> set (snd r)})"
  by (simp add: cng_laws_def register_law_def unregister_law_def function_laws_def only_offer_def enum_law_def demo_cng_def
      map_of_filter_key dom_map_of_conv_image_fst split: prod.split) auto

lemma demo_cng_succeeds: "cng_calls_succeed demo_cng"
  by (simp add: cng_calls_succeed_def demo_cng_def split: prod.split)

text \<open>A registration beside another provider, which offers the same function.\<close>

theorem register_command_effect_witness:
  "\<exists>out ps fs. register_main demo_uc demo_cng [''-register''] ([], [(key_storage demo_cng, ''Other'')]) = (out, ps, fs) \<and> co_exit out = 0 \<and>
     map_of ps ProviderName = Some (tpmcertKspProvider demo_cng) \<and> (key_storage demo_cng, ProviderName) \<in> set fs \<and>
     (key_storage demo_cng, ''Other'') \<in> set fs"
proof -
  obtain out ps fs where m: "register_main demo_uc demo_cng [''-register''] ([], [(key_storage demo_cng, ''Other'')]) = (out, ps, fs)"
    using prod_cases3 by blast
  have l: "ToLower demo_uc ''-register'' = ''-register''" by code_simp
  have o: "''Other'' \<noteq> ProviderName" by (simp add: ProviderName_def)
  note t = register_command_effect [OF demo_cng_laws m]
  have x: "co_exit out = 0" using t demo_cng_succeeds l by simp
  moreover have "(key_storage demo_cng, ''Other'') \<in> set fs"
  proof -
    have "''Other'' \<in> {p. (key_storage demo_cng, p) \<in> set fs} \<longleftrightarrow> ''Other'' \<in> {p. (key_storage demo_cng, p) \<in> {(key_storage demo_cng, ''Other'')}}"
      using conjunct2 [OF conjunct1 [OF t, unfolded others_same_def], rule_format, of "key_storage demo_cng" "''Other''"] o
      by (simp only: snd_conv list.set) blast
    then show ?thesis by simp
  qed
  ultimately show ?thesis using t m l by simp
qed

end
