(* ===== verification/Go_Io.thy ===== *)
theory Go_Io
  imports Go_Prelude
begin

text \<open>
  The parts of Go's packages \<^verbatim>\<open>bufio\<close>, \<^verbatim>\<open>strconv\<close>, \<^verbatim>\<open>encoding/hex\<close> and \<^verbatim>\<open>encoding/base64\<close> that
  the command-line programs and the install window use, and the dialogue that four programs share:
  asking for a number until a valid one is entered.

  Standard input is the list of the chunks that successive reads deliver, followed by the end of
  file: a line of a terminal is one chunk, a pipe delivers several lines in one. A
  \<^verbatim>\<open>bufio.Reader\<close> keeps what it has read and not handed out, so its state is that text and the chunks
  that are left.
\<close>

section \<open>Buffered reading\<close>

type_synonym reader = "string \<times> string list"

definition io_EOF :: goerror where "io_EOF = Sentinel ''EOF''"

definition NewReader :: "string list \<Rightarrow> reader" where
  "NewReader stdin = ([], stdin)"

fun fillLine :: "string \<Rightarrow> string list \<Rightarrow> (goerror + string) \<times> reader" where
  "fillLine buf [] =
     (case IndexByte buf newline of
        Some i \<Rightarrow> (Ok (take (Suc i) buf), (drop (Suc i) buf, []))
      | None \<Rightarrow> (Err io_EOF, ([], [])))"
| "fillLine buf (chunk # chunks) =
     (case IndexByte buf newline of
        Some i \<Rightarrow> (Ok (take (Suc i) buf), (drop (Suc i) buf, chunk # chunks))
      | None \<Rightarrow> fillLine (buf @ chunk) chunks)"

text \<open>\<^verbatim>\<open>reader.ReadString('\n')\<close>; the callers drop the text that comes with an error.\<close>

definition ReadString :: "reader \<Rightarrow> (goerror + string) \<times> reader" where
  "ReadString rd = fillLine (fst rd) (snd rd)"

definition rd_all :: "reader \<Rightarrow> string" where
  "rd_all rd = fst rd @ concat (snd rd)"

lemma fillLine_cases:
  "case IndexByte (buf @ concat chunks) newline of
     None \<Rightarrow> fillLine buf chunks = (Err io_EOF, ([], []))
   | Some i \<Rightarrow> \<exists>rd'. fillLine buf chunks = (Ok (take (Suc i) (buf @ concat chunks)), rd') \<and>
       rd_all rd' = drop (Suc i) (buf @ concat chunks)"
proof (induction buf chunks rule: fillLine.induct)
  case (1 buf)
  then show ?case by (simp add: rd_all_def split: option.split)
next
  case (2 buf chunk chunks)
  show ?case
  proof (cases "IndexByte buf newline")
    case None
    with 2 show ?thesis by (simp split: option.splits)
  next
    case (Some i)
    note i = IndexByte_SomeD [OF Some]
    from IndexByte_append_Some [OF Some] have "IndexByte (buf @ concat (chunk # chunks)) newline = Some i" by simp
    with Some i show ?thesis by (simp add: rd_all_def)
  qed
qed

lemma ReadString_None:
  "newline \<notin> set (rd_all rd) \<Longrightarrow> ReadString rd = (Err io_EOF, ([], []))"
  using fillLine_cases [of "fst rd" "snd rd"] by (simp add: ReadString_def rd_all_def IndexByte_None_iff [THEN iffD2])

lemma ReadString_Some:
  assumes "IndexByte (rd_all rd) newline = Some i"
  obtains rd' where "ReadString rd = (Ok (take (Suc i) (rd_all rd)), rd')" and "rd_all rd' = drop (Suc i) (rd_all rd)"
  using fillLine_cases [of "fst rd" "snd rd"] assms by (auto simp: ReadString_def rd_all_def)

lemma ReadString_shorter:
  assumes "ReadString rd = (Ok line, rd')"
  shows "length (rd_all rd') < length (rd_all rd)"
proof (cases "IndexByte (rd_all rd) newline")
  case None
  with ReadString_None [of rd] assms show ?thesis by (simp add: IndexByte_None_iff)
next
  case (Some i)
  with assms IndexByte_SomeD [OF Some] show ?thesis by (auto elim!: ReadString_Some)
qed

text \<open>The complete lines of a text, each with its newline.\<close>

function lines_of :: "string \<Rightarrow> string list" where
  "lines_of s =
     (case IndexByte s newline of None \<Rightarrow> [] | Some i \<Rightarrow> take (Suc i) s # lines_of (drop (Suc i) s))"
  by pat_completeness auto
termination
  by (relation "measure length") (auto dest: IndexByte_SomeD)

declare lines_of.simps [simp del]

section \<open>Numbers\<close>

text \<open>\<^verbatim>\<open>strconv.Atoi\<close>, with \<open>None\<close> for an error: a sign, digits, a value that fits in 64 bits.\<close>

definition digitVal :: "char \<Rightarrow> nat option" where
  "digitVal c = (if 48 \<le> (of_char c :: nat) \<and> (of_char c :: nat) \<le> 57 then Some (of_char c - 48) else None)"

fun decimal :: "nat \<Rightarrow> string \<Rightarrow> nat option" where
  "decimal n [] = Some n"
| "decimal n (c # s) = (case digitVal c of None \<Rightarrow> None | Some d \<Rightarrow> decimal (10 * n + d) s)"

definition Atoi :: "string \<Rightarrow> int option" where
  "Atoi s =
     (let neg = HasPrefix s ''-''; t = (if neg \<or> HasPrefix s ''+'' then drop 1 s else s) in
      if t = [] then None
      else case decimal 0 t of
             None \<Rightarrow> None
           | Some n \<Rightarrow>
               (let v = (if neg then - int n else int n) in
                if - (2 ^ 63) \<le> v \<and> v < 2 ^ 63 then Some v else None))"

text \<open>
  A choice among \<open>limit\<close> numbered entries. Every round prints the prompt and reads a line; a line that
  is not a number from 1 to \<open>limit\<close> is answered by a message and another round. The result is the index
  or the error of the read, with what was printed and the reader.
\<close>

definition validChoice :: "unicode \<Rightarrow> nat \<Rightarrow> string \<Rightarrow> nat option" where
  "validChoice uc limit line =
     (case Atoi (TrimSpace uc line) of
        None \<Rightarrow> None
      | Some n \<Rightarrow> if n < 1 \<or> int limit < n then None else Some (nat n - 1))"

function choiceLoop :: "unicode \<Rightarrow> string \<Rightarrow> nat \<Rightarrow> reader \<Rightarrow> string \<times> (goerror + nat) \<times> reader" where
  "choiceLoop uc prompt limit rd =
     (case ReadString rd of
        (Inl e, rd') \<Rightarrow> (prompt, Err e, rd')
      | (Inr line, rd') \<Rightarrow>
          (case validChoice uc limit line of
             Some n \<Rightarrow> (prompt, Ok n, rd')
           | None \<Rightarrow>
               (case choiceLoop uc prompt limit rd' of
                  (out, r) \<Rightarrow> (prompt @ ''Invalid selection, try again.'' @ [newline] @ out, r))))"
  by pat_completeness auto
termination
  by (relation "measure (\<lambda>(uc, prompt, limit, rd). length (rd_all rd))") (auto dest: sym [THEN ReadString_shorter])

declare choiceLoop.simps [simp del]

definition readChoice :: "unicode \<Rightarrow> nat \<Rightarrow> reader \<Rightarrow> string \<times> (goerror + nat) \<times> reader" where
  "readChoice uc limit rd = choiceLoop uc (''Enter certificate number (1-'' @ dec_of_nat limit @ ''): '') limit rd"

lemma validChoice_bound: "validChoice uc limit line = Some n \<Longrightarrow> n < limit"
  by (auto simp: validChoice_def split: option.splits if_splits)

lemma choiceLoop_result:
  "fst (snd (choiceLoop uc prompt limit rd)) =
     (case find (\<lambda>l. validChoice uc limit l \<noteq> None) (lines_of (rd_all rd)) of
        None \<Rightarrow> Err io_EOF
      | Some l \<Rightarrow> Ok (the (validChoice uc limit l)))"
proof (induction uc prompt limit rd rule: choiceLoop.induct)
  case (1 uc prompt limit rd)
  show ?case
  proof (cases "IndexByte (rd_all rd) newline")
    case None
    then have "ReadString rd = (Err io_EOF, ([], []))" by (simp add: ReadString_None IndexByte_None_iff)
    with None show ?thesis by (subst choiceLoop.simps) (simp add: lines_of.simps)
  next
    case (Some i)
    then obtain rd' where r: "ReadString rd = (Ok (take (Suc i) (rd_all rd)), rd')"
      and rest: "rd_all rd' = drop (Suc i) (rd_all rd)" by (rule ReadString_Some)
    have l: "lines_of (rd_all rd) = take (Suc i) (rd_all rd) # lines_of (rd_all rd')"
      using Some rest by (subst lines_of.simps) simp
    show ?thesis
      using 1 [OF r [symmetric]] r l
      by (subst choiceLoop.simps) (auto split: option.split prod.split)
  qed
qed

section \<open>Hexadecimal and base64\<close>

definition hexVal :: "char \<Rightarrow> nat option" where
  "hexVal c =
     (let n = (of_char c :: nat) in
      if 48 \<le> n \<and> n \<le> 57 then Some (n - 48)
      else if 97 \<le> n \<and> n \<le> 102 then Some (n - 87)
      else if 65 \<le> n \<and> n \<le> 70 then Some (n - 55) else None)"

text \<open>
  The error of \<^verbatim>\<open>encoding/hex\<close> for a byte that is no digit prints it with \<^verbatim>\<open>%#U\<close>: the code point
  in four upper-case digits and, when it is printable, the character in UTF-8.
\<close>

definition latin1_printable :: "nat \<Rightarrow> bool" where
  "latin1_printable n \<longleftrightarrow> 32 \<le> n \<and> n \<le> 126 \<or> 161 \<le> n \<and> n \<noteq> 173"

definition utf8_latin1 :: "nat \<Rightarrow> string" where
  "utf8_latin1 n = (if n < 128 then [char_of n] else [char_of (192 + n div 64), char_of (128 + n mod 64)])"

definition invalidByte :: "char \<Rightarrow> goerror" where
  "invalidByte c =
     (let n = (of_char c :: nat) in
      ErrorString (''encoding/hex: invalid byte: U+00'' @ map ascii_upper [hex_digit (n div 16), hex_digit (n mod 16)] @
        (if latin1_printable n then '' '' @ [CHR 0x27] @ utf8_latin1 n @ [CHR 0x27] else [])))"

definition hex_ErrLength :: goerror where
  "hex_ErrLength = Sentinel ''encoding/hex: odd length hex string''"

fun DecodeString :: "string \<Rightarrow> goerror + bytes" where
  "DecodeString [] = Ok []"
| "DecodeString [c] = (if hexVal c = None then Err (invalidByte c) else Err hex_ErrLength)"
| "DecodeString (p # q # s) =
     (case hexVal p of
        None \<Rightarrow> Err (invalidByte p)
      | Some a \<Rightarrow>
          (case hexVal q of
             None \<Rightarrow> Err (invalidByte q)
           | Some b \<Rightarrow> andThen (DecodeString s) (\<lambda>bs. Ok (of_nat (16 * a + b) # bs))))"

lemma hexVal_hex_digit: "n < 16 \<Longrightarrow> hexVal (hex_digit n) = Some n"
  by (auto simp: hexVal_def of_char_hex_digit Let_def)

lemma DecodeString_EncodeToString: "DecodeString (EncodeToString bs) = Ok bs"
proof (induction bs)
  case Nil
  then show ?case by (simp add: EncodeToString_def)
next
  case (Cons b bs)
  then show ?case
    using byte_nibbles [of b]
    by (simp add: EncodeToString_def hex_byte_def hexVal_hex_digit)
qed

lemma DecodeString_length: "DecodeString s = Ok bs \<Longrightarrow> length s = 2 * length bs"
  by (induction s arbitrary: bs rule: DecodeString.induct) (auto split: option.splits if_splits)

text \<open>\<^verbatim>\<open>base64.StdEncoding.EncodeToString\<close>.\<close>

definition base64_alphabet :: string where
  "base64_alphabet = ''ABCDEFGHIJKLMNOPQRSTUVWXYZabcdefghijklmnopqrstuvwxyz0123456789+/''"

definition base64_digit :: "nat \<Rightarrow> char" where
  "base64_digit n = base64_alphabet ! n"

fun base64_Encode :: "bytes \<Rightarrow> string" where
  "base64_Encode [] = []"
| "base64_Encode [a] =
     (let n = unat a in [base64_digit (n div 4), base64_digit (n mod 4 * 16), CHR ''='', CHR ''=''])"
| "base64_Encode [a, b] =
     (let n = unat a * 256 + unat b in
      [base64_digit (n div 1024), base64_digit (n div 16 mod 64), base64_digit (n mod 16 * 4), CHR ''=''])"
| "base64_Encode (a # b # c # bs) =
     (let n = unat a * 65536 + unat b * 256 + unat c in
      [base64_digit (n div 262144), base64_digit (n div 4096 mod 64), base64_digit (n div 64 mod 64),
       base64_digit (n mod 64)] @ base64_Encode bs)"

lemma length_base64_Encode: "length (base64_Encode bs) = 4 * ((length bs + 2) div 3)"
proof (induction bs rule: base64_Encode.induct)
  case (4 a b c bs)
  have "(length (a # b # c # bs) + 2) div 3 = Suc ((length bs + 2) div 3)" by simp
  with 4 show ?case by (simp add: Let_def)
qed (simp_all add: Let_def)

section \<open>Dates\<close>

text \<open>
  \<^verbatim>\<open>t.UTC().Format("2006-01-02 15:04 UTC")\<close> and the form with seconds, for a time in nanoseconds since
  1970. The civil date of a day number is computed in eras of 400 years that start in March.
\<close>

definition civil :: "int \<Rightarrow> int \<times> int \<times> int" where
  "civil days =
     (let z = days + 719468; era = z div 146097; doe = z mod 146097;
          yoe = (doe - doe div 1460 + doe div 36524 - doe div 146096) div 365;
          doy = doe - (365 * yoe + yoe div 4 - yoe div 100);
          mp = (5 * doy + 2) div 153;
          d = doy - (153 * mp + 2) div 5 + 1;
          m = (if mp < 10 then mp + 3 else mp - 9)
      in (yoe + era * 400 + (if m \<le> 2 then 1 else 0), m, d))"

definition padInt :: "nat \<Rightarrow> int \<Rightarrow> string" where
  "padInt width n =
     (let ds = dec_of_nat (nat \<bar>n\<bar>) in (if n < 0 then ''-'' else []) @ replicate (width - length ds) (CHR ''0'') @ ds)"

definition formatDate :: "int \<Rightarrow> string" where
  "formatDate secs =
     (case civil (secs div 86400) of (y, m, d) \<Rightarrow> padInt 4 y @ ''-'' @ padInt 2 m @ ''-'' @ padInt 2 d)"

definition formatMinute :: "int \<Rightarrow> string" where
  "formatMinute t =
     (let secs = t div 10 ^ 9; s = secs mod 86400 in
      formatDate secs @ '' '' @ padInt 2 (s div 3600) @ '':'' @ padInt 2 (s div 60 mod 60) @ '' UTC'')"

definition formatSecond :: "int \<Rightarrow> string" where
  "formatSecond t =
     (let secs = t div 10 ^ 9; s = secs mod 86400 in
      formatDate secs @ '' '' @ padInt 2 (s div 3600) @ '':'' @ padInt 2 (s div 60 mod 60) @ '':'' @ padInt 2 (s mod 60) @ '' UTC'')"

text \<open>The zero value of \<^verbatim>\<open>time.Time\<close>: the first of January of the year 1.\<close>

definition time_zero :: int where "time_zero = - 62135596800 * 10 ^ 9"

lemma civil_examples:
  "civil 0 = (1970, 1, 1)" "civil 11016 = (2000, 2, 29)" "civil 11017 = (2000, 3, 1)" "civil (-1) = (1969, 12, 31)"
  "civil (time_zero div (86400 * 10 ^ 9)) = (1, 1, 1)"
  by code_simp+

end
