(* ===== verification/Cli.thy ===== *)
theory Cli
  imports Go_Io Go_Net Ksp_Client
begin

text \<open>
  The interactive programs: \<^verbatim>\<open>cmd/example-client\<close> and what it shares with \<^verbatim>\<open>cmd/local-sign-test-win\<close>,
  \<^verbatim>\<open>cmd/local-sign-test-mac\<close> and \<^verbatim>\<open>cmd/ksp-install-cert\<close>: the dialogue on the terminal, the choice of a padding
  and the choice of a certificate. A program is a function of the reader on standard input; it prints, reads
  and ends with a value or with the error that \<^verbatim>\<open>fatal\<close> reports. Once a part has failed nothing
  more is printed to standard output or read.
\<close>

section \<open>Programs on a terminal\<close>

type_synonym 'a prog = "reader \<Rightarrow> string \<times> (goerror + 'a) \<times> reader"

definition pbind :: "'a prog \<Rightarrow> ('a \<Rightarrow> 'b prog) \<Rightarrow> 'b prog" where
  "pbind m f rd =
     (case m rd of
        (out, Inl e, rd') \<Rightarrow> (out, Err e, rd')
      | (out, Inr x, rd') \<Rightarrow> (case f x rd' of (out', r, rd'') \<Rightarrow> (out @ out', r, rd'')))"

definition lift :: "goerror + 'a \<Rightarrow> 'a prog" where
  "lift r rd = ([], r, rd)"

definition say :: "string \<Rightarrow> unit prog" where
  "say s rd = (s, Ok (), rd)"

definition getLine :: "string prog" where
  "getLine rd = (case ReadString rd of (r, rd') \<Rightarrow> ([], r, rd'))"

definition guardP :: "bool \<Rightarrow> string \<Rightarrow> unit prog" where
  "guardP ok msg = lift (if ok then Ok () else Err (ErrorString msg))"

definition line :: "string \<Rightarrow> string" where
  "line s = s @ [newline]"

lemma pbind_Ok_iff:
  "pbind m f rd = (out, Ok y, rd2) \<longleftrightarrow>
     (\<exists>o1 x rd1 o2. m rd = (o1, Ok x, rd1) \<and> f x rd1 = (o2, Ok y, rd2) \<and> out = o1 @ o2)"
  by (auto simp: pbind_def split: prod.splits sum.splits)

lemma lift_Ok_iff [simp]: "lift r rd = (out, Ok y, rd2) \<longleftrightarrow> out = [] \<and> r = Ok y \<and> rd2 = rd"
  by (auto simp: lift_def)

lemma say_Ok_iff [simp]: "say s rd = (out, Ok y, rd2) \<longleftrightarrow> out = s \<and> rd2 = rd"
  by (auto simp: say_def)

lemma guardP_Ok_iff [simp]: "guardP ok msg rd = (out, Ok y, rd2) \<longleftrightarrow> ok \<and> out = [] \<and> rd2 = rd"
  by (auto simp: guardP_def)

lemmas prog_simps = pbind_def lift_def say_def getLine_def guardP_def

section \<open>Text and padding\<close>

text \<open>The lines with which every program ends: what was signed and how, then the signature.\<close>

definition signReport :: "string \<Rightarrow> bytes \<Rightarrow> string \<Rightarrow> string \<Rightarrow> string" where
  "signReport subject digest paddingLine sigAlg =
     [newline] @ line (''Certificate: '' @ subject) @ line (''Digest (SHA-256): '' @ EncodeToString digest) @
     paddingLine @ line (''Signature algorithm: '' @ sigAlg)"

definition signatureLines :: "bytes \<Rightarrow> string" where
  "signatureLines sig =
     line (''Signature (base64): '' @ base64_Encode sig) @ line (''Signature (hex): '' @ EncodeToString sig)"

text \<open>The message to sign: the flag, or a line of input without surrounding space; it must not be empty.\<close>

definition readText :: "unicode \<Rightarrow> string \<Rightarrow> string prog" where
  "readText uc message =
     pbind (if message = [] then
              pbind (say ''Enter text to sign: '') (\<lambda>_. pbind getLine (\<lambda>l. lift (Ok (TrimSpace uc l))))
            else lift (Ok message)) (\<lambda>text.
     pbind (guardP (text \<noteq> []) ''message must not be empty'') (\<lambda>_. lift (Ok text)))"

text \<open>
  The three programs resolve the padding in the same way, to constants of different types.
\<close>

definition resolvePaddingAs :: "unicode \<Rightarrow> int \<Rightarrow> int \<Rightarrow> string \<Rightarrow> int prog" where
  "resolvePaddingAs uc pkcs1 pss flagValue =
     (let value = ToLower uc (TrimSpace uc flagValue) in
      pbind (if value = [] then
               pbind (say ''RSA padding [pkcs1/pss] (default pkcs1): '') (\<lambda>_.
               pbind getLine (\<lambda>l. lift (Ok (ToLower uc (TrimSpace uc l)))))
             else lift (Ok value)) (\<lambda>value.
      lift (if value \<in> set [[], ''pkcs1'', ''pkcs1v15'', ''pkcs#1''] then Ok pkcs1
            else if value \<in> set [''pss'', ''rsapss'', ''rsa-pss''] then Ok pss
            else Err (ErrorString ''padding must be pkcs1 or pss''))))"

lemma readText_nonempty: "readText uc message rd = (out, Ok t, rd') \<Longrightarrow> t \<noteq> []"
  by (auto simp: readText_def pbind_Ok_iff)

lemma resolvePaddingAs_range: "resolvePaddingAs uc p1 p2 flagValue rd = (out, Ok p, rd') \<Longrightarrow> p = p1 \<or> p = p2"
  by (auto simp: resolvePaddingAs_def Let_def pbind_Ok_iff split: if_splits)

section \<open>The example client (cmd/example-client/main.go)\<close>

record client_flags =
  xf_addr :: string
  xf_ca :: string
  xf_cert :: string
  xf_key :: string
  xf_message :: string
  xf_padding :: string

definition example_resolvePadding :: "unicode \<Rightarrow> string \<Rightarrow> proto_RSAPadding prog" where
  "example_resolvePadding uc = resolvePaddingAs uc RSAPadding_PKCS1 RSAPadding_PSS"

definition certEntry :: "nat \<Rightarrow> 'ts proto_CertificateInfo \<Rightarrow> string" where
  "certEntry i c =
     line (''  ['' @ dec_of_nat (Suc i) @ ''] '' @ pc_Thumbprint c) @
     line (''      subject: '' @ pc_Subject c) @
     line (''      issuer: '' @ pc_Issuer c) @
     line (''      key: '' @ pc_KeyAlgorithm c @ '' '' @ dec_of_int (pc_KeySize c) @ ''-bit  tpm: '' @
           (if pc_IsTpm c then ''yes'' else ''no'') @ ''  provider: '' @ pc_ProviderName c)"

definition certMenu :: "(nat \<Rightarrow> 'a \<Rightarrow> string) \<Rightarrow> 'a list \<Rightarrow> string" where
  "certMenu entry cs = concat (map (\<lambda>i. entry i (cs ! i)) [0..<length cs])"

definition hostOf :: "string \<Rightarrow> string" where
  "hostOf addr = (case SplitHostPort addr of Inr (host, _) \<Rightarrow> host | Inl _ \<Rightarrow> addr)"

text \<open>\<open>dial\<close> is what \<^verbatim>\<open>grpc.NewClient\<close> returns.\<close>

definition example_client_main :: "unicode \<Rightarrow> ('k, 'm) crypto_lib_scheme \<Rightarrow> os_env \<Rightarrow> 'kp tls_lib \<Rightarrow> goerror + unit \<Rightarrow> 'ts rpc \<Rightarrow>
    client_flags \<Rightarrow> unit prog" where
  "example_client_main uc lib env tls dial rpc f =
     pbind (lift (LoadClientTLSConfig uc env tls (xf_ca f) (xf_cert f) (xf_key f) (hostOf (xf_addr f)))) (\<lambda>_.
     pbind (lift dial) (\<lambda>_.
     pbind (lift (rpc_ListCertificates rpc)) (\<lambda>resp.
     pbind (guardP (length (lr_Certificates resp) \<noteq> 0) ''no certificates with private keys found'') (\<lambda>_.
     pbind (say (line ''Available certificates:'' @ certMenu certEntry (lr_Certificates resp))) (\<lambda>_.
     pbind (readChoice uc (length (lr_Certificates resp))) (\<lambda>idx.
     let selected = lr_Certificates resp ! idx in
     pbind (readText uc (xf_message f)) (\<lambda>text.
     pbind (example_resolvePadding uc (xf_padding f)) (\<lambda>rsaPadding.
     let digest = sha256_Sum256 lib (bytes_of_string text) in
     pbind (lift (rpc_SignHash rpc \<lparr>rq_Thumbprint = pc_Thumbprint selected, rq_Digest = digest,
                    rq_HashAlgorithm = HashAlgorithm_SHA256, rq_RsaPadding = rsaPadding\<rparr>)) (\<lambda>signResp.
     say (signReport (pc_Subject selected) digest
            (line (''RSA padding: '' @ RSAPadding_String (rp_RsaPadding signResp))) (rp_SignatureAlgorithm signResp) @
          signatureLines (rp_Signature signResp)))))))))))"

section \<open>Choosing by thumbprint (cmd/local-sign-test-win, cmd/local-sign-test-mac)\<close>

text \<open>
  Both test programs look for the certificates with the given thumbprint and, when there is none, for those
  whose thumbprint starts with it; only a single match is accepted. \<open>thumbs\<close> are the thumbprints of
  an entry. The text that is printed for a match is part of the caller.
\<close>

definition matchesFor :: "unicode \<Rightarrow> ('a \<Rightarrow> string list) \<Rightarrow> string \<Rightarrow> 'a list \<Rightarrow> 'a list" where
  "matchesFor uc thumbs target certs =
     (let cleaned = cleanThumbprint uc target;
          exact = filter (\<lambda>c. list_ex (\<lambda>t. cleanThumbprint uc t = cleaned) (thumbs c)) certs
      in if length exact = 0 then filter (\<lambda>c. list_ex (\<lambda>t. HasPrefix (cleanThumbprint uc t) cleaned) (thumbs c)) certs
         else exact)"

definition uniqueMatch :: "unicode \<Rightarrow> string \<Rightarrow> 'a list \<Rightarrow> goerror + 'a" where
  "uniqueMatch uc target matches =
     (if length matches = 1 then Ok (matches ! 0)
      else if length matches > 1 then
        Err (ErrorString (''ambiguous thumbprint '' @ Quote uc target @ '' matched '' @ dec_of_nat (length matches) @ '' certificates''))
      else Err (ErrorString (''no certificate found matching thumbprint '' @ Quote uc target)))"

definition selectCertificateBy :: "unicode \<Rightarrow> ('a \<Rightarrow> string list) \<Rightarrow> ('a \<Rightarrow> string) \<Rightarrow> (nat \<Rightarrow> 'a \<Rightarrow> string) \<Rightarrow> 'a list \<Rightarrow> string \<Rightarrow> 'a prog" where
  "selectCertificateBy uc thumbs describe entry certs target =
     (if target \<noteq> [] then
        pbind (lift (uniqueMatch uc target (matchesFor uc thumbs target certs))) (\<lambda>c.
        pbind (say (line (''Selected certificate: '' @ describe c) @ [newline])) (\<lambda>_. lift (Ok c)))
      else
        pbind (say (line ''Available certificates:'' @ certMenu entry certs)) (\<lambda>_.
        pbind (readChoice uc (length certs)) (\<lambda>idx. lift (Ok (certs ! idx)))))"

section \<open>The Windows test program (cmd/local-sign-test-win/main.go)\<close>

record test_flags =
  tf_message :: string
  tf_padding :: string
  tf_thumbprint :: string
  tf_cert :: string

definition targetOf :: "test_flags \<Rightarrow> string" where
  "targetOf f = (if tf_thumbprint f = [] then tf_cert f else tf_thumbprint f)"

definition win_entry :: "nat \<Rightarrow> CertificateInfo \<Rightarrow> string" where
  "win_entry i c =
     line (''  ['' @ dec_of_nat (Suc i) @ ''] '' @ ci_Thumbprint c) @
     line (''      subject: '' @ ci_Subject c) @
     line (''      key: '' @ ci_KeyAlgorithm c @ '' '' @ dec_of_int (ci_KeySize c) @ ''-bit  tpm: '' @
           (if ci_IsTPM c then ''yes'' else ''no'') @ ''  provider: '' @ ci_ProviderName c)"

definition win_selectCertificate :: "unicode \<Rightarrow> CertificateInfo list \<Rightarrow> string \<Rightarrow> CertificateInfo prog" where
  "win_selectCertificate uc =
     selectCertificateBy uc (\<lambda>c. [ci_Thumbprint c]) (\<lambda>c. ci_Subject c @ '' ('' @ ci_Thumbprint c @ '')'') win_entry"

definition win_resolvePadding :: "unicode \<Rightarrow> string \<Rightarrow> RSAPadding prog" where
  "win_resolvePadding uc = resolvePaddingAs uc RSAPaddingPKCS1 RSAPaddingPSS"

text \<open>The arguments \<open>list\<close> and \<open>sign\<close> are \<^verbatim>\<open>certstore.ListCertificates\<close> and \<^verbatim>\<open>certstore.SignHash\<close>.\<close>

definition win_test_main :: "unicode \<Rightarrow> ('k, 'm) crypto_lib_scheme \<Rightarrow> goerror + CertificateInfo list \<Rightarrow>
    (string \<Rightarrow> bytes \<Rightarrow> HashAlgorithm \<Rightarrow> RSAPadding \<Rightarrow> goerror + SignResult) \<Rightarrow> test_flags \<Rightarrow> unit prog" where
  "win_test_main uc lib list sign f =
     pbind (lift list) (\<lambda>certs.
     pbind (guardP (length certs \<noteq> 0) ''no certificates with private keys found in the Windows MY store'') (\<lambda>_.
     pbind (win_selectCertificate uc certs (targetOf f)) (\<lambda>selected.
     pbind (readText uc (tf_message f)) (\<lambda>text.
     pbind (win_resolvePadding uc (tf_padding f)) (\<lambda>rsaPadding.
     let digest = sha256_Sum256 lib (bytes_of_string text) in
     pbind (lift (sign (ci_Thumbprint selected) digest HashSHA256 rsaPadding)) (\<lambda>signResp.
     let paddingStr = (if sr_Padding signResp = RSAPaddingPKCS1 then ''PKCS1''
                       else if sr_Padding signResp = RSAPaddingPSS then ''PSS'' else ''UNSPECIFIED'') in
     say (signReport (ci_Subject selected) digest (line (''RSA padding: '' @ paddingStr)) (sr_SignatureAlgorithm signResp) @
          signatureLines (sr_Signature signResp))))))))"

section \<open>Properties\<close>

lemma readChoice_Ok:
  assumes "readChoice uc n rd = (out, Ok i, rd')"
  shows "i < n"
proof -
  from assms have "fst (snd (choiceLoop uc (''Enter certificate number (1-'' @ dec_of_nat n @ ''): '') n rd)) = Ok i"
    by (simp add: readChoice_def)
  then obtain l where "validChoice uc n l = Some i"
    unfolding choiceLoop_result by (auto split: option.splits dest!: find_Some_D)
  then show ?thesis by (rule validChoice_bound)
qed

text \<open>
  C37: the dialogue for a choice always ends, and its result does not depend on how the input arrives: it is
  the first complete line that is a number from 1 to the number of entries, less one, or the end
  of file when there is no such line. The index is in range, so the entry it selects exists.
\<close>

theorem readChoice_first_valid_line:
  "fst (snd (readChoice uc n rd)) =
     (case find (\<lambda>l. validChoice uc n l \<noteq> None) (lines_of (rd_all rd)) of
        None \<Rightarrow> Err io_EOF
      | Some l \<Rightarrow> Ok (the (validChoice uc n l))) \<and>
   (case fst (snd (readChoice uc n rd)) of Inl _ \<Rightarrow> True | Inr i \<Rightarrow> i < n)"
proof -
  obtain out r rd' where c: "readChoice uc n rd = (out, r, rd')" by (cases "readChoice uc n rd")
  have "case fst (snd (readChoice uc n rd)) of Inl _ \<Rightarrow> True | Inr i \<Rightarrow> i < n"
    using readChoice_Ok [of uc n rd] c by (cases r) auto
  moreover have "fst (snd (readChoice uc n rd)) =
      (case find (\<lambda>l. validChoice uc n l \<noteq> None) (lines_of (rd_all rd)) of
         None \<Rightarrow> Err io_EOF | Some l \<Rightarrow> Ok (the (validChoice uc n l)))"
    unfolding readChoice_def by (rule choiceLoop_result)
  ultimately show ?thesis by simp
qed

text \<open>
  A thumbprint given to a test program selects a certificate only when it is the only candidate:
  the selected one is in the list and the only one with this thumbprint, or, when none has it, the
  only one whose thumbprint starts with it. With several candidates, or none, the program ends with an error
  and signs nothing.
\<close>

lemma selectCertificate_unique:
  assumes "win_selectCertificate uc certs target rd = (out, r, rd')" and "target \<noteq> []"
  shows "(case r of
      Inr c \<Rightarrow> c \<in> set certs \<and> matchesFor uc (\<lambda>c. [ci_Thumbprint c]) target certs = [c] \<and>
        HasPrefix (cleanThumbprint uc (ci_Thumbprint c)) (cleanThumbprint uc target)
    | Inl e \<Rightarrow> length (matchesFor uc (\<lambda>c. [ci_Thumbprint c]) target certs) \<noteq> 1 \<and> out = []) \<and> rd' = rd"
proof -
  let ?m = "matchesFor uc (\<lambda>c. [ci_Thumbprint c]) target certs"
  have sub: "c \<in> set certs \<and> HasPrefix (cleanThumbprint uc (ci_Thumbprint c)) (cleanThumbprint uc target)"
    if "c \<in> set ?m" for c
    using that by (auto simp: matchesFor_def Let_def HasPrefix_def split: if_splits)
  show ?thesis
  proof (cases "length ?m = 1")
    case True
    then obtain c where c: "?m = [c]" by (auto simp: length_Suc_conv)
    with assms sub [of c] show ?thesis
      by (auto simp: win_selectCertificate_def selectCertificateBy_def uniqueMatch_def prog_simps)
  next
    case False
    then have "\<exists>e. uniqueMatch uc target ?m = Err e" by (simp add: uniqueMatch_def)
    then obtain e where "uniqueMatch uc target ?m = Err e" ..
    with assms have "r = Err e \<and> out = [] \<and> rd' = rd"
      by (simp add: win_selectCertificate_def selectCertificateBy_def prog_simps)
    with False show ?thesis by simp
  qed
qed

definition demo_entry :: "string \<Rightarrow> CertificateInfo" where
  "demo_entry tp = \<lparr>ci_Thumbprint = tp, ci_Subject = ''CN=demo'', ci_Issuer = [], ci_NotBefore = 0, ci_NotAfter = 1,
     ci_KeyAlgorithm = ''RSA'', ci_KeySize = 2048, ci_HasPrivateKey = True, ci_IsTPM = False, ci_ProviderName = [],
     ci_CertificateDER = []\<rparr>"

lemma demo_matches: "matchesFor demo_uc (\<lambda>c. [ci_Thumbprint c]) ''a'' [demo_entry ''AB'', demo_entry ''CD''] = [demo_entry ''AB'']"
  by code_simp

lemma selectCertificate_unique_witness:
  "\<exists>out c. win_selectCertificate demo_uc [demo_entry ''AB'', demo_entry ''CD''] ''a'' ([], []) = (out, Ok c, ([], [])) \<and>
     c \<in> set [demo_entry ''AB'', demo_entry ''CD'']"
proof -
  obtain out where s: "win_selectCertificate demo_uc [demo_entry ''AB'', demo_entry ''CD''] ''a'' ([], []) =
      (out, Ok (demo_entry ''AB''), ([], []))"
    by (simp add: win_selectCertificate_def selectCertificateBy_def demo_matches uniqueMatch_def prog_simps)
  from selectCertificate_unique [OF s] s show ?thesis by auto
qed

text \<open>
  When the example client ends without an error, it has asked the service for the signature of the
  SHA-256 digest of a message that is not empty, with the thumbprint of one of the certificates that
  the service had listed and a padding the service knows, and the last lines it prints are the
  answer of the service.
\<close>

lemma example_client_signs_listed:
  assumes "example_client_main uc lib env tls dial rpc f rd = (out, Ok u, rd')"
  shows "\<exists>resp selected msg padding r. rpc_ListCertificates rpc = Ok resp \<and> selected \<in> set (lr_Certificates resp) \<and>
    msg \<noteq> [] \<and> padding \<in> {RSAPadding_PKCS1, RSAPadding_PSS} \<and>
    rpc_SignHash rpc \<lparr>rq_Thumbprint = pc_Thumbprint selected, rq_Digest = sha256_Sum256 lib (bytes_of_string msg),
      rq_HashAlgorithm = HashAlgorithm_SHA256, rq_RsaPadding = padding\<rparr> = Ok r \<and>
    suffix (signatureLines (rp_Signature r)) out"
proof -
  from assms obtain resp idx o1 rd2 msg o2 rd3 o3 padding rd4 r where
    l: "rpc_ListCertificates rpc = Ok resp" and i: "readChoice uc (length (lr_Certificates resp)) rd = (o1, Ok idx, rd2)"
    and t: "readText uc (xf_message f) rd2 = (o2, Ok msg, rd3)"
    and p: "example_resolvePadding uc (xf_padding f) rd3 = (o3, Ok padding, rd4)"
    and s: "rpc_SignHash rpc \<lparr>rq_Thumbprint = pc_Thumbprint (lr_Certificates resp ! idx),
      rq_Digest = sha256_Sum256 lib (bytes_of_string msg), rq_HashAlgorithm = HashAlgorithm_SHA256, rq_RsaPadding = padding\<rparr> = Ok r"
    and out: "suffix (signatureLines (rp_Signature r)) out"
    by (auto simp: example_client_main_def pbind_Ok_iff Let_def suffix_def append_assoc [symmetric] simp del: append_assoc)
  from p have "padding \<in> {RSAPadding_PKCS1, RSAPadding_PSS}"
    by (auto simp: example_resolvePadding_def dest: resolvePaddingAs_range)
  with l readChoice_Ok [OF i] readText_nonempty [OF t] s out show ?thesis
    by (metis nth_mem)
qed

text \<open>A run of the example client on a service with one certificate: the first line of input is no number.\<close>

definition demo_client_flags :: client_flags where
  "demo_client_flags = \<lparr>xf_addr = ''srv:1'', xf_ca = ''d/a.crt'', xf_cert = ''d/a.crt'', xf_key = ''d/a.key'',
     xf_message = ''hello'', xf_padding = ''pss''\<rparr>"

definition demo_input :: reader where
  "demo_input = ([], [[CHR ''x'', newline, CHR ''1'', newline]])"

lemma demo_valid:
  "validChoice demo_uc 1 [CHR ''x'', newline] = None" "validChoice demo_uc 1 [CHR ''1'', newline] = Some 0"
  by code_simp+

lemma demo_choice: "\<exists>out. readChoice demo_uc 1 demo_input = (out, Ok 0, ([], []))"
  unfolding readChoice_def
  by (subst choiceLoop.simps, subst choiceLoop.simps) (simp add: demo_input_def ReadString_def demo_valid [unfolded One_nat_def])

lemma demo_padding: "resolvePaddingAs demo_uc p1 p2 ''pss'' rd = ([], Ok p2, rd)"
proof -
  have "ToLower demo_uc (TrimSpace demo_uc ''pss'') = ''pss''" by code_simp
  then show ?thesis by (simp add: resolvePaddingAs_def prog_simps Let_def)
qed

lemma demo_example_run:
  "\<exists>out. example_client_main demo_uc demo_lib demo_env demo_tls (Ok ()) demo_rpc demo_client_flags demo_input = (out, Ok (), ([], []))"
proof -
  have h: "hostOf ''srv:1'' = ''srv''" by code_simp
  obtain out where c: "readChoice demo_uc 1 demo_input = (out, Ok 0, ([], []))" using demo_choice by blast
  show ?thesis
    by (simp add: example_client_main_def demo_client_flags_def h demo_client_tls demo_rpc_def demo_remote_def
        c [unfolded One_nat_def] readText_def example_resolvePadding_def demo_padding prog_simps Let_def)
qed

lemma example_client_signs_listed_witness:
  "\<exists>out rd' (r :: SignHashResponse). example_client_main demo_uc demo_lib demo_env demo_tls (Ok ()) demo_rpc demo_client_flags demo_input = (out, Ok (), rd') \<and>
     suffix (signatureLines (rp_Signature r)) out"
proof -
  obtain out where m: "example_client_main demo_uc demo_lib demo_env demo_tls (Ok ()) demo_rpc demo_client_flags demo_input =
      (out, Ok (), ([], []))"
    using demo_example_run by blast
  from example_client_signs_listed [OF m] m show ?thesis by blast
qed

end
