(* ===== verification/Addr_Resolve.thy ===== *)
theory Addr_Resolve
  imports Go_Net Go_Io
begin

text \<open>
  How the install programs turn what a user enters into the address of a server: \<^verbatim>\<open>resolveOrTestHostname\<close>
  and \<^verbatim>\<open>hostFromAddr\<close>, of which \<^verbatim>\<open>cmd/ksp-install-cert/main.go\<close> and \<^verbatim>\<open>cmd/ksp-install-ui/api.go\<close> have the same
  copy each, and the splitting of an address with a default port. Whether a connection can be made and
  what a reverse lookup returns is the parameter \<open>net_api\<close>. \<^verbatim>\<open>net.ParseIP\<close> is modelled as far as the
  programs use it: whether a string is an address.
\<close>

section \<open>IP addresses in text form\<close>

definition isDigit :: "char \<Rightarrow> bool" where "isDigit c \<longleftrightarrow> digitVal c \<noteq> None"
definition isHex :: "char \<Rightarrow> bool" where "isHex c \<longleftrightarrow> hexVal c \<noteq> None"

definition validOctet :: "string \<Rightarrow> bool" where
  "validOctet f \<longleftrightarrow>
     f \<noteq> [] \<and> (f ! 0 = CHR ''0'' \<longrightarrow> length f = 1) \<and>
     (case decimal 0 f of None \<Rightarrow> False | Some n \<Rightarrow> n \<le> 255)"

definition validIPv4 :: "string \<Rightarrow> bool" where
  "validIPv4 s \<longleftrightarrow> (let fs = split_at (CHR ''.'') s in length fs = 4 \<and> list_all validOctet fs)"

text \<open>
  The groups of an IPv6 address: \<open>n\<close> groups have been read, \<open>ell\<close> says whether the ellipsis has.
  The first argument bounds the rounds; eight are enough, as each reads a group.
\<close>

definition finish6 :: "nat \<Rightarrow> bool \<Rightarrow> bool" where
  "finish6 n ell \<longleftrightarrow> (if n < 8 then ell else \<not> ell)"

fun groups6_ok :: "nat \<Rightarrow> nat \<Rightarrow> bool \<Rightarrow> string \<Rightarrow> bool" where
  "groups6_ok 0 n ell s = False"
| "groups6_ok (Suc fuel) n ell s =
     (let digits = takeWhile isHex s; rest = drop (length digits) s in
      if digits = [] \<or> 4 < length digits then False
      else if rest \<noteq> [] \<and> rest ! 0 = CHR ''.'' then
        (ell \<or> n = 6) \<and> n + 2 \<le> 8 \<and> validIPv4 s \<and> finish6 (n + 2) ell
      else if rest = [] then finish6 (n + 1) ell
      else if rest ! 0 \<noteq> CHR '':'' \<or> length rest = 1 then False
      else (let s = drop 1 rest in
            if s ! 0 = CHR '':'' then
              (if ell then False
               else if length s = 1 then finish6 (n + 1) True
               else n + 1 < 8 \<and> groups6_ok fuel (n + 1) True (drop 1 s))
            else n + 1 < 8 \<and> groups6_ok fuel (n + 1) ell s))"

definition validIPv6 :: "string \<Rightarrow> bool" where
  "validIPv6 s \<longleftrightarrow>
     CHR ''%'' \<notin> set s \<and>
     (if HasPrefix s ''::'' then length s = 2 \<or> groups6_ok 8 0 True (drop 2 s) else groups6_ok 8 0 False s)"

text \<open>The first dot, colon or percent sign decides which of the two forms is tried.\<close>

definition isIP :: "string \<Rightarrow> bool" where
  "isIP s =
     (case dropWhile (\<lambda>c. c \<notin> {CHR ''.'', CHR '':'', CHR ''%''}) s of
        [] \<Rightarrow> False
      | c # _ \<Rightarrow> if c = CHR ''.'' then validIPv4 s else if c = CHR '':'' then validIPv6 s else False)"

section \<open>Addresses of servers\<close>

record net_api =
  na_Dial :: "string \<Rightarrow> bool"
  na_LookupAddr :: "string \<Rightarrow> goerror + string list"

definition hostFromAddr :: "string \<Rightarrow> string" where
  "hostFromAddr addr = (case SplitHostPort addr of Inr (h, _) \<Rightarrow> h | Inl _ \<Rightarrow> addr)"

definition resolveOrTestHostname :: "net_api \<Rightarrow> string \<Rightarrow> string \<Rightarrow> string \<Rightarrow> string" where
  "resolveOrTestHostname net host port hostname =
     (if hostname \<noteq> [] \<and> na_Dial net (JoinHostPort hostname port) then JoinHostPort hostname port
      else
        (let names = (if isIP host then (case na_LookupAddr net host of Inl _ \<Rightarrow> [] | Inr names \<Rightarrow> names) else [])
         in case find (na_Dial net) (map (\<lambda>name. JoinHostPort (TrimSuffix name ''.'') port) names) of
              Some testAddr \<Rightarrow> testAddr
            | None \<Rightarrow> JoinHostPort host port))"

definition addrParts :: "string \<Rightarrow> string \<times> string" where
  "addrParts addr =
     (case SplitHostPort addr of
        Inr (host, port) \<Rightarrow> (host, port)
      | Inl _ \<Rightarrow>
          (if HasPrefix addr ''['' \<and> HasSuffix addr '']'' then take (length addr - 2) (drop 1 addr) else addr, ''50051''))"

text \<open>
  The slice \<^verbatim>\<open>host[1 : len(host)-1]\<close> needs two bytes; a string that starts with one bracket and
  ends with the other has them, as the brackets differ.
\<close>

lemma bracketed_length: "HasPrefix s ''['' \<Longrightarrow> HasSuffix s '']'' \<Longrightarrow> 2 \<le> length s"
  by (cases s rule: list.exhaust [case_names Nil Cons]; cases "tl s") (auto simp: HasPrefix_def HasSuffix_def)

lemma resolveOrTestHostname_port: "\<exists>h. resolveOrTestHostname net host port hostname = JoinHostPort h port"
  by (auto simp: resolveOrTestHostname_def Let_def dest!: find_Some_D split: option.split)

section \<open>Properties\<close>

text \<open>
  The address an install program uses always has the port that was asked for. It is the host name
  of a discovered server when that accepts a connection; otherwise, for an IP address, the first of its names
  that does; otherwise the host as given. So an address with another host than the given one is one
  that accepted a connection.
\<close>

lemma resolveOrTestHostname_order:
  "\<exists>h. resolveOrTestHostname net host port hostname = JoinHostPort h port \<and>
     (h = host \<or> na_Dial net (JoinHostPort h port)) \<and>
     (hostname \<noteq> [] \<and> na_Dial net (JoinHostPort hostname port) \<longrightarrow> h = hostname) \<and>
     (\<not> isIP host \<longrightarrow> h \<in> {host, hostname}) \<and> (isOk (na_LookupAddr net host) \<or> h \<in> {host, hostname})"
proof -
  define names where "names = (if isIP host then (case na_LookupAddr net host of Inl _ \<Rightarrow> [] | Inr names \<Rightarrow> names) else [])"
  show ?thesis
  proof (cases "hostname \<noteq> [] \<and> na_Dial net (JoinHostPort hostname port)")
    case True
    then show ?thesis by (intro exI [of _ hostname]) (auto simp: resolveOrTestHostname_def)
  next
    case False
    show ?thesis
    proof (cases "find (na_Dial net) (map (\<lambda>name. JoinHostPort (TrimSuffix name ''.'') port) names)")
      case None
      with False show ?thesis
        by (intro exI [of _ host]) (auto simp: resolveOrTestHostname_def names_def [symmetric])
    next
      case (Some a)
      then obtain name where a: "a = JoinHostPort (TrimSuffix name ''.'') port" "na_Dial net a" "name \<in> set names"
        by (auto dest!: find_Some_D)
      from a(3) have "isIP host \<and> isOk (na_LookupAddr net host)"
        by (cases "isIP host"; cases "na_LookupAddr net host") (simp_all add: names_def)
      moreover from False Some have "resolveOrTestHostname net host port hostname = a"
        unfolding resolveOrTestHostname_def names_def [symmetric] Let_def by auto
      ultimately show ?thesis
        using False a(1,2) by (intro exI [of _ "TrimSuffix name ''.''"]) auto
    qed
  qed
qed

definition demo_net :: net_api where
  "demo_net = \<lparr>na_Dial = (\<lambda>a. a = ''srv:50051''), na_LookupAddr = (\<lambda>_. Ok [''old.'', ''srv.''])\<rparr>"

lemma demo_resolve: "resolveOrTestHostname demo_net ''10.0.0.1'' ''50051'' [] = ''srv:50051''"
  by code_simp

lemma resolveOrTestHostname_order_witness:
  "\<exists>h. ''srv:50051'' = JoinHostPort h ''50051'' \<and> (h = ''10.0.0.1'' \<or> na_Dial demo_net (JoinHostPort h ''50051''))"
  using resolveOrTestHostname_order [of demo_net "''10.0.0.1''" "''50051''" "[]"] unfolding demo_resolve by blast

end
