(* ===== verification/Ksp_Install.thy ===== *)
theory Ksp_Install
  imports Crypto_Lib Ksp_Config Sample_Env
begin

text \<open>
  \<^verbatim>\<open>internal/kspinstall\<close>: binding a certificate to the key storage provider in the Windows certificate store
  and removing it. The functions of \<^verbatim>\<open>crypt32.dll\<close> are the parameter \<open>crypt32\<close>; the type variable \<open>'c\<close>
  is a certificate context and \<open>'s\<close> a store handle. A run of an operation is its result and the calls it
  makes, in order, with the deferred ones where they run.
\<close>

unbundle bit_operations_syntax

section \<open>The Windows interface\<close>

record cryptKeyProvInfo =
  kp_ContainerName :: string
  kp_ProvName :: string
  kp_ProvType :: nat
  kp_Flags :: nat
  kp_KeySpec :: nat

record ('c, 's) crypt32 =
  w_CreateContext :: "bytes \<Rightarrow> goerror + 'c"
  w_SetKeyProvInfo :: "'c \<Rightarrow> cryptKeyProvInfo \<Rightarrow> goerror option"
  w_OpenStore :: "goerror + 's"
  w_AddReplace :: "'s \<Rightarrow> 'c \<Rightarrow> goerror option"
  w_FindHashStr :: "'s \<Rightarrow> string \<Rightarrow> goerror + 'c"
  w_Delete :: "'c \<Rightarrow> goerror option"

datatype ('c, 's) crypt_call =
    CreateContext bytes
  | SetKeyProvInfo 'c cryptKeyProvInfo
  | OpenStore
  | AddReplace 's 'c
  | FindHashStr 's string
  | DeleteCert 'c
  | FreeContext 'c
  | CloseStore 's

type_synonym ('c, 's, 'a) crypt_run = "(goerror + 'a) \<times> ('c, 's) crypt_call list"

definition atKeyExchange :: nat where "atKeyExchange = 1"
definition atSignature :: nat where "atSignature = 2"

text \<open>\<^verbatim>\<open>windows.UTF16PtrFromString\<close> refuses a string with a NUL byte.\<close>

definition UTF16PtrFromString :: "string \<Rightarrow> goerror + string" where
  "UTF16PtrFromString s = (if CHR 0x00 \<in> set s then Err (Sentinel ''invalid argument'') else Ok s)"

section \<open>Operations (install_windows.go)\<close>

definition InferKeySpec :: "x509_cert \<Rightarrow> nat" where
  "InferKeySpec cert =
     (if list_ex (\<lambda>u. u = ExtKeyUsageClientAuth \<or> u = ExtKeyUsageEmailProtection) (x_ExtKeyUsage cert) then atSignature
      else if x_KeyUsage cert AND KeyUsageDigitalSignature \<noteq> 0 then atSignature
      else atKeyExchange)"

definition install_openMyStore :: "('c, 's) crypt32 \<Rightarrow> ('c, 's, 's) crypt_run" where
  "install_openMyStore w = (mapErr (Wrapped ''open MY store'') (w_OpenStore w), [OpenStore])"

definition createCertContext :: "('c, 's) crypt32 \<Rightarrow> bytes \<Rightarrow> ('c, 's, 'c) crypt_run" where
  "createCertContext w der =
     (if length der = 0 then (Err (ErrorString ''empty certificate DER''), [])
      else (mapErr (Wrapped ''create cert context'') (w_CreateContext w der), [CreateContext der]))"

definition install_normalize :: "unicode \<Rightarrow> string \<Rightarrow> string" where
  "install_normalize uc thumbprint = ToUpper uc (removeAll (CHR '' '') (TrimSpace uc thumbprint))"

definition install_findCertByThumbprint :: "unicode \<Rightarrow> ('c, 's) crypt32 \<Rightarrow> 's \<Rightarrow> string \<Rightarrow> ('c, 's, 'c) crypt_run" where
  "install_findCertByThumbprint uc w store thumbprint =
     (case UTF16PtrFromString (install_normalize uc thumbprint) of
        Inl _ \<Rightarrow> (Err (ErrorString ''certificate not found''), [])
      | Inr ptr \<Rightarrow> (mapErr (Wrapped ''certificate not found'') (w_FindHashStr w store ptr), [FindHashStr store ptr]))"

text \<open>The part of \<^verbatim>\<open>BindCertificateToKSP\<close> that runs with a context, before it is freed.\<close>

definition bindContext :: "unicode \<Rightarrow> ('c, 's) crypt32 \<Rightarrow> 'c \<Rightarrow> string \<Rightarrow> nat \<Rightarrow> ('c, 's, unit) crypt_run" where
  "bindContext uc w ctx thumbprint keySpec =
     (case UTF16PtrFromString (install_normalize uc thumbprint) of
        Inl e \<Rightarrow> (Err e, [])
      | Inr container \<Rightarrow>
     (case UTF16PtrFromString ProviderName of
        Inl e \<Rightarrow> (Err e, [])
      | Inr provider \<Rightarrow>
     (let info = \<lparr>kp_ContainerName = container, kp_ProvName = provider, kp_ProvType = 0, kp_Flags = 0, kp_KeySpec = keySpec\<rparr>
      in case w_SetKeyProvInfo w ctx info of
           Some errno \<Rightarrow> (Err (Wrapped ''set key prov info'' errno), [SetKeyProvInfo ctx info])
         | None \<Rightarrow>
        (case install_openMyStore w of
           (Inl e, calls) \<Rightarrow> (Err e, SetKeyProvInfo ctx info # calls)
         | (Inr store, calls) \<Rightarrow>
             (case w_AddReplace w store ctx of
                Some errno \<Rightarrow> Err (Wrapped ''add certificate to store'' errno)
              | None \<Rightarrow> Ok (),
              SetKeyProvInfo ctx info # calls @ [AddReplace store ctx, CloseStore store])))))"

definition BindCertificateToKSP :: "unicode \<Rightarrow> ('k, 'm) crypto_lib_scheme \<Rightarrow> ('c, 's) crypt32 \<Rightarrow> bytes \<Rightarrow> string \<Rightarrow>
    ('c, 's, unit) crypt_run" where
  "BindCertificateToKSP uc lib w certDER thumbprint =
     (case ParseCertificate lib certDER of
        Inl e \<Rightarrow> (Err (Wrapped ''parse certificate'' e), [])
      | Inr cert \<Rightarrow>
          (case createCertContext w certDER of
             (Inl e, calls) \<Rightarrow> (Err e, calls)
           | (Inr ctx, calls) \<Rightarrow>
               (case bindContext uc w ctx thumbprint (InferKeySpec cert) of
                  (r, later) \<Rightarrow> (r, calls @ later @ [FreeContext ctx]))))"

definition RemoveCertificateFromStore :: "unicode \<Rightarrow> ('c, 's) crypt32 \<Rightarrow> string \<Rightarrow> ('c, 's, unit) crypt_run" where
  "RemoveCertificateFromStore uc w thumbprint =
     (case install_openMyStore w of
        (Inl e, calls) \<Rightarrow> (Err e, calls)
      | (Inr store, calls) \<Rightarrow>
          (case install_findCertByThumbprint uc w store thumbprint of
             (Inl e, later) \<Rightarrow> (Err e, calls @ later @ [CloseStore store])
           | (Inr ctx, later) \<Rightarrow>
               (case w_Delete w ctx of
                  Some errno \<Rightarrow> Err (Wrapped ''delete certificate'' errno)
                | None \<Rightarrow> Ok (),
                calls @ later @ [DeleteCert ctx, CloseStore store])))"

text \<open>The other platforms (\<^verbatim>\<open>install_stub.go\<close>).\<close>

definition stub_BindCertificateToKSP :: "bytes \<Rightarrow> string \<Rightarrow> goerror + unit" where
  "stub_BindCertificateToKSP certDER thumbprint = Err (ErrorString ''kspinstall requires Windows'')"

definition stub_RemoveCertificateFromStore :: "string \<Rightarrow> goerror + unit" where
  "stub_RemoveCertificateFromStore thumbprint = Err (ErrorString ''kspinstall requires Windows'')"

section \<open>The contract of an installer\<close>

text \<open>
  What the install programs rely on, whichever platform is built in: a certificate is bound only
  when its bytes are a certificate.
\<close>

locale cert_installer =
  fixes lib :: "('k, 'm) crypto_lib_scheme"
    and bind :: "bytes \<Rightarrow> string \<Rightarrow> goerror + unit"
    and remove :: "string \<Rightarrow> goerror + unit"
  assumes bind_parses: "bind der tp = Ok u \<Longrightarrow> isOk (ParseCertificate lib der)"

interpretation win_inst: cert_installer lib "\<lambda>der tp. fst (BindCertificateToKSP uc lib w der tp)"
    "\<lambda>tp. fst (RemoveCertificateFromStore uc w tp)"
  for uc :: unicode and lib :: "('k, 'm) crypto_lib_scheme" and w :: "('c, 's) crypt32"
  by unfold_locales (auto simp: BindCertificateToKSP_def split: sum.splits)

interpretation stub_inst: cert_installer lib stub_BindCertificateToKSP stub_RemoveCertificateFromStore
  for lib :: "('k, 'm) crypto_lib_scheme"
  by unfold_locales (simp add: stub_BindCertificateToKSP_def)

section \<open>Resources\<close>

text \<open>The contexts and stores that a call hands to the caller, and those it gives back.\<close>

fun ctx_acquired :: "('c, 's) crypt32 \<Rightarrow> ('c, 's) crypt_call \<Rightarrow> 'c list" where
  "ctx_acquired w (CreateContext der) = (case w_CreateContext w der of Inr c \<Rightarrow> [c] | Inl _ \<Rightarrow> [])"
| "ctx_acquired w (FindHashStr s t) = (case w_FindHashStr w s t of Inr c \<Rightarrow> [c] | Inl _ \<Rightarrow> [])"
| "ctx_acquired w _ = []"

fun ctx_released :: "('c, 's) crypt_call \<Rightarrow> 'c list" where
  "ctx_released (FreeContext c) = [c]"
| "ctx_released (DeleteCert c) = [c]"
| "ctx_released _ = []"

fun store_acquired :: "('c, 's) crypt32 \<Rightarrow> ('c, 's) crypt_call \<Rightarrow> 's list" where
  "store_acquired w OpenStore = (case w_OpenStore w of Inr s \<Rightarrow> [s] | Inl _ \<Rightarrow> [])"
| "store_acquired w _ = []"

fun store_released :: "('c, 's) crypt_call \<Rightarrow> 's list" where
  "store_released (CloseStore s) = [s]"
| "store_released _ = []"

definition balanced :: "('c, 's) crypt32 \<Rightarrow> ('c, 's) crypt_call list \<Rightarrow> bool" where
  "balanced w calls \<longleftrightarrow>
     concat (map (ctx_acquired w) calls) = concat (map ctx_released calls) \<and>
     concat (map (store_acquired w) calls) = concat (map store_released calls)"

lemma bindContext_calls:
  "concat (map (ctx_acquired w) (snd (bindContext uc w ctx tp spec))) = [] \<and>
   concat (map ctx_released (snd (bindContext uc w ctx tp spec))) = [] \<and>
   concat (map (store_acquired w) (snd (bindContext uc w ctx tp spec))) =
     concat (map store_released (snd (bindContext uc w ctx tp spec)))"
  by (auto simp: bindContext_def install_openMyStore_def Let_def split: sum.splits option.splits)

text \<open>
  Installing and removing a certificate give back what they take. On every path, with every outcome of
  the Windows calls, the contexts that were created or found are freed or deleted exactly once and
  the stores that were opened are closed exactly once.
\<close>

lemma install_resources_balanced:
  "balanced w (snd (BindCertificateToKSP uc lib w der tp)) \<and> balanced w (snd (RemoveCertificateFromStore uc w tp))"
proof
  show "balanced w (snd (BindCertificateToKSP uc lib w der tp))"
  proof (cases "\<exists>cert ctx. ParseCertificate lib der = Ok cert \<and> length der \<noteq> 0 \<and> w_CreateContext w der = Ok ctx")
    case True
    then obtain cert ctx where c: "ParseCertificate lib der = Ok cert" "length der \<noteq> 0" "w_CreateContext w der = Ok ctx" by blast
    then have "snd (BindCertificateToKSP uc lib w der tp) =
        CreateContext der # snd (bindContext uc w ctx tp (InferKeySpec cert)) @ [FreeContext ctx]"
      by (simp add: BindCertificateToKSP_def createCertContext_def split: prod.split)
    with c bindContext_calls [of w uc ctx tp "InferKeySpec cert"] show ?thesis
      by (simp add: balanced_def del: concat_eq_Nil_conv)
  next
    case False
    then show ?thesis
      by (auto simp: BindCertificateToKSP_def createCertContext_def balanced_def split: sum.split)
  qed
  show "balanced w (snd (RemoveCertificateFromStore uc w tp))"
    by (auto simp: RemoveCertificateFromStore_def install_openMyStore_def install_findCertByThumbprint_def balanced_def
        split: sum.splits option.splits)
qed

section \<open>Binding\<close>

lemma UTF16_ProviderName: "UTF16PtrFromString ProviderName = Ok ProviderName"
  by (simp add: UTF16PtrFromString_def ProviderName_def)

lemma bindContext_Ok:
  assumes "bindContext uc w ctx tp spec = (Ok u, calls)"
  shows "\<exists>store info. calls = [SetKeyProvInfo ctx info, OpenStore, AddReplace store ctx, CloseStore store] \<and>
    info = \<lparr>kp_ContainerName = install_normalize uc tp, kp_ProvName = ProviderName, kp_ProvType = 0, kp_Flags = 0,
            kp_KeySpec = spec\<rparr> \<and>
    w_SetKeyProvInfo w ctx info = None \<and> w_OpenStore w = Ok store \<and> w_AddReplace w store ctx = None"
  using assms
  by (auto simp: bindContext_def install_openMyStore_def UTF16_ProviderName UTF16PtrFromString_def [of "install_normalize uc tp"]
      Let_def split: sum.splits option.splits if_splits)

lemma bindContext_Err:
  assumes "bindContext uc w ctx tp spec = (Err e, calls)" and "AddReplace s c \<in> set calls"
  shows "w_AddReplace w s c \<noteq> None"
  using assms
  by (auto simp: bindContext_def install_openMyStore_def Let_def split: sum.splits option.splits)

lemma BindCertificateToKSP_Ok:
  assumes "BindCertificateToKSP uc lib w der tp = (Ok u, calls)"
  shows "\<exists>ctx info. SetKeyProvInfo ctx info \<in> set calls \<and> kp_ContainerName info = install_normalize uc tp \<and>
    kp_ProvName info = ProviderName"
proof -
  from assms obtain ctx spec calls' pre post where b: "bindContext uc w ctx tp spec = (Ok u, calls')" "calls = pre @ calls' @ post"
    by (auto simp: BindCertificateToKSP_def split: sum.splits prod.splits)
  from bindContext_Ok [OF b(1)] b(2) show ?thesis by fastforce
qed

text \<open>
  A certificate that is bound has exactly one new property, set before it is added to the
  store: its key is the one that the program's own provider holds under the upper-case thumbprint, with the key
  specification of its key usage. When binding fails no certificate was added.
\<close>

lemma BindCertificateToKSP_effect:
  assumes "BindCertificateToKSP uc lib w der tp = (r, calls)"
  shows "(isOk r \<longrightarrow>
      (\<exists>cert ctx store info. ParseCertificate lib der = Ok cert \<and> w_CreateContext w der = Ok ctx \<and>
         calls = [CreateContext der, SetKeyProvInfo ctx info, OpenStore, AddReplace store ctx, CloseStore store, FreeContext ctx] \<and>
         info = \<lparr>kp_ContainerName = install_normalize uc tp, kp_ProvName = ProviderName, kp_ProvType = 0, kp_Flags = 0,
                 kp_KeySpec = InferKeySpec cert\<rparr> \<and>
         w_SetKeyProvInfo w ctx info = None \<and> w_AddReplace w store ctx = None)) \<and>
    (\<not> isOk r \<longrightarrow> (\<forall>s c. AddReplace s c \<in> set calls \<longrightarrow> w_AddReplace w s c \<noteq> None))"
proof (cases "\<exists>cert ctx. ParseCertificate lib der = Ok cert \<and> createCertContext w der = (Ok ctx, [CreateContext der])")
  case True
  then obtain cert ctx where c: "ParseCertificate lib der = Ok cert" "createCertContext w der = (Ok ctx, [CreateContext der])"
    by blast
  obtain calls' where b: "bindContext uc w ctx tp (InferKeySpec cert) = (r, calls')"
    and calls: "calls = CreateContext der # calls' @ [FreeContext ctx]"
    using assms c by (auto simp: BindCertificateToKSP_def split: prod.splits)
  from c(2) have ctx: "w_CreateContext w der = Ok ctx" by (auto simp: createCertContext_def split: if_splits)
  show ?thesis
  proof (cases r)
    case (Inl e)
    with b calls bindContext_Err show ?thesis by fastforce
  next
    case (Inr u)
    from bindContext_Ok [OF b [unfolded Inr]] c(1) ctx calls Inr show ?thesis by auto
  qed
next
  case False
  then have "\<exists>e. r = Err e" and "set calls \<subseteq> {CreateContext der}"
    using assms by (auto simp: BindCertificateToKSP_def createCertContext_def split: sum.splits if_splits prod.splits)
  then show ?thesis by auto
qed

definition demo_crypt32 :: "(nat, nat) crypt32" where
  "demo_crypt32 = \<lparr>w_CreateContext = (\<lambda>d. Ok (length d)), w_SetKeyProvInfo = (\<lambda>c i. None), w_OpenStore = Ok 9,
     w_AddReplace = (\<lambda>s c. None), w_FindHashStr = (\<lambda>s t. if t = ''AB'' then Ok 4 else Err (ErrorString ''no'')),
     w_Delete = (\<lambda>c. None)\<rparr>"

lemma BindCertificateToKSP_effect_witness:
  "\<exists>info calls. BindCertificateToKSP demo_uc demo_lib demo_crypt32 [1] ''ab'' = (Ok (), calls) \<and>
     SetKeyProvInfo 1 info \<in> set calls \<and> kp_ContainerName info = ''AB'' \<and> kp_KeySpec info = atSignature"
proof -
  have n: "install_normalize demo_uc ''ab'' = ''AB''" by code_simp
  have u: "UTF16PtrFromString ''AB'' = Ok ''AB''" by (simp add: UTF16PtrFromString_def)
  obtain calls where r: "BindCertificateToKSP demo_uc demo_lib demo_crypt32 [1] ''ab'' = (Ok (), calls)"
    by (simp add: BindCertificateToKSP_def createCertContext_def bindContext_def install_openMyStore_def n u
        UTF16_ProviderName demo_crypt32_def demo_lib_def Let_def)
  have "InferKeySpec (demo_cert 1) = atSignature"
    by (simp add: InferKeySpec_def demo_cert_def go_defs)
  with BindCertificateToKSP_effect [OF r] r n show ?thesis
    by (auto simp: demo_lib_def demo_crypt32_def)
qed

end
