(* ===== verification/Discovery_Client.thy ===== *)
theory Discovery_Client
  imports Discovery "HOL-Library.Product_Lexorder" "HOL-Library.AList" "HOL-Library.Multiset"
begin

text \<open>
  The discovery client, \<^verbatim>\<open>internal/server/discovery_client.go\<close>: where it sends its probe, how it
  collects the announcements, and the list it returns. The socket, the interface table and the
  context are the environment. The reader goroutine and the caller share only the map of servers
  seen, and the caller reads it after the reader has closed its channel, so the program runs as
  the sequence probe, read, sort. Go iterates over a map in an unspecified order: the order is the
  parameter \<open>shuffle\<close>, of which only that it permutes the entries is assumed.
\<close>

unbundle bit_operations_syntax

section \<open>The wire format\<close>

text \<open>A message format with a decoder, as far as one datagram buffer carries it.\<close>

locale wire_codec =
  fixes encode :: "'m \<Rightarrow> string" and decode :: "string \<Rightarrow> 'm option" and wf :: "'m \<Rightarrow> bool"
  assumes round_trip: "wf m \<Longrightarrow> decode (encode m) = Some m"
begin

lemma decode_buffer: "wf m \<Longrightarrow> length (encode m) \<le> bufferSize \<Longrightarrow> decode (take bufferSize (encode m)) = Some m"
  by (simp add: round_trip)

lemma encode_inj: "wf m \<Longrightarrow> wf m' \<Longrightarrow> encode m = encode m' \<longleftrightarrow> m = m'"
  by (metis option.inject round_trip)

end

definition request_ascii :: "discoverRequest \<Rightarrow> bool" where
  "request_ascii q \<longleftrightarrow> is_ascii (dq_Op q) \<and> is_ascii (dq_Service q)"

definition announce_ascii :: "announceResponse \<Rightarrow> bool" where
  "announce_ascii a \<longleftrightarrow> is_ascii (an_Op a) \<and> is_ascii (an_Service a) \<and> is_ascii (an_Version a) \<and>
     is_ascii (an_Hostname a) \<and> is_ascii (an_GRPCAddr a)"

interpretation req: wire_codec "\<lambda>q. Marshal (request_fields q)" decodeRequest request_ascii
  by unfold_locales
    (simp add: decodeRequest_def request_fields_def request_ascii_def Unmarshal_Marshal ascii_char_def)

interpretation ann: wire_codec "\<lambda>a. Marshal (announce_fields a)" decodeAnnounce announce_ascii
  by unfold_locales
    (simp add: decodeAnnounce_def announce_fields_def announce_ascii_def Unmarshal_Marshal ascii_char_def)

section \<open>Probe targets\<close>

definition FlagUp :: "64 word" where "FlagUp = 1"
definition FlagLoopback :: "64 word" where "FlagLoopback = 4"

record net_interface =
  ni_Flags :: "64 word"
  ni_Addrs :: "goerror + if_addr list"

definition broadcastAddr :: "IP \<Rightarrow> IPMask \<Rightarrow> IP" where
  "broadcastAddr ip0 msk =
     (let m = (if length msk = 16 then drop 12 msk else msk) in
      if length m \<noteq> 4 then None
      else case To4 ip0 of
             None \<Rightarrow> Some (replicate 4 0)
           | Some ip \<Rightarrow> Some (map (\<lambda>i. ip ! i OR NOT (m ! i)) [0..<length ip]))"

text \<open>The closure \<^verbatim>\<open>add\<close>, on the list of targets and the keys seen.\<close>

type_synonym targets = "UDPAddr list \<times> string list"

definition addTarget :: "int \<Rightarrow> targets \<Rightarrow> IP \<Rightarrow> targets" where
  "addTarget port ts ip =
     (case ts of (targets, seen) \<Rightarrow>
        if ip = None \<or> To4 ip = None then ts
        else if IP_String ip \<in> set seen then ts
        else (targets @ [\<lparr>ua_IP = ip, ua_Port = port, ua_Zone = []\<rparr>], IP_String ip # seen))"

definition addAddr :: "int \<Rightarrow> targets \<Rightarrow> if_addr \<Rightarrow> targets" where
  "addAddr port ts addr =
     (case addr of
        IfOther \<Rightarrow> ts
      | IPNet ip msk \<Rightarrow>
          (case To4 ip of
             None \<Rightarrow> ts
           | Some ip4 \<Rightarrow> addTarget port ts (broadcastAddr (Some ip4) msk)))"

definition addInterface :: "int \<Rightarrow> targets \<Rightarrow> net_interface \<Rightarrow> targets" where
  "addInterface port ts iface =
     (if ni_Flags iface AND FlagUp = 0 \<or> ni_Flags iface AND FlagLoopback \<noteq> 0 then ts
      else case ni_Addrs iface of
             Inl _ \<Rightarrow> ts
           | Inr addrs \<Rightarrow> foldl (addAddr port) ts addrs)"

definition broadcastTargets :: "goerror + net_interface list \<Rightarrow> int \<Rightarrow> goerror + UDPAddr list" where
  "broadcastTargets interfaces port =
     (let ts = addTarget port ([], []) IPv4bcast in
      case interfaces of
        Inl _ \<Rightarrow> Ok (fst ts)
      | Inr ifaces \<Rightarrow>
          (let ts = foldl (addInterface port) ts ifaces in
           if fst ts = [] then Err (ErrorString ''no broadcast targets'')
           else Ok (fst ts)))"

section \<open>The client\<close>

record DiscoveredServer =
  ds_Hostname :: string
  ds_GRPCAddr :: string
  ds_Version :: string
  ds_Service :: string
  ds_SourceIP :: string

record DiscoverClientConfig =
  cc_Port :: int
  cc_Service :: string
  cc_Timeout :: int
  cc_ProbeAddrs :: "UDPAddr list"

text \<open>The environment of one call: the socket calls, by what they return, and the interfaces.\<close>

record client_env =
  ce_ListenPacket :: "goerror + unit"
  ce_isUDPConn :: bool
  ce_SyscallConn :: "goerror option"
  ce_Control :: "goerror option"
  ce_SetsockoptInt :: "goerror option"
  ce_Interfaces :: "goerror + net_interface list"
  ce_WriteTo :: "UDPAddr \<Rightarrow> goerror option"

datatype client_event =
    CTimedOut bool
  | CReadFailed
  | CReceived string remote_addr

definition setSOBroadcast :: "client_env \<Rightarrow> goerror option" where
  "setSOBroadcast env = ce_SetsockoptInt env"

definition enableBroadcast :: "client_env \<Rightarrow> goerror option" where
  "enableBroadcast env =
     (if \<not> ce_isUDPConn env then Some (ErrorString ''expected UDP connection'')
      else case ce_SyscallConn env of
             Some e \<Rightarrow> Some (Wrapped ''syscall conn'' e)
           | None \<Rightarrow>
               (case ce_Control env of
                  Some e \<Rightarrow> Some (Wrapped ''control'' e)
                | None \<Rightarrow> setSOBroadcast env))"

text \<open>Sending the probe to each target in turn, up to the first failure.\<close>

fun sendProbes :: "client_env \<Rightarrow> UDPAddr list \<Rightarrow> UDPAddr list \<times> goerror option" where
  "sendProbes env [] = ([], None)"
| "sendProbes env (target # targets) =
     (case ce_WriteTo env target of
        Some e \<Rightarrow> ([], Some (Wrapped (''broadcast to '' @ UDPAddr_String target) e))
      | None \<Rightarrow> (let (sent, r) = sendProbes env targets in (target # sent, r)))"

type_synonym seen_map = "(string \<times> DiscoveredServer) list"

definition sourceIP :: "remote_addr \<Rightarrow> string" where
  "sourceIP remote =
     (case remote of
        RemoteUDP udp \<Rightarrow> if ua_IP udp \<noteq> None then IP_String (ua_IP udp) else []
      | RemoteOther \<Rightarrow> [])"

definition announcedServer :: "announceResponse \<Rightarrow> remote_addr \<Rightarrow> string \<times> DiscoveredServer" where
  "announcedServer resp remote =
     (let src = sourceIP remote in
      (if an_GRPCAddr resp = [] then src else an_GRPCAddr resp,
       \<lparr>ds_Hostname = an_Hostname resp, ds_GRPCAddr = an_GRPCAddr resp, ds_Version = an_Version resp,
        ds_Service = an_Service resp, ds_SourceIP = src\<rparr>))"

definition collect :: "string \<Rightarrow> seen_map \<Rightarrow> string \<Rightarrow> remote_addr \<Rightarrow> seen_map" where
  "collect service seen datagram remote =
     (case decodeAnnounce (take bufferSize datagram) of
        None \<Rightarrow> seen
      | Some resp \<Rightarrow>
          if an_Op resp \<noteq> ''announce'' \<or> an_Service resp \<noteq> service then seen
          else (case announcedServer resp remote of (key, s) \<Rightarrow> AList.update key s seen))"

text \<open>The reader goroutine: the map when it returns, \<open>None\<close> while it is still reading.\<close>

fun readLoop :: "string \<Rightarrow> seen_map \<Rightarrow> client_event list \<Rightarrow> seen_map option" where
  "readLoop service seen [] = None"
| "readLoop service seen (ev # evs) =
     (case ev of
        CTimedOut ctxDone \<Rightarrow> if ctxDone then Some seen else readLoop service seen evs
      | CReadFailed \<Rightarrow> Some seen
      | CReceived datagram remote \<Rightarrow> readLoop service (collect service seen datagram remote) evs)"

definition server_key :: "DiscoveredServer \<Rightarrow> string \<times> string" where
  "server_key s = (ds_GRPCAddr s, ds_Hostname s)"

definition sortServers :: "(seen_map \<Rightarrow> seen_map) \<Rightarrow> seen_map \<Rightarrow> DiscoveredServer list" where
  "sortServers shuffle seen = sort_key server_key (map snd (shuffle seen))"

definition clientDefaults :: "DiscoverClientConfig \<Rightarrow> DiscoverClientConfig" where
  "clientDefaults cfg =
     cfg\<lparr>cc_Port := (if cc_Port cfg = 0 then 6666 else cc_Port cfg),
         cc_Service := (if cc_Service cfg = [] then defaultDiscoveryService else cc_Service cfg),
         cc_Timeout := (if cc_Timeout cfg \<le> 0 then 3000000000 else cc_Timeout cfg)\<rparr>"

text \<open>The probe, the addresses it was sent to, and the result: \<open>None\<close> while the reader is running.\<close>

record discovery_run =
  dr_probe :: string
  dr_sent :: "UDPAddr list"
  dr_result :: "(goerror + DiscoveredServer list) option"

definition DiscoverServers :: "client_env \<Rightarrow> (seen_map \<Rightarrow> seen_map) \<Rightarrow> DiscoverClientConfig \<Rightarrow>
    client_event list \<Rightarrow> discovery_run" where
  "DiscoverServers env shuffle cfg0 events =
     (let cfg = clientDefaults cfg0;
          probe = Marshal (request_fields \<lparr>dq_Op = ''discover'', dq_Service = cc_Service cfg\<rparr>);
          fail = (\<lambda>sent e. \<lparr>dr_probe = probe, dr_sent = sent, dr_result = Some (Err e)\<rparr>)
      in case ce_ListenPacket env of
           Inl e \<Rightarrow> fail [] (Wrapped ''listen udp'' e)
         | Inr _ \<Rightarrow>
       (case enableBroadcast env of
          Some e \<Rightarrow> fail [] e
        | None \<Rightarrow>
       (case broadcastTargets (ce_Interfaces env) (cc_Port cfg) of
          Inl e \<Rightarrow> fail [] e
        | Inr targets \<Rightarrow>
       (case sendProbes env (targets @ cc_ProbeAddrs cfg) of
          (sent, Some e) \<Rightarrow> fail sent e
        | (sent, None) \<Rightarrow>
            \<lparr>dr_probe = probe, dr_sent = sent,
             dr_result = map_option (\<lambda>seen. Ok (sortServers shuffle seen)) (readLoop (cc_Service cfg) [] events)\<rparr>))))"

section \<open>Broadcast addresses\<close>

lemma broadcastAddr_be32:
  "broadcastAddr (Some (be32 a)) (be32 m) = Some (be32 (a OR NOT m))"
proof -
  have "(ucast (drop_bit k a) :: byte) OR NOT (ucast (drop_bit k m)) = ucast (drop_bit k (a OR NOT m))"
    if "k \<le> 24" for k
    using that by (intro bit_word_eqI) (auto simp: bit_simps)
  from this [of 24] this [of 16] this [of 8] this [of 0]
  have "map (\<lambda>i. be32 a ! i OR NOT (be32 m ! i)) [0, 1, 2, 3] = be32 (a OR NOT m)"
    by (simp add: be32_nth)
  moreover have "[0..<4] = [0, 1, 2, 3 :: nat]" by (simp add: upt_rec)
  ultimately show ?thesis by (simp add: broadcastAddr_def)
qed

lemma in_subnet_le_broadcast:
  fixes a b m :: "32 word"
  assumes "a AND m = b AND m"
  shows "b \<le> a OR NOT m"
proof -
  have "b AND (a OR NOT m) = b"
  proof (rule bit_word_eqI)
    fix n assume n: "n < LENGTH(32)"
    from arg_cong [OF assms, where f = "\<lambda>w. bit w n"] n
    show "bit (b AND (a OR NOT m)) n = bit b n" by (auto simp: bit_simps)
  qed
  then show ?thesis by (metis word_and_le1)
qed

text \<open>
  The directed broadcast address of an interface is the greatest address of its subnet: it
  lies in the subnet, all its host bits are set, and no address of the subnet is above it. A
  mask that has neither 4 nor 16 bytes gives no address.
\<close>

lemma broadcastAddr_greatest_of_subnet:
  "broadcastAddr (Some (be32 a)) (be32 m) = Some (be32 (a OR NOT m)) \<and>
   sameSubnet (Some (be32 a)) (broadcastAddr (Some (be32 a)) (be32 m)) (be32 m) \<and>
   (a OR NOT m) AND NOT m = NOT m \<and>
   (sameSubnet (Some (be32 a)) (Some (be32 b)) (be32 m) \<longrightarrow> b \<le> a OR NOT m) \<and>
   (length msk \<notin> {4, 16} \<longrightarrow> broadcastAddr ip msk = None)"
proof -
  have "a AND m = (a OR NOT m) AND m" "(a OR NOT m) AND NOT m = NOT m"
    by (auto intro!: bit_word_eqI simp: bit_simps)
  then show ?thesis
    by (auto simp: broadcastAddr_be32 sameSubnet_be32 in_subnet_le_broadcast broadcastAddr_def [of ip])
qed

lemma broadcastAddr_greatest_of_subnet_witness:
  "broadcastAddr (Some [192, 168, 1, 10]) [255, 255, 255, 0] = Some [192, 168, 1, 255] \<and>
   (0xC0A80142 :: 32 word) \<le> 0xC0A8010A OR NOT 0xFFFFFF00"
proof -
  have "be32 0xC0A8010A = [192, 168, 1, 10]" "be32 0xFFFFFF00 = [255, 255, 255, 0]"
    "be32 (0xC0A8010A OR NOT 0xFFFFFF00) = [192, 168, 1, 255]" by code_simp+
  moreover have "sameSubnet (Some (be32 0xC0A8010A)) (Some (be32 0xC0A80142)) (be32 0xFFFFFF00)" by code_simp
  moreover note broadcastAddr_greatest_of_subnet [of "0xC0A8010A" "0xFFFFFF00" "0xC0A80142" "[]" None]
  ultimately show ?thesis by presburger
qed

section \<open>Probe targets\<close>

lemma IP_String_To4: "To4 ip = Some b \<Longrightarrow> IP_String ip = dotted b"
  by (auto simp: IP_String_def To4_def split: option.splits if_splits)

lemma IP_String_eq_iff:
  "To4 a \<noteq> None \<Longrightarrow> To4 b \<noteq> None \<Longrightarrow> IP_String a = IP_String b \<longleftrightarrow> To4 a = To4 b"
  using dotted_inj To4_length by (fastforce simp: IP_String_To4)

text \<open>The addresses of the interfaces that are up and not loopback, as they are passed to \<^verbatim>\<open>add\<close>.\<close>

definition active :: "net_interface \<Rightarrow> bool" where
  "active iface \<longleftrightarrow> ni_Flags iface AND FlagUp \<noteq> 0 \<and> ni_Flags iface AND FlagLoopback = 0"

fun addr_broadcast :: "if_addr \<Rightarrow> IP list" where
  "addr_broadcast IfOther = []"
| "addr_broadcast (IPNet ip msk) =
     (case To4 ip of None \<Rightarrow> [] | Some ip4 \<Rightarrow> [broadcastAddr (Some ip4) msk])"

definition interface_broadcasts :: "goerror + net_interface list \<Rightarrow> IP list" where
  "interface_broadcasts interfaces =
     (case interfaces of
        Inl _ \<Rightarrow> []
      | Inr ifaces \<Rightarrow>
          concat (map (\<lambda>iface. if active iface
            then (case ni_Addrs iface of Inl _ \<Rightarrow> [] | Inr addrs \<Rightarrow> concat (map addr_broadcast addrs)) else [])
          ifaces))"

lemma foldl_concat_map:
  assumes "\<And>s x. f s x = foldl g s (h x)"
  shows "foldl f s xs = foldl g s (concat (map h xs))"
  by (induction xs arbitrary: s) (simp_all add: assms)

lemma addAddr_foldl: "addAddr port ts addr = foldl (addTarget port) ts (addr_broadcast addr)"
  by (cases addr) (simp_all add: addAddr_def split: option.split)

lemma addInterface_foldl:
  "addInterface port ts iface = foldl (addTarget port) ts
     (if active iface then (case ni_Addrs iface of Inl _ \<Rightarrow> [] | Inr addrs \<Rightarrow> concat (map addr_broadcast addrs)) else [])"
  by (auto simp: addInterface_def active_def split: sum.split intro!: foldl_concat_map addAddr_foldl)

lemma foldl_addInterface:
  "foldl (addInterface port) ts ifaces = foldl (addTarget port) ts (interface_broadcasts (Ok ifaces))"
  unfolding interface_broadcasts_def sum.case by (rule foldl_concat_map) (rule addInterface_foldl)

text \<open>The state of \<^verbatim>\<open>add\<close> after the addresses \<open>ips\<close>: one target for each distinct IPv4 address.\<close>

definition targets_of :: "int \<Rightarrow> IP list \<Rightarrow> targets \<Rightarrow> bool" where
  "targets_of port ips ts \<longleftrightarrow>
     distinct (map (\<lambda>t. To4 (ua_IP t)) (fst ts)) \<and>
     set (snd ts) = (\<lambda>t. IP_String (ua_IP t)) ` set (fst ts) \<and>
     (\<forall>t \<in> set (fst ts). ua_Port t = port \<and> ua_IP t \<in> set ips) \<and>
     (\<lambda>t. To4 (ua_IP t)) ` set (fst ts) = To4 ` set ips - {None}"

lemma addTarget_targets_of:
  assumes "targets_of port ips ts"
  shows "targets_of port (ips @ [ip]) (addTarget port ts ip)"
proof (cases "To4 ip = None")
  case True
  then have "addTarget port ts ip = ts" by (cases ts) (simp add: addTarget_def)
  with True assms show ?thesis by (auto simp: targets_of_def)
next
  case False
  then have "ip \<noteq> None" by (cases ip) (simp_all add: To4_def)
  have t4: "To4 (ua_IP t) \<noteq> None" if "t \<in> set (fst ts)" for t
    using assms that unfolding targets_of_def by (metis (no_types, lifting) Diff_iff image_eqI singletonI)
  have key: "IP_String ip \<in> set (snd ts) \<longleftrightarrow> To4 ip \<in> (\<lambda>t. To4 (ua_IP t)) ` set (fst ts)"
    using assms t4 False IP_String_eq_iff [OF False] unfolding targets_of_def by (auto simp: image_iff)
  show ?thesis
  proof (cases "IP_String ip \<in> set (snd ts)")
    case True
    then have "addTarget port ts ip = ts" by (cases ts) (simp add: addTarget_def)
    with True key assms False show ?thesis by (auto simp: targets_of_def)
  next
    case new: False
    then have "addTarget port ts ip =
        (fst ts @ [\<lparr>ua_IP = ip, ua_Port = port, ua_Zone = []\<rparr>], IP_String ip # snd ts)"
      using False \<open>ip \<noteq> None\<close> by (cases ts) (simp add: addTarget_def)
    with new key assms False show ?thesis by (auto simp: targets_of_def)
  qed
qed

lemma foldl_addTarget:
  "targets_of port ips ts \<Longrightarrow> targets_of port (ips @ ips2) (foldl (addTarget port) ts ips2)"
proof (induction ips2 arbitrary: ips ts)
  case (Cons ip ips2)
  from Cons.IH [OF addTarget_targets_of [OF Cons.prems]] show ?case by simp
qed simp

lemma foldl_addTarget_prefix: "\<exists>xs. fst (foldl (addTarget port) ts ips) = fst ts @ xs"
proof (induction ips arbitrary: ts)
  case (Cons ip ips)
  have "\<exists>ys. fst (addTarget port ts ip) = fst ts @ ys" by (cases ts) (simp add: addTarget_def)
  with Cons.IH [of "addTarget port ts ip"] show ?case by auto
qed simp

text \<open>
  \<^verbatim>\<open>broadcastTargets\<close> never fails (its last error branch cannot be reached): the targets
  start with 255.255.255.255, all have the given port, no two denote the same IPv4 address, and
  they are exactly the limited broadcast address and the directed broadcast addresses of the
  IPv4 addresses of the interfaces that are up and not loopback.
\<close>

lemma broadcastTargets_complete:
  "\<exists>ts. broadcastTargets interfaces port = Ok (\<lparr>ua_IP = IPv4bcast, ua_Port = port, ua_Zone = []\<rparr> # ts) \<and>
     distinct (To4 IPv4bcast # map (\<lambda>t. To4 (ua_IP t)) ts) \<and>
     ua_Port ` set ts \<subseteq> {port} \<and>
     insert (To4 IPv4bcast) ((\<lambda>t. To4 (ua_IP t)) ` set ts) =
       insert (To4 IPv4bcast) (To4 ` set (interface_broadcasts interfaces) - {None})"
proof -
  let ?first = "\<lparr>ua_IP = IPv4bcast, ua_Port = port, ua_Zone = []\<rparr>"
  let ?init = "addTarget port ([], []) IPv4bcast"
  let ?final = "foldl (addTarget port) ?init (interface_broadcasts interfaces)"
  have b4: "To4 IPv4bcast = Some [255, 255, 255, 255]" by code_simp
  then have s0: "?init = ([?first], [IP_String IPv4bcast])"
    by (simp add: addTarget_def IPv4bcast_def)
  have "targets_of port [] ([], [])" by (simp add: targets_of_def)
  from foldl_addTarget [OF this, of "IPv4bcast # interface_broadcasts interfaces"]
  have inv: "targets_of port (IPv4bcast # interface_broadcasts interfaces) ?final" by simp
  obtain ts where ts: "fst ?final = ?first # ts"
    using foldl_addTarget_prefix [of port ?init "interface_broadcasts interfaces"] s0 by auto
  have "broadcastTargets interfaces port = Ok (fst ?final)"
    using ts
    by (cases interfaces)
      (simp_all add: broadcastTargets_def Let_def foldl_addInterface, simp add: interface_broadcasts_def)
  with ts inv b4 show ?thesis
    by (intro exI [of _ ts]) (auto simp: targets_of_def)
qed

section \<open>Collecting announcements\<close>

fun ends_read :: "client_event \<Rightarrow> bool" where
  "ends_read (CTimedOut ctxDone) = ctxDone"
| "ends_read CReadFailed = True"
| "ends_read (CReceived _ _) = False"

text \<open>The announcements for a service among the events, each with the key it is stored under.\<close>

fun announcement :: "string \<Rightarrow> client_event \<Rightarrow> (string \<times> DiscoveredServer) option" where
  "announcement service (CReceived datagram remote) =
     (case decodeAnnounce (take bufferSize datagram) of
        Some resp \<Rightarrow>
          if an_Op resp = ''announce'' \<and> an_Service resp = service then Some (announcedServer resp remote) else None
      | None \<Rightarrow> None)"
| "announcement service _ = None"

definition announcements :: "string \<Rightarrow> client_event list \<Rightarrow> (string \<times> DiscoveredServer) list" where
  "announcements service evs = List.map_filter (announcement service) (takeWhile (\<lambda>ev. \<not> ends_read ev) evs)"

lemma announcement_key:
  assumes "(k, s) \<in> set (announcements service evs)" "ds_GRPCAddr s \<noteq> []"
  shows "k = ds_GRPCAddr s"
proof -
  from assms(1) obtain ev where "announcement service ev = Some (k, s)"
    by (auto simp: announcements_def map_filter_def)
  with assms(2) show ?thesis
    by (cases ev) (auto simp: announcedServer_def Let_def split: option.splits if_splits)
qed

lemma collect_announcement:
  "collect service seen d r =
     (case announcement service (CReceived d r) of None \<Rightarrow> seen | Some (k, s) \<Rightarrow> AList.update k s seen)"
  by (auto simp: collect_def split: option.split prod.split)

lemma readLoop_fold:
  "readLoop service seen evs =
     (if \<exists>ev \<in> set evs. ends_read ev
      then Some (fold (\<lambda>(k, s) m. AList.update k s m) (announcements service evs) seen) else None)"
proof (induction evs arbitrary: seen)
  case (Cons ev evs)
  then show ?case
    by (cases ev) (auto simp: announcements_def collect_announcement List.map_filter_simps
        simp del: announcement.simps(1) split: option.split)
qed simp

lemma map_of_fold_update:
  "map_of (fold (\<lambda>(k, s) m. AList.update k s m) kvs seen) = map_of seen ++ map_of (rev kvs)"
proof (induction kvs arbitrary: seen)
  case (Cons kv kvs)
  then show ?case by (cases kv) (auto simp: update_conv' map_add_def fun_eq_iff split: option.split)
qed simp

lemma distinct_fold_update:
  "distinct (map fst seen) \<Longrightarrow> distinct (map fst (fold (\<lambda>(k, s) m. AList.update k s m) kvs seen))"
  by (induction kvs arbitrary: seen) (auto simp: distinct_update)

text \<open>
  The abstract view of the map of servers seen: the last announcement under each key.
\<close>

definition last_announced :: "string \<Rightarrow> client_event list \<Rightarrow> string \<rightharpoonup> DiscoveredServer" where
  "last_announced service evs = map_of (rev (announcements service evs))"

lemma readLoop_refines:
  assumes "readLoop service [] evs = Some seen"
  shows "map_of seen = last_announced service evs" "distinct (map fst seen)"
proof -
  from assms have seen: "seen = fold (\<lambda>(k, s) m. AList.update k s m) (announcements service evs) []"
    by (auto simp: readLoop_fold split: if_splits)
  show "map_of seen = last_announced service evs"
    by (simp add: seen map_of_fold_update last_announced_def)
  show "distinct (map fst seen)"
    by (simp add: seen distinct_fold_update)
qed

lemma sortServers_facts:
  assumes "mset (shuffle seen) = mset seen"
  shows "mset (sortServers shuffle seen) = mset (map snd seen)" "sorted (map server_key (sortServers shuffle seen))"
  using assms by (simp_all add: sortServers_def)

lemma DiscoverServers_OkE:
  assumes "dr_result (DiscoverServers env shuffle cfg evs) = Some (Ok out)"
  obtains seen where "readLoop (cc_Service (clientDefaults cfg)) [] evs = Some seen" "out = sortServers shuffle seen"
  using assms that
  by (auto simp: DiscoverServers_def Let_def split: sum.split_asm option.split_asm prod.split_asm)

lemma DiscoverServers_shuffle:
  assumes "dr_result (DiscoverServers env shuffle cfg evs) = Some (Ok out)"
    and "readLoop (cc_Service (clientDefaults cfg)) [] evs = Some seen"
  shows "dr_result (DiscoverServers env shuffle' cfg evs) = Some (Ok (sortServers shuffle' seen))"
  using assms
  by (simp add: DiscoverServers_def Let_def split: sum.split_asm option.split_asm prod.split_asm)

text \<open>
  A call of \<^verbatim>\<open>DiscoverServers\<close> that succeeds returns one entry for each key announced before
  reading ended, the last announcement under that key: nothing is invented, lost or listed
  twice; and the list is sorted by gRPC address and then by host name.
\<close>

lemma DiscoverServers_last_announcements:
  assumes "\<forall>seen. mset (shuffle seen) = mset seen"
    and "dr_result (DiscoverServers env shuffle cfg evs) = Some (Ok out)"
  shows "sorted (map server_key out) \<and>
    (let last = last_announced (cc_Service (clientDefaults cfg)) evs in
     mset out = image_mset (\<lambda>k. the (last k)) (mset_set (dom last)))"
proof -
  let ?last = "last_announced (cc_Service (clientDefaults cfg)) evs"
  from assms(2) obtain seen where r: "readLoop (cc_Service (clientDefaults cfg)) [] evs = Some seen"
    and out: "out = sortServers shuffle seen" by (rule DiscoverServers_OkE)
  note seen = readLoop_refines [OF r]
  have "mset (map snd seen) = image_mset (\<lambda>k. the (?last k)) (mset (map fst seen))"
    using seen(2) unfolding seen(1) [symmetric] mset_map multiset.map_comp
    by (intro image_mset_cong) (auto simp: map_of_eq_Some_iff)
  moreover have "mset (map fst seen) = mset_set (dom ?last)"
    unfolding seen(1) [symmetric] dom_map_of_conv_image_fst
    using mset_set_set [OF seen(2)] by simp
  ultimately show ?thesis
    using sortServers_facts [of shuffle seen] assms(1) by (simp add: out Let_def)
qed

definition demo_announce :: "string \<Rightarrow> string \<Rightarrow> string" where
  "demo_announce host addr = Marshal (announce_fields
     \<lparr>an_Op = ''announce'', an_Service = ''s'', an_Version = ''1'', an_Hostname = host, an_GRPCAddr = addr\<rparr>)"

definition demo_client_env :: client_env where
  "demo_client_env = \<lparr>ce_ListenPacket = Ok (), ce_isUDPConn = True, ce_SyscallConn = None, ce_Control = None,
     ce_SetsockoptInt = None, ce_Interfaces = Ok [], ce_WriteTo = (\<lambda>_. None)\<rparr>"

definition demo_client_config :: DiscoverClientConfig where
  "demo_client_config = \<lparr>cc_Port = 0, cc_Service = ''s'', cc_Timeout = 0, cc_ProbeAddrs = []\<rparr>"

definition demo_events :: "client_event list" where
  "demo_events = [CReceived (demo_announce ''h2'' ''b:1'') (RemoteUDP lan_client),
     CReceived (demo_announce ''h1'' ''a:1'') (RemoteUDP lan_client),
     CReceived ''junk'' RemoteOther, CTimedOut False, CTimedOut True]"

definition demo_out :: "DiscoveredServer list" where
  "demo_out =
     [\<lparr>ds_Hostname = ''h1'', ds_GRPCAddr = ''a:1'', ds_Version = ''1'', ds_Service = ''s'', ds_SourceIP = ''192.168.1.77''\<rparr>,
      \<lparr>ds_Hostname = ''h2'', ds_GRPCAddr = ''b:1'', ds_Version = ''1'', ds_Service = ''s'', ds_SourceIP = ''192.168.1.77''\<rparr>]"

lemma demo_discover:
  "dr_result (DiscoverServers demo_client_env rev demo_client_config demo_events) = Some (Ok demo_out)"
  by code_simp

lemma DiscoverServers_last_announcements_witness:
  "sorted (map server_key demo_out) \<and>
   (let last = last_announced (cc_Service (clientDefaults demo_client_config)) demo_events in
    mset demo_out = image_mset (\<lambda>k. the (last k)) (mset_set (dom last)))"
  by (rule DiscoverServers_last_announcements [OF _ demo_discover]) simp

text \<open>
  When every announcement carries a gRPC address, the entries of the result have distinct
  addresses and the result does not depend on the order in which Go iterates over the map.
\<close>

lemma DiscoverServers_order_independent:
  assumes "\<forall>seen. mset (shuffle seen) = mset seen" "\<forall>seen. mset (shuffle' seen) = mset seen"
    and "\<forall>(k, s) \<in> set (announcements (cc_Service (clientDefaults cfg)) evs). ds_GRPCAddr s \<noteq> []"
    and "dr_result (DiscoverServers env shuffle cfg evs) = Some (Ok out)"
  shows "distinct (map ds_GRPCAddr out) \<and> dr_result (DiscoverServers env shuffle' cfg evs) = Some (Ok out)"
proof -
  let ?service = "cc_Service (clientDefaults cfg)"
  from assms(4) obtain seen where r: "readLoop ?service [] evs = Some seen" and out: "out = sortServers shuffle seen"
    by (rule DiscoverServers_OkE)
  note seen = readLoop_refines [OF r]
  have key: "k = ds_GRPCAddr s" if "(k, s) \<in> set seen" for k s
  proof -
    have "last_announced ?service evs k = Some s"
      using that seen by (simp flip: seen(1))
    then have "(k, s) \<in> set (announcements ?service evs)"
      unfolding last_announced_def by (metis map_of_SomeD set_rev)
    with assms(3) show ?thesis using announcement_key by blast
  qed
  then have addrs: "map ds_GRPCAddr (map snd seen) = map fst seen" by auto
  have "inj_on ds_GRPCAddr (set (map snd seen))"
    using seen(2) unfolding addrs [symmetric] distinct_map by blast
  then have inj: "inj_on server_key (set (map snd seen))"
    unfolding inj_on_def server_key_def by blast
  have m: "mset (sortServers f seen) = mset (map snd seen)" "sorted (map server_key (sortServers f seen))"
    if "\<forall>seen. mset (f seen) = mset seen" for f
    using that sortServers_facts by blast+
  have "mset (map ds_GRPCAddr out) = mset (map ds_GRPCAddr (map snd seen))"
    unfolding mset_map [of ds_GRPCAddr] out m(1) [OF assms(1)] ..
  then have "distinct (map ds_GRPCAddr out)"
    using seen(2) unfolding addrs by (metis mset_eq_imp_distinct_iff)
  moreover have "sortServers shuffle' seen = out"
    unfolding sortServers_def [of shuffle']
  proof (rule sort_key_inj_key_eq)
    have eq: "mset (map snd (shuffle' seen)) = mset (map snd seen)"
      using assms(2) by simp
    then show "mset (map snd (shuffle' seen)) = mset out"
      using m(1) [OF assms(1)] unfolding out by simp
    show "inj_on server_key (set (map snd (shuffle' seen)))"
      using inj mset_eq_setD [OF eq] by (simp only:)
    show "sorted (map server_key out)"
      using m(2) [OF assms(1)] unfolding out .
  qed
  moreover have "dr_result (DiscoverServers env shuffle' cfg evs) = Some (Ok (sortServers shuffle' seen))"
    using assms(4) r by (rule DiscoverServers_shuffle)
  ultimately show ?thesis by simp
qed

lemma DiscoverServers_order_independent_witness:
  "distinct (map ds_GRPCAddr demo_out) \<and>
   dr_result (DiscoverServers demo_client_env id demo_client_config demo_events) = Some (Ok demo_out)"
proof -
  have "announcements (cc_Service (clientDefaults demo_client_config)) demo_events =
      map (\<lambda>s. (ds_GRPCAddr s, s)) (rev demo_out)" by code_simp
  then have "\<forall>(k, s) \<in> set (announcements (cc_Service (clientDefaults demo_client_config)) demo_events). ds_GRPCAddr s \<noteq> []"
    by (simp add: demo_out_def)
  then show ?thesis
    by (intro DiscoverServers_order_independent [OF _ _ _ demo_discover]) simp_all
qed

section \<open>Client and responder together\<close>

lemma JoinHostPort_nonempty: "JoinHostPort h p \<noteq> []"
  by (simp add: JoinHostPort_def)

lemma grpcAddrForClient_nonempty: "grpcAddrForClient ifs g r = Ok addr \<Longrightarrow> addr \<noteq> []"
  by (auto simp: grpcAddrForClient_def Let_def JoinHostPort_nonempty split: if_splits)

lemma sendProbes_all: "(\<And>t. ce_WriteTo env t = None) \<Longrightarrow> sendProbes env ts = (ts, None)"
  by (induction ts) simp_all

lemma broadcastTargets_Ok: "\<exists>ts. broadcastTargets interfaces port = Ok ts"
proof -
  have "fst (addTarget port ([], []) IPv4bcast) \<noteq> []" by code_simp
  then have "fst (foldl (addTarget port) (addTarget port ([], []) IPv4bcast) ips) \<noteq> []" for ips
    using foldl_addTarget_prefix [of port "addTarget port ([], []) IPv4bcast" ips] by auto
  then show ?thesis
    by (cases interfaces) (auto simp: broadcastTargets_def Let_def foldl_addInterface)
qed

lemma DiscoverServers_healthy:
  assumes "ce_ListenPacket env = Ok ()" "enableBroadcast env = None" "\<And>t. ce_WriteTo env t = None"
  shows "dr_probe (DiscoverServers env shuffle cfg evs) =
      Marshal (request_fields \<lparr>dq_Op = ''discover'', dq_Service = cc_Service (clientDefaults cfg)\<rparr>)"
    and "dr_result (DiscoverServers env shuffle cfg evs) =
      map_option (\<lambda>seen. Ok (sortServers shuffle seen)) (readLoop (cc_Service (clientDefaults cfg)) [] evs)"
  using assms broadcastTargets_Ok [of "ce_Interfaces env" "cc_Port (clientDefaults cfg)"]
  by (auto simp: DiscoverServers_def Let_def sendProbes_all)

text \<open>The announcement that a responder owes a client it can give the address \<open>addr\<close>.\<close>

definition announcement_of :: "DiscoveryConfig \<Rightarrow> string \<Rightarrow> string \<Rightarrow> announceResponse" where
  "announcement_of cfg hostname addr =
     \<lparr>an_Op = ''announce'', an_Service = dc_Service (withDefaults cfg), an_Version = ''1'',
      an_Hostname = hostname, an_GRPCAddr = addr\<rparr>"

lemma probe_answered:
  assumes "reply_to (withDefaults cfg) hostname ev = Some (a, client)"
    and "\<forall>ev \<in> set pre. stops ev = None"
  shows "(Marshal (announce_fields a), client) \<in> set (ro_sent (RunDiscovery uc (Ok ()) hostname cfg (pre @ ev # post)))"
proof -
  have "stops ev = None" using assms(1) stops_no_reply by fastforce
  with assms have "ev \<in> set (handled (pre @ ev # post))"
    by (simp add: handled_def takeWhile_append)
  with assms(1) show ?thesis
    by (force simp: RunDiscovery_fields discoveryLoop_sent map_filter_def)
qed

lemma announcement_collected:
  assumes "announce_ascii a" "length (Marshal (announce_fields a)) \<le> bufferSize"
    and "an_Op a = ''announce''" "an_Service a = service"
    and "\<forall>ev \<in> set (xs @ ys). \<not> ends_read ev"
    and "\<forall>ev \<in> set ys. \<forall>s. announcement service ev \<noteq> Some (fst (announcedServer a (RemoteUDP src)), s)"
  shows "last_announced service (xs @ CReceived (Marshal (announce_fields a)) (RemoteUDP src) # ys @ [CTimedOut True])
      (fst (announcedServer a (RemoteUDP src))) = Some (snd (announcedServer a (RemoteUDP src)))"
proof -
  let ?ev = "CReceived (Marshal (announce_fields a)) (RemoteUDP src)"
  have d: "announcement service ?ev = Some (announcedServer a (RemoteUDP src))"
    using assms(1-4) ann.decode_buffer by simp
  have "takeWhile (\<lambda>ev. \<not> ends_read ev) (xs @ ?ev # ys @ [CTimedOut True]) = xs @ ?ev # ys"
    using assms(5) by (simp add: takeWhile_append)
  then have "announcements service (xs @ ?ev # ys @ [CTimedOut True]) =
      List.map_filter (announcement service) xs @ announcedServer a (RemoteUDP src) #
      List.map_filter (announcement service) ys"
    unfolding announcements_def by (simp add: map_filter_def d del: announcement.simps)
  moreover have "fst (announcedServer a (RemoteUDP src)) \<notin> fst ` set (List.map_filter (announcement service) ys)"
    using assms(6) by (force simp: map_filter_def)
  ultimately show ?thesis
    by (cases "announcedServer a (RemoteUDP src)")
      (simp add: last_announced_def map_add_Some_iff map_of_eq_None_iff)
qed

text \<open>
  C10: discovery works end to end. A responder that gets the client's probe, for its own service,
  before it stops, and can give the client an address, sends the client an announcement; a client
  that receives this datagram before its context ends, with no later announcement of the same
  address, returns a server with that address, the responder's host name and the sender's IP.
  (All strings are ASCII and both datagrams fit the buffer.)
\<close>

theorem discovery_end_to_end:
  assumes "ce_ListenPacket env = Ok ()" "enableBroadcast env = None" "\<forall>t. ce_WriteTo env t = None"
    and "\<forall>seen. mset (shuffle seen) = mset seen"
    and "cc_Service (clientDefaults ccfg) = dc_Service (withDefaults scfg)"
    and "length (dr_probe (DiscoverServers env shuffle ccfg evs)) \<le> bufferSize"
    and "\<forall>ev \<in> set pre. stops ev = None"
    and "grpcAddrForClient ifs (dc_GRPCAddr scfg) client = Ok addr"
    and "announce_ascii (announcement_of scfg hostname addr)"
    and "data = Marshal (announce_fields (announcement_of scfg hostname addr))" "length data \<le> bufferSize"
    and "evs = xs @ CReceived data (RemoteUDP src) # ys @ [CTimedOut True]"
    and "\<forall>ev \<in> set (xs @ ys). \<not> ends_read ev"
    and "\<forall>ev \<in> set ys. \<forall>s. announcement (cc_Service (clientDefaults ccfg)) ev \<noteq> Some (addr, s)"
  shows "(data, client) \<in> set (ro_sent (RunDiscovery uc (Ok ()) hostname scfg
        (pre @ Received (dr_probe (DiscoverServers env shuffle ccfg evs)) (RemoteUDP client) ifs None # post))) \<and>
    (\<exists>out. dr_result (DiscoverServers env shuffle ccfg evs) = Some (Ok out) \<and>
       \<lparr>ds_Hostname = hostname, ds_GRPCAddr = addr, ds_Version = ''1'',
        ds_Service = dc_Service (withDefaults scfg), ds_SourceIP = sourceIP (RemoteUDP src)\<rparr> \<in> set out)"
proof -
  let ?a = "announcement_of scfg hostname addr"
  let ?service = "dc_Service (withDefaults scfg)"
  let ?req = "\<lparr>dq_Op = ''discover'', dq_Service = ?service\<rparr>"
  let ?entry = "\<lparr>ds_Hostname = hostname, ds_GRPCAddr = addr, ds_Version = ''1'',
    ds_Service = ?service, ds_SourceIP = sourceIP (RemoteUDP src)\<rparr>"
  have addr: "addr \<noteq> []" using assms(8) by (rule grpcAddrForClient_nonempty)
  note healthy = DiscoverServers_healthy [OF assms(1,2) assms(3) [rule_format], of shuffle ccfg evs]
  have "request_ascii ?req" using assms(9) by (simp add: request_ascii_def announce_ascii_def announcement_of_def ascii_char_def)
  then have "decodeRequest (take 2048 (dr_probe (DiscoverServers env shuffle ccfg evs))) = Some ?req"
    using req.decode_buffer [of ?req] assms(5,6) by (simp add: healthy bufferSize_def)
  then have "reply_to (withDefaults scfg) hostname
      (Received (dr_probe (DiscoverServers env shuffle ccfg evs)) (RemoteUDP client) ifs None) = Some (?a, client)"
    using assms(8) by (simp add: reply_to_def announcement_of_def withDefaults_def)
  then have sent: "(data, client) \<in> set (ro_sent (RunDiscovery uc (Ok ()) hostname scfg
      (pre @ Received (dr_probe (DiscoverServers env shuffle ccfg evs)) (RemoteUDP client) ifs None # post)))"
    using probe_answered assms(7,10) by blast
  have entry: "announcedServer ?a (RemoteUDP src) = (addr, ?entry)"
    using addr by (simp add: announcedServer_def announcement_of_def Let_def)
  have last: "last_announced ?service evs addr = Some ?entry"
    using announcement_collected [of ?a ?service xs ys src] assms(5,9-14) entry
    by (simp add: announcement_of_def del: announcement.simps)
  have "\<exists>ev \<in> set evs. ends_read ev" using assms(12) by simp
  then obtain seen where r: "readLoop ?service [] evs = Some seen"
    by (simp add: readLoop_fold)
  with healthy assms(5) have out: "dr_result (DiscoverServers env shuffle ccfg evs) = Some (Ok (sortServers shuffle seen))"
    by simp
  have "(addr, ?entry) \<in> set seen"
    using last readLoop_refines [OF r] by (metis map_of_SomeD)
  then have "?entry \<in> set (sortServers shuffle seen)"
    using assms(4) by (force simp: sortServers_def dest: mset_eq_setD)
  with sent out show ?thesis by blast
qed

definition demo_server_config :: DiscoveryConfig where
  "demo_server_config = \<lparr>dc_ListenAddr = [], dc_GRPCAddr = ''0.0.0.0:50051'', dc_Service = ''s'', dc_Verbose = False\<rparr>"

definition demo_data :: string where
  "demo_data = Marshal (announce_fields (announcement_of demo_server_config ''host'' ''192.168.1.10:50051''))"

definition demo_run :: discovery_run where
  "demo_run = DiscoverServers demo_client_env id demo_client_config [CReceived demo_data (RemoteUDP lan_client), CTimedOut True]"

theorem discovery_end_to_end_witness:
  "(\<forall>uc. (demo_data, lan_client) \<in> set (ro_sent (RunDiscovery uc (Ok ()) ''host'' demo_server_config
      [Received (dr_probe demo_run) (RemoteUDP lan_client) (Ok lan_addrs) None]))) \<and>
   (\<exists>out. dr_result demo_run = Some (Ok out) \<and>
      \<lparr>ds_Hostname = ''host'', ds_GRPCAddr = ''192.168.1.10:50051'', ds_Version = ''1'',
       ds_Service = dc_Service (withDefaults demo_server_config), ds_SourceIP = sourceIP (RemoteUDP lan_client)\<rparr> \<in> set out)"
proof -
  have w: "\<forall>t. ce_WriteTo demo_client_env t = None" by (simp add: demo_client_env_def)
  have s: "cc_Service (clientDefaults demo_client_config) = dc_Service (withDefaults demo_server_config)" by code_simp
  have l: "ce_ListenPacket demo_client_env = Ok ()" "enableBroadcast demo_client_env = None" by code_simp+
  have p: "length (dr_probe (DiscoverServers demo_client_env id demo_client_config
      ([] @ CReceived demo_data (RemoteUDP lan_client) # [] @ [CTimedOut True]))) \<le> bufferSize" by code_simp
  have g: "grpcAddrForClient (Ok lan_addrs) (dc_GRPCAddr demo_server_config) lan_client = Ok ''192.168.1.10:50051''"
    using lan_reply by (simp add: demo_server_config_def)
  have a: "announce_ascii (announcement_of demo_server_config ''host'' ''192.168.1.10:50051'')" by code_simp
  have d: "length demo_data \<le> bufferSize" by code_simp
  from discovery_end_to_end [OF l w _ s p _ g a demo_data_def d refl, of "[]" _ "[]"]
  show ?thesis by (simp add: demo_run_def)
qed

end
