(* ===== verification/Ksp_Install_Cert.thy ===== *)
theory Ksp_Install_Cert
  imports Cli Addr_Resolve Ksp_Install Discovery_Client
begin

text \<open>
  The command \<^verbatim>\<open>cmd/ksp-install-cert/main.go\<close>: it finds the server, saves the configuration, lists the
  certificates of the server, lets the user choose one and binds it to the key storage provider. The
  result of a run is what it printed, the error that ended it, the files and the certificates it bound. The
  answers from outside are parameters: the network, the servers that the \<open>n\<close>-th discovery finds, the
  connection, the certificate store and the installer.

  The program makes two buffered readers on standard input, one for the address and one for the
  certificate. The second starts with what the first has not read from standard input: what the first has
  buffered is lost.
\<close>

section \<open>The dialogue for the address\<close>

definition serverEntry :: "nat \<Rightarrow> DiscoveredServer \<Rightarrow> string" where
  "serverEntry i s =
     line (''  ['' @ dec_of_nat (Suc i) @ ''] '' @ ds_Hostname s @ '' ('' @ ds_GRPCAddr s @ '') version '' @ ds_Version s)"

definition chosenAddr :: "net_api \<Rightarrow> DiscoveredServer \<Rightarrow> string" where
  "chosenAddr net selected =
     (let (host, port) = (case SplitHostPort (ds_GRPCAddr selected) of Inr hp \<Rightarrow> hp | Inl _ \<Rightarrow> (ds_SourceIP selected, ''50051''));
          host = (if host = [] then ds_SourceIP selected else host)
      in resolveOrTestHostname net host port (ds_Hostname selected))"

definition enteredAddr :: "net_api \<Rightarrow> string \<Rightarrow> string" where
  "enteredAddr net input = (case addrParts input of (host, port) \<Rightarrow> resolveOrTestHostname net host port [])"

definition selectServer :: "unicode \<Rightarrow> net_api \<Rightarrow> DiscoveredServer list \<Rightarrow> string prog" where
  "selectServer uc net servers =
     pbind (say (line ''Discovered servers:'' @ certMenu serverEntry servers)) (\<lambda>_.
     pbind (choiceLoop uc (''Select server (1-'' @ dec_of_nat (length servers) @ ''): '') (length servers)) (\<lambda>choice.
     let resolved = chosenAddr net (servers ! choice) in
     pbind (say (line (''Selected server: '' @ resolved))) (\<lambda>_. lift (Ok resolved))))"

definition addressPrompt :: string where
  "addressPrompt = ''Enter server address (IP/hostname:port) or press Enter to discover: ''"

function addressLoop :: "unicode \<Rightarrow> net_api \<Rightarrow> (nat \<Rightarrow> goerror + DiscoveredServer list) \<Rightarrow> nat \<Rightarrow> string prog" where
  "addressLoop uc net discover n rd =
     (let prompt = addressPrompt in
      case ReadString rd of
        (Inl e, rd') \<Rightarrow> (prompt, Err e, rd')
      | (Inr l, rd') \<Rightarrow>
          (let input = TrimSpace uc l in
           if input = [] then
             (let prompt = prompt @ line ''Discovering servers on local network...'' in
              case discover n of
                Inl e \<Rightarrow>
                  (case addressLoop uc net discover (Suc n) rd' of
                     (out, r) \<Rightarrow> (prompt @ line (''Discovery failed: '' @ Error e) @ out, r))
              | Inr [] \<Rightarrow>
                  (case addressLoop uc net discover (Suc n) rd' of
                     (out, r) \<Rightarrow> (prompt @ line ''No servers discovered. Please enter address manually.'' @ out, r))
              | Inr (s # ss) \<Rightarrow>
                  (case selectServer uc net (s # ss) rd' of (out, r) \<Rightarrow> (prompt @ out, r)))
           else
             (let resolved = enteredAddr net input in
              (prompt @ line (''Using server: '' @ resolved), Ok resolved, rd'))))"
  by pat_completeness auto
termination
  by (relation "measure (\<lambda>(uc, net, discover, n, rd). length (rd_all rd))") (auto dest: sym [THEN ReadString_shorter])

declare addressLoop.simps [simp del]

section \<open>The program\<close>

record install_flags =
  if_addr :: string
  if_ca :: string
  if_cert :: string
  if_key :: string
  if_write_config :: string
  if_list :: bool
  if_remove :: string

record install_run =
  ir_out :: string
  ir_err :: "goerror option"
  ir_files :: files
  ir_bound :: "(bytes \<times> string) list"

text \<open>What the program needs from outside.\<close>

record 'ts install_world =
  iw_net :: net_api
  iw_discover :: "nat \<Rightarrow> goerror + DiscoveredServer list"
  iw_dial :: "goerror + unit"
  iw_rpc :: "'ts rpc"
  iw_byProvider :: "goerror + CertificateInfo list"
  iw_bind :: "bytes \<Rightarrow> string \<Rightarrow> goerror + unit"
  iw_remove :: "string \<Rightarrow> goerror + unit"

text \<open>The times of a listed certificate come from the parsed certificate and are in UTC, as the printed form says.\<close>

definition installedEntry :: "CertificateInfo \<Rightarrow> string" where
  "installedEntry c =
     line (''  '' @ ci_Thumbprint c) @ line (''    subject: '' @ ci_Subject c) @ line (''    issuer:  '' @ ci_Issuer c) @
     line (''    key:     '' @ ci_KeyAlgorithm c @ '' '' @ dec_of_int (ci_KeySize c) @ ''-bit'') @
     (if ci_NotAfter c \<noteq> time_zero then line (''    expires: '' @ formatSecond (ci_NotAfter c)) else [])"

definition listInstalled :: "'ts install_world \<Rightarrow> unit prog" where
  "listInstalled w =
     pbind (lift (iw_byProvider w)) (\<lambda>certs.
     if length certs = 0 then say (line ''No installed certificate bindings.'')
     else say (line ''Installed certificate bindings:'' @ concat (map installedEntry certs)))"

definition uninstall :: "unicode \<Rightarrow> 'ts install_world \<Rightarrow> string \<Rightarrow> unit prog" where
  "uninstall uc w thumbprint =
     (let tp = NormalizeThumbprint uc thumbprint in
      pbind (lift (iw_remove w tp)) (\<lambda>_. say (line (''Removed certificate binding: '' @ tp))))"

definition remoteEntry :: "nat \<Rightarrow> 'ts proto_CertificateInfo \<Rightarrow> string" where
  "remoteEntry i c =
     line (''  ['' @ dec_of_nat (Suc i) @ ''] '' @ pc_Thumbprint c) @
     line (''      subject: '' @ pc_Subject c) @
     line (''      key: '' @ pc_KeyAlgorithm c @ '' '' @ dec_of_int (pc_KeySize c) @ ''-bit'')"

text \<open>The part after the configuration is saved: choose a certificate of the server.\<close>

definition chooseRemote :: "unicode \<Rightarrow> os_env \<Rightarrow> 'kp tls_lib \<Rightarrow> 'ts install_world \<Rightarrow> Config \<Rightarrow> 'ts proto_CertificateInfo prog" where
  "chooseRemote uc env tls w cfg =
     pbind (lift (LoadClientTLSConfig uc env tls (cf_CA cfg) (cf_Cert cfg) (cf_Key cfg) (hostFromAddr (cf_Addr cfg)))) (\<lambda>_.
     pbind (lift (iw_dial w)) (\<lambda>_.
     pbind (lift (rpc_ListCertificates (iw_rpc w))) (\<lambda>resp.
     let certs = lr_Certificates resp in
     pbind (guardP (length certs \<noteq> 0) ''no certificates with private keys found'') (\<lambda>_.
     pbind (say (line ''Available remote certificates:'' @ certMenu remoteEntry certs)) (\<lambda>_.
     pbind (readChoice uc (length certs)) (\<lambda>idx.
     let selected = certs ! idx in
     pbind (guardP (length (pc_CertificateDer selected) \<noteq> 0) ''server did not return certificate DER for selected cert'') (\<lambda>_.
     lift (Ok selected))))))))"

definition installedText :: "string \<Rightarrow> 'ts proto_CertificateInfo \<Rightarrow> string" where
  "installedText tp selected =
     [newline] @ line (''Installed certificate into Current User'' @ [CHR 0x5C] @ ''MY'') @
     line (''  thumbprint: '' @ tp) @ line (''  subject:    '' @ pc_Subject selected) @
     line (''  provider:   '' @ ProviderName) @ line (''  container:  '' @ tp)"

definition resolveFlag :: "unicode \<Rightarrow> 'ts install_world \<Rightarrow> install_flags \<Rightarrow> string prog" where
  "resolveFlag uc w f =
     (if if_addr f = [] then addressLoop uc (iw_net w) (iw_discover w) 0
      else lift (Ok (enteredAddr (iw_net w) (if_addr f))))"

definition failed :: "string \<Rightarrow> goerror \<Rightarrow> files \<Rightarrow> install_run" where
  "failed out e fs = \<lparr>ir_out = out, ir_err = Some e, ir_files = fs, ir_bound = []\<rparr>"

definition ended :: "string \<times> (goerror + unit) \<times> reader \<Rightarrow> files \<Rightarrow> install_run" where
  "ended p fs =
     (case p of (out, r, _) \<Rightarrow>
        (case r of Inl e \<Rightarrow> failed out e fs | Inr _ \<Rightarrow> \<lparr>ir_out = out, ir_err = None, ir_files = fs, ir_bound = []\<rparr>))"

definition bindSelected :: "unicode \<Rightarrow> 'ts install_world \<Rightarrow> string \<Rightarrow> files \<Rightarrow> 'ts proto_CertificateInfo \<Rightarrow> install_run" where
  "bindSelected uc w out fs selected =
     (let tp = NormalizeThumbprint uc (pc_Thumbprint selected) in
      case iw_bind w (pc_CertificateDer selected) tp of
        Inl e \<Rightarrow> failed out e fs
      | Inr _ \<Rightarrow> \<lparr>ir_out = out @ installedText tp selected, ir_err = None, ir_files = fs,
                  ir_bound = [(pc_CertificateDer selected, tp)]\<rparr>)"

definition installFrom :: "unicode \<Rightarrow> cfg_env \<Rightarrow> os_env \<Rightarrow> 'kp tls_lib \<Rightarrow> 'ts install_world \<Rightarrow> install_flags \<Rightarrow> string \<Rightarrow> string \<Rightarrow>
    string list \<Rightarrow> files \<Rightarrow> install_run" where
  "installFrom uc cenv env tls w f out addr stdin fs =
     (let path = (if if_write_config f \<noteq> [] then if_write_config f else ConfigPath cenv) in
      case SaveConfig cenv fs \<lparr>cf_Addr = addr, cf_CA = if_ca f, cf_Cert = if_cert f, cf_Key = if_key f\<rparr> path of
        (fs, cfg, r) \<Rightarrow>
      (case r of
         Some e \<Rightarrow> failed out (Wrapped ''save config'' e) fs
       | None \<Rightarrow>
      (let out = out @ (if if_write_config f \<noteq> [] then line (''Wrote config: '' @ path) else []) in
       case chooseRemote uc env tls w cfg (NewReader stdin) of
         (out', r, _) \<Rightarrow>
      (case r of
         Inl e \<Rightarrow> failed (out @ out') e fs
       | Inr selected \<Rightarrow> bindSelected uc w (out @ out') fs selected))))"

definition install_main :: "unicode \<Rightarrow> cfg_env \<Rightarrow> os_env \<Rightarrow> 'kp tls_lib \<Rightarrow> 'ts install_world \<Rightarrow> install_flags \<Rightarrow> string list \<Rightarrow> files \<Rightarrow>
    install_run" where
  "install_main uc cenv env tls w f stdin fs =
     (if if_list f then ended (listInstalled w (NewReader stdin)) fs
      else if if_remove f \<noteq> [] then ended (uninstall uc w (if_remove f) (NewReader stdin)) fs
      else case resolveFlag uc w f (NewReader stdin) of
             (out, r, rd) \<Rightarrow>
               (case r of
                  Inl e \<Rightarrow> failed out e fs
                | Inr addr \<Rightarrow> installFrom uc cenv env tls w f out addr (snd rd) fs))"

section \<open>Properties\<close>

lemma readChoice_reads:
  assumes "readChoice uc n rd = (out, Ok i, rd')"
  shows "newline \<in> set (rd_all rd)"
proof (rule ccontr)
  assume "newline \<notin> set (rd_all rd)"
  from ReadString_None [OF this] assms show False
    unfolding readChoice_def by (subst (asm) choiceLoop.simps) simp
qed

lemma chooseRemote_Ok:
  assumes "chooseRemote uc env tls w cfg rd = (out, Ok c, rd')"
  shows "(\<exists>resp. rpc_ListCertificates (iw_rpc w) = Ok resp \<and> c \<in> set (lr_Certificates resp)) \<and> pc_CertificateDer c \<noteq> [] \<and>
    newline \<in> set (rd_all rd)"
proof -
  from assms obtain resp idx o1 where l: "rpc_ListCertificates (iw_rpc w) = Ok resp"
    and i: "readChoice uc (length (lr_Certificates resp)) rd = (o1, Ok idx, rd')"
    and c: "c = lr_Certificates resp ! idx" "pc_CertificateDer c \<noteq> []"
    by (auto simp: chooseRemote_def pbind_Ok_iff Let_def)
  from l c readChoice_Ok [OF i] readChoice_reads [OF i] show ?thesis by auto
qed

lemma bindSelected_cases:
  "(ir_err (bindSelected uc w out fs c) = None \<longleftrightarrow>
     iw_bind w (pc_CertificateDer c) (NormalizeThumbprint uc (pc_Thumbprint c)) = Ok ()) \<and>
   ir_files (bindSelected uc w out fs c) = fs \<and>
   ir_bound (bindSelected uc w out fs c) =
     (if ir_err (bindSelected uc w out fs c) = None
      then [(pc_CertificateDer c, NormalizeThumbprint uc (pc_Thumbprint c))] else [])"
  by (simp add: bindSelected_def failed_def Let_def split: sum.split)

lemma installFrom_cases:
  assumes "installFrom uc cenv env tls w f out addr stdin fs = run"
  shows "ir_err run \<noteq> None \<and> ir_bound run = [] \<or>
    (\<exists>out' rd' c cfg out2. chooseRemote uc env tls w cfg (NewReader stdin) = (out', Ok c, rd') \<and>
       run = bindSelected uc w out2 (fs((if if_write_config f \<noteq> [] then if_write_config f else ConfigPath cenv) :=
           Ok (MarshalIndent (config_fields cfg)))) c)"
proof -
  let ?path = "if if_write_config f \<noteq> [] then if_write_config f else ConfigPath cenv"
  let ?cfg = "\<lparr>cf_Addr = addr, cf_CA = if_ca f, cf_Cert = if_cert f, cf_Key = if_key f\<rparr>"
  obtain fs' cfg r where s: "SaveConfig cenv fs ?cfg ?path = (fs', cfg, r)" by (metis prod_cases3)
  obtain out' r2 rd2 where c: "chooseRemote uc env tls w cfg (NewReader stdin) = (out', r2, rd2)" by (metis prod_cases3)
  show ?thesis
  proof (cases r)
    case (Some e)
    with assms s have "run = failed out (Wrapped ''save config'' e) fs'" by (simp add: installFrom_def)
    then show ?thesis by (simp add: failed_def)
  next
    case None
    from SaveConfig_success [OF s [unfolded None]] have fs': "fs' = fs(?path := Ok (MarshalIndent (config_fields cfg)))"
      by auto
    show ?thesis
    proof (cases r2)
      case (Inl e)
      with assms s c None have "\<exists>o2. run = failed o2 e fs'" by (simp add: installFrom_def Let_def) blast
      then show ?thesis by (auto simp: failed_def)
    next
      case (Inr sel)
      with assms s c None have "\<exists>o2. run = bindSelected uc w o2 fs' sel" by (simp add: installFrom_def Let_def) blast
      with c Inr fs' show ?thesis by blast
    qed
  qed
qed

text \<open>
  C36: a run that installs binds exactly one certificate: one that the server has listed, with bytes, under
  its normalised thumbprint, after the configuration was written; a run that ends with an error has bound
  none.
\<close>

theorem install_binds_listed:
  assumes "install_main uc cenv env tls w f stdin fs = run" and "\<not> if_list f" and "if_remove f = []"
  shows "(ir_err run \<noteq> None \<longrightarrow> ir_bound run = []) \<and>
    (ir_err run = None \<longrightarrow>
      (\<exists>resp c cfg. rpc_ListCertificates (iw_rpc w) = Ok resp \<and> c \<in> set (lr_Certificates resp) \<and> pc_CertificateDer c \<noteq> [] \<and>
         ir_bound run = [(pc_CertificateDer c, NormalizeThumbprint uc (pc_Thumbprint c))] \<and>
         iw_bind w (pc_CertificateDer c) (NormalizeThumbprint uc (pc_Thumbprint c)) = Ok () \<and>
         ir_files run = fs((if if_write_config f \<noteq> [] then if_write_config f else ConfigPath cenv) :=
           Ok (MarshalIndent (config_fields cfg)))))"
proof -
  obtain out r rd where a: "resolveFlag uc w f (NewReader stdin) = (out, r, rd)" by (metis prod_cases3)
  show ?thesis
  proof (cases r)
    case (Inl e)
    with a assms have "run = failed out e fs" by (simp add: install_main_def)
    then show ?thesis by (simp add: failed_def)
  next
    case (Inr addr)
    with a assms have "installFrom uc cenv env tls w f out addr (snd rd) fs = run" by (simp add: install_main_def)
    from installFrom_cases [OF this] show ?thesis
    proof (elim disjE exE conjE)
      fix out' rd' c cfg out2
      assume c: "chooseRemote uc env tls w cfg (NewReader (snd rd)) = (out', Ok c, rd')"
        and run: "run = bindSelected uc w out2 (fs((if if_write_config f \<noteq> [] then if_write_config f else ConfigPath cenv) :=
           Ok (MarshalIndent (config_fields cfg)))) c"
      from chooseRemote_Ok [OF c] show ?thesis unfolding run using bindSelected_cases by metis
    qed simp
  qed
qed

section \<open>What is bound parses\<close>

text \<open>
  The installer is an interface: whatever installer obeys its law, the program and the window bind only
  certificates that parse. On Windows this is the interpretation \<open>win_inst\<close>.
\<close>

lemma ended_bound [simp]: "ir_bound (ended p fs) = []"
  by (simp add: ended_def failed_def split: prod.split sum.split)

context cert_installer
begin

lemma install_main_parses:
  assumes "iw_bind w = bind" and "install_main uc cenv env tls w f stdin fs = run" and "(der, tp) \<in> set (ir_bound run)"
  shows "isOk (ParseCertificate lib der)"
proof -
  obtain out r rd where a: "resolveFlag uc w f (NewReader stdin) = (out, r, rd)" by (metis prod_cases3)
  from assms(2,3) a obtain addr where "installFrom uc cenv env tls w f out addr (snd rd) fs = run"
    by (auto simp: install_main_def failed_def split: if_splits sum.splits)
  from installFrom_cases [OF this] assms(3) obtain c o2 fs' where "run = bindSelected uc w o2 fs' c" by auto
  with assms(1,3) bindSelected_cases [of uc w o2 fs' c]
  have "bind der tp = Ok ()" by (auto split: if_splits)
  then show ?thesis by (rule bind_parses)
qed

end

lemma windows_install_parses:
  assumes "iw_bind w = (\<lambda>der tp. fst (BindCertificateToKSP uc lib api der tp))"
    and "install_main uc cenv env tls w f stdin fs = run" and "(der, tp) \<in> set (ir_bound run)"
  shows "isOk (ParseCertificate lib der)"
  using assms by (rule win_inst.install_main_parses)

text \<open>A run against the sample service: the address is entered first, then a line that is no number, then the choice.\<close>

definition demo_install_world :: "nat install_world" where
  "demo_install_world = \<lparr>iw_net = demo_net, iw_discover = (\<lambda>_. Ok []), iw_dial = Ok (), iw_rpc = demo_rpc, iw_byProvider = Ok [],
     iw_bind = (\<lambda>_ _. Ok ()), iw_remove = (\<lambda>_. Ok ())\<rparr>"

definition demo_install_flags :: install_flags where
  "demo_install_flags = \<lparr>if_addr = ''10.0.0.1'', if_ca = ''d/a.crt'', if_cert = ''d/a.crt'', if_key = ''d/a.key'', if_write_config = [],
     if_list = False, if_remove = []\<rparr>"

section \<open>Input that is lost\<close>

lemma ReadString_last_chunk:
  "snd (snd (ReadString ([], [chunk]))) = []" "snd rd = [] \<Longrightarrow> snd (snd (ReadString rd)) = []"
  by (simp_all add: ReadString_def split: option.split)

lemma choiceLoop_drained: "snd rd = [] \<Longrightarrow> snd (snd (snd (choiceLoop uc prompt limit rd))) = []"
proof (induction uc prompt limit rd rule: choiceLoop.induct)
  case (1 uc prompt limit rd)
  from 1 ReadString_last_chunk(2) [of rd] show ?case
    by (subst choiceLoop.simps) (auto split: sum.split prod.split option.split)
qed

lemma selectServer_drained:
  assumes "snd rd = []"
  shows "snd (snd (snd (selectServer uc net servers rd))) = []"
  using choiceLoop_drained [OF assms]
  by (auto simp: selectServer_def prog_simps Let_def split: prod.split sum.split) (metis snd_conv)+

lemma addressLoop_drained:
  "snd (snd (ReadString rd)) = [] \<Longrightarrow> snd (snd (snd (addressLoop uc net discover n rd))) = []"
proof (induction "length (rd_all rd)" arbitrary: n rd rule: less_induct)
  case less
  obtain r rd' where rs: "ReadString rd = (r, rd')" by (cases "ReadString rd")
  with less.prems have rd': "snd rd' = []" by simp
  show ?case
  proof (cases r)
    case (Inl e)
    with rs rd' show ?thesis by (subst addressLoop.simps) (simp add: Let_def)
  next
    case (Inr l)
    from less.hyps [OF ReadString_shorter [OF rs [unfolded Inr]] ReadString_last_chunk(2) [OF rd']]
    have IH: "snd (snd (snd (addressLoop uc net discover (Suc n) rd'))) = []" .
    from rs Inr rd' IH selectServer_drained [OF rd'] show ?thesis
      by (subst addressLoop.simps) (simp add: Let_def split_beta split: sum.split list.split)
  qed
qed

text \<open>
  When standard input is a pipe that delivers the address and the number of the certificate at once,
  nothing is installed: the reader that asked for the address has taken all of it, and the second
  reader, made for the choice, finds the end of file.
\<close>

lemma piped_choice_is_lost:
  assumes "if_addr f = []" and "\<not> if_list f" and "if_remove f = []"
  shows "ir_bound (install_main uc cenv env tls w f [input] fs) = [] \<and> ir_err (install_main uc cenv env tls w f [input] fs) \<noteq> None"
proof -
  obtain out r rd where a: "resolveFlag uc w f (NewReader [input]) = (out, r, rd)" by (metis prod_cases3)
  with assms have "addressLoop uc (iw_net w) (iw_discover w) 0 ([], [input]) = (out, r, rd)"
    by (simp add: resolveFlag_def NewReader_def)
  with addressLoop_drained [OF ReadString_last_chunk(1), of uc "iw_net w" "iw_discover w" 0 input] have rd: "snd rd = []"
    by simp
  show ?thesis
  proof (cases r)
    case (Inl e)
    with a assms have "install_main uc cenv env tls w f [input] fs = failed out e fs" by (simp add: install_main_def)
    then show ?thesis by (simp add: failed_def)
  next
    case (Inr addr)
    with a assms rd have "install_main uc cenv env tls w f [input] fs = installFrom uc cenv env tls w f out addr [] fs"
      by (simp add: install_main_def)
    with installFrom_cases [OF this [symmetric]] show ?thesis
    proof (elim disjE exE)
      fix out' rd' c cfg out2
      assume "chooseRemote uc env tls w cfg (NewReader []) = (out', Ok c, rd') \<and>
        install_main uc cenv env tls w f [input] fs = bindSelected uc w out2 (fs((if if_write_config f \<noteq> [] then
          if_write_config f else ConfigPath cenv) := Ok (MarshalIndent (config_fields cfg)))) c"
      from chooseRemote_Ok [OF conjunct1 [OF this]] show ?thesis by (simp add: NewReader_def rd_all_def)
    qed simp
  qed
qed

lemma piped_choice_is_lost_witness:
  "if_addr (demo_install_flags\<lparr>if_addr := []\<rparr>) = [] \<and>
   ir_bound (install_main demo_uc demo_cfg_env demo_env demo_tls demo_install_world (demo_install_flags\<lparr>if_addr := []\<rparr>)
     [''srv:1'' @ [newline] @ ''1'' @ [newline]] (\<lambda>_. Err json_error)) = []"
  using piped_choice_is_lost [of "demo_install_flags\<lparr>if_addr := []\<rparr>" demo_uc demo_cfg_env demo_env demo_tls demo_install_world]
  by (simp add: demo_install_flags_def)

section \<open>The sample run\<close>

lemma demo_entered: "enteredAddr demo_net ''10.0.0.1'' = ''srv:50051''" "hostFromAddr ''srv:50051'' = ''srv''"
  by code_simp+

lemma demo_chooseRemote:
  "\<exists>out. chooseRemote demo_uc demo_env demo_tls demo_install_world
     \<lparr>cf_Addr = ''srv:50051'', cf_CA = ''d/a.crt'', cf_Cert = ''d/a.crt'', cf_Key = ''d/a.key''\<rparr> demo_input =
     (out, Ok (lr_Certificates demo_remote ! 0), ([], []))"
proof -
  obtain out where c: "readChoice demo_uc 1 demo_input = (out, Ok 0, ([], []))" using demo_choice by blast
  show ?thesis
    by (simp add: chooseRemote_def demo_install_world_def demo_entered demo_client_tls demo_rpc_def demo_remote_def
        c [unfolded One_nat_def] prog_simps Let_def)
qed

lemma demo_install_run:
  "ir_err (install_main demo_uc (demo_cfg_env\<lparr>path_Abs := Ok\<rparr>) demo_env demo_tls demo_install_world demo_install_flags
     (snd demo_input) (\<lambda>_. Err json_error)) = None"
proof -
  have i: "NewReader (snd demo_input) = demo_input" by (simp add: NewReader_def demo_input_def)
  obtain out where c: "chooseRemote demo_uc demo_env demo_tls demo_install_world
     \<lparr>cf_Addr = ''srv:50051'', cf_CA = ''d/a.crt'', cf_Cert = ''d/a.crt'', cf_Key = ''d/a.key''\<rparr> demo_input =
     (out, Ok (lr_Certificates demo_remote ! 0), ([], []))"
    using demo_chooseRemote by blast
  have a: "resolveFlag demo_uc demo_install_world demo_install_flags demo_input = ([], Ok ''srv:50051'', demo_input)"
    by (simp add: resolveFlag_def demo_install_world_def demo_install_flags_def demo_entered lift_def)
  show ?thesis
    using a c
    by (simp add: install_main_def installFrom_def demo_install_flags_def i SaveConfig_def demo_cfg_env_def absField_def Let_def
        bindSelected_def demo_install_world_def)
qed

theorem install_binds_listed_witness:
  "\<exists>c. ir_bound (install_main demo_uc (demo_cfg_env\<lparr>path_Abs := Ok\<rparr>) demo_env demo_tls demo_install_world demo_install_flags
     (snd demo_input) (\<lambda>_. Err json_error)) = [(pc_CertificateDer c, NormalizeThumbprint demo_uc (pc_Thumbprint c))] \<and>
     c \<in> set (lr_Certificates demo_remote)"
proof -
  have "\<not> if_list demo_install_flags" "if_remove demo_install_flags = []" by (simp_all add: demo_install_flags_def)
  from install_binds_listed [OF refl this, of demo_uc "demo_cfg_env\<lparr>path_Abs := Ok\<rparr>" demo_env demo_tls demo_install_world
      "snd demo_input" "\<lambda>_. Err json_error"] demo_install_run
  show ?thesis by (auto simp: demo_install_world_def demo_rpc_def)
qed

end
