(* ===== verification/Install_Ui.thy ===== *)
theory Install_Ui
  imports Ksp_Install_Cert Complex_Main
begin

text \<open>
  The operations behind the install window: \<^verbatim>\<open>cmd/ksp-install-ui/api.go\<close>, each method of \<^verbatim>\<open>AppAPI\<close> as one
  definition. What a method needs from outside is the record \<open>ui_world\<close>, which extends the world of the
  command-line installer by the two other operations of the certificate store. A method that changes something
  returns what it changed: \<^verbatim>\<open>SaveConfig\<close> the files, \<^verbatim>\<open>InstallCertificate\<close> also the certificate that
  it bound, \<^verbatim>\<open>UninstallCertificate\<close> the thumbprint that it removed. The clock is an argument.

  The window (\<^verbatim>\<open>main.go\<close>, \<^verbatim>\<open>filedialog_windows.go\<close>) and sessions of calls from its page are in \<^verbatim>\<open>Ui_Window\<close>.
\<close>

section \<open>Data\<close>

record ServerInfo =
  si_Hostname :: string
  si_GRPCAddr :: string
  si_Version :: string
  si_SourceIP :: string
  si_LatencyMs :: int

record ConfigData =
  cd_Addr :: string
  cd_CA :: string
  cd_Cert :: string
  cd_Key :: string
  cd_ConfigPath :: string

record CertificateItem =
  it_Thumbprint :: string
  it_Subject :: string
  it_Issuer :: string
  it_KeyAlgorithm :: string
  it_KeySize :: int
  it_NotBefore :: string
  it_NotAfter :: string
  it_IsExpired :: bool
  it_DaysRemaining :: int
  it_SANs :: "string list"
  it_KeyUsage :: "string list"
  it_IsInstalled :: bool

record InstalledItem =
  ii_Thumbprint :: string
  ii_Subject :: string
  ii_Issuer :: string
  ii_NotAfter :: string
  ii_Provider :: string
  ii_Container :: string
  ii_KeyAlgorithm :: string
  ii_KeySize :: int
  ii_IsTPM :: bool
  ii_InStore :: bool

record TestSignRequest =
  tq_Thumbprint :: string
  tq_Message :: string
  tq_InputType :: string
  tq_HashAlgo :: string
  tq_Padding :: string

record TestSignResult =
  tr_Thumbprint :: string
  tr_Subject :: string
  tr_HashAlgorithm :: string
  tr_DigestHex :: string
  tr_Padding :: string
  tr_SignatureAlgorithm :: string
  tr_SignatureBase64 :: string
  tr_SignatureHex :: string
  tr_DurationMs :: int

record DiagnosticsInfo =
  dg_ProviderName :: string
  dg_DataDir :: string
  dg_ConfigPath :: string
  dg_TotalKeys :: nat
  dg_ConfigExists :: bool

record 'ts ui_world = "'ts install_world" +
  uw_List :: "goerror + CertificateInfo list"
  uw_SignHash :: "string \<Rightarrow> bytes \<Rightarrow> HashAlgorithm \<Rightarrow> RSAPadding \<Rightarrow> goerror + SignResult"

section \<open>Durations\<close>

text \<open>
  Durations are 64-bit numbers of nanoseconds; a product wraps around, the difference of two times stops at
  the bounds. Division truncates.
\<close>

definition int64 :: "int \<Rightarrow> int" where
  "int64 x = sint (word_of_int x :: 64 word)"

definition saturate64 :: "int \<Rightarrow> int" where
  "saturate64 d = (if d < - (2 ^ 63) then - (2 ^ 63) else if 2 ^ 63 \<le> d then 2 ^ 63 - 1 else d)"

definition quotient :: "int \<Rightarrow> int \<Rightarrow> int" where
  "quotient a b = sgn a * sgn b * (\<bar>a\<bar> div \<bar>b\<bar>)"

definition Milliseconds :: "int \<Rightarrow> int" where
  "Milliseconds d = quotient d 1000000"

text \<open>
  \<^verbatim>\<open>d.Hours() / 24\<close> is computed in \<^verbatim>\<open>float64\<close>: every operation rounds to 53 significant bits, ties to even.
  The values that occur are zero or between 2 to the power -64 and 2 to the power 64, so the exponent is found among
  these and no operation overflows or loses bits to a small exponent.
\<close>

definition roundEven :: "rat \<Rightarrow> int" where
  "roundEven x =
     (let n = \<lfloor>x\<rfloor>; r = x - of_int n in
      if r < 1 / 2 then n else if 1 / 2 < r then n + 1 else if even n then n else n + 1)"

definition pow2 :: "int \<Rightarrow> rat" where
  "pow2 e = (if 0 \<le> e then 2 ^ nat e else 1 / 2 ^ nat (- e))"

definition float64 :: "rat \<Rightarrow> rat" where
  "float64 x =
     (case find (\<lambda>e. pow2 e \<le> \<bar>x\<bar>) (rev [-64..64]) of
        None \<Rightarrow> 0
      | Some e \<Rightarrow> sgn x * of_int (roundEven (\<bar>x\<bar> * pow2 (52 - e))) * pow2 (e - 52))"

definition hour :: int where "hour = 3600000000000"

definition Hours :: "int \<Rightarrow> rat" where
  "Hours d =
     (let h = quotient d hour; nsec = d - h * hour in
      float64 (float64 (of_int h) + float64 (float64 (of_int nsec) / of_int hour)))"

definition daysOf :: "int \<Rightarrow> int" where
  "daysOf d = (let x = float64 (Hours d / 24) in if x < 0 then - \<lfloor>- x\<rfloor> else \<lfloor>x\<rfloor>)"

section \<open>The server and the configuration\<close>

definition ui_DiscoverServers :: "client_env \<Rightarrow> (seen_map \<Rightarrow> seen_map) \<Rightarrow> client_event list \<Rightarrow> int \<Rightarrow> int \<Rightarrow>
    (goerror + ServerInfo list) option" where
  "ui_DiscoverServers env shuffle events elapsed timeoutSec0 =
     (let timeoutSec = (if timeoutSec0 \<le> 0 then 3 else timeoutSec0);
          timeout = int64 (timeoutSec * 1000000000)
      in map_option
           (\<lambda>r. case r of
                  Inl e \<Rightarrow> Err (Wrapped ''discovery failed'' e)
                | Inr servers \<Rightarrow>
                    Ok (map (\<lambda>s. \<lparr>si_Hostname = ds_Hostname s, si_GRPCAddr = ds_GRPCAddr s, si_Version = ds_Version s,
                                  si_SourceIP = ds_SourceIP s, si_LatencyMs = Milliseconds elapsed\<rparr>) servers))
           (dr_result (DiscoverServers env shuffle
              \<lparr>cc_Port = 0, cc_Service = [], cc_Timeout = timeout, cc_ProbeAddrs = []\<rparr> events)))"

definition ui_LoadConfig :: "cfg_env \<Rightarrow> files \<Rightarrow> ConfigData" where
  "ui_LoadConfig env fs =
     (let configPath = ConfigPath env in
      case LoadConfig env fs configPath of
        Inl _ \<Rightarrow> \<lparr>cd_Addr = [], cd_CA = ''certs/ca.crt'', cd_Cert = ''certs/client.crt'', cd_Key = ''certs/client.key'',
                  cd_ConfigPath = configPath\<rparr>
      | Inr cfg \<Rightarrow> \<lparr>cd_Addr = cf_Addr cfg, cd_CA = cf_CA cfg, cd_Cert = cf_Cert cfg, cd_Key = cf_Key cfg,
                    cd_ConfigPath = configPath\<rparr>)"

definition ui_SaveConfig :: "unicode \<Rightarrow> cfg_env \<Rightarrow> files \<Rightarrow> ConfigData \<Rightarrow> files \<times> goerror option" where
  "ui_SaveConfig uc env fs cfg =
     (let path = (if cd_ConfigPath cfg = [] then ConfigPath env else cd_ConfigPath cfg);
          clientCfg = \<lparr>cf_Addr = TrimSpace uc (cd_Addr cfg), cf_CA = TrimSpace uc (cd_CA cfg),
                       cf_Cert = TrimSpace uc (cd_Cert cfg), cf_Key = TrimSpace uc (cd_Key cfg)\<rparr>
      in case SaveConfig env fs clientCfg path of (fs', _, err) \<Rightarrow> (fs', err))"

definition ResolveServerAddress :: "unicode \<Rightarrow> net_api \<Rightarrow> string \<Rightarrow> string \<Rightarrow> string" where
  "ResolveServerAddress uc net addr0 hostnameHint =
     (let addr = TrimSpace uc addr0 in
      if addr = [] then []
      else case addrParts addr of (host, port) \<Rightarrow> resolveOrTestHostname net host port hostnameHint)"

section \<open>Remote certificates\<close>

text \<open>
  The beginning that three methods share, up to the answer of the server. The arguments are the two messages
  in which the methods differ and the check of \<^verbatim>\<open>InstallCertificate\<close> between the address and the connection.
\<close>

definition withServer :: "unicode \<Rightarrow> os_env \<Rightarrow> 'kp tls_lib \<Rightarrow> ('ts, 'm) ui_world_scheme \<Rightarrow> ConfigData \<Rightarrow> goerror + unit \<Rightarrow>
    string \<Rightarrow> (string \<Rightarrow> string) \<Rightarrow> string \<Rightarrow> goerror + 'ts ListCertificatesResponse" where
  "withServer uc env tls w cfg check tlsMsg connectMsg listMsg =
     (let resolvedAddr = ResolveServerAddress uc (iw_net w) (cd_Addr cfg) [] in
      if resolvedAddr = [] then Err (ErrorString ''server address is required'')
      else
        andThen check (\<lambda>_.
        andThen (mapErr (Wrapped tlsMsg) (LoadClientTLSConfig uc env tls (cd_CA cfg) (cd_Cert cfg) (cd_Key cfg) (hostFromAddr resolvedAddr))) (\<lambda>_.
        andThen (mapErr (Wrapped (connectMsg resolvedAddr)) (iw_dial w)) (\<lambda>_.
        mapErr (Wrapped listMsg) (rpc_ListCertificates (iw_rpc w))))))"

definition connectTo :: "string \<Rightarrow> string" where "connectTo addr = ''connect to '' @ addr"

definition TestConnection :: "unicode \<Rightarrow> os_env \<Rightarrow> 'kp tls_lib \<Rightarrow> ('ts, 'm) ui_world_scheme \<Rightarrow> ConfigData \<Rightarrow> goerror + string" where
  "TestConnection uc env tls w cfg =
     andThen (withServer uc env tls w cfg (Ok ()) ''TLS configuration error'' (\<lambda>_. ''connection failed'') ''gRPC query failed'') (\<lambda>resp.
       Ok (''Connected successfully. Found '' @ dec_of_nat (length (lr_Certificates resp)) @ '' remote certificate(s).''))"

definition installedMap :: "unicode \<Rightarrow> goerror + CertificateInfo list \<Rightarrow> string set" where
  "installedMap uc r =
     (case r of Inl _ \<Rightarrow> {} | Inr certs \<Rightarrow> set (map (\<lambda>ic. NormalizeThumbprint uc (ci_Thumbprint ic)) certs))"

definition subjectAltNames :: "x509_cert \<Rightarrow> string list" where
  "subjectAltNames c = x_DNSNames c @ map (\<lambda>ip. IP_String (Some ip)) (x_IPAddresses c) @ x_EmailAddresses c"

definition extUsageName :: "int \<Rightarrow> string list" where
  "extUsageName e =
     (if e = ExtKeyUsageServerAuth then [''Server Auth'']
      else if e = ExtKeyUsageClientAuth then [''Client Auth'']
      else if e = ExtKeyUsageCodeSigning then [''Code Signing''] else [])"

definition usageNames :: "x509_cert \<Rightarrow> string list" where
  "usageNames c =
     (if and (x_KeyUsage c) KeyUsageDigitalSignature \<noteq> 0 then [''Digital Signature''] else []) @
     (if and (x_KeyUsage c) KeyUsageKeyEncipherment \<noteq> 0 then [''Key Encipherment''] else []) @
     concat (map extUsageName (x_ExtKeyUsage c))"

text \<open>One entry of the list; \<open>clock\<close> holds the two readings of the clock for it.\<close>

definition certificateItem :: "unicode \<Rightarrow> ('k, 'm) crypto_lib_scheme \<Rightarrow> string set \<Rightarrow> time \<times> time \<Rightarrow> 'ts proto_CertificateInfo \<Rightarrow>
    CertificateItem" where
  "certificateItem uc lib installed clock c =
     (let tp = NormalizeThumbprint uc (pc_Thumbprint c);
          item = \<lparr>it_Thumbprint = tp, it_Subject = pc_Subject c, it_Issuer = [], it_KeyAlgorithm = pc_KeyAlgorithm c,
                  it_KeySize = pc_KeySize c, it_NotBefore = [], it_NotAfter = [], it_IsExpired = False, it_DaysRemaining = 0,
                  it_SANs = [], it_KeyUsage = [], it_IsInstalled = tp \<in> installed\<rparr>
      in if length (pc_CertificateDer c) = 0 then item
         else case ParseCertificate lib (pc_CertificateDer c) of
                Inl _ \<Rightarrow> item
              | Inr x \<Rightarrow>
                  item\<lparr>it_Issuer := (if x_IssuerCN x = [] then x_Issuer x else x_IssuerCN x),
                       it_NotBefore := formatMinute (x_NotBefore x),
                       it_NotAfter := formatMinute (x_NotAfter x),
                       it_IsExpired := x_NotAfter x < fst clock,
                       it_DaysRemaining := daysOf (saturate64 (x_NotAfter x - snd clock)),
                       it_SANs := subjectAltNames x,
                       it_KeyUsage := usageNames x\<rparr>)"

definition ListRemoteCertificates :: "unicode \<Rightarrow> ('k, 'm) crypto_lib_scheme \<Rightarrow> os_env \<Rightarrow> 'kp tls_lib \<Rightarrow> ('ts, 'n) ui_world_scheme \<Rightarrow>
    (nat \<Rightarrow> time \<times> time) \<Rightarrow> ConfigData \<Rightarrow> goerror + CertificateItem list" where
  "ListRemoteCertificates uc lib env tls w clock cfg =
     andThen (withServer uc env tls w cfg (Ok ()) ''TLS config error'' connectTo ''list certificates'') (\<lambda>resp.
       let installed = installedMap uc (iw_byProvider w) in
       Ok (map (\<lambda>(i, c). certificateItem uc lib installed (clock i) c)
             (zip [0..<length (lr_Certificates resp)] (lr_Certificates resp))))"

section \<open>Installing and removing\<close>

record ui_install =
  ui_result :: "goerror + string"
  ui_files :: files
  ui_bound :: "(bytes \<times> string) list"

definition remoteTarget :: "unicode \<Rightarrow> string \<Rightarrow> 'ts ListCertificatesResponse \<Rightarrow> goerror + 'ts proto_CertificateInfo" where
  "remoteTarget uc normTP resp =
     (case find (\<lambda>c. NormalizeThumbprint uc (pc_Thumbprint c) = normTP) (lr_Certificates resp) of
        None \<Rightarrow> Err (ErrorString (''certificate with thumbprint '' @ normTP @ '' not found on server''))
      | Some target \<Rightarrow>
          if length (pc_CertificateDer target) = 0 then Err (ErrorString ''server returned empty certificate DER'')
          else Ok target)"

definition InstallCertificate :: "unicode \<Rightarrow> cfg_env \<Rightarrow> os_env \<Rightarrow> 'kp tls_lib \<Rightarrow> ('ts, 'm) ui_world_scheme \<Rightarrow> files \<Rightarrow> ConfigData \<Rightarrow>
    string \<Rightarrow> ui_install" where
  "InstallCertificate uc cenv env tls w fs cfg thumbprint =
     (let normTP = NormalizeThumbprint uc thumbprint;
          check = (if normTP = [] then Err (ErrorString ''invalid thumbprint'') else Ok ());
          fail = (\<lambda>e. \<lparr>ui_result = Err e, ui_files = fs, ui_bound = []\<rparr>)
      in case andThen (withServer uc env tls w cfg check ''TLS config'' connectTo ''list certificates'') (remoteTarget uc normTP) of
           Inl e \<Rightarrow> fail e
         | Inr target \<Rightarrow>
       (case iw_bind w (pc_CertificateDer target) normTP of
          Inl e \<Rightarrow> fail (Wrapped ''bind certificate to Windows store'' e)
        | Inr _ \<Rightarrow>
            \<lparr>ui_result = Ok (''Successfully installed '' @ pc_Subject target @ '' into Current User'' @ [CHR 0x5C] @
                ''MY and bound to '' @ ProviderName),
             ui_files = fst (ui_SaveConfig uc cenv fs cfg),
             ui_bound = [(pc_CertificateDer target, normTP)]\<rparr>))"

definition installedItem :: "unicode \<Rightarrow> CertificateInfo \<Rightarrow> InstalledItem" where
  "installedItem uc sc =
     (let tp = NormalizeThumbprint uc (ci_Thumbprint sc) in
      \<lparr>ii_Thumbprint = tp, ii_Subject = ci_Subject sc, ii_Issuer = ci_Issuer sc,
       ii_NotAfter = (if ci_NotAfter sc \<noteq> time_zero then formatMinute (ci_NotAfter sc) else []),
       ii_Provider = (if ci_ProviderName sc = [] then ProviderName else ci_ProviderName sc), ii_Container = tp,
       ii_KeyAlgorithm = ci_KeyAlgorithm sc, ii_KeySize = ci_KeySize sc, ii_IsTPM = ci_IsTPM sc, ii_InStore = True\<rparr>)"

definition ListInstalledCertificates :: "unicode \<Rightarrow> ('ts, 'm) ui_world_scheme \<Rightarrow> goerror + InstalledItem list" where
  "ListInstalledCertificates uc w =
     andThen (mapErr (Wrapped ''query certificate store'') (iw_byProvider w)) (\<lambda>certs. Ok (map (installedItem uc) certs))"

definition UninstallCertificate :: "unicode \<Rightarrow> ('ts, 'm) ui_world_scheme \<Rightarrow> string \<Rightarrow> (goerror + string) \<times> string list" where
  "UninstallCertificate uc w thumbprint =
     (let tp = NormalizeThumbprint uc thumbprint in
      if tp = [] then (Err (ErrorString ''invalid thumbprint''), [])
      else case iw_remove w tp of
             Inl e \<Rightarrow> (Err (Wrapped ''remove certificate from store'' e), [])
           | Inr _ \<Rightarrow> (Ok (''Successfully uninstalled certificate '' @ tp), [tp]))"

definition GetDiagnostics :: "cfg_env \<Rightarrow> ('ts, 'm) ui_world_scheme \<Rightarrow> (string \<Rightarrow> goerror option) \<Rightarrow> DiagnosticsInfo" where
  "GetDiagnostics env w os_Stat =
     \<lparr>dg_ProviderName = ProviderName, dg_DataDir = DataDir env, dg_ConfigPath = ConfigPath env,
      dg_TotalKeys = (case iw_byProvider w of Inl _ \<Rightarrow> 0 | Inr certs \<Rightarrow> length certs),
      dg_ConfigExists = (os_Stat (ConfigPath env) = None)\<rparr>"

section \<open>The test signature\<close>

definition resolveHash :: "unicode \<Rightarrow> string \<Rightarrow> HashAlgorithm \<times> string \<times> nat" where
  "resolveHash uc algo =
     (let a = ToUpper uc (TrimSpace uc algo) in
      if a \<in> {''SHA384'', ''SHA-384''} then (HashSHA384, ''SHA-384'', 48)
      else if a \<in> {''SHA512'', ''SHA-512''} then (HashSHA512, ''SHA-512'', 64)
      else (HashSHA256, ''SHA-256'', 32))"

definition hashMessage :: "('k, 'm) crypto_lib_scheme \<Rightarrow> HashAlgorithm \<Rightarrow> bytes \<Rightarrow> bytes" where
  "hashMessage lib hashAlgo msg =
     (if hashAlgo = HashSHA384 then sha512_Sum384 lib msg
      else if hashAlgo = HashSHA512 then sha512_Sum512 lib msg
      else sha256_Sum256 lib msg)"

definition resolveDigest :: "unicode \<Rightarrow> ('k, 'm) crypto_lib_scheme \<Rightarrow> TestSignRequest \<Rightarrow> HashAlgorithm \<times> string \<times> nat \<Rightarrow> goerror + bytes" where
  "resolveDigest uc lib req h =
     (case h of (hashAlgo, hashName, digestSize) \<Rightarrow>
       (if ToLower uc (TrimSpace uc (tq_InputType req)) \<in> {''hex'', ''hex_digest'', ''digest''} then
          andThen (mapErr (Wrapped ''invalid hex digest'') (DecodeString (removeAll (CHR '' '') (TrimSpace uc (tq_Message req))))) (\<lambda>rawDigest.
          if length rawDigest \<noteq> digestSize
          then Err (ErrorString (''hex digest length ('' @ dec_of_nat (length rawDigest) @ '' bytes) does not match '' @ hashName @
                 '' required length ('' @ dec_of_nat digestSize @ '' bytes)''))
          else Ok rawDigest)
        else if tq_Message req = [] then Err (ErrorString ''message to sign must not be empty'')
        else Ok (hashMessage lib hashAlgo (bytes_of_string (tq_Message req)))))"

definition ui_resolvePadding :: "unicode \<Rightarrow> string \<Rightarrow> RSAPadding \<times> string" where
  "ui_resolvePadding uc padding =
     (if ToLower uc (TrimSpace uc padding) \<in> {''pss'', ''rsapss'', ''rsa-pss''} then (RSAPaddingPSS, ''PSS'')
      else (RSAPaddingPKCS1, ''PKCS#1 v1.5''))"

definition subjectFor :: "unicode \<Rightarrow> goerror + CertificateInfo list \<Rightarrow> string \<Rightarrow> string" where
  "subjectFor uc r normTP =
     (case r of
        Inl _ \<Rightarrow> normTP
      | Inr certs \<Rightarrow>
          (case find (\<lambda>c. NormalizeThumbprint uc (ci_Thumbprint c) = normTP) certs of
             None \<Rightarrow> normTP | Some c \<Rightarrow> ci_Subject c))"

definition TestSign :: "unicode \<Rightarrow> ('k, 'm) crypto_lib_scheme \<Rightarrow> ('ts, 'n) ui_world_scheme \<Rightarrow> int \<Rightarrow> TestSignRequest \<Rightarrow>
    goerror + TestSignResult" where
  "TestSign uc lib w elapsed req =
     (let normTP = NormalizeThumbprint uc (tq_Thumbprint req) in
      if normTP = [] then Err (ErrorString ''certificate thumbprint is required'')
      else
        (let h = resolveHash uc (tq_HashAlgo req); (padding, paddingName) = ui_resolvePadding uc (tq_Padding req) in
         andThen (resolveDigest uc lib req h) (\<lambda>digest.
         andThen (mapErr (Wrapped ''test signing failed'') (uw_SignHash w normTP digest (fst h) padding)) (\<lambda>signResp.
         Ok \<lparr>tr_Thumbprint = normTP, tr_Subject = subjectFor uc (uw_List w) normTP, tr_HashAlgorithm = fst (snd h),
             tr_DigestHex = EncodeToString digest, tr_Padding = paddingName,
             tr_SignatureAlgorithm = sr_SignatureAlgorithm signResp,
             tr_SignatureBase64 = base64_Encode (sr_Signature signResp),
             tr_SignatureHex = EncodeToString (sr_Signature signResp),
             tr_DurationMs = Milliseconds elapsed\<rparr>))))"

section \<open>Lemmas\<close>

lemma resolveHash_sizes:
  "(fst (resolveHash uc a), fst (snd (resolveHash uc a)), snd (snd (resolveHash uc a))) \<in>
     {(HashSHA256, ''SHA-256'', 32), (HashSHA384, ''SHA-384'', 48), (HashSHA512, ''SHA-512'', 64)}"
  by (simp add: resolveHash_def Let_def)

lemma hashMessage_length:
  assumes "sha2_lengths lib"
  shows "length (hashMessage lib (fst (resolveHash uc a)) msg) = snd (snd (resolveHash uc a))"
  using assms by (auto simp: resolveHash_def hashMessage_def sha2_lengths_def hash_consts Let_def)

lemma resolveDigest_length:
  assumes "sha2_lengths lib" and "resolveDigest uc lib req (resolveHash uc a) = Ok digest"
  shows "length digest = snd (snd (resolveHash uc a))"
  using assms(2) hashMessage_length [OF assms(1), of uc a]
  by (auto simp: resolveDigest_def split: prod.splits if_splits)

lemma withServer_Ok_iff:
  "withServer uc env tls w cfg check m1 m2 m3 = Ok resp \<longleftrightarrow>
     check = Ok () \<and> ResolveServerAddress uc (iw_net w) (cd_Addr cfg) [] \<noteq> [] \<and>
     isOk (LoadClientTLSConfig uc env tls (cd_CA cfg) (cd_Cert cfg) (cd_Key cfg)
       (hostFromAddr (ResolveServerAddress uc (iw_net w) (cd_Addr cfg) []))) \<and>
     iw_dial w = Ok () \<and> rpc_ListCertificates (iw_rpc w) = Ok resp"
  by (auto simp: withServer_def Let_def andThen_Ok_iff isOk_iff split: sum.splits)

lemma remoteTarget_Ok:
  assumes "remoteTarget uc tp resp = Ok c"
  shows "c \<in> set (lr_Certificates resp)" and "NormalizeThumbprint uc (pc_Thumbprint c) = tp" and "pc_CertificateDer c \<noteq> []"
  using assms by (auto simp: remoteTarget_def split: option.splits if_splits dest!: find_Some_D)

lemma InstallCertificate_cases:
  assumes "InstallCertificate uc cenv env tls w fs cfg thumbprint = run"
  shows "(\<exists>e. run = \<lparr>ui_result = Err e, ui_files = fs, ui_bound = []\<rparr>) \<or>
    (\<exists>resp c m. NormalizeThumbprint uc thumbprint \<noteq> [] \<and>
       withServer uc env tls w cfg (Ok ()) ''TLS config'' connectTo ''list certificates'' = Ok resp \<and>
       remoteTarget uc (NormalizeThumbprint uc thumbprint) resp = Ok c \<and>
       iw_bind w (pc_CertificateDer c) (NormalizeThumbprint uc thumbprint) = Ok () \<and>
       run = \<lparr>ui_result = Ok m, ui_files = fst (ui_SaveConfig uc cenv fs cfg),
              ui_bound = [(pc_CertificateDer c, NormalizeThumbprint uc thumbprint)]\<rparr>)"
  using assms unfolding InstallCertificate_def Let_def
  by (auto split: sum.split_asm if_split_asm simp: andThen_Ok_iff withServer_Ok_iff)

lemma installedMap_iff:
  "tp \<in> installedMap uc r \<longleftrightarrow> (\<exists>certs c. r = Ok certs \<and> c \<in> set certs \<and> NormalizeThumbprint uc (ci_Thumbprint c) = tp)"
  by (auto simp: installedMap_def split: sum.split)

lemma ui_SaveConfig_success:
  assumes "snd (ui_SaveConfig uc env fs cfg) = None"
  shows "\<exists>cfg'. fst (ui_SaveConfig uc env fs cfg) (if cd_ConfigPath cfg = [] then ConfigPath env else cd_ConfigPath cfg) =
      Ok (MarshalIndent (config_fields cfg')) \<and> cf_Addr cfg' = TrimSpace uc (cd_Addr cfg)"
proof -
  let ?path = "if cd_ConfigPath cfg = [] then ConfigPath env else cd_ConfigPath cfg"
  let ?cfg = "\<lparr>cf_Addr = TrimSpace uc (cd_Addr cfg), cf_CA = TrimSpace uc (cd_CA cfg),
    cf_Cert = TrimSpace uc (cd_Cert cfg), cf_Key = TrimSpace uc (cd_Key cfg)\<rparr>"
  obtain fs' cfg' r where s: "SaveConfig env fs ?cfg ?path = (fs', cfg', r)" by (metis prod_cases3)
  have u: "ui_SaveConfig uc env fs cfg = (fs', r)"
    unfolding ui_SaveConfig_def Let_def by (simp only: s) simp
  with assms have "r = None" by simp
  from SaveConfig_success [OF s [unfolded this]] u show ?thesis by (intro exI [of _ cfg']) simp
qed

section \<open>Properties\<close>

text \<open>
  A test signature that succeeds is what the store returned for the digest that the result shows:
  the digest has the length of the hash algorithm that the result names, the hexadecimal forms decode to
  the digest and the signature, and the thumbprint given to the store is the normalised one and not empty.
\<close>

lemma TestSign_signs_exact:
  assumes "sha2_lengths lib" and "TestSign uc lib w elapsed req = Ok res"
  shows "\<exists>digest algo padding r. uw_SignHash w (tr_Thumbprint res) digest algo padding = Ok r \<and>
    (algo, tr_HashAlgorithm res, length digest) \<in>
      {(HashSHA256, ''SHA-256'', 32), (HashSHA384, ''SHA-384'', 48), (HashSHA512, ''SHA-512'', 64)} \<and>
    (padding, tr_Padding res) \<in> {(RSAPaddingPSS, ''PSS''), (RSAPaddingPKCS1, ''PKCS#1 v1.5'')} \<and>
    DecodeString (tr_DigestHex res) = Ok digest \<and> DecodeString (tr_SignatureHex res) = Ok (sr_Signature r) \<and>
    tr_Thumbprint res = NormalizeThumbprint uc (tq_Thumbprint req) \<and> tr_Thumbprint res \<noteq> []"
proof -
  let ?h = "resolveHash uc (tq_HashAlgo req)"
  obtain padding pname where p: "ui_resolvePadding uc (tq_Padding req) = (padding, pname)" by fastforce
  from assms(2) p obtain digest r where d: "resolveDigest uc lib req ?h = Ok digest"
    and s: "uw_SignHash w (NormalizeThumbprint uc (tq_Thumbprint req)) digest (fst ?h) padding = Ok r"
    and res: "tr_Thumbprint res = NormalizeThumbprint uc (tq_Thumbprint req)" "tr_Thumbprint res \<noteq> []"
      "tr_HashAlgorithm res = fst (snd ?h)" "tr_DigestHex res = EncodeToString digest" "tr_Padding res = pname"
      "tr_SignatureHex res = EncodeToString (sr_Signature r)"
    by (auto simp: TestSign_def Let_def split: if_splits)
  from p have "(padding, pname) \<in> {(RSAPaddingPSS, ''PSS''), (RSAPaddingPKCS1, ''PKCS#1 v1.5'')}"
    by (auto simp: ui_resolvePadding_def split: if_splits)
  with s res resolveHash_sizes [of uc "tq_HashAlgo req"] resolveDigest_length [OF assms(1) d]
  show ?thesis
    by (intro exI [of _ digest] exI [of _ "fst ?h"] exI [of _ padding] exI [of _ r])
      (simp add: DecodeString_EncodeToString)
qed

text \<open>
  An installation from the window either fails, and then it has bound nothing and changed no file, or it
  binds exactly one certificate, which the server has listed with a thumbprint that is the same after
  normalisation, and then saves the configuration.
\<close>

lemma InstallCertificate_binds_listed:
  assumes "InstallCertificate uc cenv env tls w fs cfg thumbprint = run"
  shows "if isOk (ui_result run)
    then ui_files run = fst (ui_SaveConfig uc cenv fs cfg) \<and>
      (\<exists>resp c. rpc_ListCertificates (iw_rpc w) = Ok resp \<and> c \<in> set (lr_Certificates resp) \<and>
         NormalizeThumbprint uc (pc_Thumbprint c) = NormalizeThumbprint uc thumbprint \<and> pc_CertificateDer c \<noteq> [] \<and>
         ui_bound run = [(pc_CertificateDer c, NormalizeThumbprint uc thumbprint)] \<and>
         iw_bind w (pc_CertificateDer c) (NormalizeThumbprint uc thumbprint) = Ok ())
    else ui_files run = fs \<and> ui_bound run = []"
  using InstallCertificate_cases [OF assms]
proof (elim disjE exE conjE)
  fix resp c m
  assume "withServer uc env tls w cfg (Ok ()) ''TLS config'' connectTo ''list certificates'' = Ok resp"
    and c: "remoteTarget uc (NormalizeThumbprint uc thumbprint) resp = Ok c"
    and "iw_bind w (pc_CertificateDer c) (NormalizeThumbprint uc thumbprint) = Ok ()"
    and run: "run = \<lparr>ui_result = Ok m, ui_files = fst (ui_SaveConfig uc cenv fs cfg),
      ui_bound = [(pc_CertificateDer c, NormalizeThumbprint uc thumbprint)]\<rparr>"
  then show ?thesis using remoteTarget_Ok [OF c] by (auto simp: withServer_Ok_iff run)
qed simp

text \<open>
  The installation saves the address as it was entered, and not the one that it has connected to: when
  the address has no port, the connection goes to port 50051, and the saved address has none.
\<close>

lemma install_saves_address_without_port:
  assumes "InstallCertificate uc cenv env tls w fs cfg thumbprint = run" and "isOk (ui_result run)"
    and "snd (ui_SaveConfig uc cenv fs cfg) = None" and "SplitHostPort (TrimSpace uc (cd_Addr cfg)) = Err e"
  shows "\<exists>cfg' h. ui_files run (if cd_ConfigPath cfg = [] then ConfigPath cenv else cd_ConfigPath cfg) =
      Ok (MarshalIndent (config_fields cfg')) \<and>
    cf_Addr cfg' = TrimSpace uc (cd_Addr cfg) \<and> SplitHostPort (cf_Addr cfg') = Err e \<and>
    ResolveServerAddress uc (iw_net w) (cd_Addr cfg) [] = JoinHostPort h ''50051''"
proof -
  from InstallCertificate_cases [OF assms(1)] assms(2) have f: "ui_files run = fst (ui_SaveConfig uc cenv fs cfg)"
    and a: "ResolveServerAddress uc (iw_net w) (cd_Addr cfg) [] \<noteq> []"
    by (auto simp: withServer_Ok_iff)
  from assms(3) f have "\<exists>cfg'. ui_files run (if cd_ConfigPath cfg = [] then ConfigPath cenv else cd_ConfigPath cfg) =
      Ok (MarshalIndent (config_fields cfg')) \<and> cf_Addr cfg' = TrimSpace uc (cd_Addr cfg)"
    using ui_SaveConfig_success by simp
  moreover from a assms(4) have "\<exists>h. ResolveServerAddress uc (iw_net w) (cd_Addr cfg) [] = JoinHostPort h ''50051''"
    using resolveOrTestHostname_port
    by (auto simp: ResolveServerAddress_def addrParts_def Let_def split: if_splits)
  ultimately show ?thesis using assms(4) by auto
qed

text \<open>
  What the window lists is what it can install: the list has one entry for each certificate of the server,
  an entry is marked as installed exactly when the store has a certificate of the provider with the same
  thumbprint, and, for a server whose thumbprints differ, the thumbprint of an entry selects its certificate.
\<close>

lemma listed_item_selects_its_certificate:
  assumes "ListRemoteCertificates uc lib env tls w clock cfg = Ok items"
    and "rpc_ListCertificates (iw_rpc w) = Ok resp" and "i < length items"
    and "distinct (map (\<lambda>c. NormalizeThumbprint uc (pc_Thumbprint c)) (lr_Certificates resp))"
    and "list_all (\<lambda>c. is_ascii (pc_Thumbprint c) \<and> ctrl_free (pc_Thumbprint c)) (lr_Certificates resp)"
    and "pc_CertificateDer (lr_Certificates resp ! i) \<noteq> []"
  shows "length items = length (lr_Certificates resp) \<and>
    (it_IsInstalled (items ! i) \<longleftrightarrow>
       (\<exists>certs c. iw_byProvider w = Ok certs \<and> c \<in> set certs \<and> NormalizeThumbprint uc (ci_Thumbprint c) = it_Thumbprint (items ! i))) \<and>
    remoteTarget uc (NormalizeThumbprint uc (it_Thumbprint (items ! i))) resp = Ok (lr_Certificates resp ! i)"
proof -
  let ?cs = "lr_Certificates resp"
  from assms(1,2) have items: "items = map (\<lambda>(i, c). certificateItem uc lib (installedMap uc (iw_byProvider w)) (clock i) c)
      (zip [0..<length ?cs] ?cs)"
    by (auto simp: ListRemoteCertificates_def withServer_Ok_iff Let_def)
  with assms(3) have i: "i < length ?cs" by simp
  with items have tp: "it_Thumbprint (items ! i) = NormalizeThumbprint uc (pc_Thumbprint (?cs ! i))"
    and inst: "it_IsInstalled (items ! i) \<longleftrightarrow> it_Thumbprint (items ! i) \<in> installedMap uc (iw_byProvider w)"
    by (simp_all add: certificateItem_def Let_def split: sum.split)
  from i assms(5) have "NormalizeThumbprint uc (it_Thumbprint (items ! i)) = NormalizeThumbprint uc (pc_Thumbprint (?cs ! i))"
    unfolding tp by (auto simp: list_all_length NormalizeThumbprint_idem)
  moreover from i assms(4) have "find (\<lambda>c. NormalizeThumbprint uc (pc_Thumbprint c) = NormalizeThumbprint uc (pc_Thumbprint (?cs ! i))) ?cs
      = Some (?cs ! i)"
    by (auto simp: find_Some_iff distinct_conv_nth)
  ultimately show ?thesis
    using arg_cong [OF items, of length] assms(6) unfolding inst installedMap_iff by (simp add: remoteTarget_def)
qed

section \<open>The sample run\<close>

definition demo_ui_world :: "nat ui_world" where
  "demo_ui_world = install_world.extend demo_install_world
     (ui_world.fields (Ok [demo_entry ''AABB''])
        (\<lambda>tp digest algo padding. Ok \<lparr>sr_Signature = digest, sr_SignatureAlgorithm = ''RSA'', sr_Padding = padding\<rparr>))"

lemma demo_ui_world_simps [simp]:
  "iw_net demo_ui_world = demo_net" "iw_dial demo_ui_world = Ok ()" "iw_rpc demo_ui_world = demo_rpc"
  "iw_byProvider demo_ui_world = Ok []" "iw_bind demo_ui_world der tp = Ok ()"
  "uw_List demo_ui_world = Ok [demo_entry ''AABB'']"
  "uw_SignHash demo_ui_world tp digest algo padding =
     Ok \<lparr>sr_Signature = digest, sr_SignatureAlgorithm = ''RSA'', sr_Padding = padding\<rparr>"
  by (simp_all add: demo_ui_world_def demo_install_world_def install_world.defs ui_world.defs)

definition demo_sign_request :: TestSignRequest where
  "demo_sign_request = \<lparr>tq_Thumbprint = ''aa:bb'', tq_Message = ''hello'', tq_InputType = ''text'', tq_HashAlgo = ''sha384'',
     tq_Padding = ''pss''\<rparr>"

lemma demo_TestSign: "isOk (TestSign demo_uc demo_lib demo_ui_world 5 demo_sign_request)"
proof -
  have n: "NormalizeThumbprint demo_uc ''aa:bb'' = ''AABB''" "ToLower demo_uc (TrimSpace demo_uc ''text'') = ''text''"
    by code_simp+
  show ?thesis
    by (simp add: TestSign_def demo_sign_request_def n resolveDigest_def Let_def split: prod.split)
qed

lemma TestSign_signs_exact_witness:
  "\<exists>res digest. TestSign demo_uc demo_lib demo_ui_world 5 demo_sign_request = Ok res \<and>
     DecodeString (tr_DigestHex res) = Ok digest \<and> length digest \<in> {32, 48, 64}"
proof -
  from demo_TestSign obtain res where r: "TestSign demo_uc demo_lib demo_ui_world 5 demo_sign_request = Ok res"
    by (auto simp: isOk_iff)
  from TestSign_signs_exact [OF demo_sha2_lengths r] r show ?thesis by blast
qed

definition demo_cfg_data :: ConfigData where
  "demo_cfg_data = \<lparr>cd_Addr = '' 10.0.0.1 '', cd_CA = ''d/a.crt'', cd_Cert = ''d/a.crt'', cd_Key = ''d/a.key'', cd_ConfigPath = ''p''\<rparr>"

lemma demo_ui_addr:
  "ResolveServerAddress demo_uc demo_net '' 10.0.0.1 '' [] = ''srv:50051''" "NormalizeThumbprint demo_uc ''aa:bb'' = ''AABB''"
  "TrimSpace demo_uc '' 10.0.0.1 '' = ''10.0.0.1''" "\<exists>e. SplitHostPort ''10.0.0.1'' = Err e"
  by (code_simp, code_simp, code_simp, simp add: SplitHostPort_def addrErr_def)

lemma demo_withServer:
  "withServer demo_uc demo_env demo_tls demo_ui_world demo_cfg_data (Ok ()) m1 m2 m3 = Ok demo_remote"
  by (simp add: withServer_Ok_iff demo_cfg_data_def demo_ui_addr demo_entered demo_client_tls demo_rpc_def)

lemma demo_ui_install:
  "isOk (ui_result (InstallCertificate demo_uc demo_cfg_env demo_env demo_tls demo_ui_world (\<lambda>_. Err json_error) demo_cfg_data ''aa:bb''))"
  by (simp add: InstallCertificate_def demo_ui_addr demo_withServer remoteTarget_def demo_remote_def Let_def)

lemma InstallCertificate_binds_listed_witness:
  "ui_bound (InstallCertificate demo_uc demo_cfg_env demo_env demo_tls demo_ui_world (\<lambda>_. Err json_error) demo_cfg_data ''aa:bb'') =
     [([1], ''AABB'')]"
  using InstallCertificate_binds_listed [OF refl, of demo_uc demo_cfg_env demo_env demo_tls demo_ui_world "\<lambda>_. Err json_error"
      demo_cfg_data "''aa:bb''"] demo_ui_install
  by (auto simp: demo_rpc_def demo_remote_def demo_ui_addr)

lemma install_saves_address_without_port_witness:
  "\<exists>cfg' e. ui_files (InstallCertificate demo_uc demo_cfg_env demo_env demo_tls demo_ui_world (\<lambda>_. Err json_error) demo_cfg_data ''aa:bb'')
      ''p'' = Ok (MarshalIndent (config_fields cfg')) \<and> cf_Addr cfg' = ''10.0.0.1'' \<and> SplitHostPort (cf_Addr cfg') = Err e"
proof -
  obtain e where e: "SplitHostPort (TrimSpace demo_uc (cd_Addr demo_cfg_data)) = Err e"
    using demo_ui_addr(4) by (auto simp: demo_cfg_data_def demo_ui_addr(3))
  have t: "TrimSpace demo_uc ''d/a.crt'' = ''d/a.crt''" "TrimSpace demo_uc ''d/a.key'' = ''d/a.key''" by code_simp+
  have s: "snd (ui_SaveConfig demo_uc demo_cfg_env (\<lambda>_. Err json_error) demo_cfg_data) = None"
    by (simp add: ui_SaveConfig_def SaveConfig_def demo_cfg_env_def demo_cfg_data_def absField_def t Let_def)
  from install_saves_address_without_port [OF refl demo_ui_install s e] e show ?thesis
    by (auto simp: demo_cfg_data_def demo_ui_addr)
qed

lemma listed_item_selects_its_certificate_witness:
  "\<exists>items. ListRemoteCertificates demo_uc demo_lib demo_env demo_tls demo_ui_world (\<lambda>_. (5, 5)) demo_cfg_data = Ok items \<and>
     length items = 1 \<and> remoteTarget demo_uc (NormalizeThumbprint demo_uc (it_Thumbprint (items ! 0))) demo_remote =
     Ok (lr_Certificates demo_remote ! 0)"
proof -
  obtain items where i: "ListRemoteCertificates demo_uc demo_lib demo_env demo_tls demo_ui_world (\<lambda>_. (5, 5)) demo_cfg_data = Ok items"
      "length items = 1"
    by (simp add: ListRemoteCertificates_def demo_withServer demo_remote_def Let_def)
  have r: "rpc_ListCertificates (iw_rpc demo_ui_world) = Ok demo_remote" by (simp add: demo_rpc_def)
  have a: "list_all (\<lambda>c. is_ascii (pc_Thumbprint c) \<and> ctrl_free (pc_Thumbprint c)) (lr_Certificates demo_remote)" by code_simp
  have d: "distinct (map (\<lambda>c. NormalizeThumbprint demo_uc (pc_Thumbprint c)) (lr_Certificates demo_remote))"
    "pc_CertificateDer (lr_Certificates demo_remote ! 0) \<noteq> []"
    by (simp_all add: demo_remote_def)
  from listed_item_selects_its_certificate [OF i(1) r, of 0] i a d show ?thesis by auto
qed

end
