(* ===== verification/Ui_Window.thy ===== *)
theory Ui_Window
  imports Install_Ui
begin

text \<open>
  The window of the installer: the file dialog (\<^verbatim>\<open>cmd/ksp-install-ui/filedialog_windows.go\<close>), the start of the
  program (\<^verbatim>\<open>main.go\<close>) and a session of the page with the methods that \<^verbatim>\<open>main\<close> binds. The dialog of
  Windows, the web view and the page are parameters.
\<close>

section \<open>The file dialog (filedialog\_windows.go)\<close>

text \<open>
  The fields of the dialog structure that are set; a pointer to an array is the array. \<open>structSize\<close> is
  \<^verbatim>\<open>unsafe.Sizeof\<close> for fields whose alignment is their size, on a 64-bit system.
\<close>

record openFileNameW =
  lStructSize :: "32 word"
  lpstrFilter :: "16 word list"
  nFilterIndex :: "32 word"
  lpstrFile :: "16 word list"
  nMaxFile :: "32 word"
  lpstrTitle :: string
  ofn_flags :: "32 word"

definition alignUp :: "nat \<Rightarrow> nat \<Rightarrow> nat" where
  "alignUp a n = (n + a - 1) div a * a"

definition structSize :: "nat list \<Rightarrow> nat" where
  "structSize sizes = alignUp 8 (foldl (\<lambda>off a. alignUp a off + a) 0 sizes)"

definition openFileNameW_fields :: "nat list" where
  "openFileNameW_fields = [4, 8, 8, 8, 8, 4, 4, 8, 4, 8, 4, 8, 8, 4, 2, 2, 8, 8, 8, 8, 8, 4, 4]"

definition ofnFileMustExist :: "32 word" where "ofnFileMustExist = 0x00001000"
definition ofnPathMustExist :: "32 word" where "ofnPathMustExist = 0x00000800"
definition ofnExplorer :: "32 word" where "ofnExplorer = 0x00080000"
definition ofnNoChangeDir :: "32 word" where "ofnNoChangeDir = 0x00000008"
definition ofnHideReadOnly :: "32 word" where "ofnHideReadOnly = 0x00000004"

text \<open>
  \<open>GetOpenFileNameW\<close> returns its result and the buffer for the path as it leaves it.
\<close>

record dialog_api =
  GetOpenFileNameW :: "openFileNameW \<Rightarrow> nat \<times> 16 word list"
  UTF16ToString :: "16 word list \<Rightarrow> string"
  filepath_Clean :: "string \<Rightarrow> string"

text \<open>\<^verbatim>\<open>append(filterUTF16, uint16(r))\<close> for each code point: the conversion keeps the low 16 bits.\<close>

definition filterUnits :: "string \<Rightarrow> 16 word list" where
  "filterUnits s = map of_nat (runes s)"

definition filterUTF16 :: "string \<Rightarrow> string \<Rightarrow> 16 word list" where
  "filterUTF16 filterDesc filterPattern = filterUnits filterDesc @ [0] @ filterUnits filterPattern @ [0, 0]"

definition selectFileDialog :: "unicode \<Rightarrow> dialog_api \<Rightarrow> string \<Rightarrow> string \<Rightarrow> string \<Rightarrow> goerror + string" where
  "selectFileDialog uc da title0 filterDesc0 filterPattern0 =
     (let title = (if title0 = [] then ''Select File'' else title0);
          (filterDesc, filterPattern) =
            (if filterDesc0 = [] then (''All Files (*.*)'', ''*.*'') else (filterDesc0, filterPattern0));
          filter16 = filterUTF16 filterDesc filterPattern
      in andThen (UTF16PtrFromString title) (\<lambda>titleUTF16.
         let fileBuf = replicate 2048 0;
             ofn = \<lparr>lStructSize = of_nat (structSize openFileNameW_fields), lpstrFilter = filter16, nFilterIndex = 1,
                    lpstrFile = fileBuf, nMaxFile = of_nat (length fileBuf), lpstrTitle = titleUTF16,
                    ofn_flags = or (or (or (or ofnFileMustExist ofnPathMustExist) ofnExplorer) ofnNoChangeDir) ofnHideReadOnly\<rparr>;
             (r, fileBuf) = GetOpenFileNameW da ofn
         in if r = 0 then Ok [] else Ok (filepath_Clean da (TrimSpace uc (UTF16ToString da fileBuf)))))"

definition SelectFile :: "unicode \<Rightarrow> dialog_api \<Rightarrow> string \<Rightarrow> string \<Rightarrow> string \<Rightarrow> goerror + string" where
  "SelectFile uc da title filterDesc filterPattern = selectFileDialog uc da title filterDesc filterPattern"

section \<open>The start of the program (main.go)\<close>

text \<open>
  What \<^verbatim>\<open>main\<close> gets from outside: the embedded file system, the loopback listener with its port, the web
  view (\<open>False\<close> for nil) and the binding of a method under a name.
\<close>

record ui_main_env =
  um_Sub :: "goerror option"
  um_Listen :: "goerror + nat"
  um_NewWithOptions :: bool
  um_Bind :: "string \<Rightarrow> goerror option"

datatype ui_exit = LogFatal string | Exit1 string | MainReturned

datatype ui_deferred = listener_Close | httpServer_Close | webview_Destroy

text \<open>
  A run of \<^verbatim>\<open>main\<close>: how it ends, the names that are bound, the page the window is sent to, and the
  deferred calls in the order in which they run. \<^verbatim>\<open>log.Fatalf\<close> and \<^verbatim>\<open>os.Exit\<close> run none of them.
\<close>

record ui_main_run =
  mr_exit :: ui_exit
  mr_bound :: "string list"
  mr_navigated :: "string option"
  mr_deferred :: "ui_deferred list"

definition serverURL :: "nat \<Rightarrow> string" where
  "serverURL port = ''http://127.0.0.1:'' @ dec_of_nat port @ ''/index.html''"

definition boundNames :: "string list" where
  "boundNames = [''LoadConfig'', ''SaveConfig'', ''DiscoverServers'', ''TestConnection'', ''ListRemoteCertificates'',
     ''InstallCertificate'', ''ListInstalledCertificates'', ''UninstallCertificate'', ''SelectFile'', ''GetDiagnostics'',
     ''TestSign'']"

text \<open>The bindings one after the other, up to the first that fails.\<close>

fun bindAll :: "(string \<Rightarrow> goerror option) \<Rightarrow> string list \<Rightarrow> string list \<times> string option" where
  "bindAll bnd [] = ([], None)"
| "bindAll bnd (name # names) =
     (case bnd name of
        Some e \<Rightarrow> ([], Some (''failed to bind '' @ name @ '': '' @ Error e))
      | None \<Rightarrow> (case bindAll bnd names of (bound, r) \<Rightarrow> (name # bound, r)))"

definition ui_main :: "ui_main_env \<Rightarrow> ui_main_run" where
  "ui_main env =
     (let stopped = (\<lambda>x bound. \<lparr>mr_exit = x, mr_bound = bound, mr_navigated = None, mr_deferred = []\<rparr>) in
      case um_Sub env of
        Some e \<Rightarrow> stopped (LogFatal (''failed to load embedded ui assets: '' @ Error e)) []
      | None \<Rightarrow>
     (case um_Listen env of
        Inl e \<Rightarrow> stopped (LogFatal (''failed to bind loopback listener: '' @ Error e)) []
      | Inr port \<Rightarrow>
     (if \<not> um_NewWithOptions env
      then stopped (Exit1 (''Failed to initialize WebView2. Make sure Microsoft Edge WebView2 Runtime is installed.'' @ [newline])) []
      else case bindAll (um_Bind env) boundNames of
             (bound, Some msg) \<Rightarrow> stopped (LogFatal msg) bound
           | (bound, None) \<Rightarrow>
               \<lparr>mr_exit = MainReturned, mr_bound = bound, mr_navigated = Some (serverURL port),
                mr_deferred = [webview_Destroy, httpServer_Close, listener_Close]\<rparr>)))"

text \<open>The other platforms (\<^verbatim>\<open>main_stub.go\<close>).\<close>

definition ui_stub_main :: ui_main_run where
  "ui_stub_main = \<lparr>mr_exit = Exit1 (''KeylessProxyKsp is only supported on Windows.'' @ [newline]), mr_bound = [],
     mr_navigated = None, mr_deferred = []\<rparr>"

section \<open>A session\<close>

text \<open>
  A call of the page: a bound name with its arguments. Each call is answered with what is outside
  at that moment; what the calls change is the files and, in the certificate store, what was bound and what
  was removed.
\<close>

datatype ui_request =
    LoadConfig_req
  | SaveConfig_req ConfigData
  | DiscoverServers_req int
  | TestConnection_req ConfigData
  | ListRemoteCertificates_req ConfigData
  | InstallCertificate_req ConfigData string
  | ListInstalledCertificates_req
  | UninstallCertificate_req string
  | SelectFile_req string string string
  | GetDiagnostics_req
  | TestSign_req TestSignRequest

fun method_name :: "ui_request \<Rightarrow> string" where
  "method_name LoadConfig_req = ''LoadConfig''"
| "method_name (SaveConfig_req cfg) = ''SaveConfig''"
| "method_name (DiscoverServers_req timeoutSec) = ''DiscoverServers''"
| "method_name (TestConnection_req cfg) = ''TestConnection''"
| "method_name (ListRemoteCertificates_req cfg) = ''ListRemoteCertificates''"
| "method_name (InstallCertificate_req cfg thumbprint) = ''InstallCertificate''"
| "method_name ListInstalledCertificates_req = ''ListInstalledCertificates''"
| "method_name (UninstallCertificate_req thumbprint) = ''UninstallCertificate''"
| "method_name (SelectFile_req title desc pat) = ''SelectFile''"
| "method_name GetDiagnostics_req = ''GetDiagnostics''"
| "method_name (TestSign_req req) = ''TestSign''"

datatype ui_reply =
    Config_reply ConfigData
  | Done_reply "goerror option"
  | Servers_reply "(goerror + ServerInfo list) option"
  | Message_reply "goerror + string"
  | Certificates_reply "goerror + CertificateItem list"
  | Installed_reply "goerror + InstalledItem list"
  | Diagnostics_reply DiagnosticsInfo
  | Signed_reply "goerror + TestSignResult"

record 'ts ui_outside =
  uo_world :: "'ts ui_world"
  uo_client :: client_env
  uo_shuffle :: "seen_map \<Rightarrow> seen_map"
  uo_events :: "client_event list"
  uo_elapsed :: int
  uo_clock :: "nat \<Rightarrow> time \<times> time"
  uo_dialog :: dialog_api
  uo_Stat :: "string \<Rightarrow> goerror option"

record ui_state =
  us_files :: files
  us_bound :: "(bytes \<times> string) list"
  us_removed :: "string list"

fun ui_call :: "unicode \<Rightarrow> ('k, 'm) crypto_lib_scheme \<Rightarrow> cfg_env \<Rightarrow> os_env \<Rightarrow> 'kp tls_lib \<Rightarrow> 'ts ui_outside \<Rightarrow> ui_request \<Rightarrow>
    ui_state \<Rightarrow> ui_state \<times> ui_reply" where
  "ui_call uc lib cenv env tls out LoadConfig_req s = (s, Config_reply (ui_LoadConfig cenv (us_files s)))"
| "ui_call uc lib cenv env tls out (SaveConfig_req cfg) s =
     (case ui_SaveConfig uc cenv (us_files s) cfg of (fs, r) \<Rightarrow> (s\<lparr>us_files := fs\<rparr>, Done_reply r))"
| "ui_call uc lib cenv env tls out (DiscoverServers_req timeoutSec) s =
     (s, Servers_reply (ui_DiscoverServers (uo_client out) (uo_shuffle out) (uo_events out) (uo_elapsed out) timeoutSec))"
| "ui_call uc lib cenv env tls out (TestConnection_req cfg) s =
     (s, Message_reply (TestConnection uc env tls (uo_world out) cfg))"
| "ui_call uc lib cenv env tls out (ListRemoteCertificates_req cfg) s =
     (s, Certificates_reply (ListRemoteCertificates uc lib env tls (uo_world out) (uo_clock out) cfg))"
| "ui_call uc lib cenv env tls out (InstallCertificate_req cfg thumbprint) s =
     (let run = InstallCertificate uc cenv env tls (uo_world out) (us_files s) cfg thumbprint in
      (s\<lparr>us_files := ui_files run, us_bound := us_bound s @ ui_bound run\<rparr>, Message_reply (ui_result run)))"
| "ui_call uc lib cenv env tls out ListInstalledCertificates_req s =
     (s, Installed_reply (ListInstalledCertificates uc (uo_world out)))"
| "ui_call uc lib cenv env tls out (UninstallCertificate_req thumbprint) s =
     (case UninstallCertificate uc (uo_world out) thumbprint of
        (r, removed) \<Rightarrow> (s\<lparr>us_removed := us_removed s @ removed\<rparr>, Message_reply r))"
| "ui_call uc lib cenv env tls out (SelectFile_req title desc pat) s =
     (s, Message_reply (SelectFile uc (uo_dialog out) title desc pat))"
| "ui_call uc lib cenv env tls out GetDiagnostics_req s =
     (s, Diagnostics_reply (GetDiagnostics cenv (uo_world out) (uo_Stat out)))"
| "ui_call uc lib cenv env tls out (TestSign_req req) s =
     (s, Signed_reply (TestSign uc lib (uo_world out) (uo_elapsed out) req))"

inductive ui_session :: "unicode \<Rightarrow> ('k, 'm) crypto_lib_scheme \<Rightarrow> cfg_env \<Rightarrow> os_env \<Rightarrow> 'kp tls_lib \<Rightarrow> files \<Rightarrow>
    ('ts ui_outside \<times> ui_request) list \<Rightarrow> ui_state \<Rightarrow> bool"
  for uc :: unicode and lib :: "('k, 'm) crypto_lib_scheme" and cenv :: cfg_env and env :: os_env
    and tls :: "'kp tls_lib" and fs :: files where
  opened: "ui_session uc lib cenv env tls fs [] \<lparr>us_files = fs, us_bound = [], us_removed = []\<rparr>"
| called: "ui_session uc lib cenv env tls fs calls s \<Longrightarrow> ui_call uc lib cenv env tls out req s = (s', reply) \<Longrightarrow>
    ui_session uc lib cenv env tls fs (calls @ [(out, req)]) s'"

inductive_cases ui_session_snocE: "ui_session uc lib cenv env tls fs (calls @ [(out, req)]) s"

section \<open>Lemmas\<close>

lemma bindAll_all: "bindAll bnd names = (bound, None) \<longleftrightarrow> bound = names \<and> list_all (\<lambda>n. bnd n = None) names"
proof (induction names arbitrary: bound)
  case (Cons n ns)
  then show ?case by (cases "bindAll bnd ns") (auto split: option.split)
qed auto

lemma method_name_bound: "method_name req \<in> set boundNames"
  by (cases req) (simp_all add: boundNames_def)

definition saved_path :: "cfg_env \<Rightarrow> ConfigData \<Rightarrow> string" where
  "saved_path cenv cfg = (if cd_ConfigPath cfg = [] then ConfigPath cenv else cd_ConfigPath cfg)"

lemma ui_SaveConfig_touches:
  assumes "q \<noteq> saved_path cenv cfg"
  shows "fst (ui_SaveConfig uc cenv fs cfg) q = fs q"
proof -
  let ?p = "saved_path cenv cfg"
  have "fst (SaveConfig cenv fs c ?p) q = fs q" for c
    using assms by (auto simp: SaveConfig_def saved_path_def Let_def split: option.split sum.split)
  then show ?thesis unfolding ui_SaveConfig_def Let_def saved_path_def [symmetric] by (simp add: split_beta)
qed

text \<open>What a session may have done, given its calls.\<close>

definition bound_by :: "unicode \<Rightarrow> ('ts ui_outside \<times> ui_request) list \<Rightarrow> bytes \<Rightarrow> string \<Rightarrow> bool" where
  "bound_by uc calls der tp \<longleftrightarrow>
     (\<exists>out cfg thumbprint resp c. (out, InstallCertificate_req cfg thumbprint) \<in> set calls \<and>
        rpc_ListCertificates (iw_rpc (uo_world out)) = Ok resp \<and> c \<in> set (lr_Certificates resp) \<and>
        pc_CertificateDer c = der \<and> NormalizeThumbprint uc (pc_Thumbprint c) = tp \<and>
        NormalizeThumbprint uc thumbprint = tp)"

definition may_remove :: "unicode \<Rightarrow> ('ts ui_outside \<times> ui_request) list \<Rightarrow> string \<Rightarrow> bool" where
  "may_remove uc calls tp \<longleftrightarrow>
     (\<exists>out thumbprint. (out, UninstallCertificate_req thumbprint) \<in> set calls \<and> NormalizeThumbprint uc thumbprint = tp)"

definition may_write :: "cfg_env \<Rightarrow> ('ts ui_outside \<times> ui_request) list \<Rightarrow> string \<Rightarrow> bool" where
  "may_write cenv calls q \<longleftrightarrow>
     (\<exists>out cfg. saved_path cenv cfg = q \<and>
        ((out, SaveConfig_req cfg) \<in> set calls \<or> (\<exists>thumbprint. (out, InstallCertificate_req cfg thumbprint) \<in> set calls)))"

definition session_ok :: "unicode \<Rightarrow> cfg_env \<Rightarrow> files \<Rightarrow> ('ts ui_outside \<times> ui_request) list \<Rightarrow> ui_state \<Rightarrow> bool" where
  "session_ok uc cenv fs calls s \<longleftrightarrow>
     (\<forall>(der, tp) \<in> set (us_bound s). der \<noteq> [] \<and> tp \<noteq> [] \<and> bound_by uc calls der tp) \<and>
     (\<forall>tp \<in> set (us_removed s). tp \<noteq> [] \<and> may_remove uc calls tp) \<and>
     (\<forall>q. us_files s q = fs q \<or> may_write cenv calls q)"

lemma session_ok_mono:
  assumes "session_ok uc cenv fs calls s" and "set calls \<subseteq> set calls'"
  shows "session_ok uc cenv fs calls' s"
proof -
  have "bound_by uc calls der tp \<Longrightarrow> bound_by uc calls' der tp" for der tp
    using assms(2) unfolding bound_by_def by blast
  moreover have "may_remove uc calls tp \<Longrightarrow> may_remove uc calls' tp" for tp
    using assms(2) unfolding may_remove_def by blast
  moreover have "may_write cenv calls q \<Longrightarrow> may_write cenv calls' q" for q
    using assms(2) unfolding may_write_def by blast
  ultimately show ?thesis using assms(1) unfolding session_ok_def by fast
qed

lemma session_ok_files:
  "session_ok uc cenv fs calls s \<Longrightarrow> (\<And>q. us_files s q = fs' q \<or> may_write cenv calls q) \<Longrightarrow>
     session_ok uc cenv fs calls (s\<lparr>us_files := fs'\<rparr>)"
  unfolding session_ok_def by simp metis

lemma session_ok_bound:
  "session_ok uc cenv fs calls s \<Longrightarrow> der \<noteq> [] \<Longrightarrow> tp \<noteq> [] \<Longrightarrow> bound_by uc calls der tp \<Longrightarrow>
     session_ok uc cenv fs calls (s\<lparr>us_bound := us_bound s @ [(der, tp)]\<rparr>)"
  unfolding session_ok_def by auto

lemma session_ok_removed:
  "session_ok uc cenv fs calls s \<Longrightarrow> tp \<noteq> [] \<Longrightarrow> may_remove uc calls tp \<Longrightarrow>
     session_ok uc cenv fs calls (s\<lparr>us_removed := us_removed s @ [tp]\<rparr>)"
  unfolding session_ok_def by auto

lemma session_ok_save:
  assumes "session_ok uc cenv fs calls s" and "may_write cenv calls (saved_path cenv cfg)"
  shows "session_ok uc cenv fs calls (s\<lparr>us_files := fst (ui_SaveConfig uc cenv (us_files s) cfg)\<rparr>)"
  using assms by (intro session_ok_files) (metis ui_SaveConfig_touches)+

lemma session_ok_install:
  fixes out :: "'ts ui_outside"
  assumes "session_ok uc cenv fs calls s" and "(out, InstallCertificate_req cfg thumbprint) \<in> set calls"
    and "run = InstallCertificate uc cenv env tls (uo_world out) (us_files s) cfg thumbprint"
  shows "session_ok uc cenv fs calls (s\<lparr>us_files := ui_files run, us_bound := us_bound s @ ui_bound run\<rparr>)"
  using InstallCertificate_cases [OF assms(3) [symmetric]]
proof (elim disjE exE conjE)
  fix e
  assume "run = \<lparr>ui_result = Err e, ui_files = us_files s, ui_bound = []\<rparr>"
  with assms(1) show ?thesis by simp
next
  fix resp c m
  assume tp: "NormalizeThumbprint uc thumbprint \<noteq> []"
    and srv: "withServer uc env tls (uo_world out) cfg (Ok ()) ''TLS config'' connectTo ''list certificates'' = Ok resp"
    and c: "remoteTarget uc (NormalizeThumbprint uc thumbprint) resp = Ok c"
    and run: "run = \<lparr>ui_result = Ok m, ui_files = fst (ui_SaveConfig uc cenv (us_files s) cfg),
      ui_bound = [(pc_CertificateDer c, NormalizeThumbprint uc thumbprint)]\<rparr>"
  from srv have rpc: "rpc_ListCertificates (iw_rpc (uo_world out)) = Ok resp" by (simp add: withServer_Ok_iff)
  have "may_write cenv calls (saved_path cenv cfg)" using assms(2) unfolding may_write_def by blast
  from session_ok_save [OF assms(1) this]
  have "session_ok uc cenv fs calls (s\<lparr>us_files := ui_files run\<rparr>)" by (simp add: run)
  moreover have "bound_by uc calls (pc_CertificateDer c) (NormalizeThumbprint uc thumbprint)"
    unfolding bound_by_def using assms(2) rpc remoteTarget_Ok [OF c] by blast
  ultimately have "session_ok uc cenv fs calls ((s\<lparr>us_files := ui_files run\<rparr>)
      \<lparr>us_bound := us_bound (s\<lparr>us_files := ui_files run\<rparr>) @ [(pc_CertificateDer c, NormalizeThumbprint uc thumbprint)]\<rparr>)"
    using tp remoteTarget_Ok(3) [OF c] by (intro session_ok_bound) auto
  then show ?thesis by (simp add: run)
qed

lemma session_ok_call:
  assumes "session_ok uc cenv fs calls s" and "(out, req) \<in> set calls"
  shows "session_ok uc cenv fs calls (fst (ui_call uc lib cenv env tls out req s))"
proof (cases req)
  case (SaveConfig_req cfg)
  with assms(2) have "may_write cenv calls (saved_path cenv cfg)" unfolding may_write_def by blast
  from session_ok_save [OF assms(1) this] show ?thesis by (simp add: SaveConfig_req split_beta)
next
  case (InstallCertificate_req cfg thumbprint)
  with session_ok_install [OF assms(1) assms(2) [unfolded InstallCertificate_req] refl, of env tls] show ?thesis
    by (simp add: Let_def)
next
  case (UninstallCertificate_req thumbprint)
  with assms(2) have "may_remove uc calls (NormalizeThumbprint uc thumbprint)" unfolding may_remove_def by blast
  from session_ok_removed [OF assms(1) _ this] assms(1) show ?thesis
    by (simp add: UninstallCertificate_req UninstallCertificate_def Let_def split: sum.split)
qed (use assms(1) in simp_all)

section \<open>Properties\<close>

text \<open>
  C39: whatever the page calls, and in whatever order, a session binds only certificates that a server listed
  in answer to a call of the session that names them, under the thumbprint of the certificate, never an empty
  one; it removes only thumbprints that a call names; and it writes no file but the configuration
  that a call saves. Every call is one of the names that are bound.
\<close>

theorem ui_session_effects:
  fixes calls :: "('ts ui_outside \<times> ui_request) list"
  assumes "ui_session uc lib cenv env tls fs calls s"
  shows "(\<forall>(der, tp) \<in> set (us_bound s). der \<noteq> [] \<and> tp \<noteq> [] \<and> bound_by uc calls der tp) \<and>
    (\<forall>tp \<in> set (us_removed s). tp \<noteq> [] \<and> may_remove uc calls tp) \<and>
    (\<forall>q. us_files s q = fs q \<or> may_write cenv calls q) \<and>
    (\<forall>(out, req) \<in> set calls. method_name req \<in> set boundNames)"
proof -
  from assms have "session_ok uc cenv fs calls s"
  proof (induction rule: ui_session.induct)
    case opened
    show ?case by (simp add: session_ok_def)
  next
    case (called calls s out req s' reply)
    have "session_ok uc cenv fs (calls @ [(out, req)]) s" using called.IH by (rule session_ok_mono) auto
    from session_ok_call [OF this, of out req lib env tls] called.hyps(2) show ?case by simp
  qed
  then show ?thesis by (auto simp: session_ok_def method_name_bound)
qed

text \<open>
  The window is shown only with all methods behind it. If \<^verbatim>\<open>main\<close> comes to load the page then each of
  the eleven names the page may call is bound, once, the page is the one served on the loopback address, and on
  return the window, the server and the listener are closed in this order; if anything fails before that, no page is
  loaded.
\<close>

lemma ui_main_binds_all:
  "(mr_navigated (ui_main env) \<noteq> None \<longleftrightarrow>
     um_Sub env = None \<and> isOk (um_Listen env) \<and> um_NewWithOptions env \<and> list_all (\<lambda>n. um_Bind env n = None) boundNames) \<and>
   (case mr_navigated (ui_main env) of
      None \<Rightarrow> mr_exit (ui_main env) \<noteq> MainReturned \<and> mr_deferred (ui_main env) = []
    | Some url \<Rightarrow> (\<exists>port. um_Listen env = Ok port \<and> url = ''http://127.0.0.1:'' @ dec_of_nat port @ ''/index.html'') \<and>
        mr_exit (ui_main env) = MainReturned \<and> distinct (mr_bound (ui_main env)) \<and>
        set (mr_bound (ui_main env)) = range method_name \<and>
        mr_deferred (ui_main env) = [webview_Destroy, httpServer_Close, listener_Close])"
proof -
  have names: "set boundNames = range method_name"
  proof
    show "range method_name \<subseteq> set boundNames" using method_name_bound by auto
    have "\<exists>req. n = method_name req" if "n \<in> set boundNames" for n
      using that unfolding boundNames_def set_simps insert_iff empty_iff
      by (elim disjE) (metis method_name.simps)+
    then show "set boundNames \<subseteq> range method_name" by auto
  qed
  have dist: "distinct boundNames" by (simp add: boundNames_def)
  obtain bound r where b: "bindAll (um_Bind env) boundNames = (bound, r)" by fastforce
  show ?thesis
  proof (cases r)
    case None
    with b bindAll_all [of "um_Bind env" boundNames bound] names dist show ?thesis
      by (auto simp: ui_main_def Let_def serverURL_def isOk_iff split: option.split sum.split)
  next
    case (Some msg)
    with b bindAll_all [of "um_Bind env" boundNames boundNames] show ?thesis
      by (auto simp: ui_main_def Let_def split: option.split sum.split)
  qed
qed

section \<open>The filter of the dialog\<close>

text \<open>
  How the dialog reads the filter: pairs of strings, each ended by a zero unit, up to an empty string.
\<close>

definition splitZero :: "16 word list \<Rightarrow> 16 word list \<times> 16 word list" where
  "splitZero us = (takeWhile (\<lambda>u. u \<noteq> 0) us, drop 1 (dropWhile (\<lambda>u. u \<noteq> 0) us))"

lemma splitZero_append: "0 \<notin> set us \<Longrightarrow> splitZero (us @ 0 # rest) = (us, rest)"
  by (induction us) (auto simp: splitZero_def)

lemma splitZero_length: "length (snd (splitZero us)) \<le> length us"
  by (simp add: splitZero_def) (metis length_dropWhile_le diff_le_self le_trans)

lemma splitZero_shorter: "fst (splitZero us) \<noteq> [] \<Longrightarrow> length (snd (splitZero us)) < length us"
  by (cases us) (auto simp: splitZero_def less_Suc_eq_le intro: le_trans [OF diff_le_self length_dropWhile_le])

function filterPairs :: "16 word list \<Rightarrow> (16 word list \<times> 16 word list) list" where
  "filterPairs us =
     (let (desc, rest) = splitZero us in
      if desc = [] then []
      else let (pat, rest') = splitZero rest in (desc, pat) # filterPairs rest')"
  by pat_completeness auto
termination
proof (relation "measure length")
  fix us x desc rest y pat rest'
  assume "x = splitZero us" "(desc, rest) = x" "desc \<noteq> []" "y = splitZero rest" "(pat, rest') = y"
  then show "(rest', us) \<in> measure length"
    using splitZero_shorter [of us] splitZero_length [of rest] by (metis fst_conv in_measure le_less_trans snd_conv)
qed simp

declare filterPairs.simps [simp del]

lemma filterUnits_nonzero:
  assumes "\<forall>r \<in> set (runes s). 0 < r \<and> r < 2 ^ 16"
  shows "0 \<notin> set (filterUnits s)" and "map unat (filterUnits s) = runes s"
proof -
  have u: "unat (of_nat r :: 16 word) = r" if "r \<in> set (runes s)" for r
    using assms that by (simp add: unat_of_nat take_bit_nat_eq_self)
  have "of_nat r \<noteq> (0 :: 16 word)" if "r \<in> set (runes s)" for r
    using assms that u [OF that] by (metis less_irrefl unat_0)
  with u show "0 \<notin> set (filterUnits s)" "map unat (filterUnits s) = runes s"
    by (auto simp: filterUnits_def map_idI)
qed

text \<open>
  The filter that the dialog shows is the one that is asked for: for a description and a pattern
  whose code points are between 1 and 0xFFFF, the dialog reads exactly one pair, the units of the
  description and of the pattern, and the units are the code points. Above 0xFFFF this fails: the conversion
  keeps the low 16 bits, and a description that starts with U+10000 reads as the end of the filters.
\<close>

lemma dialog_filter_roundtrip:
  assumes "\<forall>r \<in> set (runes desc). 0 < r \<and> r < 2 ^ 16" and "\<forall>r \<in> set (runes pat). 0 < r \<and> r < 2 ^ 16"
    and "desc \<noteq> []"
  shows "filterPairs (filterUTF16 desc pat) = [(filterUnits desc, filterUnits pat)] \<and>
    map unat (filterUnits desc) = runes desc \<and> map unat (filterUnits pat) = runes pat \<and>
    filterPairs (filterUTF16 (EncodeRune 0x10000 @ desc) pat) = []"
proof -
  note d = filterUnits_nonzero [OF assms(1)] and p = filterUnits_nonzero [OF assms(2)]
  from assms(3) have "runes desc \<noteq> []" by (cases desc) (auto split: option.split)
  then have ne: "filterUnits desc \<noteq> []" by (simp add: filterUnits_def)
  have "splitZero (filterUTF16 desc pat) = (filterUnits desc, filterUnits pat @ 0 # [0])"
    using splitZero_append [OF d(1), of "filterUnits pat @ [0, 0]"] by (simp add: filterUTF16_def)
  moreover have "splitZero (filterUnits pat @ 0 # [0]) = (filterUnits pat, [0])" by (rule splitZero_append [OF p(1)])
  moreover have "filterPairs [0] = []" by (simp add: filterPairs.simps [of "[0]"] splitZero_def)
  ultimately have "filterPairs (filterUTF16 desc pat) = [(filterUnits desc, filterUnits pat)]"
    using ne by (subst filterPairs.simps) simp
  moreover have "runes (EncodeRune 0x10000 @ desc) = 0x10000 # runes desc"
    by (simp add: EncodeRune_def DecodeRune_def cont_in_def contv_def)
  then have "filterPairs (filterUTF16 (EncodeRune 0x10000 @ desc) pat) = []"
    by (subst filterPairs.simps) (simp add: filterUTF16_def filterUnits_def splitZero_def)
  ultimately show ?thesis using d(2) p(2) by simp
qed

lemma dialog_filter_roundtrip_witness:
  "filterPairs (filterUTF16 ''Certs'' ''*.crt'') = [(filterUnits ''Certs'', filterUnits ''*.crt'')] \<and>
   filterPairs (filterUTF16 (EncodeRune 0x10000 @ ''Certs'') ''*.crt'') = []"
proof -
  have "is_ascii ''Certs''" "is_ascii ''*.crt''" by code_simp+
  from this [THEN runes_ascii]
  have "\<forall>r \<in> set (runes ''Certs''). 0 < r \<and> r < 2 ^ 16" "\<forall>r \<in> set (runes ''*.crt''). 0 < r \<and> r < 2 ^ 16"
    by simp_all
  from dialog_filter_roundtrip [OF this] show ?thesis by simp
qed

section \<open>A session that installs\<close>

definition demo_outside :: "nat ui_outside" where
  "demo_outside = \<lparr>uo_world = demo_ui_world, uo_client = demo_client_env, uo_shuffle = id, uo_events = demo_events,
     uo_elapsed = 5, uo_clock = (\<lambda>_. (5, 5)),
     uo_dialog = \<lparr>GetOpenFileNameW = (\<lambda>_. (0, [])), UTF16ToString = (\<lambda>_. []), filepath_Clean = id\<rparr>,
     uo_Stat = (\<lambda>_. None)\<rparr>"

lemma demo_outside_world [simp]: "uo_world demo_outside = demo_ui_world"
  by (simp add: demo_outside_def)

definition demo_calls :: "(nat ui_outside \<times> ui_request) list" where
  "demo_calls = [(demo_outside, UninstallCertificate_req []), (demo_outside, InstallCertificate_req demo_cfg_data ''aa:bb'')]"

definition demo_session_state :: ui_state where
  "demo_session_state = \<lparr>us_files = fst (ui_SaveConfig demo_uc demo_cfg_env (\<lambda>_. Err json_error) demo_cfg_data),
     us_bound = [([1], ''AABB'')], us_removed = []\<rparr>"

lemma demo_session: "ui_session demo_uc demo_lib demo_cfg_env demo_env demo_tls (\<lambda>_. Err json_error) demo_calls demo_session_state"
proof -
  let ?S = "ui_session demo_uc demo_lib demo_cfg_env demo_env demo_tls (\<lambda>_. Err json_error)"
  let ?s0 = "\<lparr>us_files = (\<lambda>_. Err json_error), us_bound = [], us_removed = []\<rparr>"
  have n: "NormalizeThumbprint demo_uc [] = []" by code_simp
  have "?S [(demo_outside, UninstallCertificate_req [])] ?s0"
    using ui_session.called [OF ui_session.opened, of demo_uc demo_lib demo_cfg_env demo_env demo_tls demo_outside
        "UninstallCertificate_req []" "\<lambda>_. Err json_error" ?s0 "Message_reply (Err (ErrorString ''invalid thumbprint''))"]
    by (simp add: UninstallCertificate_def n)
  from ui_session.called [OF this, of demo_outside "InstallCertificate_req demo_cfg_data ''aa:bb''"]
  show ?thesis
    by (simp add: demo_calls_def demo_session_state_def Let_def InstallCertificate_def demo_ui_addr demo_withServer
        remoteTarget_def demo_remote_def)
qed

theorem ui_session_effects_witness:
  "us_bound demo_session_state = [([1], ''AABB'')] \<and> bound_by demo_uc demo_calls [1] ''AABB''"
proof -
  have b: "us_bound demo_session_state = [([1], ''AABB'')]" by (simp add: demo_session_state_def)
  from ui_session_effects [OF demo_session] have "bound_by demo_uc demo_calls [1] ''AABB''"
    unfolding b by (simp only: list.set insert_iff empty_iff) fast
  with b show ?thesis by simp
qed

end
