(* ===== verification/Go_Tabwriter.thy ===== *)
theory Go_Tabwriter
  imports Go_Json
begin

text \<open>
  The package \<^verbatim>\<open>text/tabwriter\<close> as \<^verbatim>\<open>tabwriter.NewWriter(w, minwidth, 0, padding, ' ', 0)\<close> uses it: cells that are
  ended by tabs, vertical tabs, newlines or form feeds, text between two bytes 0xff that is copied as it is, and column
  blocks of adjacent lines. The buffer and the positions into it are the texts of the cells. The main
  result is that a table of clean cells with the same number of columns comes out aligned.
\<close>

section \<open>Cells\<close>

record tab_cell =
  tc_text :: string
  tc_width :: int

text \<open>
  The current cell is the text it has so far, the width of the part that has been measured, and the part that has
  not; \<open>tw_escaped\<close> is set between two bytes 0xff.
\<close>

record tabwriter =
  tw_text :: string
  tw_width :: int
  tw_unmeasured :: string
  tw_escaped :: bool
  tw_lines :: "tab_cell list list"
  tw_output :: string

definition tab_reset :: "string \<Rightarrow> tabwriter" where
  "tab_reset out = \<lparr>tw_text = [], tw_width = 0, tw_unmeasured = [], tw_escaped = False, tw_lines = [[]], tw_output = out\<rparr>"

definition tab_append :: "char \<Rightarrow> tabwriter \<Rightarrow> tabwriter" where
  "tab_append ch w = w\<lparr>tw_text := tw_text w @ [ch], tw_unmeasured := tw_unmeasured w @ [ch]\<rparr>"

definition updateWidth :: "tabwriter \<Rightarrow> tabwriter" where
  "updateWidth w = w\<lparr>tw_width := tw_width w + int (length (runes (tw_unmeasured w))), tw_unmeasured := []\<rparr>"

definition endEscape :: "tabwriter \<Rightarrow> tabwriter" where
  "endEscape w = (let w = updateWidth w in w\<lparr>tw_width := tw_width w - 2, tw_escaped := False\<rparr>)"

definition terminateCell :: "tabwriter \<Rightarrow> tabwriter" where
  "terminateCell w =
     w\<lparr>tw_lines := butlast (tw_lines w) @ [last (tw_lines w) @ [\<lparr>tc_text = tw_text w, tc_width = tw_width w\<rparr>]],
       tw_text := [], tw_width := 0\<rparr>"

definition tab_addLine :: "tabwriter \<Rightarrow> tabwriter" where
  "tab_addLine w = w\<lparr>tw_lines := tw_lines w @ [[]]\<rparr>"

section \<open>Formatting\<close>

definition paddedCell :: "int list \<Rightarrow> nat \<Rightarrow> tab_cell \<Rightarrow> string" where
  "paddedCell widths j c =
     tc_text c @ (if j < length widths then replicate (nat (widths ! j - tc_width c)) (CHR '' '') else [])"

fun lineCells :: "int list \<Rightarrow> nat \<Rightarrow> tab_cell list \<Rightarrow> string" where
  "lineCells widths j [] = []"
| "lineCells widths j (c # cs) = paddedCell widths j c @ lineCells widths (Suc j) cs"

text \<open>The lines of a block; \<open>True\<close> marks the last buffered line, which is not ended by a newline.\<close>

type_synonym tab_line = "tab_cell list \<times> bool"

definition writeLine :: "int list \<Rightarrow> tab_line \<Rightarrow> string" where
  "writeLine widths ln = lineCells widths 0 (fst ln) @ (if snd ln then [] else [newline])"

definition writeLines :: "int list \<Rightarrow> tab_line list \<Rightarrow> string" where
  "writeLines widths ls = concat (map (writeLine widths) ls)"

definition hasColumn :: "nat \<Rightarrow> tab_line \<Rightarrow> bool" where
  "hasColumn column ln \<longleftrightarrow> column + 1 < length (fst ln)"

definition blockWidth :: "int \<Rightarrow> int \<Rightarrow> nat \<Rightarrow> tab_line list \<Rightarrow> int" where
  "blockWidth minwidth padding column block =
     foldl (\<lambda>width ln. if width < tc_width (fst ln ! column) + padding then tc_width (fst ln ! column) + padding else width)
       minwidth block"

function tab_format :: "int \<Rightarrow> int \<Rightarrow> int list \<Rightarrow> tab_line list \<Rightarrow> string" where
  "tab_format minwidth padding widths ls =
     (let column = length widths;
          before = takeWhile (\<lambda>l. \<not> hasColumn column l) ls;
          rest = dropWhile (\<lambda>l. \<not> hasColumn column l) ls;
          block = takeWhile (hasColumn column) rest;
          after = dropWhile (hasColumn column) rest
      in writeLines widths before @
         (if rest = [] then []
          else tab_format minwidth padding (widths @ [blockWidth minwidth padding column block]) block @
               tab_format minwidth padding widths after))"
  by pat_completeness auto

definition tab_size :: "nat \<Rightarrow> tab_line list \<Rightarrow> nat" where
  "tab_size column ls = sum_list (map (\<lambda>l. Suc (length (fst l) - column)) ls)"

lemma tab_size_append: "tab_size column (xs @ ys) = tab_size column xs + tab_size column ys"
  by (simp add: tab_size_def)

lemma tab_size_split:
  "tab_size column ls = tab_size column (takeWhile P ls) + tab_size column (dropWhile P ls)"
  by (metis tab_size_append takeWhile_dropWhile_id)

lemma tab_size_block:
  assumes "\<forall>l \<in> set block. hasColumn column l" and "block \<noteq> []"
  shows "tab_size (Suc column) block < tab_size column block"
  using assms
proof (induction block)
  case (Cons l block)
  then show ?case by (cases "block = []") (auto simp: tab_size_def hasColumn_def)
qed simp

lemma dropWhile_not_first:
  assumes "dropWhile (\<lambda>l. \<not> P l) ls \<noteq> []"
  shows "takeWhile P (dropWhile (\<lambda>l. \<not> P l) ls) \<noteq> []"
  using hd_dropWhile [OF assms] assms by (cases "dropWhile (\<lambda>l. \<not> P l) ls") auto

lemma tab_size_pos: "ls \<noteq> [] \<Longrightarrow> 0 < tab_size column ls"
  by (cases ls) (simp_all add: tab_size_def)

termination tab_format
proof (relation "measure (\<lambda>(minwidth, padding, widths, ls). tab_size (length widths) ls)", goal_cases)
  case (2 minwidth padding widths ls column before rest block after)
  then have ne: "block \<noteq> []" using dropWhile_not_first by metis
  have "\<forall>l \<in> set block. hasColumn column l" using 2 by (auto dest: set_takeWhileD)
  from tab_size_block [OF this ne] 2 show ?case
    using tab_size_split [of column ls "\<lambda>l. \<not> hasColumn column l"] tab_size_split [of column rest "hasColumn column"]
    by simp
next
  case (3 minwidth padding widths ls column before rest block after)
  then have ne: "block \<noteq> []" using dropWhile_not_first by metis
  from tab_size_pos [OF ne, of column] 3 show ?case
    using tab_size_split [of column ls "\<lambda>l. \<not> hasColumn column l"] tab_size_split [of column rest "hasColumn column"]
    by simp
qed simp

declare tab_format.simps [simp del]

section \<open>Writing\<close>

definition markLast :: "tab_cell list list \<Rightarrow> tab_line list" where
  "markLast lines = map (\<lambda>l. (l, False)) (butlast lines) @ [(last lines, True)]"

definition tab_Flush :: "int \<Rightarrow> int \<Rightarrow> tabwriter \<Rightarrow> tabwriter" where
  "tab_Flush minwidth padding w =
     (let w = (if tw_text w \<noteq> [] then terminateCell (if tw_escaped w then endEscape w else w) else w)
      in tab_reset (tw_output w @ tab_format minwidth padding [] (markLast (tw_lines w))))"

definition tab_ends :: "char \<Rightarrow> bool" where
  "tab_ends ch \<longleftrightarrow> byteval ch \<in> {9, 10, 11, 12}"

definition tab_byte :: "int \<Rightarrow> int \<Rightarrow> char \<Rightarrow> tabwriter \<Rightarrow> tabwriter" where
  "tab_byte minwidth padding ch w =
     (if tw_escaped w then
        (let w = tab_append ch w in if byteval ch = 0xFF then endEscape w else w)
      else if tab_ends ch then
        (let w = terminateCell (updateWidth w); ncells = length (last (tw_lines w)) in
         if byteval ch = 10 \<or> byteval ch = 12 then
           (let w = tab_addLine w in if byteval ch = 12 \<or> ncells = 1 then tab_Flush minwidth padding w else w)
         else w)
      else if byteval ch = 0xFF then (tab_append ch (updateWidth w))\<lparr>tw_escaped := True\<rparr>
      else tab_append ch w)"

definition tab_Write :: "int \<Rightarrow> int \<Rightarrow> string \<Rightarrow> tabwriter \<Rightarrow> tabwriter" where
  "tab_Write minwidth padding s w = fold (tab_byte minwidth padding) s w"

section \<open>Clean tables\<close>

definition tab_clean :: "string \<Rightarrow> bool" where
  "tab_clean s \<longleftrightarrow> list_all (\<lambda>c. byteval c \<notin> {9, 10, 11, 12, 0xFF}) s"

definition tab_char :: char where "tab_char = CHR 0x09"

text \<open>A row as the program prints it: cells with tabs between them and a newline at the end.\<close>

fun tabRow :: "string list \<Rightarrow> string" where
  "tabRow [] = [newline]"
| "tabRow [c] = c @ [newline]"
| "tabRow (c # c' # cs) = c @ tab_char # tabRow (c' # cs)"

definition cellOf :: "string \<Rightarrow> tab_cell" where
  "cellOf s = \<lparr>tc_text = s, tc_width = int (length (runes s))\<rparr>"

lemma tab_Write_simps [simp]:
  "tab_Write m p [] w = w"
  "tab_Write m p (c # s) w = tab_Write m p s (tab_byte m p c w)"
  "tab_Write m p (s @ s') w = tab_Write m p s' (tab_Write m p s w)"
  by (simp_all add: tab_Write_def)

lemma tab_Write_clean:
  "tab_clean s \<Longrightarrow> \<not> tw_escaped w \<Longrightarrow>
     tab_Write m p s w = w\<lparr>tw_text := tw_text w @ s, tw_unmeasured := tw_unmeasured w @ s\<rparr>"
  by (induction s arbitrary: w) (auto simp: tab_clean_def tab_byte_def tab_ends_def tab_append_def)

text \<open>The state between two cells: nothing in the current cell.\<close>

definition between_cells :: "tabwriter \<Rightarrow> bool" where
  "between_cells w \<longleftrightarrow> tw_text w = [] \<and> tw_width w = 0 \<and> tw_unmeasured w = [] \<and> \<not> tw_escaped w"

lemma tab_Write_cell:
  assumes "between_cells w" and "tab_clean c" and "tw_lines w = ls @ [pre]"
  shows "tab_Write m p (c @ [tab_char]) w = w\<lparr>tw_lines := ls @ [pre @ [cellOf c]]\<rparr>"
  using assms
  by (simp add: tab_Write_clean between_cells_def tab_byte_def tab_ends_def tab_char_def updateWidth_def terminateCell_def cellOf_def)

lemma tab_Write_last:
  assumes "between_cells w" and "tab_clean c" and "tw_lines w = ls @ [pre]" and "pre \<noteq> []"
  shows "tab_Write m p (c @ [newline]) w = w\<lparr>tw_lines := ls @ [pre @ [cellOf c], []]\<rparr>"
  using assms
  by (simp add: tab_Write_clean between_cells_def tab_byte_def tab_ends_def updateWidth_def terminateCell_def cellOf_def
      tab_addLine_def)

lemma tab_Write_row:
  assumes "between_cells w" and "list_all tab_clean cs" and "tw_lines w = ls @ [pre]" and "cs \<noteq> []"
    and "pre \<noteq> [] \<or> 2 \<le> length cs"
  shows "tab_Write m p (tabRow cs) w = w\<lparr>tw_lines := ls @ [pre @ map cellOf cs, []]\<rparr>"
  using assms
proof (induction cs arbitrary: w pre rule: tabRow.induct)
  case (2 c)
  then show ?case using tab_Write_last [of w c ls pre m p] by simp
next
  case (3 c c' cs)
  let ?w = "w\<lparr>tw_lines := ls @ [pre @ [cellOf c]]\<rparr>"
  have "tab_Write m p (tabRow (c # c' # cs)) w = tab_Write m p (tabRow (c' # cs)) ?w"
    using tab_Write_cell [of w c ls pre m p] 3 by simp
  also have "\<dots> = ?w\<lparr>tw_lines := ls @ [(pre @ [cellOf c]) @ map cellOf (c' # cs), []]\<rparr>"
    by (rule 3(1)) (use 3 in \<open>simp_all add: between_cells_def\<close>)
  finally show ?case by simp
qed simp

lemma tab_Write_rows:
  assumes "between_cells w" and "list_all (\<lambda>r. list_all tab_clean r \<and> 2 \<le> length r) rows" and "tw_lines w = ls @ [[]]"
  shows "tab_Write m p (concat (map tabRow rows)) w = w\<lparr>tw_lines := ls @ map (map cellOf) rows @ [[]]\<rparr>"
  using assms
proof (induction rows arbitrary: w ls)
  case (Cons r rows)
  then have r: "r \<noteq> []" "[] \<noteq> [] \<or> 2 \<le> length r" by auto
  let ?w = "w\<lparr>tw_lines := ls @ [map cellOf r, []]\<rparr>"
  have "tab_Write m p (tabRow r) w = ?w"
    using tab_Write_row [OF Cons.prems(1) _ Cons.prems(3) r] Cons.prems(2) by simp
  moreover have "tab_Write m p (concat (map tabRow rows)) ?w = ?w\<lparr>tw_lines := (ls @ [map cellOf r]) @ map (map cellOf) rows @ [[]]\<rparr>"
    using Cons.prems by (intro Cons.IH) (simp_all add: between_cells_def)
  ultimately show ?case by simp
qed simp

subsection \<open>The column blocks of a rectangular table\<close>

definition full_lines :: "string list list \<Rightarrow> tab_line list" where
  "full_lines rows = map (\<lambda>r. (map cellOf r, False)) rows"

lemma tab_format_Nil [simp]: "tab_format m p widths [] = []"
  by (simp add: tab_format.simps [of m p widths "[]"] writeLines_def)

lemma tab_format_block:
  assumes "block \<noteq> []" and "\<forall>l \<in> set block. hasColumn (length widths) l"
    and "after = [] \<or> \<not> hasColumn (length widths) (hd after)"
  shows "tab_format m p widths (block @ after) =
    tab_format m p (widths @ [blockWidth m p (length widths) block]) block @ tab_format m p widths after"
proof -
  let ?P = "hasColumn (length widths)"
  have "takeWhile (\<lambda>l. \<not> ?P l) (block @ after) = []" "dropWhile (\<lambda>l. \<not> ?P l) (block @ after) = block @ after"
    using assms(1,2) by (cases block; simp)+
  moreover have "takeWhile ?P (block @ after) = block" "dropWhile ?P (block @ after) = after"
    using assms(2,3) by (cases after; simp add: takeWhile_append2 dropWhile_append2)+
  ultimately show ?thesis
    using assms(1) by (subst tab_format.simps) (simp add: Let_def writeLines_def del: dropWhile_eq_Nil_conv)
qed

lemma tab_format_rect:
  assumes "\<forall>r \<in> set rows. length r = Suc n" and "length widths \<le> n"
  shows "tab_format m p widths (full_lines rows) =
    writeLines (widths @ map (\<lambda>j. blockWidth m p j (full_lines rows)) [length widths..<n]) (full_lines rows)"
  using assms(2)
proof (induction "n - length widths" arbitrary: widths)
  case 0
  then have "\<forall>l \<in> set (full_lines rows). \<not> hasColumn (length widths) l"
    using assms(1) by (auto simp: full_lines_def hasColumn_def)
  then show ?case using 0 by (subst tab_format.simps) (simp add: takeWhile_eq_all_conv [THEN iffD2] dropWhile_eq_Nil_conv [THEN iffD2])
next
  case (Suc k)
  let ?c = "length widths" and ?ls = "full_lines rows"
  show ?case
  proof (cases "rows = []")
    case True
    then show ?thesis by (simp add: full_lines_def writeLines_def)
  next
    case False
    have has: "\<forall>l \<in> set ?ls. hasColumn ?c l" using assms(1) Suc by (auto simp: full_lines_def hasColumn_def)
    have "tab_format m p widths ?ls = tab_format m p (widths @ [blockWidth m p ?c ?ls]) ?ls"
      using tab_format_block [of ?ls widths "[]" m p] has False by (simp add: full_lines_def)
    also have "\<dots> = writeLines ((widths @ [blockWidth m p ?c ?ls]) @ map (\<lambda>j. blockWidth m p j ?ls) [Suc ?c..<n]) ?ls"
      using Suc(1) [of "widths @ [blockWidth m p ?c ?ls]"] Suc(2) by simp
    finally show ?thesis using Suc(2) by (simp add: upt_conv_Cons)
  qed
qed

text \<open>The reference: each cell but the last of a row is filled up with spaces to the width of its column.\<close>

definition columnWidth :: "int \<Rightarrow> int \<Rightarrow> string list list \<Rightarrow> nat \<Rightarrow> int" where
  "columnWidth m p rows j = Max (insert m ((\<lambda>r. int (length (runes (r ! j))) + p) ` set rows))"

definition fill :: "int \<Rightarrow> string \<Rightarrow> string" where
  "fill width s = s @ replicate (nat (width - int (length (runes s)))) (CHR '' '')"

definition alignedRow :: "(nat \<Rightarrow> int) \<Rightarrow> string list \<Rightarrow> string" where
  "alignedRow width r = concat (map (\<lambda>j. fill (width j) (r ! j)) [0..<length r - 1]) @ last r @ [newline]"

lemma foldl_max:
  fixes f :: "'a \<Rightarrow> int"
  shows "foldl (\<lambda>width x. if width < f x then f x else width) m xs = Max (insert m (f ` set xs))"
proof (induction xs arbitrary: m)
  case (Cons x xs)
  have "(if m < f x then f x else m) = max m (f x)" by (simp add: max_def)
  moreover have "Max (insert (max m (f x)) (f ` set xs)) = Max (insert m (insert (f x) (f ` set xs)))"
    by (cases "xs = []") (simp_all add: max.assoc)
  ultimately show ?case using Cons.IH by simp
qed simp

lemma blockWidth_Max:
  assumes "\<forall>r \<in> set rows. j < length r"
  shows "blockWidth m p j (full_lines rows) = columnWidth m p rows j"
proof -
  have "(\<lambda>ln. tc_width (fst ln ! j) + p) ` set (full_lines rows) = (\<lambda>r. int (length (runes (r ! j))) + p) ` set rows"
    using assms by (force simp: full_lines_def cellOf_def)
  then show ?thesis
    using foldl_max [of "\<lambda>ln. tc_width (fst ln ! j) + p" m "full_lines rows"] by (simp add: blockWidth_def columnWidth_def)
qed

lemma lineCells_aligned:
  assumes "r \<noteq> []" and "length widths = k + length r - 1"
  shows "lineCells widths k (map cellOf r) =
    concat (map (\<lambda>j. fill (widths ! (k + j)) (r ! j)) [0..<length r - 1]) @ last r"
  using assms
proof (induction r arbitrary: k)
  case (Cons c r)
  show ?case
  proof (cases "r = []")
    case True
    with Cons show ?thesis by (simp add: paddedCell_def cellOf_def)
  next
    case False
    have "[0..<length r] = 0 # map Suc [0..<length r - 1]" using False by (simp add: upt_conv_Cons map_Suc_upt)
    moreover have "k < length widths" using Cons(3) False by (cases r) auto
    ultimately show ?thesis
      using Cons.IH [of "Suc k"] Cons(3) False by (simp add: paddedCell_def cellOf_def fill_def comp_def)
  qed
qed simp

lemma tabwriter_aligns:
  assumes "rows \<noteq> []" and "\<forall>r \<in> set rows. length r = Suc (Suc n) \<and> list_all tab_clean r"
  shows "tw_output (tab_Flush m p (tab_Write m p (concat (map tabRow rows)) (tab_reset out))) =
    out @ concat (map (alignedRow (columnWidth m p rows)) rows)"
proof -
  let ?w = "tab_Write m p (concat (map tabRow rows)) (tab_reset out)" and ?B = "full_lines rows"
  have "?w = (tab_reset out)\<lparr>tw_lines := map (map cellOf) rows @ [[]]\<rparr>"
    using tab_Write_rows [of "tab_reset out" rows "[]" m p] assms(2)
    by (simp add: tab_reset_def between_cells_def list_all_iff)
  then have "tw_output (tab_Flush m p ?w) = out @ tab_format m p [] (?B @ [([], True)])"
    by (simp add: tab_Flush_def tab_reset_def markLast_def full_lines_def comp_def)
  also have "tab_format m p [] (?B @ [([], True)]) = tab_format m p [blockWidth m p 0 ?B] ?B"
  proof -
    have "\<forall>l \<in> set ?B. hasColumn (length ([] :: int list)) l" using assms(2) by (auto simp: full_lines_def hasColumn_def)
    moreover have "tab_format m p [] [([], True)] = []"
      by (simp add: tab_format.simps [of m p "[]" "[([], True)]"] hasColumn_def writeLines_def writeLine_def)
    ultimately show ?thesis
      using tab_format_block [of ?B "[]" "[([], True)]" m p] assms(1) by (simp add: full_lines_def hasColumn_def)
  qed
  also have "\<dots> = writeLines (map (\<lambda>j. blockWidth m p j ?B) [0..<Suc n]) ?B"
    using tab_format_rect [of rows "Suc n" "[blockWidth m p 0 ?B]" m p] assms(2) by (simp add: upt_conv_Cons del: upt_Suc)
  also have "\<dots> = concat (map (alignedRow (columnWidth m p rows)) rows)"
  proof -
    let ?W = "map (\<lambda>j. blockWidth m p j ?B) [0..<Suc n]"
    have "writeLine ?W (map cellOf r, False) = alignedRow (columnWidth m p rows) r" if "r \<in> set rows" for r
    proof -
      have "length r = Suc (Suc n)" using assms(2) that by blast
      moreover have "?W ! j = columnWidth m p rows j" if "j < Suc n" for j
        using that blockWidth_Max [of rows j m p] assms(2) by (simp del: upt_Suc)
      ultimately have eq: "map (\<lambda>j. fill (?W ! j) (r ! j)) [0..<length r - 1] =
          map (\<lambda>j. fill (columnWidth m p rows j) (r ! j)) [0..<length r - 1]"
        by (intro map_cong) (simp_all del: upt_Suc)
      have "r \<noteq> []" "length ?W = 0 + length r - 1" using \<open>length r = Suc (Suc n)\<close> by auto
      from lineCells_aligned [OF this] show ?thesis
        by (simp only: writeLine_def alignedRow_def fst_conv snd_conv if_False add_0 eq append_assoc)
    qed
    then show ?thesis by (auto simp: writeLines_def full_lines_def intro!: arg_cong [of _ _ concat])
  qed
  finally show ?thesis by simp
qed

end
