(* ===== verification/Run_Discovery.thy ===== *)
theory Run_Discovery
  imports Go_Tabwriter Discovery_Client
begin

text \<open>
  The program \<^verbatim>\<open>cmd/run-discovery/main.go\<close>: it looks for servers and prints them, as JSON or as a table. The
  flags are the record \<open>run_flags\<close>; the resolution of the probe address and the call of
  \<^verbatim>\<open>DiscoverServers\<close> get what is outside as arguments. The results are that the JSON reads back as the servers that
  were found, and that the table is aligned.
\<close>

section \<open>JSON of a list of structs\<close>

text \<open>\<^verbatim>\<open>json.MarshalIndent(v, "", "  ")\<close> of a slice of structs with string fields; an empty slice is \<^verbatim>\<open>[]\<close>.\<close>

definition memberAt :: "string \<Rightarrow> string \<times> string \<Rightarrow> string" where
  "memberAt ind kv = newline # ind @ quoteString (fst kv) @ '': '' @ quoteString (snd kv)"

fun membersAt :: "string \<Rightarrow> (string \<times> string) list \<Rightarrow> string" where
  "membersAt ind [] = []"
| "membersAt ind [kv] = memberAt ind kv"
| "membersAt ind (kv # kv' # kvs) = memberAt ind kv @ '','' @ membersAt ind (kv' # kvs)"

definition objectAt :: "string \<Rightarrow> (string \<times> string) list \<Rightarrow> string" where
  "objectAt ind kvs = CHR ''{'' # membersAt (ind @ ''  '') kvs @ newline # ind @ ''}''"

fun elementsAt :: "(string \<times> string) list list \<Rightarrow> string" where
  "elementsAt [] = []"
| "elementsAt [kvs] = newline # ''  '' @ objectAt ''  '' kvs"
| "elementsAt (kvs # kvs' # rest) = newline # ''  '' @ objectAt ''  '' kvs @ '','' @ elementsAt (kvs' # rest)"

definition MarshalIndentList :: "(string \<times> string) list list \<Rightarrow> string" where
  "MarshalIndentList objs = (if objs = [] then ''[]'' else CHR ''['' # elementsAt objs @ newline # '']'')"

section \<open>The program\<close>

record run_flags =
  rf_port :: int
  rf_probe :: string
  rf_timeout :: int
  rf_service :: string
  rf_json :: bool

text \<open>The output and the exit status; \<open>fatal\<close> writes to the standard error output and exits with 1.\<close>

record run_output =
  ro_stdout :: string
  ro_stderr :: string
  ro_status :: nat

definition fatal :: "goerror \<Rightarrow> run_output" where
  "fatal err = \<lparr>ro_stdout = [], ro_stderr = ''error: '' @ Error err @ [newline], ro_status = 1\<rparr>"

definition printed :: "string \<Rightarrow> run_output" where
  "printed out = \<lparr>ro_stdout = out, ro_stderr = [], ro_status = 0\<rparr>"

definition run_config :: "(string \<Rightarrow> goerror + UDPAddr) \<Rightarrow> run_flags \<Rightarrow> goerror + DiscoverClientConfig" where
  "run_config ResolveUDPAddr f =
     (let cfg = \<lparr>cc_Port = rf_port f, cc_Service = rf_service f, cc_Timeout = rf_timeout f, cc_ProbeAddrs = []\<rparr> in
      if rf_probe f \<noteq> []
      then andThen (mapErr (Wrapped ''probe address'') (ResolveUDPAddr (rf_probe f))) (\<lambda>addr. Ok (cfg\<lparr>cc_ProbeAddrs := [addr]\<rparr>))
      else Ok cfg)"

definition server_fields :: "DiscoveredServer \<Rightarrow> (string \<times> string) list" where
  "server_fields s = [(''hostname'', ds_Hostname s), (''grpc_addr'', ds_GRPCAddr s), (''version'', ds_Version s),
     (''service'', ds_Service s), (''source_ip'', ds_SourceIP s)]"

definition table_header :: "string list" where
  "table_header = [''HOSTNAME'', ''GRPC_ADDR'', ''VERSION'', ''SOURCE_IP'']"

definition server_row :: "DiscoveredServer \<Rightarrow> string list" where
  "server_row s = [ds_Hostname s, ds_GRPCAddr s, ds_Version s, ds_SourceIP s]"

text \<open>\<^verbatim>\<open>tabwriter.NewWriter(os.Stdout, 0, 0, 2, ' ', 0)\<close>, a write for each row, and the flush.\<close>

definition printTable :: "DiscoveredServer list \<Rightarrow> string" where
  "printTable servers =
     (let w = tab_reset [];
          w = tab_Write 0 2 (tabRow table_header) w;
          w = fold (\<lambda>s w. tab_Write 0 2 (tabRow (server_row s)) w) servers w
      in tw_output (tab_Flush 0 2 w))"

definition printServers :: "bool \<Rightarrow> DiscoveredServer list \<Rightarrow> string" where
  "printServers asJSON servers =
     (if asJSON then MarshalIndentList (map server_fields servers) @ [newline]
      else if length servers = 0 then ''No cert-servers found on the LAN.'' @ [newline]
      else printTable servers)"

definition run_main :: "(string \<Rightarrow> goerror + UDPAddr) \<Rightarrow> client_env \<Rightarrow> (seen_map \<Rightarrow> seen_map) \<Rightarrow> client_event list \<Rightarrow> run_flags \<Rightarrow>
    run_output option" where
  "run_main ResolveUDPAddr env shuffle events f =
     (case run_config ResolveUDPAddr f of
        Inl e \<Rightarrow> Some (fatal e)
      | Inr cfg \<Rightarrow>
          map_option (\<lambda>r. case r of Inl e \<Rightarrow> fatal e | Inr servers \<Rightarrow> printed (printServers (rf_json f) servers))
            (dr_result (DiscoverServers env shuffle cfg events)))"

section \<open>Reading the JSON back\<close>

lemma ws_chars:
  "is_ws newline" "is_ws (CHR '' '')" "\<not> is_ws (CHR '','')" "\<not> is_ws (CHR ''}'')" "\<not> is_ws (CHR '']'')"
  by (simp_all add: is_ws_def)

lemma parseMembers_memberAt:
  assumes "is_ascii k" "is_ascii v" "\<not> is_ws d" "list_all is_ws ind" "list_all is_ws w"
  shows "parseMembers (Suc (Suc m)) (memberAt ind (k, v) @ w @ d # r) =
    (if d = CHR ''}'' then Some ([(k, JString v)], r)
     else if d = CHR '','' then map_option (\<lambda>(ms, u). ((k, JString v) # ms, u)) (parseMembers (Suc m) r)
     else None)"
  using parseMembers_step [OF assms(1-3) _ _ assms(5), of "newline # ind" "'' ''" m r] assms(4)
  by (simp add: memberAt_def ws_chars del: parseMembers.simps)

lemma parseMembers_membersAt:
  assumes "kvs \<noteq> []" "\<forall>(k, v) \<in> set kvs. is_ascii k \<and> is_ascii v" "length kvs < n" "list_all is_ws ind" "list_all is_ws w"
  shows "parseMembers n (membersAt ind kvs @ w @ CHR ''}'' # r) = Some (map (\<lambda>(k, v). (k, JString v)) kvs, r)"
  using assms
proof (induction ind kvs arbitrary: n rule: membersAt.induct)
  case (2 ind kv)
  then obtain m where n: "n = Suc (Suc m)" by (cases n; cases "n - 1") auto
  obtain k v where kv: "kv = (k, v)" by (cases kv)
  show ?case
    using 2 parseMembers_memberAt [of k v "CHR ''}''" ind w m r] by (simp add: n kv ws_chars del: parseMembers.simps)
next
  case (3 ind kv kv' kvs)
  then obtain m where n: "n = Suc (Suc m)" by (cases n; cases "n - 1") auto
  obtain k v where kv: "kv = (k, v)" by (cases kv)
  have "parseMembers (Suc m) (membersAt ind (kv' # kvs) @ w @ CHR ''}'' # r) =
      Some (map (\<lambda>(k, v). (k, JString v)) (kv' # kvs), r)"
    by (rule 3(1)) (use 3 n in simp_all)
  then show ?case
    using 3 parseMembers_memberAt [of k v "CHR '',''" ind "[]" m "membersAt ind (kv' # kvs) @ w @ CHR ''}'' # r"]
    by (simp add: n kv ws_chars del: parseMembers.simps)
qed simp

lemma skip_membersAt:
  "kvs \<noteq> [] \<Longrightarrow> list_all is_ws ind \<Longrightarrow> \<exists>t. skip (membersAt ind kvs @ r) = dquote # t"
proof (induction ind kvs rule: membersAt.induct)
  case (2 ind kv)
  then show ?case
    using skip_ws_append [of "newline # ind" "quoteString (fst kv) @ '': '' @ quoteString (snd kv) @ r"]
    by (simp add: memberAt_def quoteString_def ws_chars)
next
  case (3 ind kv kv' kvs)
  then show ?case
    using skip_ws_append [of "newline # ind" "quoteString (fst kv) @ '': '' @ quoteString (snd kv) @ '','' @ membersAt ind (kv' # kvs) @ r"]
    by (simp add: memberAt_def quoteString_def ws_chars)
qed simp

lemma parseValue_objectAt:
  assumes "kvs \<noteq> []" "\<forall>(k, v) \<in> set kvs. is_ascii k \<and> is_ascii v" "Suc (length kvs) < n" "list_all is_ws ind" "list_all is_ws w"
  shows "parseValue n (w @ objectAt ind kvs @ r) = Some (JObject (map (\<lambda>(k, v). (k, JString v)) kvs), r)"
proof -
  obtain m where n: "n = Suc m" "length kvs < m" using assms(3) by (cases n) auto
  have ws: "list_all is_ws (ind @ ''  '')" "list_all is_ws (newline # ind)" using assms(4) by (simp_all add: ws_chars)
  have m: "parseMembers m (membersAt (ind @ ''  '') kvs @ (newline # ind) @ CHR ''}'' # r) =
      Some (map (\<lambda>(k, v). (k, JString v)) kvs, r)"
    by (rule parseMembers_membersAt [OF assms(1,2) n(2) ws])
  obtain t where "skip (membersAt (ind @ ''  '') kvs @ (newline # ind) @ CHR ''}'' # r) = dquote # t"
    using skip_membersAt [OF assms(1) ws(1)] by blast
  with m assms(5) show ?thesis unfolding n(1) parseValue.simps(2) by (simp add: objectAt_def)
qed

lemma skip_nonspace: "\<not> is_ws d \<Longrightarrow> skip (d # r) = d # r"
  by (simp add: skip_def)

lemma parseElems_step:
  assumes "kvs \<noteq> []" "\<forall>(k, v) \<in> set kvs. is_ascii k \<and> is_ascii v" "Suc (length kvs) < n" "\<not> is_ws d" "list_all is_ws w"
  shows "parseElems (Suc n) (newline # ''  '' @ objectAt ''  '' kvs @ w @ d # r) =
    (if d = CHR '']'' then Some ([JObject (map (\<lambda>(k, v). (k, JString v)) kvs)], r)
     else if d = CHR '','' then map_option (\<lambda>(vs, u). (JObject (map (\<lambda>(k, v). (k, JString v)) kvs) # vs, u)) (parseElems n r)
     else None)"
proof -
  have "parseValue n ((newline # ''  '') @ objectAt ''  '' kvs @ w @ d # r) =
      Some (JObject (map (\<lambda>(k, v). (k, JString v)) kvs), w @ d # r)"
    by (rule parseValue_objectAt [OF assms(1-3)]) (simp_all add: ws_chars)
  moreover have "skip (w @ d # r) = d # r" using assms(4,5) by (simp add: skip_nonspace)
  ultimately show ?thesis by (simp del: parseValue.simps)
qed

lemma parseElems_elementsAt:
  assumes "objs \<noteq> []" "\<forall>kvs \<in> set objs. kvs \<noteq> [] \<and> length kvs \<le> K \<and> (\<forall>(k, v) \<in> set kvs. is_ascii k \<and> is_ascii v)"
    and "K + 2 + length objs \<le> n"
  shows "parseElems n (elementsAt objs @ newline # CHR '']'' # r) =
    Some (map (\<lambda>kvs. JObject (map (\<lambda>(k, v). (k, JString v)) kvs)) objs, r)"
  using assms
proof (induction objs arbitrary: n rule: elementsAt.induct)
  case (2 kvs)
  then obtain m where n: "n = Suc m" "Suc (length kvs) < m" by (cases n) auto
  show ?case
    using 2 n parseElems_step [of kvs m "CHR '']''" "[newline]" r] by (simp add: ws_chars del: parseElems.simps)
next
  case (3 kvs kvs' rest)
  then obtain m where n: "n = Suc m" "Suc (length kvs) < m" by (cases n) auto
  have "parseElems m (elementsAt (kvs' # rest) @ newline # CHR '']'' # r) =
      Some (map (\<lambda>kvs. JObject (map (\<lambda>(k, v). (k, JString v)) kvs)) (kvs' # rest), r)"
    by (rule 3(1)) (use 3 n in auto)
  then show ?case
    using 3 n parseElems_step [of kvs m "CHR '',''" "[]" "elementsAt (kvs' # rest) @ newline # CHR '']'' # r"]
    by (simp add: ws_chars del: parseElems.simps)
qed simp

lemma parseJson_MarshalIndentList:
  assumes "\<forall>kvs \<in> set objs. kvs \<noteq> [] \<and> length kvs \<le> K \<and> (\<forall>(k, v) \<in> set kvs. is_ascii k \<and> is_ascii v)"
  shows "parseJson (MarshalIndentList objs @ [newline]) =
    Some (JArray (map (\<lambda>kvs. JObject (map (\<lambda>(k, v). (k, JString v)) kvs)) objs))"
proof (cases "objs = []")
  case True
  have "parseJson (''[]'' @ [newline]) = Some (JArray [])" by code_simp
  with True show ?thesis by (simp add: MarshalIndentList_def)
next
  case False
  let ?s = "MarshalIndentList objs @ [newline]" and ?n = "K + 2 + length objs + 2 * length (MarshalIndentList objs @ [newline])"
  have "parseElems ?n (elementsAt objs @ newline # CHR '']'' # [newline]) =
      Some (map (\<lambda>kvs. JObject (map (\<lambda>(k, v). (k, JString v)) kvs)) objs, [newline])"
    by (rule parseElems_elementsAt [OF False assms]) simp
  moreover have "\<exists>t. skip (elementsAt objs @ newline # CHR '']'' # [newline]) = CHR ''{'' # t"
    using False by (cases objs rule: elementsAt.cases) (auto simp: objectAt_def skip_def is_ws_def)
  ultimately have "parseValue (Suc ?n) ?s =
      Some (JArray (map (\<lambda>kvs. JObject (map (\<lambda>(k, v). (k, JString v)) kvs)) objs), [newline])"
    unfolding parseValue.simps(2) using False by (auto simp: MarshalIndentList_def skip_nonspace is_ws_def)
  then have "parseValue (Suc (2 * length ?s)) ?s =
      Some (JArray (map (\<lambda>kvs. JObject (map (\<lambda>(k, v). (k, JString v)) kvs)) objs), [newline])"
    by (subst parseValue_fuel [of ?s "Suc ?n", symmetric]) simp_all
  then show ?thesis by (simp only: parseJson_def option.case prod.case) (simp add: skip_def ws_chars)
qed

section \<open>Properties\<close>

definition server_ascii :: "DiscoveredServer \<Rightarrow> bool" where
  "server_ascii s \<longleftrightarrow> is_ascii (ds_Hostname s) \<and> is_ascii (ds_GRPCAddr s) \<and> is_ascii (ds_Version s) \<and>
     is_ascii (ds_Service s) \<and> is_ascii (ds_SourceIP s)"

lemma server_fields_ascii:
  "server_ascii s \<Longrightarrow> (k, v) \<in> set (server_fields s) \<Longrightarrow> is_ascii k \<and> is_ascii v"
  by (auto simp: server_ascii_def server_fields_def is_ascii_def ascii_char_def)

text \<open>
  With \<^verbatim>\<open>-json\<close> the program prints the servers it found and nothing else: when the discovery
  succeeds it exits with 0, and its output parses as a JSON array that has, for each server in order, an
  object with exactly the five fields of the server. (The fields are ASCII.)
\<close>

lemma run_discovery_json:
  assumes "run_config ResolveUDPAddr f = Ok cfg" and "rf_json f"
    and "dr_result (DiscoverServers env shuffle cfg events) = Some (Ok servers)" and "\<forall>s \<in> set servers. server_ascii s"
  shows "\<exists>out. run_main ResolveUDPAddr env shuffle events f = Some out \<and> ro_status out = 0 \<and> ro_stderr out = [] \<and>
    parseJson (ro_stdout out) = Some (JArray (map (\<lambda>s. JObject
      [(''hostname'', JString (ds_Hostname s)), (''grpc_addr'', JString (ds_GRPCAddr s)), (''version'', JString (ds_Version s)),
       (''service'', JString (ds_Service s)), (''source_ip'', JString (ds_SourceIP s))]) servers))"
proof -
  have "\<forall>kvs \<in> set (map server_fields servers). kvs \<noteq> [] \<and> length kvs \<le> 5 \<and> (\<forall>(k, v) \<in> set kvs. is_ascii k \<and> is_ascii v)"
    using assms(4) server_fields_ascii by (fastforce simp: server_fields_def)
  from parseJson_MarshalIndentList [OF this] assms(1-3) show ?thesis
    by (simp add: run_main_def printed_def printServers_def server_fields_def comp_def)
qed

lemma fold_tab_Write:
  "fold (\<lambda>s w. tab_Write m p (tabRow (g s)) w) xs w = tab_Write m p (concat (map (\<lambda>s. tabRow (g s)) xs)) w"
  by (induction xs arbitrary: w) simp_all

text \<open>
  The table that the program prints is aligned. For servers whose fields have no tab, line break or
  byte 0xff, the output is the header and one line for each server, in order, with all columns but
  the last filled up with spaces to the width of the longest entry of the column, the header included,
  counted in code points, plus two.
\<close>

lemma run_discovery_table:
  assumes "servers \<noteq> []" and "\<forall>s \<in> set servers. list_all tab_clean (server_row s)"
    and "rows = table_header # map server_row servers"
  shows "printServers False servers = concat (map (alignedRow (columnWidth 0 2 rows)) rows)"
proof -
  have "list_all tab_clean table_header" by code_simp
  with assms(2,3) have rows: "rows \<noteq> []" "\<forall>r \<in> set rows. length r = Suc (Suc 2) \<and> list_all tab_clean r"
    by (auto simp: server_row_def) (auto simp: table_header_def)
  have "printTable servers = tw_output (tab_Flush 0 2 (tab_Write 0 2 (concat (map tabRow rows)) (tab_reset [])))"
    by (simp add: printTable_def fold_tab_Write assms(3) comp_def)
  with tabwriter_aligns [OF rows, of 0 2 "[]"] assms(1) show ?thesis by (simp add: printServers_def)
qed

lemma run_discovery_json_witness:
  "\<exists>out. run_main (\<lambda>_. Err (ErrorString ''no such host'')) demo_client_env rev demo_events
     \<lparr>rf_port = 0, rf_probe = [], rf_timeout = 0, rf_service = ''s'', rf_json = True\<rparr> = Some out \<and>
     parseJson (ro_stdout out) \<noteq> None \<and> length demo_out = 2"
proof -
  let ?f = "\<lparr>rf_port = 0, rf_probe = [], rf_timeout = 0, rf_service = ''s'', rf_json = True\<rparr>"
  have c: "run_config (\<lambda>_. Err (ErrorString ''no such host'')) ?f = Ok demo_client_config" by (simp add: run_config_def demo_client_config_def)
  have "list_all server_ascii demo_out" by code_simp
  then have "\<forall>s \<in> set demo_out. server_ascii s" by (simp add: list_all_iff)
  from run_discovery_json [OF c _ demo_discover this] show ?thesis by (auto simp: demo_out_def)
qed

lemma run_discovery_table_witness:
  "printServers False demo_out =
     ''HOSTNAME  GRPC_ADDR  VERSION  SOURCE_IP'' @ [newline] @
     ''h1        a:1        1        192.168.1.77'' @ [newline] @
     ''h2        b:1        1        192.168.1.77'' @ [newline]"
proof -
  have "list_all (\<lambda>s. list_all tab_clean (server_row s)) demo_out" by code_simp
  then have "\<forall>s \<in> set demo_out. list_all tab_clean (server_row s)" by (simp add: list_all_iff)
  from run_discovery_table [OF _ this refl] have "printServers False demo_out = concat (map (alignedRow (columnWidth 0 2 (table_header # map server_row demo_out)))
      (table_header # map server_row demo_out))" by (simp add: demo_out_def)
  also have "\<dots> = ''HOSTNAME  GRPC_ADDR  VERSION  SOURCE_IP'' @ [newline] @
     ''h1        a:1        1        192.168.1.77'' @ [newline] @
     ''h2        b:1        1        192.168.1.77'' @ [newline]" by code_simp
  finally show ?thesis .
qed

end
