(* ===== verification/Store_Darwin.thy ===== *)
theory Store_Darwin
  imports File_Store Cert_Service
begin

text \<open>
  The macOS backend, \<^verbatim>\<open>internal/certstore/store_darwin.go\<close>, with the C functions in its preamble. The
  Security framework and the output of the command \<^verbatim>\<open>sc_auth identities\<close> are the parameter \<open>mac_api\<close>;
  the type variable \<open>'i\<close> is an identity reference, \<open>'c\<close> a certificate reference and \<open>'p\<close> a private key
  reference. \<open>ma_KeyAttributes\<close> gives the key type and the key size that the attributes of the public
  key hold, as C reads them. The C memory that the package owns is counted: arrays of items, certificate buffers
  and retained identities.
\<close>

section \<open>The Security framework\<close>

datatype sec_algorithm =
    ECDSASignatureDigestX962 crypto_hash
  | RSASignatureDigestPSS crypto_hash
  | RSASignatureDigestPKCS1v15 crypto_hash

record ('i, 'c, 'p) mac_api =
  ma_SecItemCopyMatching :: "'i list option"
  ma_SecIdentityCopyCertificate :: "'i \<Rightarrow> 'c option"
  ma_SecCertificateCopyData :: "'c \<Rightarrow> bytes option"
  ma_KeyAttributes :: "'c \<Rightarrow> (string option \<times> int option) option"
  ma_SecIdentityCopyPrivateKey :: "'i \<Rightarrow> int + 'p"
  ma_SecKeyCreateSignature :: "'p \<Rightarrow> sec_algorithm \<Rightarrow> bytes \<Rightarrow> string option + bytes"
  ma_sc_auth :: "goerror + string"

section \<open>The C functions\<close>

record 'i MacCertItem =
  mi_cert_data :: bytes
  mi_identity :: 'i
  mi_key_type :: string
  mi_key_size :: int

record mac_mem =
  mm_arrays :: nat
  mm_buffers :: nat
  mm_retained :: nat

definition macItem :: "('i, 'c, 'p) mac_api \<Rightarrow> 'i \<Rightarrow> 'i MacCertItem option" where
  "macItem api identity =
     (case ma_SecIdentityCopyCertificate api identity of
        None \<Rightarrow> None
      | Some cert \<Rightarrow>
          (case ma_SecCertificateCopyData api cert of
             None \<Rightarrow> None
           | Some data \<Rightarrow>
               (let attrs = (case ma_KeyAttributes api cert of None \<Rightarrow> (None, None) | Some a \<Rightarrow> a) in
                Some \<lparr>mi_cert_data = data, mi_identity = identity,
                      mi_key_type = (case fst attrs of None \<Rightarrow> [] | Some t \<Rightarrow> t),
                      mi_key_size = (case snd attrs of None \<Rightarrow> 0 | Some n \<Rightarrow> n)\<rparr>)))"

text \<open>The list is \<open>None\<close> when its item array is NULL.\<close>

definition get_mac_identities :: "('i, 'c, 'p) mac_api \<Rightarrow> mac_mem \<Rightarrow> 'i MacCertItem list option \<times> mac_mem" where
  "get_mac_identities api mem =
     (case ma_SecItemCopyMatching api of
        None \<Rightarrow> (None, mem)
      | Some ids \<Rightarrow>
          (let items = List.map_filter (macItem api) ids in
           (Some items, mem\<lparr>mm_arrays := Suc (mm_arrays mem), mm_buffers := mm_buffers mem + length items,
                            mm_retained := mm_retained mem + length items\<rparr>)))"

definition free_mac_cert_list :: "'i MacCertItem list option \<Rightarrow> mac_mem \<Rightarrow> mac_mem" where
  "free_mac_cert_list list mem =
     (case list of
        None \<Rightarrow> mem
      | Some items \<Rightarrow>
          mem\<lparr>mm_arrays := mm_arrays mem - 1, mm_buffers := mm_buffers mem - length items,
              mm_retained := mm_retained mem - length items\<rparr>)"

definition hashOfInt :: "int \<Rightarrow> crypto_hash option" where
  "hashOfInt h = (if h = 1 then Some SHA256 else if h = 2 then Some SHA384 else if h = 3 then Some SHA512 else None)"

definition mac_sign_hash :: "('i, 'c, 'p) mac_api \<Rightarrow> 'i \<Rightarrow> bytes \<Rightarrow> int \<Rightarrow> int \<Rightarrow> int \<Rightarrow> string + bytes" where
  "mac_sign_hash api identity digest keyType hashAlg padding =
     (case ma_SecIdentityCopyPrivateKey api identity of
        Inl status \<Rightarrow> Inl (''SecIdentityCopyPrivateKey failed with status '' @ dec_of_int status)
      | Inr privKey \<Rightarrow>
          (let alg = (if keyType = 1 then
                 (case hashOfInt hashAlg of None \<Rightarrow> Inl ''unsupported hash algorithm for ECDSA''
                  | Some h \<Rightarrow> Inr (ECDSASignatureDigestX962 h))
               else if padding = 2 then
                 (case hashOfInt hashAlg of None \<Rightarrow> Inl ''unsupported hash algorithm for RSA-PSS''
                  | Some h \<Rightarrow> Inr (RSASignatureDigestPSS h))
               else
                 (case hashOfInt hashAlg of None \<Rightarrow> Inl ''unsupported hash algorithm for RSA-PKCS1''
                  | Some h \<Rightarrow> Inr (RSASignatureDigestPKCS1v15 h)))
           in case alg of
                Inl e \<Rightarrow> Inl e
              | Inr a \<Rightarrow>
                  (case ma_SecKeyCreateSignature api privKey a digest of
                     Inr sig \<Rightarrow> Inr sig
                   | Inl (Some desc) \<Rightarrow> Inl (''SecKeyCreateSignature error: '' @ desc)
                   | Inl None \<Rightarrow> Inl ''SecKeyCreateSignature returned NULL'')))"

section \<open>Smart card identities\<close>

record scAuthIdentity =
  sa_Hash :: string
  sa_Subject :: string
  sa_SmartCard :: string

text \<open>\<^verbatim>\<open>strings.Fields\<close> and \<^verbatim>\<open>strings.Join\<close>.\<close>

fun asciiFields :: "string \<Rightarrow> string \<Rightarrow> string list" where
  "asciiFields cur [] = (if cur = [] then [] else [rev cur])"
| "asciiFields cur (c # s) =
     (if ascii_space c then (if cur = [] then [] else [rev cur]) @ asciiFields [] s
      else asciiFields (c # cur) s)"

definition Fields :: "unicode \<Rightarrow> string \<Rightarrow> string list" where
  "Fields uc s = (if is_ascii s then asciiFields [] s else uc_Fields uc s)"

fun joinSpace :: "string list \<Rightarrow> string" where
  "joinSpace [] = []"
| "joinSpace [x] = x"
| "joinSpace (x # y # ys) = x @ '' '' @ joinSpace (y # ys)"

type_synonym sc_map = "string \<rightharpoonup> scAuthIdentity"

definition scLine :: "unicode \<Rightarrow> string \<times> sc_map \<Rightarrow> string \<Rightarrow> string \<times> sc_map" where
  "scLine uc st line =
     (case st of (currentSmartCard, result) \<Rightarrow>
        (let trimmed = TrimSpace uc line in
         if trimmed = [] then st
         else if HasPrefix trimmed ''SmartCard:'' then (TrimSpace uc (TrimPrefix trimmed ''SmartCard:''), result)
         else if HasPrefix trimmed ''Paired identities:'' \<or> HasPrefix trimmed ''Unpaired identities:'' then st
         else
           (let parts = Fields uc trimmed in
            if 1 \<le> length parts \<and> length (parts ! 0) = 40 then
              (let hash = ToUpper uc (parts ! 0);
                   subj = (if 1 < length parts then joinSpace (drop 1 parts) else [])
               in (currentSmartCard, result(hash \<mapsto> \<lparr>sa_Hash = hash, sa_Subject = subj, sa_SmartCard = currentSmartCard\<rparr>)))
            else st)))"

text \<open>The result is \<open>None\<close> (nil) when the command fails.\<close>

definition parseSCAuthIdentities :: "unicode \<Rightarrow> goerror + string \<Rightarrow> sc_map option" where
  "parseSCAuthIdentities uc out =
     (case out of
        Inl _ \<Rightarrow> None
      | Inr text \<Rightarrow>
          Some (snd (foldl (scLine uc) (''CryptoTokenKit'', Map.empty) (split_at (CHR 0x0A) text))))"

section \<open>Identities\<close>

record 'i internalMacIdentity =
  im_info :: CertificateInfo
  im_sha1 :: string
  im_sha256 :: string
  im_identityRef :: 'i

definition mac_keyMetadata :: "x509_cert \<Rightarrow> string \<times> int" where
  "mac_keyMetadata cert =
     (case x_PublicKey cert of
        RSAPublicKey n e \<Rightarrow> (''RSA'', int (BitLen n))
      | ECDSAPublicKey bits \<Rightarrow> (''ECDSA'', int bits)
      | OtherPublicKey \<Rightarrow> (x_PublicKeyAlgorithm cert, 0))"

definition macIdentity :: "unicode \<Rightarrow> ('k, 'm) crypto_lib_scheme \<Rightarrow> sc_map option \<Rightarrow> 'i MacCertItem \<Rightarrow> 'i internalMacIdentity option" where
  "macIdentity uc lib scIdentities item =
     (let der = mi_cert_data item in
      case ParseCertificate lib der of
        Inl _ \<Rightarrow> None
      | Inr cert \<Rightarrow>
          (let certSHA1 = thumbOfHash uc (sha1_Sum lib der);
               certSHA256 = thumbOfHash uc (sha256_Sum256 lib der);
               (keyAlg, keySize) = (case mac_keyMetadata cert of
                  (alg, sz) \<Rightarrow> if alg = [] then
                     (if Contains (ToLower uc (mi_key_type item)) ''ec'' then ''ECDSA'' else ''RSA'', mi_key_size item)
                   else (alg, sz));
               (isSmartCard, providerName) =
                 (case scIdentities of
                    None \<Rightarrow> (False, ''macOS Keychain'')
                  | Some m \<Rightarrow>
                      (case m certSHA1 of
                         None \<Rightarrow> (False, ''macOS Keychain'')
                       | Some sc \<Rightarrow> (True, if sa_SmartCard sc \<noteq> [] then sa_SmartCard sc else ''CryptoTokenKit'')))
           in Some \<lparr>im_info = \<lparr>ci_Thumbprint = certSHA1, ci_Subject = x_Subject cert, ci_Issuer = x_Issuer cert,
                      ci_NotBefore = x_NotBefore cert, ci_NotAfter = x_NotAfter cert, ci_KeyAlgorithm = keyAlg,
                      ci_KeySize = keySize, ci_HasPrivateKey = True, ci_IsTPM = isSmartCard,
                      ci_ProviderName = providerName, ci_CertificateDER = der\<rparr>,
                    im_sha1 = certSHA1, im_sha256 = certSHA256, im_identityRef = mi_identity item\<rparr>))"

text \<open>The identities, the list that \<^verbatim>\<open>cleanup\<close> will free, and the memory.\<close>

definition getMacIdentitiesInternal :: "unicode \<Rightarrow> ('k, 'm) crypto_lib_scheme \<Rightarrow> ('i, 'c, 'p) mac_api \<Rightarrow> mac_mem \<Rightarrow>
    'i internalMacIdentity list \<times> 'i MacCertItem list option \<times> mac_mem" where
  "getMacIdentitiesInternal uc lib api mem =
     (case get_mac_identities api mem of (cList, mem) \<Rightarrow>
        (case cList of
           None \<Rightarrow> ([], cList, mem)
         | Some items \<Rightarrow>
             if length items = 0 then ([], cList, mem)
             else let scIdentities = parseSCAuthIdentities uc (ma_sc_auth api)
                  in (List.map_filter (macIdentity uc lib scIdentities) items, cList, mem)))"

section \<open>The backend\<close>

definition darwin_ListCertificates :: "unicode \<Rightarrow> ('k, 'm) crypto_lib_scheme \<Rightarrow> ('i, 'c, 'p) mac_api \<Rightarrow> mac_mem \<Rightarrow>
    (goerror + CertificateInfo list) \<times> mac_mem" where
  "darwin_ListCertificates uc lib api mem =
     (case getMacIdentitiesInternal uc lib api mem of
        (identities, cList, mem) \<Rightarrow> (Ok (map im_info identities), free_mac_cert_list cList mem))"

definition darwin_ListCertificatesByProvider :: "unicode \<Rightarrow> ('k, 'm) crypto_lib_scheme \<Rightarrow> ('i, 'c, 'p) mac_api \<Rightarrow>
    'k file_store \<Rightarrow> string \<Rightarrow> mac_mem \<Rightarrow> (goerror + CertificateInfo list) \<times> mac_mem" where
  "darwin_ListCertificatesByProvider uc lib api st providerName mem =
     (if CertDir st \<noteq> [] then (Ok (listFromFileStoreByProvider uc providerName st), mem)
      else case darwin_ListCertificates uc lib api mem of
             (Inl e, mem) \<Rightarrow> (Err e, mem)
           | (Inr all, mem) \<Rightarrow>
               (Ok (if providerName = [] then all
                    else filter (\<lambda>c. EqualFold uc (ci_ProviderName c) providerName \<or>
                                     Contains (ToLower uc (ci_ProviderName c)) (ToLower uc providerName)) all),
                mem))"

text \<open>
  \<^verbatim>\<open>SignHash\<close> from the matched identity on. The three codes are converted to \<^verbatim>\<open>C.int\<close>; the length of the
  signature is too, which is the identity as a signature is shorter than 2^31 bytes.
\<close>

definition macSignMatched :: "unicode \<Rightarrow> ('i, 'c, 'p) mac_api \<Rightarrow> 'i internalMacIdentity \<Rightarrow> bytes \<Rightarrow> HashAlgorithm \<Rightarrow> RSAPadding \<Rightarrow>
    goerror + SignResult" where
  "macSignMatched uc api matched digest hash padding =
     (let alg = ci_KeyAlgorithm (im_info matched);
          choice = (if alg = ''ECDSA'' then
              (if padding = RSAPaddingPSS then Err ErrInvalidPadding else Ok (1, ''ECDSA''))
            else if alg = ''RSA'' then
              Ok (0, if padding = RSAPaddingPSS then ''RSASSA-PSS'' else ''RSASSA-PKCS1-v1_5'')
            else Err (ErrorString (''unsupported key algorithm '' @ Quote uc alg)))
      in andThen choice (\<lambda>(keyTypeInt, sigAlg).
         case mac_sign_hash api (im_identityRef matched) digest (int32 keyTypeInt) (int32 hash) (int32 padding) of
           Inl msg \<Rightarrow> Err (ErrorString (''sign hash: '' @ take 511 msg))
         | Inr sig \<Rightarrow> Ok \<lparr>sr_Signature = sig, sr_SignatureAlgorithm = sigAlg, sr_Padding = padding\<rparr>))"

definition darwin_SignHash :: "unicode \<Rightarrow> ('k, 'm) crypto_lib_scheme \<Rightarrow> ('i, 'c, 'p) mac_api \<Rightarrow> string \<Rightarrow> bytes \<Rightarrow>
    HashAlgorithm \<Rightarrow> RSAPadding \<Rightarrow> mac_mem \<Rightarrow> (goerror + SignResult) \<times> mac_mem" where
  "darwin_SignHash uc lib api thumbprint digest hash padding0 mem =
     (case DigestSize hash of
        Inl e \<Rightarrow> (Err e, mem)
      | Inr expectedLen \<Rightarrow>
          if length digest \<noteq> expectedLen then (Err ErrInvalidDigest, mem)
          else
            (let padding = effPadding padding0 in
             case getMacIdentitiesInternal uc lib api mem of
               (identities, cList, mem) \<Rightarrow>
                 (case matchThumbprint uc im_sha1 im_sha256 (cleanThumbprint uc thumbprint) identities of
                    None \<Rightarrow> Err ErrCertificateNotFound
                  | Some matched \<Rightarrow> macSignMatched uc api matched digest hash padding,
                  free_mac_cert_list cList mem)))"

section \<open>Memory\<close>

lemma free_get: "free_mac_cert_list (fst (get_mac_identities api mem)) (snd (get_mac_identities api mem)) = mem"
  by (simp add: free_mac_cert_list_def get_mac_identities_def Let_def split: option.split)

lemma getMac_list:
  "fst (snd (getMacIdentitiesInternal uc lib api mem)) = fst (get_mac_identities api mem)"
  "snd (snd (getMacIdentitiesInternal uc lib api mem)) = snd (get_mac_identities api mem)"
  by (auto simp: getMacIdentitiesInternal_def Let_def split: prod.split option.split)

text \<open>
  The macOS backend leaks nothing: after a listing and after a signing call, whatever its outcome,
  the arrays, certificate buffers and retained identities are as many as before.
\<close>

lemma darwin_no_leak:
  "snd (darwin_ListCertificates uc lib api mem) = mem \<and>
   snd (darwin_ListCertificatesByProvider uc lib api st providerName mem) = mem \<and>
   snd (darwin_SignHash uc lib api tp digest hash padding mem) = mem"
proof -
  obtain ids cList mem' where g: "getMacIdentitiesInternal uc lib api mem = (ids, cList, mem')"
    by (cases "getMacIdentitiesInternal uc lib api mem")
  have "free_mac_cert_list cList mem' = mem"
    using free_get [of api mem] getMac_list [of uc lib api mem] g by simp
  then show ?thesis
    by (auto simp: darwin_ListCertificates_def darwin_ListCertificatesByProvider_def darwin_SignHash_def g Let_def
        split: sum.split)
qed

section \<open>Signing\<close>

text \<open>The entries of the keychain search: each is computed from the certificate bytes of an item.\<close>

definition mac_identity_ok :: "unicode \<Rightarrow> ('k, 'm) crypto_lib_scheme \<Rightarrow> 'i internalMacIdentity \<Rightarrow> bool" where
  "mac_identity_ok uc lib m \<longleftrightarrow>
     im_sha1 m = thumbOfHash uc (sha1_Sum lib (ci_CertificateDER (im_info m))) \<and>
     im_sha256 m = thumbOfHash uc (sha256_Sum256 lib (ci_CertificateDER (im_info m))) \<and>
     ci_Thumbprint (im_info m) = im_sha1 m \<and> ci_HasPrivateKey (im_info m)"

text \<open>
  The kind of key of a certificate: the type of its public key; for a key of another type the name of
  its algorithm, and any of the two kinds (the attributes in the keychain decide) where it has no name.
\<close>

definition mac_key_kind :: "x509_cert \<Rightarrow> string \<Rightarrow> bool" where
  "mac_key_kind cert keyAlg \<longleftrightarrow>
     (case x_PublicKey cert of
        RSAPublicKey n e \<Rightarrow> keyAlg = ''RSA''
      | ECDSAPublicKey bits \<Rightarrow> keyAlg = ''ECDSA''
      | OtherPublicKey \<Rightarrow> keyAlg = x_PublicKeyAlgorithm cert \<or> x_PublicKeyAlgorithm cert = [] \<and> keyAlg \<in> {''RSA'', ''ECDSA''})"

lemma macIdentity_ok:
  "macIdentity uc lib sc item = Some m \<Longrightarrow>
   mac_identity_ok uc lib m \<and> im_identityRef m = mi_identity item \<and> ci_CertificateDER (im_info m) = mi_cert_data item \<and>
   (\<exists>cert. ParseCertificate lib (mi_cert_data item) = Ok cert \<and> mac_key_kind cert (ci_KeyAlgorithm (im_info m)))"
  by (auto simp: macIdentity_def mac_identity_ok_def mac_key_kind_def mac_keyMetadata_def Let_def
      split: sum.splits prod.splits public_key.splits if_splits)

lemma macItem_ok:
  "macItem api i = Some item \<Longrightarrow> mi_identity item = i \<and>
   (\<exists>cert. ma_SecIdentityCopyCertificate api i = Some cert \<and> ma_SecCertificateCopyData api cert = Some (mi_cert_data item))"
  by (auto simp: macItem_def Let_def split: option.splits)

text \<open>What the keychain says of an identity: it is listed, and its certificate has the given bytes.\<close>

definition keychain_identity :: "('i, 'c, 'p) mac_api \<Rightarrow> 'i \<Rightarrow> bytes \<Rightarrow> bool" where
  "keychain_identity api i der \<longleftrightarrow>
     (\<exists>ids cert. ma_SecItemCopyMatching api = Some ids \<and> i \<in> set ids \<and>
        ma_SecIdentityCopyCertificate api i = Some cert \<and> ma_SecCertificateCopyData api cert = Some der)"

lemma map_filter_setD: "y \<in> set (List.map_filter f xs) \<Longrightarrow> \<exists>x \<in> set xs. f x = Some y"
  by (auto simp: map_filter_def)

lemma mac_identities_ok:
  assumes "m \<in> set (fst (getMacIdentitiesInternal uc lib api mem))"
  shows "mac_identity_ok uc lib m \<and> keychain_identity api (im_identityRef m) (ci_CertificateDER (im_info m)) \<and>
    (\<exists>cert. ParseCertificate lib (ci_CertificateDER (im_info m)) = Ok cert \<and> mac_key_kind cert (ci_KeyAlgorithm (im_info m)))"
proof -
  from assms obtain ids item i where ids: "ma_SecItemCopyMatching api = Some ids"
    and "i \<in> set ids" "macItem api i = Some item"
    and m: "macIdentity uc lib (parseSCAuthIdentities uc (ma_sc_auth api)) item = Some m"
    by (auto simp: getMacIdentitiesInternal_def get_mac_identities_def Let_def
        split: option.splits if_splits dest!: map_filter_setD)
  with ids macItem_ok [of api i item] macIdentity_ok [OF m] show ?thesis
    by (auto simp: keychain_identity_def)
qed

interpretation mac: thumb_index im_sha1 im_sha256 "\<lambda>m. sha_lengths lib \<and> mac_identity_ok uc lib m" uc
  for uc :: unicode and lib :: "('k, 'm) crypto_lib_scheme"
  by unfold_locales (simp_all add: mac_identity_ok_def sha_lengths_def)

text \<open>
  What a signature by a keychain identity is: \<^verbatim>\<open>SecKeyCreateSignature\<close> of its private key on the
  digest as given, with the algorithm that belongs to the kind of key, the hash and the padding.
\<close>

definition mac_signed :: "('i, 'c, 'p) mac_api \<Rightarrow> 'i \<Rightarrow> string \<Rightarrow> bytes \<Rightarrow> crypto_hash \<Rightarrow> RSAPadding \<Rightarrow> bytes \<Rightarrow> string \<Rightarrow> bool" where
  "mac_signed api i keyAlg digest h padding sig alg \<longleftrightarrow>
     (\<exists>key. ma_SecIdentityCopyPrivateKey api i = Inr key \<and>
       (keyAlg = ''ECDSA'' \<and> padding \<noteq> RSAPaddingPSS \<and> alg = ''ECDSA'' \<and>
          ma_SecKeyCreateSignature api key (ECDSASignatureDigestX962 h) digest = Inr sig \<or>
        keyAlg = ''RSA'' \<and> padding = RSAPaddingPSS \<and> alg = ''RSASSA-PSS'' \<and>
          ma_SecKeyCreateSignature api key (RSASignatureDigestPSS h) digest = Inr sig \<or>
        keyAlg = ''RSA'' \<and> padding \<noteq> RSAPaddingPSS \<and> alg = ''RSASSA-PKCS1-v1_5'' \<and>
          ma_SecKeyCreateSignature api key (RSASignatureDigestPKCS1v15 h) digest = Inr sig))"

lemma hashOfInt_CryptoHash: "DigestSize hash = Ok n \<Longrightarrow> \<exists>h. hashOfInt hash = Some h \<and> CryptoHash hash = Ok h"
  by (auto simp: DigestSize_def CryptoHash_def hashOfInt_def HashSHA256_def HashSHA384_def HashSHA512_def split: if_splits)

lemma macSignMatched_Ok:
  assumes "macSignMatched uc api m digest hash padding = Ok r" and "hashOfInt hash = Some h"
    and "- (2 ^ 31) \<le> padding" and "padding < 2 ^ 31"
  shows "mac_signed api (im_identityRef m) (ci_KeyAlgorithm (im_info m)) digest h padding (sr_Signature r) (sr_SignatureAlgorithm r)"
proof -
  from assms(2) have "int32 hash = hash" by (auto simp: hashOfInt_def int32_id split: if_splits)
  then show ?thesis using assms int32_id [of padding]
    by (auto simp: macSignMatched_def mac_sign_hash_def mac_signed_def andThen_Ok_iff Let_def RSAPaddingPSS_def int32_id
        split: if_splits sum.splits option.splits)
qed

text \<open>The reported padding and algorithm, for any padding.\<close>

lemma macSignMatched_reports:
  assumes "macSignMatched uc api m digest hash padding = Ok r"
  shows "sr_Padding r = padding" and "sr_SignatureAlgorithm r \<in> signature_algorithms"
    and "sr_SignatureAlgorithm r = ''RSASSA-PSS'' \<longleftrightarrow> padding = RSAPaddingPSS"
  using assms
  by (auto simp: macSignMatched_def signature_algorithms_def andThen_Ok_iff Let_def split: if_splits sum.splits)

lemma darwin_SignHash_Ok:
  assumes "fst (darwin_SignHash uc lib api tp digest hash padding mem) = Ok r"
  obtains m h where
    "matchThumbprint uc im_sha1 im_sha256 (cleanThumbprint uc tp) (fst (getMacIdentitiesInternal uc lib api mem)) = Some m"
    "DigestSize hash = Ok (length digest)" "CryptoHash hash = Ok h" "hashOfInt hash = Some h"
    "macSignMatched uc api m digest hash (effPadding padding) = Ok r"
proof -
  from assms have d: "DigestSize hash = Ok (length digest)"
    by (auto simp: darwin_SignHash_def split: sum.splits if_splits)
  obtain h where h: "hashOfInt hash = Some h" "CryptoHash hash = Ok h"
    using hashOfInt_CryptoHash [OF d] by blast
  from assms d obtain m where m: "matchThumbprint uc im_sha1 im_sha256 (cleanThumbprint uc tp)
        (fst (getMacIdentitiesInternal uc lib api mem)) = Some m"
      "macSignMatched uc api m digest hash (effPadding padding) = Ok r"
    by (auto simp: darwin_SignHash_def Let_def split: prod.splits option.splits)
  from that [OF m(1) d h(2) h(1) m(2)] show ?thesis .
qed

interpretation dw: cert_backend "\<lambda>mem. True"
    "\<lambda>mem. fst (darwin_ListCertificates uc lib api mem)"
    "\<lambda>mem t d h p. fst (darwin_SignHash uc lib api t d h p mem)"
  for uc :: unicode and lib :: "('k, 'm) crypto_lib_scheme" and api :: "('i, 'c, 'p) mac_api"
proof unfold_locales
  fix mem :: mac_mem and t d h p r
  assume "fst (darwin_SignHash uc lib api t d h p mem) = Ok r"
  then show "DigestSize h = Ok (length d)" and "sr_Padding r = effPadding p"
    and "sr_SignatureAlgorithm r \<in> signature_algorithms \<and>
      (sr_SignatureAlgorithm r = ''RSASSA-PSS'' \<longleftrightarrow> sr_Padding r = RSAPaddingPSS)"
    by (auto elim!: darwin_SignHash_Ok simp: macSignMatched_reports)
next
  fix mem :: mac_mem and t d h n p e
  assume "DigestSize h = Ok n" "length d \<noteq> n" "fst (darwin_SignHash uc lib api t d h p mem) = Err e"
  then show "e = ErrInvalidDigest \<or> e = ErrUnsupportedPlatform" by (simp add: darwin_SignHash_def)
next
  fix mem :: mac_mem and cs c
  assume "fst (darwin_ListCertificates uc lib api mem) = Ok cs" "c \<in> set cs"
  then show "ci_HasPrivateKey c"
    using mac_identities_ok [of _ uc lib api mem]
    by (auto simp: darwin_ListCertificates_def mac_identity_ok_def split: prod.splits)
qed

lemma darwin_signature:
  assumes "sha_lengths lib" and "fst (darwin_SignHash uc lib api tp digest hash padding mem) = Ok r"
    and "- (2 ^ 31) \<le> padding" and "padding < 2 ^ 31"
  shows "\<exists>i der cert keyAlg h. keychain_identity api i der \<and>
    (HasPrefix (thumbOfHash uc (sha1_Sum lib der)) (cleanThumbprint uc tp) \<or>
     HasPrefix (thumbOfHash uc (sha256_Sum256 lib der)) (cleanThumbprint uc tp)) \<and>
    ParseCertificate lib der = Ok cert \<and> mac_key_kind cert keyAlg \<and>
    DigestSize hash = Ok (length digest) \<and> CryptoHash hash = Ok h \<and> sr_Padding r = effPadding padding \<and>
    mac_signed api i keyAlg digest h (effPadding padding) (sr_Signature r) (sr_SignatureAlgorithm r)"
proof -
  let ?ids = "fst (getMacIdentitiesInternal uc lib api mem)"
  from darwin_SignHash_Ok [OF assms(2)] obtain m h where
    m: "matchThumbprint uc im_sha1 im_sha256 (cleanThumbprint uc tp) ?ids = Some m"
    and r: "DigestSize hash = Ok (length digest)" "CryptoHash hash = Ok h" "hashOfInt hash = Some h"
      "macSignMatched uc api m digest hash (effPadding padding) = Ok r" by metis
  have range: "- (2 ^ 31) \<le> effPadding padding" "effPadding padding < 2 ^ 31"
    using assms(3,4) by (simp_all add: effPadding_def RSAPaddingPKCS1_def)
  have "\<forall>i \<in> set ?ids. sha_lengths lib \<and> mac_identity_ok uc lib i"
    using assms(1) mac_identities_ok by blast
  from mac.match_sound [OF this m] have "m \<in> set ?ids"
    and "HasPrefix (im_sha1 m) (cleanThumbprint uc tp) \<or> HasPrefix (im_sha256 m) (cleanThumbprint uc tp)" by auto
  with mac_identities_ok [of m uc lib api mem] r(1,2) macSignMatched_Ok [OF r(4,3) range] macSignMatched_reports(1) [OF r(4)]
  show ?thesis by (auto simp: mac_identity_ok_def)
qed

text \<open>
  C9: a signature that the macOS backend returns, for a padding code that fits a C \<^verbatim>\<open>int\<close>, is made by the
  private key of an identity of the keychain whose certificate parses and has a SHA-1 or SHA-256 thumbprint that starts
  with the normalised request, over the digest as given, whose length is that of the hash. The Security framework is asked
  for the algorithm that belongs to the type of the certificate's public key (RSA or elliptic curve), the hash
  and the padding, and this is the algorithm that is reported.
\<close>

theorem darwin_SignHash_sound:
  assumes "sha_lengths lib" and "fst (darwin_SignHash uc lib api tp digest hash padding mem) = Ok r"
    and "- (2 ^ 31) \<le> padding" and "padding < 2 ^ 31"
  shows "\<exists>i der cert keyAlg h. keychain_identity api i der \<and>
    (HasPrefix (thumbOfHash uc (sha1_Sum lib der)) (cleanThumbprint uc tp) \<or>
     HasPrefix (thumbOfHash uc (sha256_Sum256 lib der)) (cleanThumbprint uc tp)) \<and>
    ParseCertificate lib der = Ok cert \<and> mac_key_kind cert keyAlg \<and>
    DigestSize hash = Ok (length digest) \<and> CryptoHash hash = Ok h \<and> sr_Padding r = effPadding padding \<and>
    mac_signed api i keyAlg digest h (effPadding padding) (sr_Signature r) (sr_SignatureAlgorithm r)"
  using assms by (rule darwin_signature)

text \<open>A keychain with two identities: the certificates 1 (RSA) and 2 (ECDSA).\<close>

definition demo_mac :: "(nat, nat, nat) mac_api" where
  "demo_mac = \<lparr>ma_SecItemCopyMatching = Some [1, 2], ma_SecIdentityCopyCertificate = Some,
     ma_SecCertificateCopyData = (\<lambda>c. Some [of_nat c]), ma_KeyAttributes = (\<lambda>c. None),
     ma_SecIdentityCopyPrivateKey = Inr, ma_SecKeyCreateSignature = (\<lambda>k a d. Inr (of_nat k # d)),
     ma_sc_auth = Err (ErrorString [])\<rparr>"

definition demo_mem :: mac_mem where
  "demo_mem = \<lparr>mm_arrays = 0, mm_buffers = 0, mm_retained = 0\<rparr>"

lemma demo_mac_identities:
  "fst (getMacIdentitiesInternal demo_uc demo_lib demo_mac demo_mem) =
     map (\<lambda>(b, alg, bits). \<lparr>im_info = \<lparr>ci_Thumbprint = thumbOfHash demo_uc (replicate 20 b), ci_Subject = ''CN=demo'',
        ci_Issuer = ''CN=ca'', ci_NotBefore = 0, ci_NotAfter = 100, ci_KeyAlgorithm = alg,
        ci_KeySize = bits, ci_HasPrivateKey = True, ci_IsTPM = False,
        ci_ProviderName = ''macOS Keychain'', ci_CertificateDER = [b]\<rparr>,
      im_sha1 = thumbOfHash demo_uc (replicate 20 b), im_sha256 = thumbOfHash demo_uc (replicate 32 b),
      im_identityRef = unat b\<rparr>) [(1, ''RSA'', 12), (2, ''ECDSA'', 256)]"
  by (simp add: getMacIdentitiesInternal_def get_mac_identities_def macItem_def macIdentity_def mac_keyMetadata_def
      parseSCAuthIdentities_def demo_mac_def demo_lib_def demo_cert_def BitLen.simps List.map_filter_simps Let_def)

lemma demo_mac_sign:
  "fst (darwin_SignHash demo_uc demo_lib demo_mac (thumbOfHash demo_uc (replicate 20 2)) (replicate 32 7) HashSHA256 0 demo_mem)
     = Ok \<lparr>sr_Signature = 2 # replicate 32 7, sr_SignatureAlgorithm = ''ECDSA'', sr_Padding = 1\<rparr>"
  using demo_mac_identities
  by (auto simp: darwin_SignHash_def matchThumbprint_def macSignMatched_def mac_sign_hash_def hashOfInt_def
      DigestSize_def effPadding_def demo_mac_def go_defs int32_id Let_def split: prod.split)

theorem darwin_SignHash_sound_witness:
  "\<exists>i der cert keyAlg h. keychain_identity demo_mac i der \<and> ParseCertificate demo_lib der = Ok cert \<and>
     mac_key_kind cert keyAlg \<and> CryptoHash HashSHA256 = Ok h \<and>
     mac_signed demo_mac i keyAlg (replicate 32 7) h 1 (2 # replicate 32 7) ''ECDSA''"
  using darwin_SignHash_sound [OF demo_sha_lengths demo_mac_sign] by (simp add: effPadding_def go_defs) blast

end
