(* ===== verification/Sign_Test_Mac.thy ===== *)
theory Sign_Test_Mac
  imports Store_Darwin Cli
begin

text \<open>
  The macOS test program, \<^verbatim>\<open>cmd/local-sign-test-mac/main.go\<close>: it signs with an identity of the keychain without
  the package \<^verbatim>\<open>certstore\<close>. Its C function \<^verbatim>\<open>get_mac_identities\<close> and its parser of the output of \<^verbatim>\<open>sc_auth\<close>
  are those of the backend, so the definitions of \<^verbatim>\<open>Store_Darwin\<close> are used; the rest differs. The
  record \<open>test_api\<close> adds what only this program asks for: whether the attributes of the public key
  that belongs to a private key name an elliptic curve, and the bit string in an encoded public key. The
  program never frees the list of identities; it ends soon after.
\<close>

section \<open>Signing\<close>

record ('i, 'c, 'p) test_api = "('i, 'c, 'p) mac_api" +
  ta_KeyIsEC :: "'p \<Rightarrow> bool"
  ta_SpkiPublicKey :: "bytes \<Rightarrow> goerror + bytes"

definition PaddingPKCS1 :: int where "PaddingPKCS1 = 0"
definition PaddingPSS :: int where "PaddingPSS = 1"

definition sec_algorithm_for :: "('i, 'c, 'p) test_api \<Rightarrow> 'p \<Rightarrow> bool \<Rightarrow> sec_algorithm" where
  "sec_algorithm_for api privKey isPSS =
     (if ta_KeyIsEC api privKey then ECDSASignatureDigestX962 SHA256
      else if isPSS then RSASignatureDigestPSS SHA256 else RSASignatureDigestPKCS1v15 SHA256)"

definition sec_sign_hash :: "('i, 'c, 'p) test_api \<Rightarrow> 'i \<Rightarrow> bytes \<Rightarrow> bool \<Rightarrow> string + bytes" where
  "sec_sign_hash api identity digest isPSS =
     (case ma_SecIdentityCopyPrivateKey api identity of
        Inl status \<Rightarrow> Inl (''SecIdentityCopyPrivateKey failed with status '' @ dec_of_int status)
      | Inr privKey \<Rightarrow>
          (case ma_SecKeyCreateSignature api privKey (sec_algorithm_for api privKey isPSS) digest of
             Inr sig \<Rightarrow> Inr sig
           | Inl (Some desc) \<Rightarrow> Inl (''SecKeyCreateSignature error: '' @ desc)
           | Inl None \<Rightarrow> Inl ''SecKeyCreateSignature returned NULL''))"

definition test_signHash :: "('i, 'c, 'p) test_api \<Rightarrow> 'i \<Rightarrow> bytes \<Rightarrow> int \<Rightarrow> goerror + bytes" where
  "test_signHash api identity digest padding =
     mapErr (\<lambda>msg. ErrorString (take 511 msg)) (sec_sign_hash api identity digest (padding = PaddingPSS))"

section \<open>Listing\<close>

record 'i MacCertInfo =
  mt_Thumbprint :: string
  mt_SHA1Thumbprint :: string
  mt_Subject :: string
  mt_KeyAlgorithm :: string
  mt_KeySize :: int
  mt_IsSmartCard :: bool
  mt_ProviderName :: string
  mt_IdentityRef :: 'i

definition computePubKeySHA1 :: "unicode \<Rightarrow> ('k, 'm) crypto_lib_scheme \<Rightarrow> ('i, 'c, 'p) test_api \<Rightarrow> x509_cert \<Rightarrow> string" where
  "computePubKeySHA1 uc lib api cert =
     (case ta_SpkiPublicKey api (x_RawSPKI cert) of
        Inl _ \<Rightarrow> []
      | Inr key \<Rightarrow> if 0 < length key then ToUpper uc (EncodeToString (sha1_Sum lib key)) else [])"

text \<open>The first of the hashes that is not empty and that \<^verbatim>\<open>sc_auth\<close> has listed decides the provider.\<close>

fun smartCardFor :: "sc_map \<Rightarrow> string list \<Rightarrow> string option" where
  "smartCardFor m [] = None"
| "smartCardFor m (h # hs) =
     (if h = [] then smartCardFor m hs
      else case m h of
             None \<Rightarrow> smartCardFor m hs
           | Some sc \<Rightarrow> Some (if sa_SmartCard sc \<noteq> [] then sa_SmartCard sc else ''CryptoTokenKit''))"

definition test_certInfo :: "unicode \<Rightarrow> ('k, 'm) crypto_lib_scheme \<Rightarrow> ('i, 'c, 'p) test_api \<Rightarrow> sc_map option \<Rightarrow> 'i MacCertItem \<Rightarrow>
    'i MacCertInfo option" where
  "test_certInfo uc lib api scIdentities item =
     (let der = mi_cert_data item in
      case ParseCertificate lib der of
        Inl _ \<Rightarrow> None
      | Inr cert \<Rightarrow>
          (let certSHA1 = ToUpper uc (EncodeToString (sha1_Sum lib der));
               spkiSHA1 = ToUpper uc (EncodeToString (sha1_Sum lib (x_RawSPKI cert)));
               subjKeyID = ToUpper uc (EncodeToString (x_SubjectKeyId cert));
               pubKeySHA1 = computePubKeySHA1 uc lib api cert;
               keyAlg = (if Contains (ToLower uc (mi_key_type item)) ''ec'' \<or> x_PublicKeyAlgorithm cert = ''ECDSA''
                         then ''ECDSA'' else ''RSA'');
               card = (case scIdentities of None \<Rightarrow> None | Some m \<Rightarrow> smartCardFor m [subjKeyID, pubKeySHA1, certSHA1, spkiSHA1])
           in Some \<lparr>mt_Thumbprint = ToUpper uc (EncodeToString (sha256_Sum256 lib der)), mt_SHA1Thumbprint = certSHA1,
                    mt_Subject = x_Subject cert, mt_KeyAlgorithm = keyAlg, mt_KeySize = mi_key_size item,
                    mt_IsSmartCard = (card \<noteq> None),
                    mt_ProviderName = (case card of None \<Rightarrow> ''macOS Keychain'' | Some p \<Rightarrow> p),
                    mt_IdentityRef = mi_identity item\<rparr>))"

definition test_identities :: "('i, 'c, 'p) test_api \<Rightarrow> 'i MacCertItem list" where
  "test_identities api =
     (case ma_SecItemCopyMatching api of None \<Rightarrow> [] | Some ids \<Rightarrow> List.map_filter (macItem (mac_api.truncate api)) ids)"

definition test_parseSCAuth :: "unicode \<Rightarrow> goerror + string \<Rightarrow> sc_map option" where
  "test_parseSCAuth uc out = parseSCAuthIdentities uc out"

definition test_listCertificates :: "unicode \<Rightarrow> ('k, 'm) crypto_lib_scheme \<Rightarrow> ('i, 'c, 'p) test_api \<Rightarrow> 'i MacCertInfo list" where
  "test_listCertificates uc lib api =
     (let scIdentities = test_parseSCAuth uc (ma_sc_auth api); items = test_identities api in
      if length items = 0 then [] else List.map_filter (test_certInfo uc lib api scIdentities) items)"

section \<open>The program\<close>

definition mac_entry :: "nat \<Rightarrow> 'i MacCertInfo \<Rightarrow> string" where
  "mac_entry i c =
     line (''  ['' @ dec_of_nat (Suc i) @ ''] '' @ mt_Thumbprint c) @
     line (''      subject: '' @ mt_Subject c) @
     line (''      key: '' @ mt_KeyAlgorithm c @ '' '' @ dec_of_int (mt_KeySize c) @ ''-bit  smartcard: '' @
           (if mt_IsSmartCard c then ''yes'' else ''no'') @ ''  provider: '' @ mt_ProviderName c)"

definition mac_selectCertificate :: "unicode \<Rightarrow> 'i MacCertInfo list \<Rightarrow> string \<Rightarrow> 'i MacCertInfo prog" where
  "mac_selectCertificate uc =
     selectCertificateBy uc (\<lambda>c. [mt_Thumbprint c, mt_SHA1Thumbprint c])
       (\<lambda>c. mt_Subject c @ '' ('' @ mt_Thumbprint c @ '')'') mac_entry"

definition mac_resolvePadding :: "unicode \<Rightarrow> string \<Rightarrow> int prog" where
  "mac_resolvePadding uc = resolvePaddingAs uc PaddingPKCS1 PaddingPSS"

definition mac_test_main :: "unicode \<Rightarrow> ('k, 'm) crypto_lib_scheme \<Rightarrow> ('i, 'c, 'p) test_api \<Rightarrow> test_flags \<Rightarrow> unit prog" where
  "mac_test_main uc lib api f =
     (let certs = test_listCertificates uc lib api in
      pbind (guardP (length certs \<noteq> 0) ''no certificates with private keys found in macOS Security framework'') (\<lambda>_.
      pbind (mac_selectCertificate uc certs (targetOf f)) (\<lambda>selected.
      pbind (readText uc (tf_message f)) (\<lambda>text.
      pbind (if mt_KeyAlgorithm selected = ''RSA'' then mac_resolvePadding uc (tf_padding f) else lift (Ok PaddingPKCS1)) (\<lambda>rsaPadding.
      let digest = sha256_Sum256 lib (bytes_of_string text) in
      pbind (lift (test_signHash api (mt_IdentityRef selected) digest rsaPadding)) (\<lambda>signature.
      let isRSA = (mt_KeyAlgorithm selected = ''RSA'');
          paddingStr = (if rsaPadding = PaddingPKCS1 then ''PKCS1'' else if rsaPadding = PaddingPSS then ''PSS'' else []);
          sigAlg = (if isRSA \<and> rsaPadding = PaddingPKCS1 then ''RSA-PKCS1v1.5-SHA256''
                    else if isRSA \<and> rsaPadding = PaddingPSS then ''RSA-PSS-SHA256''
                    else mt_KeyAlgorithm selected @ ''-SHA256'')
      in say (signReport (mt_Subject selected) digest (if isRSA then line (''RSA padding: '' @ paddingStr) else []) sigAlg @
              signatureLines signature)))))))"

section \<open>Properties\<close>

lemma smartCardFor_member: "h \<in> set hs \<Longrightarrow> h \<noteq> [] \<Longrightarrow> m h \<noteq> None \<Longrightarrow> smartCardFor m hs \<noteq> None"
  by (induction hs) (auto split: option.split)

text \<open>
  A certificate that the backend of the service reports as held by a smart card is one that the test program
  reports so as well. The program recognises more: it also looks for the hash of the public key, which
  is what \<^verbatim>\<open>sc_auth\<close> prints, whereas the backend only looks for the hash of the certificate.
\<close>

lemma backend_smartcard_is_test_smartcard:
  assumes "sha_lengths lib" and "macIdentity uc lib sc item = Some m" and "test_certInfo uc lib api sc item = Some c"
    and "ci_IsTPM (im_info m)"
  shows "mt_IsSmartCard c"
proof -
  from assms(2,4) obtain sm where sm: "sc = Some sm" "sm (thumbOfHash uc (sha1_Sum lib (mi_cert_data item))) \<noteq> None"
    by (auto simp: macIdentity_def Let_def split: sum.splits prod.splits option.splits)
  have "length (thumbOfHash uc (sha1_Sum lib (mi_cert_data item))) = 40" using assms(1) by (simp add: sha_lengths_def)
  then have "thumbOfHash uc (sha1_Sum lib (mi_cert_data item)) \<noteq> []" by (intro notI) (simp del: length_thumbOfHash)
  with sm(2) have "smartCardFor sm hs \<noteq> None" if "thumbOfHash uc (sha1_Sum lib (mi_cert_data item)) \<in> set hs" for hs
    using that smartCardFor_member by blast
  with assms(3) sm(1) show ?thesis
    by (auto simp: test_certInfo_def thumbOfHash_def [symmetric] Let_def simp del: smartCardFor.simps not_None_eq split: sum.splits)
qed

lemma pubkey_hash_only_test:
  assumes "macIdentity uc lib (Some sm) item = Some m" and "test_certInfo uc lib api (Some sm) item = Some c"
    and "ParseCertificate lib (mi_cert_data item) = Ok cert"
    and "computePubKeySHA1 uc lib api cert \<noteq> []" and "sm (computePubKeySHA1 uc lib api cert) \<noteq> None"
    and "sm (thumbOfHash uc (sha1_Sum lib (mi_cert_data item))) = None"
  shows "mt_IsSmartCard c \<and> \<not> ci_IsTPM (im_info m)"
proof -
  from assms(4,5) have "smartCardFor sm hs \<noteq> None" if "computePubKeySHA1 uc lib api cert \<in> set hs" for hs
    using that smartCardFor_member by blast
  with assms(2,3) have "mt_IsSmartCard c"
    by (auto simp: test_certInfo_def Let_def simp del: smartCardFor.simps not_None_eq)
  moreover from assms(1,3,6) have "\<not> ci_IsTPM (im_info m)"
    by (auto simp: macIdentity_def Let_def split: prod.splits)
  ultimately show ?thesis ..
qed

lemma selectCertificateBy_member:
  assumes "selectCertificateBy uc thumbs describe entry certs target rd = (out, Ok c, rd')"
  shows "c \<in> set certs"
proof (cases "target = []")
  case True
  with assms show ?thesis
    by (auto simp: selectCertificateBy_def pbind_Ok_iff dest!: readChoice_Ok)
next
  case False
  with assms have "uniqueMatch uc target (matchesFor uc thumbs target certs) = Ok c"
    by (auto simp: selectCertificateBy_def pbind_Ok_iff)
  then have "c \<in> set (matchesFor uc thumbs target certs)" by (auto simp: uniqueMatch_def length_Suc_conv split: if_splits)
  then show ?thesis by (auto simp: matchesFor_def Let_def split: if_splits)
qed

text \<open>
  When the macOS test program ends without an error, it has signed the SHA-256 digest of a message
  that is not empty with the private key of one of the certificates that it has listed; the algorithm it has
  asked for is the one for SHA-256 that belongs to the kind of key and the padding, a padding is asked for only
  for an RSA key, and the last lines it prints are the signature.
\<close>

lemma mac_test_signs_selected:
  assumes "mac_test_main uc lib api f rd = (out, Ok u, rd')"
  shows "\<exists>c msg padding key sig. c \<in> set (test_listCertificates uc lib api) \<and> msg \<noteq> [] \<and>
    padding \<in> {PaddingPKCS1, PaddingPSS} \<and> (mt_KeyAlgorithm c = ''RSA'' \<or> padding = PaddingPKCS1) \<and>
    ma_SecIdentityCopyPrivateKey api (mt_IdentityRef c) = Inr key \<and>
    ma_SecKeyCreateSignature api key (sec_algorithm_for api key (padding = PaddingPSS))
      (sha256_Sum256 lib (bytes_of_string msg)) = Inr sig \<and>
    suffix (signatureLines sig) out"
proof -
  from assms obtain c o1 rd1 msg o2 rd2 padding o3 rd3 sig where
    c: "mac_selectCertificate uc (test_listCertificates uc lib api) (targetOf f) rd = (o1, Ok c, rd1)"
    and m: "readText uc (tf_message f) rd1 = (o2, Ok msg, rd2)"
    and p: "(if mt_KeyAlgorithm c = ''RSA'' then mac_resolvePadding uc (tf_padding f) else lift (Ok PaddingPKCS1)) rd2 =
      (o3, Ok padding, rd3)"
    and s: "test_signHash api (mt_IdentityRef c) (sha256_Sum256 lib (bytes_of_string msg)) padding = Ok sig"
    and out: "suffix (signatureLines sig) out"
    by (auto simp: mac_test_main_def pbind_Ok_iff Let_def suffix_def append_assoc [symmetric] simp del: append_assoc)
  from c have "c \<in> set (test_listCertificates uc lib api)"
    unfolding mac_selectCertificate_def by (rule selectCertificateBy_member)
  moreover from p have "padding \<in> {PaddingPKCS1, PaddingPSS} \<and> (mt_KeyAlgorithm c = ''RSA'' \<or> padding = PaddingPKCS1)"
    by (auto simp: mac_resolvePadding_def split: if_splits dest: resolvePaddingAs_range)
  moreover from s obtain key where "ma_SecIdentityCopyPrivateKey api (mt_IdentityRef c) = Inr key"
      "ma_SecKeyCreateSignature api key (sec_algorithm_for api key (padding = PaddingPSS))
        (sha256_Sum256 lib (bytes_of_string msg)) = Inr sig"
    by (auto simp: test_signHash_def sec_sign_hash_def split: sum.splits option.splits)
  ultimately show ?thesis using readText_nonempty [OF m] out by blast
qed

text \<open>A keychain with one identity, which the user chooses from the menu.\<close>

definition demo_test_api :: "(nat, nat, nat) test_api" where
  "demo_test_api = \<lparr>ma_SecItemCopyMatching = Some [1], ma_SecIdentityCopyCertificate = Some,
     ma_SecCertificateCopyData = (\<lambda>c. Some [of_nat c]), ma_KeyAttributes = (\<lambda>c. Some (Some ''42'', Some 2048)),
     ma_SecIdentityCopyPrivateKey = Inr, ma_SecKeyCreateSignature = (\<lambda>k a d. Inr (of_nat k # d)),
     ma_sc_auth = Err (ErrorString []), ta_KeyIsEC = (\<lambda>k. k = 2), ta_SpkiPublicKey = (\<lambda>d. Ok d)\<rparr>"

definition demo_test_flags :: test_flags where
  "demo_test_flags = \<lparr>tf_message = ''hello'', tf_padding = ''pss'', tf_thumbprint = [], tf_cert = []\<rparr>"

lemma demo_test_list:
  "\<exists>c. test_listCertificates demo_uc demo_lib demo_test_api = [c] \<and> mt_KeyAlgorithm c = ''RSA'' \<and> mt_IdentityRef c = 1"
proof -
  have "\<not> Contains (ToLower demo_uc ''42'') ''ec''" by code_simp
  then show ?thesis
    by (simp add: test_listCertificates_def test_identities_def test_parseSCAuth_def parseSCAuthIdentities_def
        test_certInfo_def macItem_def mac_api.truncate_def demo_test_api_def demo_lib_def demo_cert_def List.map_filter_simps Let_def)
qed

lemma demo_test_run: "isOk (fst (snd (mac_test_main demo_uc demo_lib demo_test_api demo_test_flags demo_input)))"
proof -
  obtain c where c: "test_listCertificates demo_uc demo_lib demo_test_api = [c]" "mt_KeyAlgorithm c = ''RSA''" "mt_IdentityRef c = 1"
    using demo_test_list by blast
  obtain out where r: "readChoice demo_uc 1 demo_input = (out, Ok 0, ([], []))" using demo_choice by blast
  have s: "test_signHash demo_test_api 1 d p = Ok (1 # d)" for d p
    by (simp add: test_signHash_def sec_sign_hash_def demo_test_api_def)
  show ?thesis
    by (simp add: mac_test_main_def c s [unfolded One_nat_def] demo_test_flags_def targetOf_def mac_selectCertificate_def selectCertificateBy_def
        r [unfolded One_nat_def] readText_def mac_resolvePadding_def demo_padding prog_simps Let_def)
qed

lemma mac_test_signs_selected_witness:
  "\<exists>out rd' sig. mac_test_main demo_uc demo_lib demo_test_api demo_test_flags demo_input = (out, Ok (), rd') \<and>
     suffix (signatureLines sig) out"
proof -
  obtain out r rd' where m: "mac_test_main demo_uc demo_lib demo_test_api demo_test_flags demo_input = (out, r, rd')"
    by (metis prod_cases3)
  with demo_test_run have r: "r = Ok ()" by (cases r) auto
  from mac_test_signs_selected [OF m [unfolded r]] m r show ?thesis by blast
qed

end
