(* ===== verification/Gen_Certs.thy ===== *)
theory Gen_Certs
  imports Sample_Env
begin

text \<open>
  The command \<^verbatim>\<open>cmd/gencerts/main.go\<close>, which makes a certificate authority, a server certificate and a client
  certificate for mutual TLS. Key generation, the creation of a certificate and the encodings are the
  parameter \<open>gen_api\<close>, as are the results of the file operations; the files are a state. The third argument
  of \<open>ga_CreateCertificate\<close> is the key that is certified, the fourth the one that signs; the parent is \<open>None\<close>
  for a certificate that is its own parent.
\<close>

section \<open>Data\<close>

record x509_template =
  xt_SerialNumber :: int
  xt_CommonName :: string
  xt_NotBefore :: time
  xt_NotAfter :: time
  xt_KeyUsage :: int
  xt_BasicConstraintsValid :: bool
  xt_IsCA :: bool
  xt_ExtKeyUsage :: "int list"
  xt_DNSNames :: "string list"
  xt_IPAddresses :: "bytes list"

record 'k gen_api =
  ga_GenerateKey :: "nat \<Rightarrow> goerror + 'k"
  ga_CreateCertificate :: "x509_template \<Rightarrow> x509_cert option \<Rightarrow> 'k \<Rightarrow> 'k \<Rightarrow> goerror + bytes"
  ga_MarshalPKCS1PrivateKey :: "'k \<Rightarrow> bytes"
  ga_pem_Encode :: "pem_block \<Rightarrow> bytes"
  ga_MkdirAll :: "string \<Rightarrow> goerror option"
  ga_Stat :: "string \<Rightarrow> goerror option"
  ga_Create :: "string \<Rightarrow> goerror option"
  ga_Write :: "string \<Rightarrow> (goerror \<times> bytes) option"

type_synonym gen_files = "string \<Rightarrow> bytes option"

record gen_flags =
  gf_out :: string
  gf_cn :: string
  gf_force :: bool

definition gen_hour :: int where "gen_hour = 3600000000000"

definition caTemplate :: "string \<Rightarrow> time \<Rightarrow> x509_template" where
  "caTemplate cn now =
     \<lparr>xt_SerialNumber = 1, xt_CommonName = cn @ '' CA'', xt_NotBefore = now - gen_hour, xt_NotAfter = now + 10 * 365 * 24 * gen_hour,
      xt_KeyUsage = or KeyUsageCertSign KeyUsageCRLSign, xt_BasicConstraintsValid = True, xt_IsCA = True, xt_ExtKeyUsage = [],
      xt_DNSNames = [], xt_IPAddresses = []\<rparr>"

text \<open>\<^verbatim>\<open>net.ParseIP\<close> returns an IPv4 address in its form of 16 bytes.\<close>

definition serverTemplate :: "string \<Rightarrow> time \<Rightarrow> x509_template" where
  "serverTemplate cn now =
     \<lparr>xt_SerialNumber = 2, xt_CommonName = cn @ '' Server'', xt_NotBefore = now - gen_hour, xt_NotAfter = now + 2 * 365 * 24 * gen_hour,
      xt_KeyUsage = or KeyUsageDigitalSignature KeyUsageKeyEncipherment, xt_BasicConstraintsValid = False, xt_IsCA = False,
      xt_ExtKeyUsage = [ExtKeyUsageServerAuth], xt_DNSNames = [''localhost''],
      xt_IPAddresses = [replicate 10 0 @ [0xFF, 0xFF, 127, 0, 0, 1]]\<rparr>"

definition clientTemplate :: "string \<Rightarrow> time \<Rightarrow> x509_template" where
  "clientTemplate cn now =
     \<lparr>xt_SerialNumber = 3, xt_CommonName = cn @ '' Client'', xt_NotBefore = now - gen_hour, xt_NotAfter = now + 2 * 365 * 24 * gen_hour,
      xt_KeyUsage = KeyUsageDigitalSignature, xt_BasicConstraintsValid = False, xt_IsCA = False,
      xt_ExtKeyUsage = [ExtKeyUsageClientAuth], xt_DNSNames = [], xt_IPAddresses = []\<rparr>"

section \<open>The program\<close>

record 'k gen_material =
  gm_caDER :: bytes
  gm_caKey :: 'k
  gm_serverDER :: bytes
  gm_serverKey :: 'k
  gm_clientDER :: bytes
  gm_clientKey :: 'k

definition genMaterial :: "('k, 'm) crypto_lib_scheme \<Rightarrow> 'k gen_api \<Rightarrow> string \<Rightarrow> time \<Rightarrow> goerror + 'k gen_material" where
  "genMaterial lib api cn now =
     andThen (ga_GenerateKey api 0) (\<lambda>caKey.
     andThen (ga_CreateCertificate api (caTemplate cn now) None caKey caKey) (\<lambda>caDER.
     andThen (ParseCertificate lib caDER) (\<lambda>caCert.
     andThen (ga_GenerateKey api 1) (\<lambda>serverKey.
     andThen (ga_CreateCertificate api (serverTemplate cn now) (Some caCert) serverKey caKey) (\<lambda>serverDER.
     andThen (ga_GenerateKey api 2) (\<lambda>clientKey.
     andThen (ga_CreateCertificate api (clientTemplate cn now) (Some caCert) clientKey caKey) (\<lambda>clientDER.
     Ok \<lparr>gm_caDER = caDER, gm_caKey = caKey, gm_serverDER = serverDER, gm_serverKey = serverKey, gm_clientDER = clientDER,
         gm_clientKey = clientKey\<rparr>)))))))"

definition genFiles :: "string list" where
  "genFiles = [''ca.crt'', ''ca.key'', ''server.crt'', ''server.key'', ''client.crt'', ''client.key'']"

definition certBlock :: "bytes \<Rightarrow> pem_block" where
  "certBlock der = \<lparr>pb_Type = ''CERTIFICATE'', pb_Bytes = der\<rparr>"

definition keyBlock :: "'k gen_api \<Rightarrow> 'k \<Rightarrow> pem_block" where
  "keyBlock api key = \<lparr>pb_Type = ''RSA PRIVATE KEY'', pb_Bytes = ga_MarshalPKCS1PrivateKey api key\<rparr>"

text \<open>\<^verbatim>\<open>writeCert\<close> and \<^verbatim>\<open>writeKey\<close>: the file is created, then written; a failed write leaves some bytes.\<close>

definition writePem :: "'k gen_api \<Rightarrow> string \<Rightarrow> pem_block \<Rightarrow> gen_files \<Rightarrow> goerror option \<times> gen_files" where
  "writePem api path block fs =
     (case ga_Create api path of
        Some e \<Rightarrow> (Some e, fs)
      | None \<Rightarrow>
          (case ga_Write api path of
             Some (e, left) \<Rightarrow> (Some e, fs(path \<mapsto> left))
           | None \<Rightarrow> (None, fs(path \<mapsto> ga_pem_Encode api block))))"

fun writeAll :: "'k gen_api \<Rightarrow> (string \<times> pem_block) list \<Rightarrow> gen_files \<Rightarrow> goerror option \<times> gen_files" where
  "writeAll api [] fs = (None, fs)"
| "writeAll api ((path, block) # ws) fs =
     (case writePem api path block fs of
        (Some e, fs) \<Rightarrow> (Some e, fs)
      | (None, fs) \<Rightarrow> writeAll api ws fs)"

definition outputs :: "'k gen_api \<Rightarrow> (string \<Rightarrow> string) \<Rightarrow> 'k gen_material \<Rightarrow> (string \<times> pem_block) list" where
  "outputs api join m =
     [(join ''ca.crt'', certBlock (gm_caDER m)), (join ''ca.key'', keyBlock api (gm_caKey m)),
      (join ''server.crt'', certBlock (gm_serverDER m)), (join ''server.key'', keyBlock api (gm_serverKey m)),
      (join ''client.crt'', certBlock (gm_clientDER m)), (join ''client.key'', keyBlock api (gm_clientKey m))]"

definition existing :: "'k gen_api \<Rightarrow> (string \<Rightarrow> string) \<Rightarrow> bool \<Rightarrow> gen_files \<Rightarrow> string option" where
  "existing api join force fs =
     find (\<lambda>path. fs path \<noteq> None \<and> ga_Stat api path = None \<and> \<not> force) (map join genFiles)"

definition gencerts_main :: "('k, 'm) crypto_lib_scheme \<Rightarrow> os_env \<Rightarrow> 'k gen_api \<Rightarrow> time \<Rightarrow> gen_flags \<Rightarrow> gen_files \<Rightarrow>
    goerror option \<times> gen_files" where
  "gencerts_main lib env api now f fs =
     (let join = filepath_Join env (gf_out f) in
      case ga_MkdirAll api (gf_out f) of
        Some e \<Rightarrow> (Some e, fs)
      | None \<Rightarrow>
     (case existing api join (gf_force f) fs of
        Some path \<Rightarrow> (Some (ErrorString (path @ '' already exists (use -force to overwrite)'')), fs)
      | None \<Rightarrow>
     (case genMaterial lib api (gf_cn f) now of
        Inl e \<Rightarrow> (Some e, fs)
      | Inr m \<Rightarrow> writeAll api (outputs api join m) fs)))"

text \<open>What the command prints and its exit status: the closing messages, or the error on standard error.\<close>

record gen_output =
  go_stdout :: "string list"
  go_stderr :: "string list"
  go_exit :: nat

definition gencerts_fatal :: "goerror \<Rightarrow> gen_output" where
  "gencerts_fatal e = \<lparr>go_stdout = [], go_stderr = [''error: '' @ Error e], go_exit = 1\<rparr>"

definition usageLine :: "string \<Rightarrow> string \<Rightarrow> string \<Rightarrow> string" where
  "usageLine outDir cmd name =
     ''  go run ./cmd/'' @ cmd @ '' -addr 127.0.0.1:50051 -ca '' @ outDir @ ''/ca.crt -cert '' @ outDir @ ''/'' @ name @
     ''.crt -key '' @ outDir @ ''/'' @ name @ ''.key''"

definition closingMessages :: "string \<Rightarrow> string list" where
  "closingMessages outDir =
     [''Generated mTLS certificates in '' @ outDir, [], ''Start server:'', usageLine outDir ''cert-server'' ''server'',
      ''Run client:'', usageLine outDir ''example-client'' ''client'']"

definition gencerts_run :: "('k, 'm) crypto_lib_scheme \<Rightarrow> os_env \<Rightarrow> 'k gen_api \<Rightarrow> time \<Rightarrow> gen_flags \<Rightarrow> gen_files \<Rightarrow>
    gen_output \<times> gen_files" where
  "gencerts_run lib env api now f fs =
     (case gencerts_main lib env api now f fs of
        (Some e, fs') \<Rightarrow> (gencerts_fatal e, fs')
      | (None, fs') \<Rightarrow> (\<lparr>go_stdout = closingMessages (gf_out f), go_stderr = [], go_exit = 0\<rparr>, fs'))"

section \<open>Properties\<close>

text \<open>Without the flag, a file that exists is not touched, and neither is any other.\<close>

lemma gencerts_keeps_existing:
  assumes "name \<in> set genFiles" and "fs (filepath_Join env (gf_out f) name) \<noteq> None"
    and "ga_Stat api (filepath_Join env (gf_out f) name) = None" and "\<not> gf_force f"
  shows "snd (gencerts_main lib env api now f fs) = fs \<and> fst (gencerts_main lib env api now f fs) \<noteq> None"
proof -
  have "existing api (filepath_Join env (gf_out f)) (gf_force f) fs \<noteq> None"
    using assms by (auto simp: existing_def find_None_iff)
  then show ?thesis by (auto simp: gencerts_main_def Let_def split: option.splits)
qed

lemma writeAll_files:
  assumes "writeAll api ws fs = (None, fs')" and "distinct (map fst ws)"
  shows "fs' = (\<lambda>p. case map_of ws p of Some b \<Rightarrow> Some (ga_pem_Encode api b) | None \<Rightarrow> fs p)"
  using assms
proof (induction ws arbitrary: fs)
  case (Cons w ws)
  obtain path block where w: "w = (path, block)" by (cases w)
  from Cons.prems(1) have "writeAll api ws (fs(path \<mapsto> ga_pem_Encode api block)) = (None, fs')"
    by (auto simp: w writePem_def split: option.splits)
  moreover from Cons.prems(2) have "map_of ws path = None" by (simp add: w map_of_eq_None_iff)
  ultimately show ?case
    using Cons.IH Cons.prems(2) by (auto simp: w fun_eq_iff split: option.split)
qed simp

text \<open>
  A run that succeeds has written six files: each certificate is created for the key beside it, signed with
  the key of the authority, with the authority as its parent; no other file has changed.
\<close>

lemma gencerts_writes_matching_pairs:
  assumes "gencerts_main lib env api now f fs = (None, fs')" and "inj (filepath_Join env (gf_out f))"
  shows "\<exists>m caCert. genMaterial lib api (gf_cn f) now = Ok m \<and>
    ga_CreateCertificate api (caTemplate (gf_cn f) now) None (gm_caKey m) (gm_caKey m) = Ok (gm_caDER m) \<and>
    ParseCertificate lib (gm_caDER m) = Ok caCert \<and>
    ga_CreateCertificate api (serverTemplate (gf_cn f) now) (Some caCert) (gm_serverKey m) (gm_caKey m) = Ok (gm_serverDER m) \<and>
    ga_CreateCertificate api (clientTemplate (gf_cn f) now) (Some caCert) (gm_clientKey m) (gm_caKey m) = Ok (gm_clientDER m) \<and>
    fs' = (\<lambda>p. case map_of (outputs api (filepath_Join env (gf_out f)) m) p of
              Some b \<Rightarrow> Some (ga_pem_Encode api b) | None \<Rightarrow> fs p)"
proof -
  from assms(1) obtain m where m: "genMaterial lib api (gf_cn f) now = Ok m"
    and w: "writeAll api (outputs api (filepath_Join env (gf_out f)) m) fs = (None, fs')"
    by (auto simp: gencerts_main_def Let_def split: option.splits sum.splits)
  have "distinct (map fst (outputs api (filepath_Join env (gf_out f)) m))"
    by (simp add: outputs_def inj_eq [OF assms(2)])
  from writeAll_files [OF w this] m show ?thesis by (auto simp: genMaterial_def)
qed

text \<open>
  The commands that a successful run prints can be run: every file of the set lies under the path that they spell, where
  paths are joined with a slash.
\<close>

lemma gencerts_commands_name_files:
  assumes "gencerts_run lib env api now f fs = (out, fs')" and "go_exit out = 0"
    and join: "\<forall>name. filepath_Join env (gf_out f) name = gf_out f @ ''/'' @ name" and "name \<in> set genFiles"
  shows "go_stdout out = closingMessages (gf_out f) \<and> fs' (gf_out f @ ''/'' @ name) \<noteq> None"
proof -
  from assms(1,2) have m: "gencerts_main lib env api now f fs = (None, fs')" and o: "go_stdout out = closingMessages (gf_out f)"
    by (auto simp: gencerts_run_def gencerts_fatal_def split: prod.splits option.splits)
  from join have "inj (filepath_Join env (gf_out f))" by (auto simp: inj_def)
  from gencerts_writes_matching_pairs [OF m this] obtain mat where
    fs': "fs' = (\<lambda>p. case map_of (outputs api (filepath_Join env (gf_out f)) mat) p of Some b \<Rightarrow> Some (ga_pem_Encode api b) | None \<Rightarrow> fs p)"
    by blast
  have "gf_out f @ ''/'' @ name \<in> fst ` set (outputs api (filepath_Join env (gf_out f)) mat)"
    using assms(4) by (auto simp: outputs_def genFiles_def join)
  then obtain b where "map_of (outputs api (filepath_Join env (gf_out f)) mat) (gf_out f @ ''/'' @ name) = Some b"
    using map_of_eq_None_iff by fastforce
  with fs' o show ?thesis by simp
qed

end
