(* ===== verification/P11_Module.thy ===== *)
theory P11_Module
  imports Ksp_Bridge
begin

text \<open>
  The PKCS\#11 module for Linux, \<^verbatim>\<open>ksp11/ksp11.c\<close>, over the Linux bridge. The static variables of the file are one record;
  an entry point is a function of the state that returns the code, what it stores through its pointers and the state.
  A call can also crash, where the C code would read or write outside its objects, call a function that is not loaded, or
  where the Go side panics; and it can hang. OpenSSL and the constants of the PKCS\#11 header are parameters.
  A pointer to a buffer is \<open>None\<close> for \<^verbatim>\<open>NULL\<close>, otherwise the memory behind it; input data is the memory of the stated length.
  A session handle is a \<^verbatim>\<open>CK_ULONG\<close>, a number below 2^64. The trace on standard error and the contents of the information structures
  (\<^verbatim>\<open>C_GetInfo\<close>, \<^verbatim>\<open>C_GetSlotInfo\<close>, \<^verbatim>\<open>C_GetTokenInfo\<close>) are left out.
\<close>

section \<open>Codes, mechanisms, attributes\<close>

datatype ck_rv =
    CKR_OK | CKR_HOST_MEMORY | CKR_SLOT_ID_INVALID | CKR_ARGUMENTS_BAD | CKR_ATTRIBUTE_SENSITIVE | CKR_ATTRIBUTE_TYPE_INVALID
  | CKR_DATA_INVALID | CKR_DEVICE_ERROR | CKR_FUNCTION_FAILED | CKR_KEY_HANDLE_INVALID | CKR_MECHANISM_INVALID
  | CKR_OBJECT_HANDLE_INVALID | CKR_OPERATION_ACTIVE | CKR_OPERATION_NOT_INITIALIZED | CKR_SESSION_COUNT
  | CKR_SESSION_HANDLE_INVALID | CKR_SESSION_READ_ONLY | CKR_USER_TYPE_INVALID | CKR_RANDOM_NO_RNG | CKR_BUFFER_TOO_SMALL
  | CKR_CRYPTOKI_NOT_INITIALIZED | CKR_CRYPTOKI_ALREADY_INITIALIZED

datatype ck_mech =
    CKM_RSA_PKCS | CKM_SHA256_RSA_PKCS | CKM_SHA384_RSA_PKCS | CKM_SHA512_RSA_PKCS
  | CKM_RSA_PKCS_PSS | CKM_SHA256_RSA_PKCS_PSS | CKM_SHA384_RSA_PKCS_PSS | CKM_SHA512_RSA_PKCS_PSS
  | CKM_ECDSA | CKM_ECDSA_SHA256 | CKM_ECDSA_SHA384 | CKM_ECDSA_SHA512
  | CKM_SHA256 | CKM_SHA384 | CKM_SHA512 | CKM_other nat

datatype ck_key_type = CKK_RSA | CKK_EC

datatype ck_attr =
    CKA_CLASS | CKA_KEY_TYPE | CKA_ID | CKA_LABEL | CKA_TOKEN | CKA_PRIVATE | CKA_MODIFIABLE | CKA_COPYABLE | CKA_DESTROYABLE
  | CKA_LOCAL | CKA_SIGN | CKA_VERIFY | CKA_ENCRYPT | CKA_DECRYPT | CKA_WRAP | CKA_UNWRAP | CKA_SENSITIVE | CKA_EXTRACTABLE
  | CKA_ALWAYS_AUTHENTICATE | CKA_NEVER_EXTRACTABLE | CKA_MODULUS | CKA_PUBLIC_EXPONENT | CKA_EC_PARAMS | CKA_EC_POINT
  | CKA_PRIVATE_EXPONENT | CKA_PRIME_1 | CKA_PRIME_2 | CKA_EXPONENT_1 | CKA_EXPONENT_2 | CKA_COEFFICIENT | CKA_VALUE
  | CKA_other nat

text \<open>
  Constants of the header in the form in which they lie in memory.
\<close>

record ck_header =
  hd_CKO_PRIVATE_KEY :: bytes
  hd_CKK :: "ck_key_type \<Rightarrow> bytes"
  hd_CK_BBOOL :: "bool \<Rightarrow> bytes"
  hd_UNAVAILABLE :: nat

datatype evp_md = EVP_sha256 | EVP_sha384 | EVP_sha512

text \<open>
  What OpenSSL makes of a certificate: its public key with the big-endian numbers, or the encoded name of the curve and the
  point, each \<open>None\<close> where the call for it fails.
\<close>

datatype ossl_key = OsslRSA "(bytes \<times> bytes) option" | OsslEC "bytes option" "bytes option" | OsslOther

record ossl =
  ssl_pubkey :: "bytes \<Rightarrow> ossl_key option"
  ssl_Digest :: "evp_md \<Rightarrow> bytes \<Rightarrow> bytes option"
  ssl_d2i_ECDSA_SIG :: "bytes \<Rightarrow> (nat \<times> nat) option"
  ssl_bn2binpad :: "nat \<Rightarrow> nat \<Rightarrow> bytes option"
  ssl_RAND :: "int \<Rightarrow> bytes option"

text \<open>
  What a call of an entry point finds outside: OpenSSL, the header, what the dynamic linker answers (\<open>pe_dlclose\<close>: whether
  closing the library unmaps it), and for the \<open>i\<close>-th call of the bridge and the \<open>i\<close>-th allocation that it makes what the
  bridge consults and whether there is memory.
\<close>

record ('k, 'ts, 'kp) p11_env =
  pe_ssl :: ossl
  pe_hdr :: ck_header
  pe_dladdr :: bool
  pe_dlopen :: bool
  pe_dlsym :: "string \<Rightarrow> bool"
  pe_dlclose :: bool
  pe_config :: "string option"
  pe_bridge :: "nat \<Rightarrow> ('k, 'ts, 'kp) bridge_env"
  pe_alloc :: "nat \<Rightarrow> bool"

datatype 'a p11_run = Done 'a | Crash | Hang

fun run_bind :: "'a p11_run \<Rightarrow> ('a \<Rightarrow> 'b p11_run) \<Rightarrow> 'b p11_run" where
  "run_bind (Done x) f = f x"
| "run_bind Crash f = Crash"
| "run_bind Hang f = Hang"

lemma run_bind_Done: "run_bind r f = Done y \<longleftrightarrow> (\<exists>x. r = Done x \<and> f x = Done y)"
  by (cases r) auto

lemma run_bind_Crash: "run_bind r f = Crash \<longleftrightarrow> r = Crash \<or> (\<exists>x. r = Done x \<and> f x = Crash)"
  by (cases r) auto

lemma run_bind_Hang: "run_bind r f = Hang \<longleftrightarrow> r = Hang \<or> (\<exists>x. r = Done x \<and> f x = Hang)"
  by (cases r) auto

section \<open>State\<close>

record ksp_object =
  ob_handle :: nat
  ob_ktype :: ck_key_type
  ob_key_size :: int
  ob_thumbprint :: string
  ob_label :: string
  ob_id :: bytes
  ob_modulus :: bytes
  ob_pubexp :: bytes
  ob_ec_params :: bytes
  ob_ec_params_len :: nat
  ob_ec_point :: bytes

record ksp_session =
  se_handle :: nat
  se_slot :: nat
  se_open :: bool

record ksp_sign =
  sn_active :: bool
  sn_obj_index :: nat
  sn_digest_mech :: bool
  sn_pss :: bool
  sn_md :: "evp_md option"
  sn_hash_alg :: int
  sn_buf :: bytes
  sn_bufcap :: "64 word"
  sn_cached :: "bytes option"

definition MAX_SESSIONS :: nat where "MAX_SESSIONS = 16"

text \<open>\<open>pm_funcs\<close>: the functions of the bridge whose pointers can be called.\<close>

record p11_state =
  pm_bridge :: bool
  pm_funcs :: "string set"
  pm_initialized :: bool
  pm_objects :: "ksp_object list"
  pm_sessions :: "ksp_session list"
  pm_next_handle :: nat
  pm_sign :: "ksp_sign list"
  pm_find_handles :: "nat list"
  pm_find_pos :: nat
  pm_find_active :: bool
  pm_process :: process
  pm_heap :: c_heap

definition sign_zero :: ksp_sign where
  "sign_zero = \<lparr>sn_active = False, sn_obj_index = 0, sn_digest_mech = False, sn_pss = False, sn_md = None, sn_hash_alg = 0,
     sn_buf = [], sn_bufcap = 0, sn_cached = None\<rparr>"

definition session_zero :: ksp_session where
  "session_zero = \<lparr>se_handle = 0, se_slot = 0, se_open = False\<rparr>"

text \<open>The state when the module has been loaded, in a process in which the bridge has no client yet.\<close>

definition p11_start :: "c_heap \<Rightarrow> p11_state" where
  "p11_start h = \<lparr>pm_bridge = False, pm_funcs = {}, pm_initialized = False, pm_objects = [],
     pm_sessions = replicate MAX_SESSIONS session_zero, pm_next_handle = 1, pm_sign = replicate MAX_SESSIONS sign_zero,
     pm_find_handles = [], pm_find_pos = 0, pm_find_active = False, pm_process = \<lparr>pr_global = None, pr_open = 0\<rparr>, pm_heap = h\<rparr>"

definition find_session :: "nat \<Rightarrow> ksp_session list \<Rightarrow> nat option" where
  "find_session h ss = find (\<lambda>i. se_open (ss ! i) \<and> se_handle (ss ! i) = h) [0..<length ss]"

definition sign_reset :: "nat \<Rightarrow> p11_state \<Rightarrow> p11_state" where
  "sign_reset i s = s\<lparr>pm_sign := (pm_sign s)[i := sign_zero]\<rparr>"

section \<open>Mechanisms\<close>

record ksp_mech =
  km_type :: ck_mech
  km_digest_mech :: bool
  km_md :: "evp_md option"
  km_pss :: bool

definition ksp_mechs :: "ksp_mech list" where
  "ksp_mechs =
     [\<lparr>km_type = CKM_RSA_PKCS, km_digest_mech = False, km_md = None, km_pss = False\<rparr>,
      \<lparr>km_type = CKM_SHA256_RSA_PKCS, km_digest_mech = True, km_md = Some EVP_sha256, km_pss = False\<rparr>,
      \<lparr>km_type = CKM_SHA384_RSA_PKCS, km_digest_mech = True, km_md = Some EVP_sha384, km_pss = False\<rparr>,
      \<lparr>km_type = CKM_SHA512_RSA_PKCS, km_digest_mech = True, km_md = Some EVP_sha512, km_pss = False\<rparr>,
      \<lparr>km_type = CKM_RSA_PKCS_PSS, km_digest_mech = False, km_md = None, km_pss = True\<rparr>,
      \<lparr>km_type = CKM_SHA256_RSA_PKCS_PSS, km_digest_mech = True, km_md = Some EVP_sha256, km_pss = True\<rparr>,
      \<lparr>km_type = CKM_SHA384_RSA_PKCS_PSS, km_digest_mech = True, km_md = Some EVP_sha384, km_pss = True\<rparr>,
      \<lparr>km_type = CKM_SHA512_RSA_PKCS_PSS, km_digest_mech = True, km_md = Some EVP_sha512, km_pss = True\<rparr>,
      \<lparr>km_type = CKM_ECDSA, km_digest_mech = False, km_md = None, km_pss = False\<rparr>,
      \<lparr>km_type = CKM_ECDSA_SHA256, km_digest_mech = True, km_md = Some EVP_sha256, km_pss = False\<rparr>,
      \<lparr>km_type = CKM_ECDSA_SHA384, km_digest_mech = True, km_md = Some EVP_sha384, km_pss = False\<rparr>,
      \<lparr>km_type = CKM_ECDSA_SHA512, km_digest_mech = True, km_md = Some EVP_sha512, km_pss = False\<rparr>]"

definition find_mech :: "ck_mech \<Rightarrow> ksp_mech option" where
  "find_mech t = find (\<lambda>m. km_type m = t) ksp_mechs"

definition mech_ok_for_type :: "ck_mech \<Rightarrow> ck_key_type \<Rightarrow> bool" where
  "mech_ok_for_type t ktype =
     (if ktype = CKK_RSA
      then t = CKM_RSA_PKCS \<or> t = CKM_RSA_PKCS_PSS \<or>
        t = CKM_SHA256_RSA_PKCS \<or> t = CKM_SHA384_RSA_PKCS \<or> t = CKM_SHA512_RSA_PKCS \<or>
        t = CKM_SHA256_RSA_PKCS_PSS \<or> t = CKM_SHA384_RSA_PKCS_PSS \<or> t = CKM_SHA512_RSA_PKCS_PSS
      else t = CKM_ECDSA \<or> t = CKM_ECDSA_SHA256 \<or> t = CKM_ECDSA_SHA384 \<or> t = CKM_ECDSA_SHA512)"

section \<open>Helpers\<close>

definition hexval :: "char \<Rightarrow> nat option" where
  "hexval c =
     (let n = (of_char c :: nat) in
      if 48 \<le> n \<and> n \<le> 57 then Some (n - 48)
      else if 97 \<le> n \<and> n \<le> 102 then Some (n - 97 + 10)
      else if 65 \<le> n \<and> n \<le> 70 then Some (n - 65 + 10)
      else None)"

fun hex_decode :: "string \<Rightarrow> nat \<Rightarrow> bytes" where
  "hex_decode (c # d # hex) (Suc outcap) =
     (case (hexval c, hexval d) of
        (Some hi, Some lo) \<Rightarrow> word_of_nat (hi * 16 + lo) # hex_decode hex outcap
      | _ \<Rightarrow> [])"
| "hex_decode hex outcap = []"

text \<open>
  The numbers are written to the arrays of the object, 512 and 8 bytes long, without a check; the
  encoding of the curve only when it fits.
\<close>

definition parse_cert_pubkey :: "ossl \<Rightarrow> bytes \<Rightarrow> ksp_object \<Rightarrow> ksp_object p11_run" where
  "parse_cert_pubkey ssl der o' =
     (case ssl_pubkey ssl der of
        Some (OsslRSA nums) \<Rightarrow>
          (case nums of
             Some (n, e) \<Rightarrow>
               if 512 < length n \<or> 8 < length e then Crash
               else Done (o'\<lparr>ob_ktype := CKK_RSA, ob_modulus := n, ob_pubexp := e\<rparr>)
           | None \<Rightarrow> Done (o'\<lparr>ob_ktype := CKK_RSA\<rparr>))
      | Some (OsslEC curve point) \<Rightarrow>
          (let o' = o'\<lparr>ob_ktype := CKK_EC\<rparr>;
               o' = (case curve of
                       Some oid \<Rightarrow>
                         o'\<lparr>ob_ec_params_len := length oid,
                            ob_ec_params := (if length oid \<le> 64 then oid else ob_ec_params o')\<rparr>
                     | None \<Rightarrow> o');
               o' = (case point of
                       Some raw \<Rightarrow>
                         if length raw \<le> 256 \<and> length raw \<le> 254
                         then o'\<lparr>ob_ec_point := 0x04 # word_of_nat (length raw) # raw\<rparr> else o'
                     | None \<Rightarrow> o')
           in Done o')
      | _ \<Rightarrow> Done o')"

definition DI_PREFIX_SHA256 :: bytes where
  "DI_PREFIX_SHA256 = [0x30, 0x31, 0x30, 0x0d, 0x06, 0x09, 0x60, 0x86, 0x48, 0x01, 0x65, 0x03, 0x04, 0x02, 0x01, 0x05, 0x00, 0x04, 0x20]"

definition DI_PREFIX_SHA384 :: bytes where
  "DI_PREFIX_SHA384 = [0x30, 0x31, 0x30, 0x0d, 0x06, 0x09, 0x60, 0x86, 0x48, 0x01, 0x65, 0x03, 0x04, 0x02, 0x02, 0x05, 0x00, 0x04, 0x30]"

definition DI_PREFIX_SHA512 :: bytes where
  "DI_PREFIX_SHA512 = [0x30, 0x31, 0x30, 0x0d, 0x06, 0x09, 0x60, 0x86, 0x48, 0x01, 0x65, 0x03, 0x04, 0x02, 0x03, 0x05, 0x00, 0x04, 0x40]"

definition hash_alg_from_len :: "nat \<Rightarrow> int" where
  "hash_alg_from_len len = (if len = 48 then 2 else if len = 64 then 3 else 1)"

definition di_table :: "(bytes \<times> int \<times> nat) list" where
  "di_table = [(DI_PREFIX_SHA256, 1, 32), (DI_PREFIX_SHA384, 2, 48), (DI_PREFIX_SHA512, 3, 64)]"

definition parse_digest_info :: "bytes \<Rightarrow> (bytes \<times> int) option" where
  "parse_digest_info data =
     (if length data = 32 \<or> length data = 48 \<or> length data = 64 then Some (data, hash_alg_from_len (length data))
      else case find (\<lambda>(pre, hash_alg, digest_len). length data = 19 + digest_len \<and> take 19 data = pre) di_table of
             Some (pre, hash_alg, digest_len) \<Rightarrow> Some (drop 19 data, hash_alg)
           | None \<Rightarrow> None)"

definition ecdsa_der_to_raw :: "ossl \<Rightarrow> bool \<Rightarrow> bytes \<Rightarrow> nat \<Rightarrow> bytes option" where
  "ecdsa_der_to_raw ssl memory der field =
     Option.bind (ssl_d2i_ECDSA_SIG ssl der) (\<lambda>(r, s).
     if \<not> memory then None else
     Option.bind (ssl_bn2binpad ssl r field) (\<lambda>r_bytes.
     Option.bind (ssl_bn2binpad ssl s field) (\<lambda>s_bytes. Some (r_bytes @ s_bytes))))"

definition object_by_handle :: "ksp_object list \<Rightarrow> nat \<Rightarrow> nat option" where
  "object_by_handle objs h = find (\<lambda>i. ob_handle (objs ! i) = h) [0..<length objs]"

text \<open>The attributes with a byte \<^verbatim>\<open>CK_TRUE\<close> or \<^verbatim>\<open>CK_FALSE\<close> as their value, and those that would show the private key.\<close>

definition bool_attrs :: "ck_attr list" where
  "bool_attrs = [CKA_TOKEN, CKA_PRIVATE, CKA_MODIFIABLE, CKA_COPYABLE, CKA_DESTROYABLE, CKA_LOCAL, CKA_SIGN, CKA_VERIFY,
     CKA_ENCRYPT, CKA_DECRYPT, CKA_WRAP, CKA_UNWRAP, CKA_SENSITIVE, CKA_EXTRACTABLE, CKA_ALWAYS_AUTHENTICATE,
     CKA_NEVER_EXTRACTABLE]"

definition secret_attrs :: "ck_attr list" where
  "secret_attrs = [CKA_PRIVATE_EXPONENT, CKA_PRIME_1, CKA_PRIME_2, CKA_EXPONENT_1, CKA_EXPONENT_2, CKA_COEFFICIENT, CKA_VALUE]"

definition bool_attr :: "ck_attr \<Rightarrow> bool" where
  "bool_attr type \<longleftrightarrow> type \<in> set [CKA_TOKEN, CKA_DESTROYABLE, CKA_COPYABLE, CKA_SIGN, CKA_VERIFY, CKA_SENSITIVE,
     CKA_NEVER_EXTRACTABLE]"

text \<open>The size of an attribute and whether it is sensitive.\<close>

definition attr_size :: "ck_header \<Rightarrow> ksp_object list \<Rightarrow> nat \<Rightarrow> ck_attr \<Rightarrow> nat \<times> bool" where
  "attr_size hdr objs h type =
     (case object_by_handle objs h of
        None \<Rightarrow> (0, False)
      | Some i \<Rightarrow>
          let o' = objs ! i in
          if type = CKA_CLASS then (length (hd_CKO_PRIVATE_KEY hdr), False)
          else if type = CKA_KEY_TYPE then (length (hd_CKK hdr (ob_ktype o')), False)
          else if type = CKA_ID then (length (ob_id o'), False)
          else if type = CKA_LABEL then (length (ob_label o'), False)
          else if type \<in> set bool_attrs then (length (hd_CK_BBOOL hdr (bool_attr type)), False)
          else if type = CKA_MODULUS then (length (ob_modulus o'), False)
          else if type = CKA_PUBLIC_EXPONENT then (length (ob_pubexp o'), False)
          else if type = CKA_EC_PARAMS then (ob_ec_params_len o', False)
          else if type = CKA_EC_POINT then (length (ob_ec_point o'), False)
          else if type \<in> set secret_attrs then (0, True)
          else (0, False))"

section \<open>Loading the bridge\<close>

definition bridge_symbols :: "string list" where
  "bridge_symbols = [''init'', ''shutdown'', ''reload_manifest'', ''installed_count'', ''get_installed'', ''find_installed'',
     ''free_key_info'', ''sign_hash'']"

text \<open>A symbol that is not found leaves its pointer \<^verbatim>\<open>NULL\<close>; the pointers after it are as before.\<close>

fun load_symbols :: "('k, 'ts, 'kp) p11_env \<Rightarrow> string list \<Rightarrow> p11_state \<Rightarrow> p11_state \<times> bool" where
  "load_symbols env [] s = (s, True)"
| "load_symbols env (fname # syms) s =
     (if pe_dlsym env (''tpmcert_'' @ fname) then load_symbols env syms (s\<lparr>pm_funcs := insert fname (pm_funcs s)\<rparr>)
      else (s\<lparr>pm_funcs := pm_funcs s - {fname}\<rparr>, False))"

definition bridge_load :: "('k, 'ts, 'kp) p11_env \<Rightarrow> p11_state \<Rightarrow> p11_state \<times> bool" where
  "bridge_load env s =
     (if \<not> pe_dladdr env then (s, False)
      else if \<not> pe_dlopen env then (s\<lparr>pm_bridge := False\<rparr>, False)
      else load_symbols env bridge_symbols (s\<lparr>pm_bridge := True\<rparr>))"

section \<open>Initialisation\<close>

definition new_object :: "ossl \<Rightarrow> tpmcert_key_info \<Rightarrow> c_heap \<Rightarrow> nat \<Rightarrow> ksp_object p11_run" where
  "new_object ssl info h n =
     (let o' = \<lparr>ob_handle = n + 1, ob_ktype = CKK_RSA, ob_key_size = tk_key_size info,
                ob_thumbprint = take 63 (c_string (tk_thumbprint info)), ob_label = take 511 (c_string (tk_subject info)),
                ob_id = hex_decode (c_string (tk_thumbprint info)) 20,
                ob_modulus = [], ob_pubexp = [], ob_ec_params = [], ob_ec_params_len = 0, ob_ec_point = []\<rparr>
      in case tk_cert_der info of
           None \<Rightarrow> Done o'
         | Some a \<Rightarrow>
             if tk_cert_der_len info = 0 then Done o'
             else (case hp_mem h a of
                     None \<Rightarrow> Crash
                   | Some der \<Rightarrow>
                       if length der < tk_cert_der_len info then Crash
                       else parse_cert_pubkey ssl (take (tk_cert_der_len info) der) o'))"

text \<open>\<open>load_objects env n i\<close>: the rounds of the loop that are left, and the index of the next one.\<close>

fun load_objects :: "('k, 'ts, 'kp) p11_env \<Rightarrow> nat \<Rightarrow> nat \<Rightarrow> p11_state \<Rightarrow> p11_state p11_run" where
  "load_objects env 0 i s = Done s"
| "load_objects env (Suc n) i s =
     (let out = linux_get_installed (pe_bridge env (i + 2)) (int i) (Some zero_info) (pm_heap s) (pm_process s);
          s = s\<lparr>pm_heap := bo_heap out, pm_process := bo_process out\<rparr>
      in case (bo_ret out, bo_info out) of
           (Returned code, Some info) \<Rightarrow>
             if code \<noteq> codeOK then load_objects env n (i + 1) s
             else run_bind (new_object (pe_ssl env) info (pm_heap s) (length (pm_objects s))) (\<lambda>o'.
                    case tpmcert_free_key_info (Some info) (pm_heap s) of
                      Some (_, h) \<Rightarrow> load_objects env n (i + 1) (s\<lparr>pm_objects := pm_objects s @ [o'], pm_heap := h\<rparr>)
                    | None \<Rightarrow> Crash)
         | _ \<Rightarrow> Crash)"

definition init_done :: "p11_state \<Rightarrow> ck_rv \<times> p11_state" where
  "init_done s = (CKR_OK, s\<lparr>pm_sessions := replicate MAX_SESSIONS session_zero, pm_sign := replicate MAX_SESSIONS sign_zero,
     pm_initialized := True\<rparr>)"

text \<open>\<open>reserved\<close>: whether \<^verbatim>\<open>pInitArgs\<close> is given with a \<^verbatim>\<open>pReserved\<close> that is not \<^verbatim>\<open>NULL\<close>.\<close>

definition C_Initialize :: "('k, 'ts, 'kp) p11_env \<Rightarrow> bool \<Rightarrow> p11_state \<Rightarrow> (ck_rv \<times> p11_state) p11_run" where
  "C_Initialize env reserved s =
     (if pm_initialized s then Done (CKR_CRYPTOKI_ALREADY_INITIALIZED, s)
      else if reserved then Done (CKR_ARGUMENTS_BAD, s)
      else case bridge_load env s of
        (s, False) \<Rightarrow> Done (CKR_DEVICE_ERROR, s)
      | (s, True) \<Rightarrow>
      (case linux_init (pe_bridge env 0) (pe_config env) (pm_process s) of (p, code) \<Rightarrow>
       let s = s\<lparr>pm_process := p\<rparr> in
       if code \<noteq> codeOK then Done (CKR_DEVICE_ERROR, s)
       else (case linux_installed_count (pe_bridge env 1) (pm_process s) of (p, n) \<Rightarrow>
             let s = s\<lparr>pm_process := p\<rparr> in
             if 0 < n then
               if \<not> pe_alloc env 0 then Done (CKR_HOST_MEMORY, s\<lparr>pm_process := tpmcert_shutdown (pm_process s)\<rparr>)
               else run_bind (load_objects env (nat n) 0 s) (\<lambda>s. Done (init_done s))
             else Done (init_done s))))"

definition C_Finalize :: "('k, 'ts, 'kp) p11_env \<Rightarrow> bool \<Rightarrow> p11_state \<Rightarrow> (ck_rv \<times> p11_state) p11_run" where
  "C_Finalize env reserved s =
     (if reserved then Done (CKR_ARGUMENTS_BAD, s)
      else let s = s\<lparr>pm_sign := replicate MAX_SESSIONS sign_zero, pm_sessions := map (\<lambda>x. x\<lparr>se_open := False\<rparr>) (pm_sessions s),
                     pm_objects := []\<rparr>
           in if ''shutdown'' \<notin> pm_funcs s then Crash
              else let s = s\<lparr>pm_process := tpmcert_shutdown (pm_process s)\<rparr>;
                       s = (if pm_bridge s
                            then s\<lparr>pm_bridge := False, pm_funcs := (if pe_dlclose env then {} else pm_funcs s)\<rparr>
                            else s)
                   in Done (CKR_OK, s\<lparr>pm_initialized := False\<rparr>))"

end
