(* ===== verification/P11_Session.thy ===== *)
theory P11_Session
  imports P11_Module
begin

text \<open>
  The entry points of \<^verbatim>\<open>ksp11/ksp11.c\<close> that work on the token once it is initialised: slots and mechanisms, sessions, searching,
  attributes and signing. The entry points that only return a fixed code are left out.
\<close>

section \<open>Slots and mechanisms\<close>

text \<open>
  A list that the caller provides is the number of places he states; \<open>None\<close> is \<^verbatim>\<open>NULL\<close>. The results are the list stored, if
  any, and the count stored.
\<close>

type_synonym 'a p11_ret = "(ck_rv \<times> 'a \<times> p11_state) p11_run"

definition C_GetSlotList :: "bool \<Rightarrow> nat option \<Rightarrow> p11_state \<Rightarrow> (nat list \<times> nat option) p11_ret" where
  "C_GetSlotList pSlotList pulCount s =
     (case pulCount of
        None \<Rightarrow> Done (CKR_ARGUMENTS_BAD, ([], pulCount), s)
      | Some n \<Rightarrow>
          if \<not> pm_initialized s then Done (CKR_CRYPTOKI_NOT_INITIALIZED, ([], pulCount), s)
          else if \<not> pSlotList then Done (CKR_OK, ([], Some 1), s)
          else if n < 1 then Done (CKR_BUFFER_TOO_SMALL, ([], Some 1), s)
          else Done (CKR_OK, ([0], Some 1), s))"

definition C_GetMechanismList :: "nat \<Rightarrow> bool \<Rightarrow> nat option \<Rightarrow> p11_state \<Rightarrow> (ck_mech list \<times> nat option) p11_ret" where
  "C_GetMechanismList slotID pMechanismList pulCount s =
     (if slotID \<noteq> 0 then Done (CKR_SLOT_ID_INVALID, ([], pulCount), s)
      else case pulCount of
        None \<Rightarrow> Done (CKR_ARGUMENTS_BAD, ([], pulCount), s)
      | Some n \<Rightarrow>
          if \<not> pm_initialized s then Done (CKR_CRYPTOKI_NOT_INITIALIZED, ([], pulCount), s)
          else if \<not> pMechanismList then Done (CKR_OK, ([], Some (length ksp_mechs)), s)
          else if n < length ksp_mechs then Done (CKR_BUFFER_TOO_SMALL, ([], Some (length ksp_mechs)), s)
          else Done (CKR_OK, (map km_type ksp_mechs, Some (length ksp_mechs)), s))"

text \<open>The least and the greatest key size; the flags are always \<^verbatim>\<open>CKF_SIGN | CKF_VERIFY\<close>.\<close>

definition C_GetMechanismInfo :: "nat \<Rightarrow> ck_mech \<Rightarrow> bool \<Rightarrow> p11_state \<Rightarrow> ((nat \<times> nat) option) p11_ret" where
  "C_GetMechanismInfo slotID type pInfo s =
     (if slotID \<noteq> 0 then Done (CKR_SLOT_ID_INVALID, None, s)
      else if \<not> pInfo then Done (CKR_ARGUMENTS_BAD, None, s)
      else if \<not> pm_initialized s then Done (CKR_CRYPTOKI_NOT_INITIALIZED, None, s)
      else if find_mech type = None then Done (CKR_MECHANISM_INVALID, None, s)
      else if type = CKM_RSA_PKCS \<or> type = CKM_RSA_PKCS_PSS \<or>
        type = CKM_SHA256_RSA_PKCS \<or> type = CKM_SHA384_RSA_PKCS \<or> type = CKM_SHA512_RSA_PKCS \<or>
        type = CKM_SHA256_RSA_PKCS_PSS \<or> type = CKM_SHA384_RSA_PKCS_PSS \<or> type = CKM_SHA512_RSA_PKCS_PSS
      then Done (CKR_OK, Some (1024, 8192), s)
      else Done (CKR_OK, Some (256, 521), s))"

text \<open>
  Of the information structures: the name of the library, the description of the slot, and the label of the token with the
  greatest number of sessions it states (\<open>None\<close> is \<^verbatim>\<open>CK_EFFECTIVELY_INFINITE\<close>). Versions, blanks and flags are left out.
\<close>

definition C_GetInfo :: "bool \<Rightarrow> p11_state \<Rightarrow> (string option) p11_ret" where
  "C_GetInfo pInfo s =
     (if \<not> pInfo then Done (CKR_ARGUMENTS_BAD, None, s)
      else if \<not> pm_initialized s then Done (CKR_CRYPTOKI_NOT_INITIALIZED, None, s)
      else Done (CKR_OK, Some ''ksp11 keyless PKCS#11 (gRPC)'', s))"

definition C_GetSlotInfo :: "nat \<Rightarrow> bool \<Rightarrow> p11_state \<Rightarrow> (string option) p11_ret" where
  "C_GetSlotInfo slotID pInfo s =
     (if slotID \<noteq> 0 then Done (CKR_SLOT_ID_INVALID, None, s)
      else if \<not> pInfo then Done (CKR_ARGUMENTS_BAD, None, s)
      else if \<not> pm_initialized s then Done (CKR_CRYPTOKI_NOT_INITIALIZED, None, s)
      else Done (CKR_OK, Some ''ksp11 slot 0'', s))"

definition C_GetTokenInfo :: "nat \<Rightarrow> bool \<Rightarrow> p11_state \<Rightarrow> ((string \<times> nat option) option) p11_ret" where
  "C_GetTokenInfo slotID pInfo s =
     (if slotID \<noteq> 0 then Done (CKR_SLOT_ID_INVALID, None, s)
      else if \<not> pInfo then Done (CKR_ARGUMENTS_BAD, None, s)
      else if \<not> pm_initialized s then Done (CKR_CRYPTOKI_NOT_INITIALIZED, None, s)
      else Done (CKR_OK, Some (''ksp11-token'', None), s))"

section \<open>Sessions\<close>

text \<open>The counter of the handles, \<^verbatim>\<open>g_next_handle\<close>, is a \<^verbatim>\<open>CK_ULONG\<close> and wraps round.\<close>

definition C_OpenSession :: "nat \<Rightarrow> bool \<Rightarrow> bool \<Rightarrow> p11_state \<Rightarrow> (nat option) p11_ret" where
  "C_OpenSession slotID rw_session phSession s =
     (if slotID \<noteq> 0 then Done (CKR_SLOT_ID_INVALID, None, s)
      else if \<not> phSession then Done (CKR_ARGUMENTS_BAD, None, s)
      else if \<not> pm_initialized s then Done (CKR_CRYPTOKI_NOT_INITIALIZED, None, s)
      else if rw_session then Done (CKR_SESSION_READ_ONLY, None, s)
      else case find (\<lambda>i. \<not> se_open (pm_sessions s ! i)) [0..<MAX_SESSIONS] of
             None \<Rightarrow> Done (CKR_SESSION_COUNT, None, s)
           | Some i \<Rightarrow>
               Done (CKR_OK, Some (pm_next_handle s),
                 s\<lparr>pm_sessions := (pm_sessions s)[i := \<lparr>se_handle = pm_next_handle s, se_slot = slotID, se_open = True\<rparr>],
                   pm_next_handle := (pm_next_handle s + 1) mod 2 ^ 64\<rparr>))"

text \<open>The two checks that the entry points on a session begin with.\<close>

definition with_session :: "nat \<Rightarrow> 'a \<Rightarrow> (nat \<Rightarrow> 'a p11_ret) \<Rightarrow> p11_state \<Rightarrow> 'a p11_ret" where
  "with_session hSession out k s =
     (if \<not> pm_initialized s then Done (CKR_CRYPTOKI_NOT_INITIALIZED, out, s)
      else case find_session hSession (pm_sessions s) of
             None \<Rightarrow> Done (CKR_SESSION_HANDLE_INVALID, out, s)
           | Some i \<Rightarrow> k i)"

definition close_at :: "nat \<Rightarrow> p11_state \<Rightarrow> p11_state" where
  "close_at i s = (let s = sign_reset i s in s\<lparr>pm_sessions := (pm_sessions s)[i := (pm_sessions s ! i)\<lparr>se_open := False\<rparr>]\<rparr>)"

definition C_CloseSession :: "nat \<Rightarrow> p11_state \<Rightarrow> unit p11_ret" where
  "C_CloseSession hSession s = with_session hSession () (\<lambda>i. Done (CKR_OK, (), close_at i s)) s"

definition C_CloseAllSessions :: "nat \<Rightarrow> p11_state \<Rightarrow> unit p11_ret" where
  "C_CloseAllSessions slotID s =
     (if slotID \<noteq> 0 then Done (CKR_SLOT_ID_INVALID, (), s)
      else if \<not> pm_initialized s then Done (CKR_CRYPTOKI_NOT_INITIALIZED, (), s)
      else Done (CKR_OK, (), fold (\<lambda>i s. if se_open (pm_sessions s ! i) then close_at i s else s) [0..<MAX_SESSIONS] s))"

text \<open>The slot of the session; the state is always \<^verbatim>\<open>CKS_RO_PUBLIC_SESSION\<close> and the flags \<^verbatim>\<open>CKF_SERIAL_SESSION\<close>.\<close>

definition C_GetSessionInfo :: "nat \<Rightarrow> bool \<Rightarrow> p11_state \<Rightarrow> (nat option) p11_ret" where
  "C_GetSessionInfo hSession pInfo s =
     (if \<not> pInfo then Done (CKR_ARGUMENTS_BAD, None, s)
      else with_session hSession None (\<lambda>i. Done (CKR_OK, Some (se_slot (pm_sessions s ! i)), s)) s)"

definition C_Login :: "nat \<Rightarrow> bool \<Rightarrow> p11_state \<Rightarrow> unit p11_ret" where
  "C_Login hSession is_CKU_USER s =
     with_session hSession () (\<lambda>_. if \<not> is_CKU_USER then Done (CKR_USER_TYPE_INVALID, (), s) else Done (CKR_OK, (), s)) s"

definition C_Logout :: "nat \<Rightarrow> p11_state \<Rightarrow> unit p11_ret" where
  "C_Logout hSession s = with_session hSession () (\<lambda>_. Done (CKR_OK, (), s)) s"

section \<open>Searching\<close>

record ck_attribute =
  at_type :: ck_attr
  at_value :: "bytes option"
  at_len :: nat

text \<open>Reading \<open>n\<close> bytes at \<^verbatim>\<open>pValue\<close>.\<close>

definition read_value :: "ck_attribute \<Rightarrow> nat \<Rightarrow> bytes p11_run" where
  "read_value a n =
     (let mem = (case at_value a of None \<Rightarrow> [] | Some mem \<Rightarrow> mem)
      in if length mem < n then Crash else Done (take n mem))"

definition attr_matches :: "ck_header \<Rightarrow> ksp_object \<Rightarrow> ck_attribute \<Rightarrow> bool p11_run" where
  "attr_matches hdr o' a =
     (let same = (\<lambda>v. if at_len a \<noteq> length v then Done False else run_bind (read_value a (length v)) (\<lambda>x. Done (x = v)))
      in if at_type a = CKA_CLASS then same (hd_CKO_PRIVATE_KEY hdr)
         else if at_type a = CKA_KEY_TYPE then same (hd_CKK hdr (ob_ktype o'))
         else if at_type a = CKA_LABEL then same (bytes_of_string (ob_label o'))
         else if at_type a = CKA_ID then same (ob_id o')
         else Done False)"

text \<open>The template and its stated length; reading past its end crashes.\<close>

fun all_match :: "ck_header \<Rightarrow> ksp_object \<Rightarrow> ck_attribute list \<Rightarrow> nat \<Rightarrow> bool p11_run" where
  "all_match hdr o' tmpl 0 = Done True"
| "all_match hdr o' [] (Suc n) = Crash"
| "all_match hdr o' (a # tmpl) (Suc n) =
     run_bind (attr_matches hdr o' a) (\<lambda>ok. if ok then all_match hdr o' tmpl n else Done False)"

definition object_matches :: "ck_header \<Rightarrow> ksp_object list \<Rightarrow> nat \<Rightarrow> ck_attribute list \<Rightarrow> nat \<Rightarrow> bool p11_run" where
  "object_matches hdr objs h tmpl n =
     (case object_by_handle objs h of None \<Rightarrow> Done False | Some i \<Rightarrow> all_match hdr (objs ! i) tmpl n)"

fun matching_handles :: "ck_header \<Rightarrow> ksp_object list \<Rightarrow> ck_attribute list \<Rightarrow> nat \<Rightarrow> ksp_object list \<Rightarrow> nat list p11_run" where
  "matching_handles hdr objs tmpl n [] = Done []"
| "matching_handles hdr objs tmpl n (o' # os) =
     run_bind (object_matches hdr objs (ob_handle o') tmpl n) (\<lambda>ok.
     run_bind (matching_handles hdr objs tmpl n os) (\<lambda>hs. Done (if ok then ob_handle o' # hs else hs)))"

definition C_FindObjectsInit :: "('k, 'ts, 'kp) p11_env \<Rightarrow> nat \<Rightarrow> ck_attribute list \<Rightarrow> nat \<Rightarrow> p11_state \<Rightarrow> unit p11_ret" where
  "C_FindObjectsInit env hSession pTemplate ulCount s =
     with_session hSession () (\<lambda>_.
       if pm_find_active s then Done (CKR_OPERATION_ACTIVE, (), s)
       else let s = s\<lparr>pm_find_handles := [], pm_find_pos := 0\<rparr> in
            if pm_objects s = [] then Done (CKR_OK, (), s\<lparr>pm_find_active := True\<rparr>)
            else if \<not> pe_alloc env 0 then Done (CKR_HOST_MEMORY, (), s)
            else run_bind (matching_handles (pe_hdr env) (pm_objects s) pTemplate ulCount (pm_objects s)) (\<lambda>hs.
                   Done (CKR_OK, (), s\<lparr>pm_find_handles := hs, pm_find_active := True\<rparr>))) s"

text \<open>\<open>phObject\<close>: the number of places behind the pointer. The results are the handles stored there and the count.\<close>

definition C_FindObjects :: "nat \<Rightarrow> nat option \<Rightarrow> nat \<Rightarrow> bool \<Rightarrow> p11_state \<Rightarrow> (nat list \<times> nat option) p11_ret" where
  "C_FindObjects hSession phObject ulMaxObjectCount pulObjectCount s =
     with_session hSession ([], None) (\<lambda>_.
       if \<not> pm_find_active s then Done (CKR_OPERATION_NOT_INITIALIZED, ([], None), s)
       else case phObject of
              None \<Rightarrow> Done (CKR_ARGUMENTS_BAD, ([], None), s)
            | Some room \<Rightarrow>
                if \<not> pulObjectCount then Done (CKR_ARGUMENTS_BAD, ([], None), s)
                else let hs = take ulMaxObjectCount (drop (pm_find_pos s) (pm_find_handles s)) in
                     if room < length hs then Crash
                     else Done (CKR_OK, (hs, Some (length hs)), s\<lparr>pm_find_pos := pm_find_pos s + length hs\<rparr>)) s"

definition C_FindObjectsFinal :: "nat \<Rightarrow> p11_state \<Rightarrow> unit p11_ret" where
  "C_FindObjectsFinal hSession s =
     with_session hSession () (\<lambda>_. Done (CKR_OK, (), s\<lparr>pm_find_handles := [], pm_find_pos := 0, pm_find_active := False\<rparr>)) s"

section \<open>Attributes\<close>

text \<open>The value of an attribute, read from the arrays of the object; the array of the curve has 64 bytes.\<close>

definition attr_value :: "ck_header \<Rightarrow> ksp_object \<Rightarrow> ck_attr \<Rightarrow> bytes p11_run option" where
  "attr_value hdr o' type =
     (if type = CKA_CLASS then Some (Done (hd_CKO_PRIVATE_KEY hdr))
      else if type = CKA_KEY_TYPE then Some (Done (hd_CKK hdr (ob_ktype o')))
      else if type = CKA_ID then Some (Done (ob_id o'))
      else if type = CKA_LABEL then Some (Done (bytes_of_string (ob_label o')))
      else if type \<in> set bool_attrs then Some (Done (hd_CK_BBOOL hdr (bool_attr type)))
      else if type = CKA_MODULUS then Some (Done (ob_modulus o'))
      else if type = CKA_PUBLIC_EXPONENT then Some (Done (ob_pubexp o'))
      else if type = CKA_EC_PARAMS then Some (if 64 < ob_ec_params_len o' then Crash else Done (ob_ec_params o'))
      else if type = CKA_EC_POINT then Some (Done (ob_ec_point o'))
      else None)"

record attr_flags =
  fl_sensitive :: bool
  fl_invalid :: bool
  fl_small :: bool

definition get_attr :: "ck_header \<Rightarrow> ksp_object list \<Rightarrow> nat \<Rightarrow> ksp_object \<Rightarrow> ck_attribute \<Rightarrow> attr_flags \<Rightarrow>
    (ck_attribute \<times> attr_flags) p11_run" where
  "get_attr hdr objs h o' a fl =
     (case attr_size hdr objs h (at_type a) of (sz, sensitive) \<Rightarrow>
      if sensitive then Done (a\<lparr>at_len := hd_UNAVAILABLE hdr\<rparr>, fl\<lparr>fl_sensitive := True\<rparr>)
      else if sz = 0 then Done (a\<lparr>at_len := hd_UNAVAILABLE hdr\<rparr>, fl\<lparr>fl_invalid := True\<rparr>)
      else case at_value a of
             None \<Rightarrow> Done (a\<lparr>at_len := sz\<rparr>, fl)
           | Some mem \<Rightarrow>
               if at_len a < sz then Done (a\<lparr>at_len := sz\<rparr>, fl\<lparr>fl_small := True\<rparr>)
               else case attr_value hdr o' (at_type a) of
                      None \<Rightarrow> Done (a\<lparr>at_len := hd_UNAVAILABLE hdr\<rparr>, fl\<lparr>fl_invalid := True\<rparr>)
                    | Some v \<Rightarrow>
                        run_bind v (\<lambda>p.
                          if length mem < sz then Crash
                          else Done (a\<lparr>at_len := sz, at_value := Some (take sz p @ drop sz mem)\<rparr>, fl)))"

fun get_attrs :: "ck_header \<Rightarrow> ksp_object list \<Rightarrow> nat \<Rightarrow> ksp_object \<Rightarrow> ck_attribute list \<Rightarrow> nat \<Rightarrow> attr_flags \<Rightarrow>
    (ck_attribute list \<times> attr_flags) p11_run" where
  "get_attrs hdr objs h o' tmpl 0 fl = Done (tmpl, fl)"
| "get_attrs hdr objs h o' [] (Suc n) fl = Crash"
| "get_attrs hdr objs h o' (a # tmpl) (Suc n) fl =
     run_bind (get_attr hdr objs h o' a fl) (\<lambda>(a, fl).
     run_bind (get_attrs hdr objs h o' tmpl n fl) (\<lambda>(tmpl, fl). Done (a # tmpl, fl)))"

definition C_GetAttributeValue :: "ck_header \<Rightarrow> nat \<Rightarrow> nat \<Rightarrow> ck_attribute list option \<Rightarrow> nat \<Rightarrow> p11_state \<Rightarrow>
    (ck_attribute list option) p11_ret" where
  "C_GetAttributeValue hdr hSession hObject pTemplate ulCount s =
     with_session hSession pTemplate (\<lambda>_.
       case object_by_handle (pm_objects s) hObject of
         None \<Rightarrow> Done (CKR_OBJECT_HANDLE_INVALID, pTemplate, s)
       | Some i \<Rightarrow>
           (case pTemplate of
              None \<Rightarrow> if 0 < ulCount then Done (CKR_ARGUMENTS_BAD, pTemplate, s) else Done (CKR_OK, pTemplate, s)
            | Some tmpl \<Rightarrow>
                run_bind (get_attrs hdr (pm_objects s) hObject (pm_objects s ! i) tmpl ulCount
                    \<lparr>fl_sensitive = False, fl_invalid = False, fl_small = False\<rparr>) (\<lambda>(tmpl, fl).
                  Done (if fl_sensitive fl then CKR_ATTRIBUTE_SENSITIVE
                        else if fl_invalid fl then CKR_ATTRIBUTE_TYPE_INVALID
                        else if fl_small fl then CKR_BUFFER_TOO_SMALL
                        else CKR_OK, Some tmpl, s)))) s"

definition C_GetObjectSize :: "nat \<Rightarrow> nat \<Rightarrow> bool \<Rightarrow> p11_state \<Rightarrow> (nat option) p11_ret" where
  "C_GetObjectSize hSession hObject pulSize s =
     with_session hSession None (\<lambda>_.
       if object_by_handle (pm_objects s) hObject = None then Done (CKR_OBJECT_HANDLE_INVALID, None, s)
       else if \<not> pulSize then Done (CKR_ARGUMENTS_BAD, None, s)
       else Done (CKR_OK, Some 0, s)) s"

section \<open>Signing\<close>

text \<open>
  What is sent to the server: the digest and the code of the hash. The digest is gathered in an array of 64 bytes. An
  \<^verbatim>\<open>Inl\<close> is the code with which the operation ends.
\<close>

definition sign_digest :: "ossl \<Rightarrow> ksp_sign \<Rightarrow> ksp_object \<Rightarrow> bytes \<Rightarrow> (ck_rv + bytes \<times> int) p11_run" where
  "sign_digest ssl st o' data =
     (if sn_digest_mech st then
        (case Option.bind (sn_md st) (\<lambda>md. ssl_Digest ssl md data) of
           None \<Rightarrow> Done (Inl CKR_FUNCTION_FAILED)
         | Some d \<Rightarrow> if 64 < length d then Crash else Done (Inr (d, sn_hash_alg st)))
      else if sn_pss st then
        (if 64 < length data then Done (Inl CKR_DATA_INVALID)
         else Done (Inr (data, if sn_hash_alg st = 0 then hash_alg_from_len (length data) else sn_hash_alg st)))
      else if ob_ktype o' = CKK_EC then
        (if 64 < length data then Done (Inl CKR_DATA_INVALID)
         else Done (Inr (data, hash_alg_from_len (length data))))
      else (case parse_digest_info data of
              None \<Rightarrow> Done (Inl CKR_DATA_INVALID)
            | Some r \<Rightarrow> Done (Inr r)))"

text \<open>
  The two calls of the bridge: one for the size, one with a buffer of that size and 64 bytes more.
\<close>

definition sign_remote :: "('k, 'ts, 'kp) p11_env \<Rightarrow> ksp_object \<Rightarrow> bytes \<Rightarrow> int \<Rightarrow> int \<Rightarrow> process \<Rightarrow>
    ((ck_rv + bytes) \<times> process) p11_run" where
  "sign_remote env o' digest hash_alg padding p =
     (let r = linux_sign_hash (pe_bridge env 0) (Some (ob_thumbprint o')) (Some digest) (length digest) hash_alg padding
                None (Some 0) p
      in case (sg_ret r, sg_sigLen r) of
           (Returned code, Some sig_len) \<Rightarrow>
             if code \<noteq> codeOK then Done (Inl CKR_FUNCTION_FAILED, sg_process r)
             else if sig_len = 0 \<or> 1024 * 1024 < sig_len then Done (Inl CKR_FUNCTION_FAILED, sg_process r)
             else if \<not> pe_alloc env 0 then Done (Inl CKR_HOST_MEMORY, sg_process r)
             else (let sig_cap = sig_len + 64;
                       r = linux_sign_hash (pe_bridge env 1) (Some (ob_thumbprint o')) (Some digest) (length digest) hash_alg
                             padding (Some (replicate sig_cap 0)) (Some sig_cap) (sg_process r)
                   in case (sg_ret r, sg_sigLen r, sg_sigOut r) of
                        (Returned code, Some actual, Some buf) \<Rightarrow>
                          if code \<noteq> codeOK then Done (Inl CKR_FUNCTION_FAILED, sg_process r)
                          else Done (Inr (take actual buf), sg_process r)
                      | _ \<Rightarrow> Crash)
         | _ \<Rightarrow> Crash)"

text \<open>The form in which a signature is handed out; the sum is an \<^verbatim>\<open>int\<close>.\<close>

definition sign_format :: "ossl \<Rightarrow> bool \<Rightarrow> ksp_object \<Rightarrow> bytes \<Rightarrow> bytes option" where
  "sign_format ssl memory o' sig =
     (if ob_ktype o' = CKK_EC then
        (let field = int32 (ob_key_size o' + 7) div 8 in
         if field \<le> 0 \<or> 128 < field then None else ecdsa_der_to_raw ssl memory sig (nat field))
      else Some sig)"

text \<open>
  Handing out a signature: \<open>pSignature\<close> is the memory at the pointer, \<open>len\<close> the value of \<^verbatim>\<open>*pulSignatureLen\<close>. The results
  are the two after the call.
\<close>

definition sign_deliver :: "nat \<Rightarrow> bytes \<Rightarrow> bytes option \<Rightarrow> nat \<Rightarrow> p11_state \<Rightarrow> (bytes option \<times> nat option) p11_ret" where
  "sign_deliver i sig pSignature len s =
     (case pSignature of
        None \<Rightarrow> Done (CKR_OK, (None, Some (length sig)), s\<lparr>pm_sign := (pm_sign s)[i := (pm_sign s ! i)\<lparr>sn_cached := Some sig\<rparr>]\<rparr>)
      | Some mem \<Rightarrow>
          if len < length sig then Done (CKR_BUFFER_TOO_SMALL, (pSignature, Some (length sig)), sign_reset i s)
          else if length mem < length sig then Crash
          else Done (CKR_OK, (Some (sig @ drop (length sig) mem), Some (length sig)), sign_reset i s))"

definition do_sign :: "('k, 'ts, 'kp) p11_env \<Rightarrow> nat \<Rightarrow> bytes \<Rightarrow> bytes option \<Rightarrow> nat option \<Rightarrow> p11_state \<Rightarrow>
    (bytes option \<times> nat option) p11_ret" where
  "do_sign env i data pSignature pulSignatureLen s =
     (let st = pm_sign s ! i; fail = (\<lambda>rv s. Done (rv, (pSignature, pulSignatureLen), sign_reset i s)) in
      if \<not> sn_active st then Done (CKR_OPERATION_NOT_INITIALIZED, (pSignature, pulSignatureLen), s)
      else case pulSignatureLen of
        None \<Rightarrow> Done (CKR_ARGUMENTS_BAD, (pSignature, pulSignatureLen), s)
      | Some len \<Rightarrow>
          (case sn_cached st of
             Some sig \<Rightarrow> sign_deliver i sig pSignature len s
           | None \<Rightarrow>
               if length (pm_objects s) \<le> sn_obj_index st then Crash
               else let o' = pm_objects s ! sn_obj_index st in
               run_bind (sign_digest (pe_ssl env) st o' data) (\<lambda>d.
               case d of
                 Inl rv \<Rightarrow> fail rv s
               | Inr (digest, hash_alg) \<Rightarrow>
                   if ''sign_hash'' \<notin> pm_funcs s then Crash
                   else run_bind (sign_remote env o' digest hash_alg (if sn_pss st then 2 else 1) (pm_process s)) (\<lambda>(r, p).
                   let s = s\<lparr>pm_process := p\<rparr> in
                   case r of
                     Inl rv \<Rightarrow> fail rv s
                   | Inr sig \<Rightarrow>
                       (case sign_format (pe_ssl env) (pe_alloc env 1) o' sig of
                          None \<Rightarrow> fail CKR_FUNCTION_FAILED s
                        | Some sig \<Rightarrow> sign_deliver i sig pSignature len s)))))"

text \<open>
  A mechanism with the hash that its PSS parameters name, \<open>None\<close> when there are no parameters or they are too short.
\<close>

record ck_mechanism =
  mc_mechanism :: ck_mech
  mc_pss_hash :: "ck_mech option"

definition hash_alg_of_md :: "evp_md option \<Rightarrow> int" where
  "hash_alg_of_md md = (if md = Some EVP_sha384 then 2 else if md = Some EVP_sha512 then 3 else 1)"

definition hash_alg_of_pss :: "ck_mech \<Rightarrow> int" where
  "hash_alg_of_pss hashAlg = (if hashAlg = CKM_SHA384 then 2 else if hashAlg = CKM_SHA512 then 3 else 1)"

definition C_SignInit :: "nat \<Rightarrow> ck_mechanism option \<Rightarrow> nat \<Rightarrow> p11_state \<Rightarrow> unit p11_ret" where
  "C_SignInit hSession pMechanism hKey s =
     with_session hSession () (\<lambda>i.
       case object_by_handle (pm_objects s) hKey of
         None \<Rightarrow> Done (CKR_KEY_HANDLE_INVALID, (), s)
       | Some k \<Rightarrow>
      (case pMechanism of
         None \<Rightarrow> Done (CKR_ARGUMENTS_BAD, (), s)
       | Some mech \<Rightarrow>
           if sn_active (pm_sign s ! i) then Done (CKR_OPERATION_ACTIVE, (), s)
           else
      (case find_mech (mc_mechanism mech) of
         None \<Rightarrow> Done (CKR_MECHANISM_INVALID, (), s)
       | Some m \<Rightarrow>
           if \<not> mech_ok_for_type (mc_mechanism mech) (ob_ktype (pm_objects s ! k)) then Done (CKR_MECHANISM_INVALID, (), s)
           else let st = sign_zero\<lparr>sn_active := True, sn_obj_index := k, sn_digest_mech := km_digest_mech m, sn_pss := km_pss m,
                           sn_md := km_md m,
                           sn_hash_alg :=
                             (if km_digest_mech m then hash_alg_of_md (km_md m)
                              else case mc_pss_hash mech of
                                     Some hashAlg \<Rightarrow> if km_pss m then hash_alg_of_pss hashAlg else 0
                                   | None \<Rightarrow> 0)\<rparr>
                in Done (CKR_OK, (), s\<lparr>pm_sign := (pm_sign s)[i := st]\<rparr>)))) s"

definition C_Sign :: "('k, 'ts, 'kp) p11_env \<Rightarrow> nat \<Rightarrow> bytes \<Rightarrow> bytes option \<Rightarrow> nat option \<Rightarrow> p11_state \<Rightarrow>
    (bytes option \<times> nat option) p11_ret" where
  "C_Sign env hSession pData pSignature pulSignatureLen s =
     with_session hSession (pSignature, pulSignatureLen) (\<lambda>i. do_sign env i pData pSignature pulSignatureLen s) s"

text \<open>The loop that doubles the capacity; \<open>None\<close> when it does not end.\<close>

partial_function (option) grow :: "64 word \<Rightarrow> 64 word \<Rightarrow> 64 word option" where
  "grow need cap = (if cap < need then grow need (cap * 2) else Some cap)"

definition C_SignUpdate :: "('k, 'ts, 'kp) p11_env \<Rightarrow> nat \<Rightarrow> bytes \<Rightarrow> p11_state \<Rightarrow> unit p11_ret" where
  "C_SignUpdate env hSession pPart s =
     with_session hSession () (\<lambda>i.
       let st = pm_sign s ! i; need = word_of_nat (length (sn_buf st)) + word_of_nat (length pPart);
           append = (\<lambda>st. if unat (sn_bufcap st) < length (sn_buf st) + length pPart then Crash
                          else Done (CKR_OK, (), s\<lparr>pm_sign := (pm_sign s)[i := st\<lparr>sn_buf := sn_buf st @ pPart\<rparr>]\<rparr>))
       in if \<not> sn_active st then Done (CKR_OPERATION_NOT_INITIALIZED, (), s)
          else if sn_bufcap st < need
          then (case grow need (if sn_bufcap st \<noteq> 0 then sn_bufcap st * 2 else 256) of
                  None \<Rightarrow> Hang
                | Some cap \<Rightarrow> if \<not> pe_alloc env 0 then Done (CKR_HOST_MEMORY, (), s) else append (st\<lparr>sn_bufcap := cap\<rparr>))
          else append st) s"

definition C_SignFinal :: "('k, 'ts, 'kp) p11_env \<Rightarrow> nat \<Rightarrow> bytes option \<Rightarrow> nat option \<Rightarrow> p11_state \<Rightarrow>
    (bytes option \<times> nat option) p11_ret" where
  "C_SignFinal env hSession pSignature pulSignatureLen s =
     with_session hSession (pSignature, pulSignatureLen) (\<lambda>i.
       do_sign env i (sn_buf (pm_sign s ! i)) pSignature pulSignatureLen s) s"

text \<open>The length is converted to an \<^verbatim>\<open>int\<close>. The result is the memory at \<^verbatim>\<open>pRandomData\<close>.\<close>

definition C_GenerateRandom :: "ossl \<Rightarrow> nat \<Rightarrow> bytes option \<Rightarrow> nat \<Rightarrow> p11_state \<Rightarrow> (bytes option) p11_ret" where
  "C_GenerateRandom ssl hSession pRandomData ulRandomLen s =
     with_session hSession pRandomData (\<lambda>_.
       if ulRandomLen = 0 then Done (CKR_OK, pRandomData, s)
       else case pRandomData of
              None \<Rightarrow> Done (CKR_ARGUMENTS_BAD, pRandomData, s)
            | Some mem \<Rightarrow>
                (case ssl_RAND ssl (int32 (int ulRandomLen)) of
                   None \<Rightarrow> Done (CKR_RANDOM_NO_RNG, pRandomData, s)
                 | Some bs \<Rightarrow>
                     if length mem < length bs then Crash
                     else Done (CKR_OK, Some (bs @ drop (length bs) mem), s))) s"

end
