(* ===== verification/P11_Safety.thy ===== *)
theory P11_Safety
  imports P11_Session
begin

text \<open>
  The PKCS\#11 module as a state machine: the calls of an application, the states they lead to, the invariant of these
  states, and the calls that are safe in them.
\<close>

section \<open>Calls\<close>

datatype p11_call =
    CInitialize bool
  | CFinalize bool
  | CGetInfo bool
  | CGetSlotList bool "nat option"
  | CGetSlotInfo nat bool
  | CGetTokenInfo nat bool
  | CGetMechanismList nat bool "nat option"
  | CGetMechanismInfo nat ck_mech bool
  | COpenSession nat bool bool
  | CCloseSession nat
  | CCloseAllSessions nat
  | CGetSessionInfo nat bool
  | CLogin nat bool
  | CLogout nat
  | CFindObjectsInit nat "ck_attribute list" nat
  | CFindObjects nat "nat option" nat bool
  | CFindObjectsFinal nat
  | CGetAttributeValue nat nat "ck_attribute list option" nat
  | CGetObjectSize nat nat bool
  | CSignInit nat "ck_mechanism option" nat
  | CSign nat bytes "bytes option" "nat option"
  | CSignUpdate nat bytes
  | CSignFinal nat "bytes option" "nat option"
  | CGenerateRandom nat "bytes option" nat

definition effect :: "'a p11_ret \<Rightarrow> (ck_rv \<times> p11_state) p11_run" where
  "effect r = run_bind r (\<lambda>(rv, _, s). Done (rv, s))"

fun p11_exec :: "('k, 'ts, 'kp) p11_env \<Rightarrow> p11_call \<Rightarrow> p11_state \<Rightarrow> (ck_rv \<times> p11_state) p11_run" where
  "p11_exec env (CInitialize reserved) s = C_Initialize env reserved s"
| "p11_exec env (CFinalize reserved) s = C_Finalize env reserved s"
| "p11_exec env (CGetInfo pInfo) s = effect (C_GetInfo pInfo s)"
| "p11_exec env (CGetSlotList l n) s = effect (C_GetSlotList l n s)"
| "p11_exec env (CGetSlotInfo slot pInfo) s = effect (C_GetSlotInfo slot pInfo s)"
| "p11_exec env (CGetTokenInfo slot pInfo) s = effect (C_GetTokenInfo slot pInfo s)"
| "p11_exec env (CGetMechanismList slot l n) s = effect (C_GetMechanismList slot l n s)"
| "p11_exec env (CGetMechanismInfo slot t pInfo) s = effect (C_GetMechanismInfo slot t pInfo s)"
| "p11_exec env (COpenSession slot rw ph) s = effect (C_OpenSession slot rw ph s)"
| "p11_exec env (CCloseSession h) s = effect (C_CloseSession h s)"
| "p11_exec env (CCloseAllSessions slot) s = effect (C_CloseAllSessions slot s)"
| "p11_exec env (CGetSessionInfo h pInfo) s = effect (C_GetSessionInfo h pInfo s)"
| "p11_exec env (CLogin h user) s = effect (C_Login h user s)"
| "p11_exec env (CLogout h) s = effect (C_Logout h s)"
| "p11_exec env (CFindObjectsInit h tmpl n) s = effect (C_FindObjectsInit env h tmpl n s)"
| "p11_exec env (CFindObjects h ph n pn) s = effect (C_FindObjects h ph n pn s)"
| "p11_exec env (CFindObjectsFinal h) s = effect (C_FindObjectsFinal h s)"
| "p11_exec env (CGetAttributeValue h obj tmpl n) s = effect (C_GetAttributeValue (pe_hdr env) h obj tmpl n s)"
| "p11_exec env (CGetObjectSize h obj pn) s = effect (C_GetObjectSize h obj pn s)"
| "p11_exec env (CSignInit h mech key) s = effect (C_SignInit h mech key s)"
| "p11_exec env (CSign h data sig len) s = effect (C_Sign env h data sig len s)"
| "p11_exec env (CSignUpdate h part) s = effect (C_SignUpdate env h part s)"
| "p11_exec env (CSignFinal h sig len) s = effect (C_SignFinal env h sig len s)"
| "p11_exec env (CGenerateRandom h mem n) s = effect (C_GenerateRandom (pe_ssl env) h mem n s)"

text \<open>
  A sequence of calls, each in an environment of its own, with the codes they return; it stops at a call that does not
  return. \<open>calls_ok\<close>: every call of the sequence is one that \<open>ok\<close> allows in the state in which it is made.
\<close>

fun run_calls :: "('e \<Rightarrow> 'c \<Rightarrow> 's \<Rightarrow> ('r \<times> 's) p11_run) \<Rightarrow> ('e \<times> 'c) list \<Rightarrow> 's \<Rightarrow> ('r list \<times> 's) p11_run" where
  "run_calls exec [] s = Done ([], s)"
| "run_calls exec ((e, c) # cs) s =
     run_bind (exec e c s) (\<lambda>(rv, s). run_bind (run_calls exec cs s) (\<lambda>(rvs, s). Done (rv # rvs, s)))"

fun calls_ok :: "('e \<Rightarrow> 'c \<Rightarrow> 's \<Rightarrow> ('r \<times> 's) p11_run) \<Rightarrow> ('e \<Rightarrow> 'c \<Rightarrow> 's \<Rightarrow> bool) \<Rightarrow> ('e \<times> 'c) list \<Rightarrow> 's \<Rightarrow> bool" where
  "calls_ok exec ok [] s = True"
| "calls_ok exec ok ((e, c) # cs) s =
     (ok e c s \<and> (case exec e c s of Done (rv, s) \<Rightarrow> calls_ok exec ok cs s | _ \<Rightarrow> True))"

text \<open>
  The contract of a module that is called from outside: its calls keep the invariant, and those that the caller may make
  return.
\<close>

locale called_module =
  fixes exec :: "'e \<Rightarrow> 'c \<Rightarrow> 's \<Rightarrow> ('r \<times> 's) p11_run"
    and inv :: "'s \<Rightarrow> bool"
    and ok :: "'e \<Rightarrow> 'c \<Rightarrow> 's \<Rightarrow> bool"
  assumes keeps: "inv s \<Longrightarrow> exec e c s = Done (rv, s') \<Longrightarrow> inv s'"
    and returns: "inv s \<Longrightarrow> ok e c s \<Longrightarrow> \<exists>rv s'. exec e c s = Done (rv, s')"
begin

lemma run_keeps: "inv s \<Longrightarrow> run_calls exec cs s = Done (rvs, s') \<Longrightarrow> inv s'"
proof (induction cs arbitrary: s rvs)
  case (Cons ec cs)
  then obtain e c where "ec = (e, c)" by (cases ec)
  with Cons show ?case by (auto simp: run_bind_Done intro: keeps)
qed simp

lemma run_returns: "inv s \<Longrightarrow> calls_ok exec ok cs s \<Longrightarrow> \<exists>rvs s'. run_calls exec cs s = Done (rvs, s') \<and> inv s' \<and> length rvs = length cs"
proof (induction cs arbitrary: s)
  case (Cons ec cs)
  obtain e c where ec: "ec = (e, c)" by (cases ec)
  with Cons.prems returns obtain rv s1 where x: "exec e c s = Done (rv, s1)" by fastforce
  with Cons.prems ec have "inv s1" "calls_ok exec ok cs s1" by (auto intro: keeps)
  from Cons.IH [OF this] x ec show ?case by auto
qed simp

end

section \<open>The invariant\<close>

definition sign_ok :: "nat \<Rightarrow> ksp_sign \<Rightarrow> bool" where
  "sign_ok n st \<longleftrightarrow>
     (if sn_active st
      then sn_obj_index st < n \<and> length (sn_buf st) \<le> unat (sn_bufcap st) \<and> sn_digest_mech st = (sn_md st \<noteq> None)
      else st = sign_zero)"

definition sessions_ok :: "nat \<Rightarrow> ksp_session list \<Rightarrow> bool" where
  "sessions_ok next ss \<longleftrightarrow> length ss = MAX_SESSIONS \<and> next < 2 ^ 64"

definition signs_ok :: "nat \<Rightarrow> ksp_session list \<Rightarrow> ksp_sign list \<Rightarrow> bool" where
  "signs_ok n ss sn \<longleftrightarrow> length sn = MAX_SESSIONS \<and>
     (\<forall>i < MAX_SESSIONS. sign_ok n (sn ! i) \<and> (sn_active (sn ! i) \<longrightarrow> se_open (ss ! i)))"

definition object_ok :: "ksp_object \<Rightarrow> bool" where
  "object_ok o' \<longleftrightarrow> length (ob_thumbprint o') < 64 \<and> length (ob_label o') < 512 \<and> length (ob_id o') \<le> 20 \<and>
     length (ob_modulus o') \<le> 512 \<and> length (ob_pubexp o') \<le> 8 \<and> length (ob_ec_params o') \<le> 64 \<and> length (ob_ec_point o') \<le> 256 \<and>
     (ob_ec_params_len o' \<le> 64 \<longrightarrow> length (ob_ec_params o') = ob_ec_params_len o')"

definition objects_ok :: "ksp_object list \<Rightarrow> bool" where
  "objects_ok objs \<longleftrightarrow> (\<forall>i < length objs. ob_handle (objs ! i) = i + 1 \<and> object_ok (objs ! i))"

definition loaded_ok :: "p11_state \<Rightarrow> bool" where
  "loaded_ok s \<longleftrightarrow>
     (if pm_initialized s then set bridge_symbols \<subseteq> pm_funcs s \<and> pr_global (pm_process s) \<noteq> None
      else pm_objects s = [] \<and> (\<forall>i < MAX_SESSIONS. \<not> se_open (pm_sessions s ! i)))"

definition p11_inv :: "c_heap \<Rightarrow> p11_state \<Rightarrow> bool" where
  "p11_inv h s \<longleftrightarrow> sessions_ok (pm_next_handle s) (pm_sessions s) \<and>
     signs_ok (length (pm_objects s)) (pm_sessions s) (pm_sign s) \<and>
     objects_ok (pm_objects s) \<and> loaded_ok s \<and> pm_find_pos s \<le> length (pm_find_handles s) \<and>
     heap_ok (pm_heap s) \<and> hp_mem (pm_heap s) = hp_mem h"

section \<open>What a caller owes\<close>

text \<open>
  What the documentation of OpenSSL says: a digest has at most \<^verbatim>\<open>EVP_MAX_MD_SIZE\<close> bytes, which is 64, and \<^verbatim>\<open>RAND_bytes\<close> writes
  as many bytes as it is asked for.
\<close>

definition ssl_lengths :: "ossl \<Rightarrow> bool" where
  "ssl_lengths ssl \<longleftrightarrow> (\<forall>md m d. ssl_Digest ssl md m = Some d \<longrightarrow> length d \<le> 64) \<and>
     (\<forall>n bs. ssl_RAND ssl n = Some bs \<longrightarrow> length bs = nat n)"

text \<open>
  A key that fits the arrays of an object, which the module does not check: an RSA modulus of at most 512 bytes (4096 bits) and an exponent
  of at most 8. A service whose certificates have such keys.
\<close>

definition key_fits :: "ossl_key option \<Rightarrow> bool" where
  "key_fits k = (case k of Some (OsslRSA (Some (n, e))) \<Rightarrow> length n \<le> 512 \<and> length e \<le> 8 | _ \<Rightarrow> True)"

definition service_fits :: "ossl \<Rightarrow> ('k, 'ts, 'kp) bridge_env \<Rightarrow> bool" where
  "service_fits ssl e \<longleftrightarrow>
     (\<forall>resp. rpc_ListCertificates (be_rpc e) = Ok resp \<longrightarrow>
        (\<forall>cert \<in> set (lr_Certificates resp). key_fits (ssl_pubkey ssl (pc_CertificateDer cert))))"

definition attr_readable :: "ck_attribute \<Rightarrow> bool" where
  "attr_readable a \<longleftrightarrow> at_len a \<le> length (case at_value a of None \<Rightarrow> [] | Some mem \<Rightarrow> mem)"

definition attr_writable :: "ck_attribute \<Rightarrow> bool" where
  "attr_writable a \<longleftrightarrow> (case at_value a of None \<Rightarrow> True | Some mem \<Rightarrow> at_len a \<le> length mem)"

definition sig_writable :: "bytes option \<Rightarrow> nat option \<Rightarrow> bool" where
  "sig_writable sig len = (case (sig, len) of (Some mem, Some n) \<Rightarrow> n \<le> length mem | _ \<Rightarrow> True)"

text \<open>
  The memory that a caller states is there; the module is finalised only when it is initialised; the curves of the
  keys have names that fit; and the parts of a message have fewer than 2^63 bytes in all.
\<close>

fun call_ok :: "p11_call \<Rightarrow> p11_state \<Rightarrow> bool" where
  "call_ok (CFinalize reserved) s = (reserved \<or> pm_initialized s)"
| "call_ok (CFindObjectsInit h tmpl n) s = (n \<le> length tmpl \<and> list_all attr_readable tmpl)"
| "call_ok (CFindObjects h ph n pn) s = (case ph of None \<Rightarrow> True | Some room \<Rightarrow> n \<le> room)"
| "call_ok (CGetAttributeValue h obj tmpl n) s =
     ((case tmpl of None \<Rightarrow> True | Some l \<Rightarrow> n \<le> length l \<and> list_all attr_writable l) \<and>
      list_all (\<lambda>o'. ob_ec_params_len o' \<le> 64) (pm_objects s))"
| "call_ok (CSign h data sig len) s = sig_writable sig len"
| "call_ok (CSignFinal h sig len) s = sig_writable sig len"
| "call_ok (CSignUpdate h part) s =
     (\<forall>i < length (pm_sign s). length (sn_buf (pm_sign s ! i)) + length part \<le> 2 ^ 63)"
| "call_ok (CGenerateRandom h mem n) s = (case mem of None \<Rightarrow> True | Some l \<Rightarrow> n \<le> length l)"
| "call_ok c s = True"

section \<open>Lemmas\<close>

lemma effect_Done [simp]: "effect (Done (rv, out, s)) = Done (rv, s)"
  by (simp add: effect_def)

lemma find_index_Some: "find P [0..<n] = Some i \<Longrightarrow> i < n \<and> P i"
  by (auto simp: find_Some_iff)

lemma find_session_Some:
  "find_session h ss = Some i \<Longrightarrow> i < length ss \<and> se_open (ss ! i) \<and> se_handle (ss ! i) = h"
  unfolding find_session_def by (drule find_index_Some) simp

lemma object_by_handle_Some: "object_by_handle objs h = Some i \<Longrightarrow> i < length objs \<and> ob_handle (objs ! i) = h"
  unfolding object_by_handle_def by (drule find_index_Some) simp

text \<open>An entry point on a session is right when it is right on every open session.\<close>

lemma with_session_elim:
  assumes "\<And>i. pm_initialized s \<Longrightarrow> find_session h (pm_sessions s) = Some i \<Longrightarrow> P (k i)"
    and "\<And>rv. P (Done (rv, out, s))"
  shows "P (with_session h out k s)"
  using assms by (auto simp: with_session_def split: option.split)

text \<open>The tables after a change at one place.\<close>

lemma sign_ok_zero [simp]: "sign_ok n sign_zero" "\<not> sn_active sign_zero"
  by (simp_all add: sign_ok_def sign_zero_def)

lemma nth_update_at: "j < length xs \<Longrightarrow> xs[i := x] ! j = (if i = j then x else xs ! j)"
  by (simp add: nth_list_update)

lemma signs_ok_update:
  assumes "signs_ok n ss sn" and "sign_ok n st" and "sn_active st \<longrightarrow> se_open (ss ! i)"
  shows "signs_ok n ss (sn[i := st])"
  using assms by (auto simp: signs_ok_def nth_update_at)

lemma sessions_ok_close:
  assumes "sessions_ok next ss"
  shows "sessions_ok next (ss[i := (ss ! i)\<lparr>se_open := False\<rparr>])"
  using assms by (auto simp: sessions_ok_def nth_update_at)

lemma signs_ok_close:
  assumes "signs_ok n ss sn"
  shows "signs_ok n (ss[i := (ss ! i)\<lparr>se_open := False\<rparr>]) (sn[i := sign_zero])"
  unfolding signs_ok_def
proof (intro conjI allI impI)
  show "length (sn[i := sign_zero]) = MAX_SESSIONS" using assms by (simp add: signs_ok_def)
  fix j assume j: "j < MAX_SESSIONS"
  with assms show "sign_ok n (sn[i := sign_zero] ! j)" by (auto simp: signs_ok_def nth_update_at)
  assume "sn_active (sn[i := sign_zero] ! j)"
  with assms j show "se_open (ss[i := (ss ! i)\<lparr>se_open := False\<rparr>] ! j)"
    by (cases "i = j") (auto simp: signs_ok_def)
qed

lemma sessions_ok_open:
  assumes "sessions_ok next ss"
  shows "sessions_ok ((next + 1) mod 2 ^ 64) (ss[i := x])"
  using assms by (simp add: sessions_ok_def)

lemma signs_ok_open:
  assumes "signs_ok n ss sn" and "length ss = MAX_SESSIONS"
  shows "signs_ok n (ss[i := \<lparr>se_handle = next, se_slot = slot, se_open = True\<rparr>]) sn"
  using assms by (auto simp: signs_ok_def nth_update_at)

text \<open>The invariant after a change of one part of the state.\<close>

lemma inv_set_sign:
  assumes "p11_inv h s" and "sign_ok (length (pm_objects s)) st" and "sn_active st \<longrightarrow> se_open (pm_sessions s ! i)"
  shows "p11_inv h (s\<lparr>pm_sign := (pm_sign s)[i := st]\<rparr>)"
  using assms by (simp add: p11_inv_def loaded_ok_def signs_ok_update)

lemma inv_sign_reset: "p11_inv h s \<Longrightarrow> p11_inv h (sign_reset i s)"
  unfolding sign_reset_def by (rule inv_set_sign) simp_all

lemma inv_close_at:
  assumes "p11_inv h s"
  shows "p11_inv h (close_at i s)"
proof -
  have "length (pm_sessions s) = MAX_SESSIONS" using assms by (simp add: p11_inv_def sessions_ok_def)
  with assms show ?thesis
    by (auto simp: p11_inv_def loaded_ok_def close_at_def sign_reset_def Let_def nth_update_at sessions_ok_close signs_ok_close)
qed

lemma inv_find:
  assumes "p11_inv h s" and "pos \<le> length hs"
  shows "p11_inv h (s\<lparr>pm_find_handles := hs, pm_find_pos := pos, pm_find_active := a\<rparr>)"
  using assms by (simp add: p11_inv_def loaded_ok_def)

lemma inv_find_pos:
  assumes "p11_inv h s" and "pos \<le> length (pm_find_handles s)"
  shows "p11_inv h (s\<lparr>pm_find_pos := pos\<rparr>)"
  using assms by (simp add: p11_inv_def loaded_ok_def)

lemma inv_process:
  assumes "p11_inv h s" and "pr_global p \<noteq> None"
  shows "p11_inv h (s\<lparr>pm_process := p\<rparr>)"
  using assms by (auto simp: p11_inv_def loaded_ok_def)

lemma inv_session_index:
  assumes "p11_inv h s" and "find_session hs (pm_sessions s) = Some i"
  shows "i < MAX_SESSIONS" "se_open (pm_sessions s ! i)" "i < length (pm_sign s)"
    "sign_ok (length (pm_objects s)) (pm_sign s ! i)"
  using assms find_session_Some [OF assms(2)] by (auto simp: p11_inv_def sessions_ok_def signs_ok_def)

lemma inv_start: "heap_ok h \<Longrightarrow> p11_inv h (p11_start h)"
  by (simp add: p11_inv_def p11_start_def sessions_ok_def signs_ok_def objects_ok_def loaded_ok_def session_zero_def)

section \<open>Initialisation keeps the invariant\<close>

text \<open>Filling a zeroed structure and freeing it leaves the memory as it was.\<close>

lemma fill_then_free:
  assumes "heap_ok h" and "fillKeyInfo zero_info k h = (info, h1)"
  shows "\<exists>info' h2. tpmcert_free_key_info (Some info) h1 = Some (info', h2) \<and> hp_mem h2 = hp_mem h \<and> heap_ok h2"
proof -
  have fresh: "hp_mem h (hp_next h) = None" "hp_mem h (Suc (hp_next h)) = None"
    using assms(1) by (auto simp: heap_ok_def dest: subsetD [of _ _ "hp_next h"] subsetD [of _ _ "Suc (hp_next h)"])
  have undo: "(m(a \<mapsto> x))(a := None) = m" if "m a = None" for m :: "nat \<rightharpoonup> bytes" and a x
    using that by auto
  note f = fillKeyInfo_fields [OF assms(2)]
  have next': "hp_next h \<le> hp_next h1"
    using assms(2) by (auto simp: fillKeyInfo_def Let_def malloc_copy_def split: if_splits)
  show ?thesis
    using fresh assms(1) next'
    by (cases "ki_CertificateDER k = []"; cases "ki_RSAPublicBlob k = []")
      (auto simp: tpmcert_free_key_info_def freeField_def c_free_def f undo fun_upd_twist zero_info_def heap_ok_def)
qed

lemma fill_cert_mem:
  assumes "fillKeyInfo zero_info k h = (info, h1)" and "tk_cert_der info = Some a"
  shows "hp_mem h1 a = Some (ki_CertificateDER k)" "tk_cert_der_len info = length (ki_CertificateDER k)"
  using assms by (auto simp: fillKeyInfo_def Let_def malloc_copy_def zero_info_def split: if_splits)

lemma length_hex_decode: "length (hex_decode x n) \<le> n"
  by (induction x n rule: hex_decode.induct) (auto split: option.split)

lemma new_object_facts:
  assumes "new_object ssl info h n = Done o'"
  shows "ob_handle o' = n + 1" "object_ok o'" "ob_thumbprint o' = take 63 (c_string (tk_thumbprint info))"
    "ob_label o' = take 511 (c_string (tk_subject info))" "ob_id o' = hex_decode (c_string (tk_thumbprint info)) 20"
    "ob_key_size o' = tk_key_size info"
  using assms length_hex_decode [of "c_string (tk_thumbprint info)" 20]
  by (auto simp: new_object_def parse_cert_pubkey_def object_ok_def Let_def
      split: option.splits if_splits ossl_key.splits)

lemma new_object_Done:
  assumes "key_fits (ssl_pubkey ssl (ki_CertificateDER k))" and "fillKeyInfo zero_info k h = (info, h1)"
  shows "\<exists>o'. new_object ssl info h1 n = Done o'"
proof -
  have "\<exists>o''. parse_cert_pubkey ssl (ki_CertificateDER k) o' = Done o''" for o'
    using assms(1) by (auto simp: parse_cert_pubkey_def key_fits_def Let_def split: option.splits ossl_key.splits prod.splits)
  with fill_cert_mem [OF assms(2)] show ?thesis
    by (auto simp: new_object_def Let_def split: option.split)
qed

text \<open>The keys that the client holds in its cache, and those that it returns, are keys of the service.\<close>

definition keys_fit :: "ossl \<Rightarrow> KeyInfo list \<Rightarrow> bool" where
  "keys_fit ssl keys \<longleftrightarrow> (\<forall>k \<in> set keys. key_fits (ssl_pubkey ssl (ki_CertificateDER k)))"

definition cache_fits :: "ossl \<Rightarrow> process \<Rightarrow> bool" where
  "cache_fits ssl p \<longleftrightarrow> (\<forall>c. pr_global p = Some c \<longrightarrow> keys_fit ssl (cl_cachedList c))"

lemma linux_keys_fit:
  assumes "linux_keys e c = (c', r)" and "service_fits ssl e" and "keys_fit ssl (cl_cachedList c)"
  shows "keys_fit ssl (cl_cachedList c') \<and> (\<forall>keys. r = Ok keys \<longrightarrow> keys_fit ssl keys)"
  using assms
  by (auto simp: linux_keys_def AllKeys_cases keys_fit_def service_fits_def remoteKeys_def keyInfoOf_def Let_def
      split: if_splits sum.splits)

lemma linux_get_installed_fits:
  assumes "service_fits ssl e" and "cache_fits ssl p" and "linux_get_installed e (int i) (Some zero_info) h p = out"
  shows "cache_fits ssl (bo_process out)"
    and "bo_ret out = Returned 0 \<Longrightarrow>
      \<exists>k. key_fits (ssl_pubkey ssl (ki_CertificateDER k)) \<and> fillKeyInfo zero_info k h = (the (bo_info out), bo_heap out)"
proof -
  have "cache_fits ssl (bo_process out) \<and> (bo_ret out = Returned 0 \<longrightarrow>
      (\<exists>k. key_fits (ssl_pubkey ssl (ki_CertificateDER k)) \<and> fillKeyInfo zero_info k h = (the (bo_info out), bo_heap out)))"
  proof (cases "pr_global p")
    case None
    with assms(3) show ?thesis
      by (auto simp: linux_get_installed_def get_installed_def bridge_ret_def cache_fits_def codeErr_def)
  next
    case (Some c)
    obtain c' r where k: "linux_keys e c = (c', r)" by force
    have fit: "keys_fit ssl (cl_cachedList c')" "r = Ok keys \<Longrightarrow> keys_fit ssl keys" for keys
      using linux_keys_fit [OF k assms(1)] assms(2) Some by (auto simp: cache_fits_def)
    show ?thesis
    proof (cases r)
      case (Inl err)
      with assms(3) Some k fit(1) show ?thesis
        by (auto simp: linux_get_installed_def get_installed_def bridge_ret_def cache_fits_def codeErr_def)
    next
      case (Inr keys)
      with fit(2) have "i < length keys \<Longrightarrow> key_fits (ssl_pubkey ssl (ki_CertificateDER (keys ! i)))"
        by (simp add: keys_fit_def)
      with assms(3) Some k fit(1) Inr show ?thesis
        by (auto simp: linux_get_installed_def get_installed_def bridge_ret_def cache_fits_def codeNoMore_def codeOK_def Let_def
            split: prod.splits if_splits)
    qed
  qed
  then show "cache_fits ssl (bo_process out)"
    and "bo_ret out = Returned 0 \<Longrightarrow>
      \<exists>k. key_fits (ssl_pubkey ssl (ki_CertificateDER k)) \<and> fillKeyInfo zero_info k h = (the (bo_info out), bo_heap out)"
    by blast+
qed

lemma linux_get_installed_cases:
  assumes "pr_global p \<noteq> None" and "linux_get_installed e (int i) (Some zero_info) h p = out"
  shows "pr_global (bo_process out) \<noteq> None \<and>
    ((\<exists>code. bo_ret out = Returned code \<and> code \<noteq> 0 \<and> bo_heap out = h \<and> bo_info out = Some zero_info) \<or>
     (\<exists>k info h1. bo_ret out = Returned 0 \<and> bo_info out = Some info \<and> bo_heap out = h1 \<and> fillKeyInfo zero_info k h = (info, h1)))"
  using assms unfolding linux_get_installed_def
  by (fastforce simp: get_installed_def bridge_ret_def Let_def split: option.splits prod.splits sum.splits)

text \<open>
  The loop changes only the objects, the memory and the process, and keeps what the invariant says of them; it crashes
  only when a key does not fit.
\<close>

lemma load_objects_keeps:
  assumes "objects_ok (pm_objects s)" and "heap_ok (pm_heap s)" and "pr_global (pm_process s) \<noteq> None"
    and "load_objects env n i s = Done s'"
  shows "\<exists>objs hp p. s' = s\<lparr>pm_objects := objs, pm_heap := hp, pm_process := p\<rparr> \<and> objects_ok objs \<and> heap_ok hp \<and>
    hp_mem hp = hp_mem (pm_heap s) \<and> pr_global p \<noteq> None"
  using assms
proof (induction n arbitrary: i s)
  case 0
  then show ?case by (intro exI [of _ "pm_objects s"] exI [of _ "pm_heap s"] exI [of _ "pm_process s"]) auto
next
  case (Suc n)
  let ?out = "linux_get_installed (pe_bridge env (i + 2)) (int i) (Some zero_info) (pm_heap s) (pm_process s)"
  let ?s = "s\<lparr>pm_heap := bo_heap ?out, pm_process := bo_process ?out\<rparr>"
  have g: "pr_global (bo_process ?out) \<noteq> None"
    using linux_get_installed_cases [OF Suc.prems(3) refl] by blast
  consider (skip) code where "bo_ret ?out = Returned code" "code \<noteq> 0" "bo_heap ?out = pm_heap s" "bo_info ?out = Some zero_info"
    | (fill) k info h1 where "bo_ret ?out = Returned 0" "bo_info ?out = Some info" "bo_heap ?out = h1"
      "fillKeyInfo zero_info k (pm_heap s) = (info, h1)"
    using linux_get_installed_cases [OF Suc.prems(3) refl] by metis
  then show ?case
  proof cases
    case skip
    then have "load_objects env n (i + 1) ?s = Done s'"
      using Suc.prems(4) by (simp add: Let_def)
    from Suc.IH [OF _ _ _ this] Suc.prems g skip show ?thesis by auto
  next
    case fill
    obtain info' h2 where free: "tpmcert_free_key_info (Some info) h1 = Some (info', h2)" "hp_mem h2 = hp_mem (pm_heap s)" "heap_ok h2"
      using fill_then_free [OF Suc.prems(2) fill(4)] by blast
    with fill Suc.prems(4) obtain o' where o': "new_object (pe_ssl env) info h1 (length (pm_objects s)) = Done o'"
      and rest: "load_objects env n (i + 1) (?s\<lparr>pm_objects := pm_objects s @ [o'], pm_heap := h2\<rparr>) = Done s'"
      by (auto simp: Let_def run_bind_Done)
    have "objects_ok (pm_objects s @ [o'])"
      using Suc.prems(1) new_object_facts(1,2) [OF o'] by (auto simp: objects_ok_def nth_append less_Suc_eq)
    with Suc.IH [OF _ _ _ rest] free g show ?thesis by auto
  qed
qed

lemma load_objects_Done:
  assumes "\<And>j. service_fits (pe_ssl env) (pe_bridge env j)" and "heap_ok (pm_heap s)" and "pr_global (pm_process s) \<noteq> None"
    and "cache_fits (pe_ssl env) (pm_process s)"
  shows "\<exists>s'. load_objects env n i s = Done s'"
  using assms(2,3,4)
proof (induction n arbitrary: i s)
  case (Suc n)
  let ?out = "linux_get_installed (pe_bridge env (i + 2)) (int i) (Some zero_info) (pm_heap s) (pm_process s)"
  note fits = linux_get_installed_fits [OF assms(1) [of "i + 2"] Suc.prems(3) refl, where i = i and h = "pm_heap s"]
  have g: "pr_global (bo_process ?out) \<noteq> None"
    using linux_get_installed_cases [OF Suc.prems(2) refl] by blast
  consider (skip) code where "bo_ret ?out = Returned code" "code \<noteq> 0" "bo_heap ?out = pm_heap s" "bo_info ?out = Some zero_info"
    | (fill) info where "bo_ret ?out = Returned 0" "bo_info ?out = Some info"
    using linux_get_installed_cases [OF Suc.prems(2) refl] by metis
  then show ?case
  proof cases
    case skip
    with Suc.IH g Suc.prems(1) fits(1) show ?thesis by (simp add: Let_def)
  next
    case fill
    with fits(2) obtain k where k: "key_fits (ssl_pubkey (pe_ssl env) (ki_CertificateDER k))"
        "fillKeyInfo zero_info k (pm_heap s) = (info, bo_heap ?out)" by auto
    obtain info' h2 where free: "tpmcert_free_key_info (Some info) (bo_heap ?out) = Some (info', h2)" "heap_ok h2"
      using fill_then_free [OF Suc.prems(1) k(2)] by blast
    obtain o' where "new_object (pe_ssl env) info (bo_heap ?out) (length (pm_objects s)) = Done o'"
      using new_object_Done [OF k] by blast
    with free fill g fits(1) Suc.IH show ?thesis by (simp add: Let_def)
  qed
qed simp

lemma load_symbols_keeps:
  "load_symbols env syms s = (s', ok) \<Longrightarrow> \<exists>fs. s' = s\<lparr>pm_funcs := fs\<rparr> \<and> (ok \<longrightarrow> pm_funcs s \<union> set syms \<subseteq> fs)"
proof (induction syms arbitrary: s)
  case Nil
  then show ?case by (intro exI [of _ "pm_funcs s"]) simp
next
  case (Cons f syms)
  show ?case
  proof (cases "pe_dlsym env (''tpmcert_'' @ f)")
    case True
    with Cons.prems Cons.IH [of "s\<lparr>pm_funcs := insert f (pm_funcs s)\<rparr>"] show ?thesis by auto
  next
    case False
    with Cons.prems show ?thesis by auto
  qed
qed

lemma bridge_load_keeps:
  assumes "bridge_load env s = (s', ok)"
  shows "\<exists>b fs. s' = s\<lparr>pm_bridge := b, pm_funcs := fs\<rparr> \<and> (ok \<longrightarrow> set bridge_symbols \<subseteq> fs)"
proof -
  have keep: "\<exists>b fs. s = s\<lparr>pm_bridge := b, pm_funcs := fs\<rparr>"
    "\<exists>b fs. s\<lparr>pm_bridge := x\<rparr> = s\<lparr>pm_bridge := b, pm_funcs := fs\<rparr>" for x
    by (intro exI [of _ "pm_bridge s"] exI [of _ "pm_funcs s"], simp, intro exI [of _ x] exI [of _ "pm_funcs s"], simp)
  show ?thesis
    using assms keep load_symbols_keeps [of env bridge_symbols "s\<lparr>pm_bridge := True\<rparr>" s' ok]
    by (auto simp: bridge_load_def split: if_splits)
qed

lemma linux_init_client:
  assumes "linux_init e cfg p = (p', 0)"
  shows "pr_global p' \<noteq> None"
  using assms by (auto simp: linux_init_def split: sum.splits prod.splits option.splits)

lemma linux_init_fresh:
  assumes "linux_init e cfg p = (p', 0)" and "pr_global p' = Some c"
  shows "cl_cachedList c = []"
  using assms
  by (auto simp: linux_init_def InitGlobal_def New_def closeGlobal_def andThen_Ok_iff codeErr_def Let_def
      split: sum.splits prod.splits option.splits if_splits)

lemma installed_count_fits:
  assumes "linux_installed_count e p = (p', n)" and "service_fits ssl e" and "cache_fits ssl p"
  shows "cache_fits ssl p'"
proof (cases "pr_global p")
  case (Some c)
  obtain c' r where k: "linux_keys e c = (c', r)" by force
  from linux_keys_fit [OF k assms(2)] assms(3) Some have "keys_fit ssl (cl_cachedList c')" by (simp add: cache_fits_def)
  with assms(1) Some k show ?thesis
    by (auto simp: linux_installed_count_def installed_count_def cache_fits_def split: sum.splits)
qed (use assms in \<open>auto simp: linux_installed_count_def installed_count_def\<close>)

lemma installed_count_client:
  assumes "linux_installed_count e p = (p', n)" and "pr_global p \<noteq> None"
  shows "pr_global p' \<noteq> None"
  using assms by (auto simp: linux_installed_count_def installed_count_def split: option.splits prod.splits sum.splits)

section \<open>The bridge's signatures\<close>

lemma linux_sign_hash_eq:
  assumes "pr_global p = Some c" and "length d < 2 ^ 31"
  shows "linux_sign_hash e (Some tp) (Some d) (length d) hashAlg padding sigOut (Some len) p =
    (case SignHashDirect (be_uc e) (be_rpc e) (c_string tp) d (HashAlgFromInt hashAlg) (PaddingFromInt padding) of
       Inl _ \<Rightarrow> \<lparr>sg_process = p, sg_sigOut = sigOut, sg_sigLen = Some len, sg_ret = Returned (-3)\<rparr>
     | Inr sig \<Rightarrow>
         (case sigOut of
            None \<Rightarrow> \<lparr>sg_process = p, sg_sigOut = None, sg_sigLen = Some (length sig), sg_ret = Returned 0\<rparr>
          | Some buf \<Rightarrow>
              if len < length sig then \<lparr>sg_process = p, sg_sigOut = sigOut, sg_sigLen = Some (length sig), sg_ret = Returned (-4)\<rparr>
              else if length buf < length sig
              then \<lparr>sg_process = p, sg_sigOut = sigOut, sg_sigLen = Some len, sg_ret = Undefined\<rparr>
              else \<lparr>sg_process = p, sg_sigOut = Some (sig @ drop (length sig) buf), sg_sigLen = Some (length sig),
                    sg_ret = Returned 0\<rparr>))"
proof -
  have "int32 (int (length d)) = int (length d)" using assms(2) by (intro int32_id) simp_all
  moreover have "p\<lparr>pr_global := Some c\<rparr> = p" using assms(1) by simp
  ultimately show ?thesis
    using assms(1) by (simp add: linux_sign_hash_def sign_hash_def linux_sign_def Let_def split: sum.split option.split)
qed

text \<open>What the module makes of the two answers of the service.\<close>

definition two_answers :: "bool \<Rightarrow> goerror + bytes \<Rightarrow> goerror + bytes \<Rightarrow> ck_rv + bytes" where
  "two_answers memory first second =
     (case first of
        Inl _ \<Rightarrow> Inl CKR_FUNCTION_FAILED
      | Inr sig0 \<Rightarrow>
          if sig0 = [] \<or> 1024 * 1024 < length sig0 then Inl CKR_FUNCTION_FAILED
          else if \<not> memory then Inl CKR_HOST_MEMORY
          else (case second of
                  Inl _ \<Rightarrow> Inl CKR_FUNCTION_FAILED
                | Inr sig \<Rightarrow> if length sig0 + 64 < length sig then Inl CKR_FUNCTION_FAILED else Inr sig))"

abbreviation ask :: "('k, 'ts, 'kp) bridge_env \<Rightarrow> string \<Rightarrow> bytes \<Rightarrow> int \<Rightarrow> int \<Rightarrow> goerror + bytes" where
  "ask e tp d hash_alg padding \<equiv>
     SignHashDirect (be_uc e) (be_rpc e) (c_string tp) d (HashAlgFromInt hash_alg) (PaddingFromInt padding)"

lemma sign_remote_eq:
  assumes "pr_global p = Some c" and "length d < 2 ^ 31"
  shows "sign_remote env o' d hash_alg padding p =
    Done (two_answers (pe_alloc env 0) (ask (pe_bridge env 0) (ob_thumbprint o') d hash_alg padding)
      (ask (pe_bridge env 1) (ob_thumbprint o') d hash_alg padding), p)"
  by (simp add: sign_remote_def linux_sign_hash_eq [OF assms] two_answers_def Let_def split: sum.split)

section \<open>The loop that grows the buffer\<close>

lemma grow_enough:
  assumes "unat need \<le> 2 ^ 63" and "0 < unat cap"
  shows "\<exists>c. grow need cap = Some c \<and> need \<le> c"
  using assms(2)
proof (induction "2 ^ 63 - unat cap" arbitrary: cap rule: less_induct)
  case less
  show ?case
  proof (cases "cap < need")
    case True
    then have lt: "unat cap < 2 ^ 63" using assms(1) by (simp add: word_less_nat_alt)
    then have "unat (cap * 2) = unat cap * 2"
      by (simp add: unat_word_ariths)
    with less.hyps [of "cap * 2"] less.prems lt True show ?thesis
      by (subst grow.simps) (simp add: mult.commute)
  next
    case False
    then show ?thesis by (subst grow.simps) auto
  qed
qed

lemma first_cap_pos:
  assumes "unat cap < 2 ^ 63"
  shows "0 < unat (if cap \<noteq> 0 then cap * 2 else (256 :: 64 word))"
proof -
  have "unat (cap * 2) = unat cap * 2" using assms by (simp add: unat_word_ariths)
  then have "cap * 2 \<noteq> 0" if "cap \<noteq> 0"
    using that by (metis mult_is_0 unat_eq_zero zero_neq_numeral)
  then show ?thesis by (simp add: unat_gt_0)
qed

lemma grow_zero_diverges: "need \<noteq> 0 \<Longrightarrow> grow need 0 = None"
proof (rule ccontr)
  assume "need \<noteq> 0" "grow need 0 \<noteq> None"
  then obtain c where "grow need 0 = Some c" by blast
  then have "(0 :: 64 word) = 0 \<longrightarrow> need = 0"
    by (rule grow.raw_induct [where P = "\<lambda>need cap c. cap = 0 \<longrightarrow> need = 0", rotated])
      (auto split: if_splits simp: word_gt_0)
  with \<open>need \<noteq> 0\<close> show False by simp
qed

lemma append_need:
  assumes "a + b \<le> (2 ^ 63 :: nat)"
  shows "unat (word_of_nat a + word_of_nat b :: 64 word) = a + b"
  using assms by (simp add: unat_of_nat flip: of_nat_add)

section \<open>Every call keeps the invariant\<close>

definition keeps_inv :: "c_heap \<Rightarrow> 'a p11_ret \<Rightarrow> bool" where
  "keeps_inv h r \<longleftrightarrow> (\<forall>rv out s. r = Done (rv, out, s) \<longrightarrow> p11_inv h s)"

lemma keeps_inv_simps [simp]: "keeps_inv h (Done (rv, out, s)) \<longleftrightarrow> p11_inv h s" "keeps_inv h Crash" "keeps_inv h Hang"
  by (auto simp: keeps_inv_def)

lemma keeps_inv_bind: "(\<And>x. r = Done x \<Longrightarrow> keeps_inv h (f x)) \<Longrightarrow> keeps_inv h (run_bind r f)"
  by (cases r) auto

lemma keeps_inv_effect: "keeps_inv h r \<Longrightarrow> effect r = Done (rv, s) \<Longrightarrow> p11_inv h s"
  by (auto simp: keeps_inv_def effect_def run_bind_Done)

lemma keeps_with_session:
  assumes "p11_inv h s" and "\<And>i. pm_initialized s \<Longrightarrow> find_session hs (pm_sessions s) = Some i \<Longrightarrow> keeps_inv h (k i)"
  shows "keeps_inv h (with_session hs out k s)"
  by (rule with_session_elim [where P = "keeps_inv h"]) (simp_all add: assms)

lemma sign_deliver_keeps:
  assumes "p11_inv h s" and "i < length (pm_sign s)" and "sn_active (pm_sign s ! i)" and "i < MAX_SESSIONS"
  shows "keeps_inv h (sign_deliver i sig pSignature len s)"
proof -
  have "sign_ok (length (pm_objects s)) (pm_sign s ! i)" "se_open (pm_sessions s ! i)"
    using assms by (auto simp: p11_inv_def signs_ok_def)
  then have "p11_inv h (s\<lparr>pm_sign := (pm_sign s)[i := (pm_sign s ! i)\<lparr>sn_cached := Some sig\<rparr>]\<rparr>)"
    using assms(1,3) by (intro inv_set_sign) (auto simp: sign_ok_def)
  with assms(1) show ?thesis by (auto simp: sign_deliver_def inv_sign_reset split: option.split)
qed

lemma sign_digest_short:
  assumes "sign_digest ssl st o' data = Done (Inr (d, a))"
  shows "length d \<le> 64"
  using assms
  by (auto simp: sign_digest_def parse_digest_info_def di_table_def split: if_splits option.splits)

text \<open>The signature that an operation makes of its data, or the code with which it fails.\<close>

definition signature_of :: "('k, 'ts, 'kp) p11_env \<Rightarrow> ksp_sign \<Rightarrow> ksp_object \<Rightarrow> bytes \<Rightarrow> (ck_rv + bytes) p11_run" where
  "signature_of env st o' data =
     run_bind (sign_digest (pe_ssl env) st o' data) (\<lambda>d.
       Done (case d of
               Inl rv \<Rightarrow> Inl rv
             | Inr (digest, hash_alg) \<Rightarrow>
                 (let padding = (if sn_pss st then 2 else 1) in
                  case two_answers (pe_alloc env 0) (ask (pe_bridge env 0) (ob_thumbprint o') digest hash_alg padding)
                         (ask (pe_bridge env 1) (ob_thumbprint o') digest hash_alg padding) of
                    Inl rv \<Rightarrow> Inl rv
                  | Inr sig \<Rightarrow>
                      (case sign_format (pe_ssl env) (pe_alloc env 1) o' sig of
                         None \<Rightarrow> Inl CKR_FUNCTION_FAILED
                       | Some sig \<Rightarrow> Inr sig))))"

lemma do_sign_eq:
  assumes "pr_global (pm_process s) = Some c" and "''sign_hash'' \<in> pm_funcs s" and "sn_active (pm_sign s ! i)"
    and "sn_obj_index (pm_sign s ! i) < length (pm_objects s)"
  shows "do_sign env i data pSignature (Some len) s =
    (case sn_cached (pm_sign s ! i) of
       Some sig \<Rightarrow> sign_deliver i sig pSignature len s
     | None \<Rightarrow>
         run_bind (signature_of env (pm_sign s ! i) (pm_objects s ! sn_obj_index (pm_sign s ! i)) data) (\<lambda>r.
           case r of
             Inl rv \<Rightarrow> Done (rv, (pSignature, Some len), sign_reset i s)
           | Inr sig \<Rightarrow> sign_deliver i sig pSignature len s))"
proof -
  have same: "s\<lparr>pm_process := pm_process s\<rparr> = s" by simp
  show ?thesis
  proof (cases "sign_digest (pe_ssl env) (pm_sign s ! i) (pm_objects s ! sn_obj_index (pm_sign s ! i)) data")
    case (Done d)
    show ?thesis
    proof (cases d)
      case (Inl rv)
      with Done assms show ?thesis by (simp add: do_sign_def Let_def signature_of_def split: option.split)
    next
      case (Inr r)
      then obtain digest hash_alg where d: "d = Inr (digest, hash_alg)" by (cases r) auto
      with Done have "length digest < 2 ^ 31" using sign_digest_short [of "pe_ssl env"] by force
      note remote = sign_remote_eq [OF assms(1) this]
      from Done d assms show ?thesis
        by (simp add: do_sign_def Let_def signature_of_def remote same split: option.split sum.split)
    qed
  qed (use assms in \<open>simp_all add: do_sign_def Let_def signature_of_def split: option.split\<close>)
qed

lemma inv_do_sign:
  assumes "p11_inv h s" and "i < MAX_SESSIONS" and "pm_initialized s" and "sn_active (pm_sign s ! i)"
  shows "\<exists>c. pr_global (pm_process s) = Some c" "''sign_hash'' \<in> pm_funcs s"
    "sn_obj_index (pm_sign s ! i) < length (pm_objects s)" "i < length (pm_sign s)"
  using assms by (auto simp: p11_inv_def loaded_ok_def bridge_symbols_def signs_ok_def sign_ok_def)

lemma do_sign_keeps:
  assumes "p11_inv h s" and "i < MAX_SESSIONS" and "pm_initialized s"
  shows "keeps_inv h (do_sign env i data pSignature pulSignatureLen s)"
proof (cases "sn_active (pm_sign s ! i) \<and> pulSignatureLen \<noteq> None")
  case True
  then obtain len where act: "sn_active (pm_sign s ! i)" and len: "pulSignatureLen = Some len" by blast
  note f = inv_do_sign [OF assms act]
  from f(1) obtain c where c: "pr_global (pm_process s) = Some c" by blast
  show ?thesis
    unfolding len do_sign_eq [OF c f(2) act f(3)]
    by (auto intro!: keeps_inv_bind sign_deliver_keeps [OF assms(1) f(4) act assms(2)]
        simp: inv_sign_reset assms(1) split: option.split sum.split)
next
  case False
  with assms(1) show ?thesis by (auto simp: do_sign_def Let_def split: option.split)
qed

lemma C_SignInit_keeps:
  assumes "p11_inv h s"
  shows "keeps_inv h (C_SignInit hs mech key s)"
proof -
  have md: "km_digest_mech m = (km_md m \<noteq> None)" if "find_mech t = Some m" for t m
    using that by (auto simp: find_mech_def ksp_mechs_def split: if_splits)
  show ?thesis
    unfolding C_SignInit_def
    by (rule keeps_with_session [OF assms])
      (auto simp: Let_def sign_ok_def sign_zero_def md assms split: option.split
        intro!: inv_set_sign dest: object_by_handle_Some inv_session_index(2) [OF assms])
qed

lemma C_SignUpdate_keeps:
  assumes "p11_inv h s"
  shows "keeps_inv h (C_SignUpdate env hs part s)"
proof -
  have put: "p11_inv h (s\<lparr>pm_sign := (pm_sign s)[i := st\<lparr>sn_buf := buf\<rparr>]\<rparr>)"
    if "find_session hs (pm_sessions s) = Some i" "length buf \<le> unat (sn_bufcap st)" "sn_active (pm_sign s ! i)"
      "st = (pm_sign s ! i)\<lparr>sn_bufcap := sn_bufcap st\<rparr>"
    for i st buf
  proof -
    note ix = inv_session_index [OF assms that(1)]
    have "sign_ok (length (pm_objects s)) (st\<lparr>sn_buf := buf\<rparr>)"
      using ix(4) that(2,3) by (subst that(4)) (auto simp: sign_ok_def)
    with assms ix(2) show ?thesis by (intro inv_set_sign) simp_all
  qed
  show ?thesis
    unfolding C_SignUpdate_def
    by (rule keeps_with_session [OF assms])
      (auto simp: Let_def assms split: option.split intro!: put)
qed

lemma C_FindObjectsInit_keeps:
  assumes "p11_inv h s"
  shows "keeps_inv h (C_FindObjectsInit env hs tmpl n s)"
  unfolding C_FindObjectsInit_def
  by (rule keeps_with_session [OF assms])
    (use assms in \<open>auto simp: Let_def p11_inv_def loaded_ok_def intro!: keeps_inv_bind\<close>)

lemma C_FindObjects_keeps:
  assumes "p11_inv h s"
  shows "keeps_inv h (C_FindObjects hs ph n pn s)"
  unfolding C_FindObjects_def
  by (rule keeps_with_session [OF assms])
    (use assms in \<open>auto simp: Let_def p11_inv_def loaded_ok_def split: option.split\<close>)

lemma C_FindObjectsFinal_keeps:
  assumes "p11_inv h s"
  shows "keeps_inv h (C_FindObjectsFinal hs s)"
  unfolding C_FindObjectsFinal_def
  by (rule keeps_with_session [OF assms]) (use assms in \<open>simp add: inv_find\<close>)

lemma C_OpenSession_keeps:
  assumes "p11_inv h s"
  shows "keeps_inv h (C_OpenSession slot rw ph s)"
proof -
  have "p11_inv h (s\<lparr>pm_sessions := (pm_sessions s)[i := \<lparr>se_handle = pm_next_handle s, se_slot = 0, se_open = True\<rparr>],
      pm_next_handle := (pm_next_handle s + 1) mod 2 ^ 64\<rparr>)" if "pm_initialized s" "i < MAX_SESSIONS" for i
  proof -
    have "length (pm_sessions s) = MAX_SESSIONS" using assms by (simp add: p11_inv_def sessions_ok_def)
    with assms that show ?thesis
      using sessions_ok_open [of "pm_next_handle s" "pm_sessions s"] by (simp add: p11_inv_def loaded_ok_def signs_ok_open)
  qed
  with assms show ?thesis by (auto simp: C_OpenSession_def split: option.split dest!: find_index_Some)
qed

lemma C_CloseAllSessions_keeps:
  assumes "p11_inv h s"
  shows "keeps_inv h (C_CloseAllSessions slot s)"
proof -
  have "p11_inv h (fold (\<lambda>i s. if se_open (pm_sessions s ! i) then close_at i s else s) is s)" for "is"
    using assms by (induction "is" arbitrary: s) (auto simp: inv_close_at)
  with assms show ?thesis by (simp add: C_CloseAllSessions_def)
qed

lemma C_CloseSession_keeps:
  assumes "p11_inv h s"
  shows "keeps_inv h (C_CloseSession hs s)"
  unfolding C_CloseSession_def
  by (rule keeps_with_session [OF assms]) (simp add: inv_close_at assms)

text \<open>The entry points that only look.\<close>

lemma looking_keeps:
  assumes "p11_inv h s"
  shows "keeps_inv h (C_GetInfo b s)" "keeps_inv h (C_GetSlotList b n s)" "keeps_inv h (C_GetSlotInfo slot b s)"
    "keeps_inv h (C_GetTokenInfo slot b s)" "keeps_inv h (C_GetMechanismList slot b n s)"
    "keeps_inv h (C_GetMechanismInfo slot t b s)" "keeps_inv h (C_GetSessionInfo hs b s)" "keeps_inv h (C_Login hs b s)"
    "keeps_inv h (C_Logout hs s)" "keeps_inv h (C_GetAttributeValue hdr hs obj tmpl k s)"
    "keeps_inv h (C_GetObjectSize hs obj b s)" "keeps_inv h (C_GenerateRandom ssl hs mem k s)"
  unfolding C_GetInfo_def C_GetSlotList_def C_GetSlotInfo_def C_GetTokenInfo_def C_GetMechanismList_def
    C_GetMechanismInfo_def C_GetSessionInfo_def C_Login_def C_Logout_def C_GetAttributeValue_def C_GetObjectSize_def
    C_GenerateRandom_def
  by (auto simp: assms split: option.split intro!: keeps_with_session keeps_inv_bind)

lemma C_Initialize_keeps:
  assumes "p11_inv h s" and "C_Initialize env reserved s = Done (rv, s')"
  shows "p11_inv h s'"
proof (cases "pm_initialized s \<or> reserved")
  case True
  with assms show ?thesis by (auto simp: C_Initialize_def split: if_splits)
next
  case False
  obtain s1 ok where load: "bridge_load env s = (s1, ok)" by force
  then obtain b fs where s1: "s1 = s\<lparr>pm_bridge := b, pm_funcs := fs\<rparr>" "ok \<longrightarrow> set bridge_symbols \<subseteq> fs"
    using bridge_load_keeps by blast
  have down: "p11_inv h (s\<lparr>pm_bridge := b, pm_funcs := fs, pm_process := p\<rparr>)" for p
    using assms(1) False by (auto simp: p11_inv_def loaded_ok_def)
  have up: "p11_inv h (snd (init_done (s\<lparr>pm_bridge := b, pm_funcs := fs, pm_objects := objs, pm_heap := hp, pm_process := p\<rparr>)))"
    if "ok" "objects_ok objs" "heap_ok hp" "hp_mem hp = hp_mem (pm_heap s)" "pr_global p \<noteq> None" for objs hp p
    using assms(1) False s1(2) that
    by (auto simp: p11_inv_def loaded_ok_def init_done_def sessions_ok_def signs_ok_def session_zero_def)
  obtain p1 code where init: "linux_init (pe_bridge env 0) (pe_config env) (pm_process s) = (p1, code)" by force
  obtain p2 n where cnt: "linux_installed_count (pe_bridge env 1) p1 = (p2, n)" by force
  let ?s2 = "s\<lparr>pm_bridge := b, pm_funcs := fs, pm_process := p2\<rparr>"
  have unfold: "C_Initialize env reserved s =
      (if \<not> ok then Done (CKR_DEVICE_ERROR, s1)
       else if code \<noteq> 0 then Done (CKR_DEVICE_ERROR, s1\<lparr>pm_process := p1\<rparr>)
       else if 0 < n then
         (if \<not> pe_alloc env 0 then Done (CKR_HOST_MEMORY, ?s2\<lparr>pm_process := tpmcert_shutdown p2\<rparr>)
          else run_bind (load_objects env (nat n) 0 ?s2) (\<lambda>s. Done (init_done s)))
       else Done (init_done ?s2))"
    using False load s1 init cnt by (cases ok) (simp_all add: C_Initialize_def Let_def)
  show ?thesis
  proof (cases "ok \<and> code = 0")
    case True
    then have c: "pr_global p1 \<noteq> None" "pr_global p2 \<noteq> None"
      using linux_init_client init installed_count_client cnt by blast+
    have ok2: "objects_ok (pm_objects ?s2)" "heap_ok (pm_heap ?s2)" "pr_global (pm_process ?s2) \<noteq> None"
      using assms(1) c by (simp_all add: p11_inv_def)
    have idle: "p11_inv h (snd (init_done ?s2))"
      using up [of "pm_objects s" "pm_heap s" p2] True ok2 by simp
    have busy: "p11_inv h (snd (init_done s3))" if "load_objects env (nat n) 0 ?s2 = Done s3" for s3
      using load_objects_keeps [OF ok2 that] True up by auto
    show ?thesis
      using assms(2) unfold True down idle busy by (auto simp: run_bind_Done split: if_splits)
  next
    case False
    with assms(2) unfold down [of p1] down [of "pm_process s"] s1 show ?thesis by (auto split: if_splits)
  qed
qed

lemma C_Initialize_returns:
  assumes "p11_inv h s" and "\<And>j. service_fits (pe_ssl env) (pe_bridge env j)"
  shows "\<exists>rv s'. C_Initialize env reserved s = Done (rv, s')"
proof -
  have go: "\<exists>rv s'. run_bind (load_objects env n 0 s2) (\<lambda>s. Done (init_done s)) = Done (rv, s')"
    if "heap_ok (pm_heap s2)" "pr_global (pm_process s2) \<noteq> None" "cache_fits (pe_ssl env) (pm_process s2)" for n s2
    using load_objects_Done [OF assms(2) that] by (metis run_bind.simps(1) surj_pair)
  obtain s1 ok where load: "bridge_load env s = (s1, ok)" by force
  then obtain b fs where s1: "s1 = s\<lparr>pm_bridge := b, pm_funcs := fs\<rparr>"
    using bridge_load_keeps by blast
  obtain p1 code where init: "linux_init (pe_bridge env 0) (pe_config env) (pm_process s) = (p1, code)" by force
  obtain p2 n where cnt: "linux_installed_count (pe_bridge env 1) p1 = (p2, n)" by force
  have c: "pr_global p2 \<noteq> None" "cache_fits (pe_ssl env) p2" if "code = 0"
  proof -
    from init that have "cache_fits (pe_ssl env) p1" "pr_global p1 \<noteq> None"
      using linux_init_fresh [of "pe_bridge env 0" "pe_config env" "pm_process s" p1] linux_init_client [of "pe_bridge env 0"]
      by (auto simp: cache_fits_def keys_fit_def)
    then show "pr_global p2 \<noteq> None" "cache_fits (pe_ssl env) p2"
      using installed_count_client [OF cnt] installed_count_fits [OF cnt assms(2)] by blast+
  qed
  show ?thesis
    using load s1 init cnt c assms(1) go [of "s1\<lparr>pm_process := p2\<rparr>" "nat n"]
    by (cases ok) (auto simp: C_Initialize_def Let_def p11_inv_def init_done_def)
qed

lemma C_Finalize_keeps:
  assumes "p11_inv h s" and "C_Finalize env reserved s = Done (rv, s')"
  shows "p11_inv h s'"
  using assms
  by (auto simp: C_Finalize_def Let_def p11_inv_def sessions_ok_def signs_ok_def loaded_ok_def objects_ok_def split: if_splits)

lemma p11_exec_keeps:
  assumes "p11_inv h s" and "p11_exec env call s = Done (rv, s')"
  shows "p11_inv h s'"
proof (cases call)
  case (CInitialize reserved)
  with assms show ?thesis by (simp add: C_Initialize_keeps)
next
  case (CFinalize reserved)
  with assms show ?thesis by (simp add: C_Finalize_keeps)
next
  case (CSign hs data sig len)
  have "keeps_inv h (C_Sign env hs data sig len s)"
    unfolding C_Sign_def
    by (rule keeps_with_session [OF assms(1)]) (rule do_sign_keeps [OF assms(1) inv_session_index(1) [OF assms(1)]])
  with CSign assms(2) show ?thesis by (simp add: keeps_inv_effect)
next
  case (CSignFinal hs sig len)
  have "keeps_inv h (C_SignFinal env hs sig len s)"
    unfolding C_SignFinal_def
    by (rule keeps_with_session [OF assms(1)]) (rule do_sign_keeps [OF assms(1) inv_session_index(1) [OF assms(1)]])
  with CSignFinal assms(2) show ?thesis by (simp add: keeps_inv_effect)
qed (use assms(2) in \<open>simp; elim keeps_inv_effect [rotated];
      simp add: looking_keeps C_OpenSession_keeps C_CloseSession_keeps C_CloseAllSessions_keeps C_FindObjectsInit_keeps
        C_FindObjects_keeps C_FindObjectsFinal_keeps C_SignInit_keeps C_SignUpdate_keeps assms(1)\<close>)+

section \<open>Calls that return\<close>

definition returns :: "'a p11_run \<Rightarrow> bool" where
  "returns r \<longleftrightarrow> (\<exists>x. r = Done x)"

lemma returns_simps [simp]: "returns (Done x)" "\<not> returns Crash" "\<not> returns Hang"
  by (simp_all add: returns_def)

lemma returns_bind: "returns r \<Longrightarrow> (\<And>x. r = Done x \<Longrightarrow> returns (f x)) \<Longrightarrow> returns (run_bind r f)"
  by (auto simp: returns_def)

lemma returns_with_session:
  assumes "\<And>i. pm_initialized s \<Longrightarrow> find_session hs (pm_sessions s) = Some i \<Longrightarrow> returns (k i)"
  shows "returns (with_session hs out k s)"
  by (rule with_session_elim [where P = returns]) (simp_all add: assms)

lemma returns_effect: "returns r \<Longrightarrow> \<exists>rv s'. effect r = Done (rv, s')"
  by (auto simp: returns_def)

lemma sign_deliver_returns: "sig_writable pSignature (Some len) \<Longrightarrow> returns (sign_deliver i sig pSignature len s)"
  by (auto simp: sign_deliver_def sig_writable_def split: option.split)

lemma sign_digest_returns:
  assumes "ssl_lengths ssl"
  shows "returns (sign_digest ssl st o' data)"
proof (cases "sn_digest_mech st")
  case True
  have "length d \<le> 64" if "Option.bind (sn_md st) (\<lambda>md. ssl_Digest ssl md data) = Some d" for d
    using assms that by (auto simp: ssl_lengths_def bind_eq_Some_conv)
  then show ?thesis using True by (auto simp: sign_digest_def leD split: option.split)
qed (auto simp: sign_digest_def split: option.split)

lemma do_sign_returns:
  assumes "p11_inv h s" and "i < MAX_SESSIONS" and "pm_initialized s" and "ssl_lengths (pe_ssl env)"
    and "sig_writable pSignature pulSignatureLen"
  shows "returns (do_sign env i data pSignature pulSignatureLen s)"
proof (cases "sn_active (pm_sign s ! i) \<and> pulSignatureLen \<noteq> None")
  case True
  then obtain len where act: "sn_active (pm_sign s ! i)" and len: "pulSignatureLen = Some len" by blast
  note f = inv_do_sign [OF assms(1-3) act]
  from f(1) obtain c where c: "pr_global (pm_process s) = Some c" by blast
  show ?thesis
    unfolding len do_sign_eq [OF c f(2) act f(3)] using assms(4,5) len
    by (auto intro!: returns_bind sign_deliver_returns sign_digest_returns simp: signature_of_def split: option.split sum.split)
next
  case False
  then show ?thesis by (auto simp: do_sign_def Let_def split: option.split)
qed

lemma attr_matches_returns:
  assumes "attr_readable a"
  shows "returns (attr_matches hdr o' a)"
proof -
  have "returns (if at_len a \<noteq> length v then Done False else run_bind (read_value a (length v)) (\<lambda>x. Done (x = v)))" for v
    using assms by (simp add: attr_readable_def read_value_def Let_def)
  then show ?thesis unfolding attr_matches_def Let_def by simp
qed

lemma all_match_returns: "n \<le> length tmpl \<Longrightarrow> list_all attr_readable tmpl \<Longrightarrow> returns (all_match hdr o' tmpl n)"
proof (induction hdr o' tmpl n rule: all_match.induct)
  case (3 hdr o' a tmpl n)
  have "returns (attr_matches hdr o' a)" using 3 by (simp add: attr_matches_returns)
  with 3 show ?case by (auto simp: returns_def)
qed simp_all

lemma matching_handles_returns:
  "n \<le> length tmpl \<Longrightarrow> list_all attr_readable tmpl \<Longrightarrow> returns (matching_handles hdr objs tmpl n os)"
proof (induction os)
  case (Cons o' os)
  have "returns (object_matches hdr objs (ob_handle o') tmpl n)"
    using Cons.prems by (simp add: object_matches_def all_match_returns split: option.split)
  with Cons show ?case by (auto simp: returns_def)
qed simp

lemma attr_value_returns: "attr_value hdr o' t = Some v \<Longrightarrow> ob_ec_params_len o' \<le> 64 \<Longrightarrow> returns v"
  unfolding attr_value_def by (auto split: if_split_asm)

lemma get_attr_returns:
  assumes "attr_writable a" and "ob_ec_params_len o' \<le> 64"
  shows "returns (get_attr hdr objs h o' a fl)"
proof -
  obtain sz sensitive where sz: "attr_size hdr objs h (at_type a) = (sz, sensitive)" by force
  have "returns (run_bind v (\<lambda>p. if length mem < sz then Crash
      else Done (a\<lparr>at_len := sz, at_value := Some (take sz p @ drop sz mem)\<rparr>, fl)))"
    if "attr_value hdr o' (at_type a) = Some v" "at_value a = Some mem" "\<not> at_len a < sz" for v mem
    using assms(1) that by (intro returns_bind attr_value_returns [OF that(1) assms(2)]) (simp add: attr_writable_def)
  with sz show ?thesis by (simp add: get_attr_def split: option.split)
qed

lemma get_attrs_returns:
  "n \<le> length tmpl \<Longrightarrow> list_all attr_writable tmpl \<Longrightarrow> ob_ec_params_len o' \<le> 64 \<Longrightarrow> returns (get_attrs hdr objs h o' tmpl n fl)"
proof (induction hdr objs h o' tmpl n fl rule: get_attrs.induct)
  case (3 hdr objs h o' a tmpl n fl)
  have "returns (get_attr hdr objs h o' a fl)" using 3 by (simp add: get_attr_returns)
  then obtain a' fl' where one: "get_attr hdr objs h o' a fl = Done (a', fl')" by (auto simp: returns_def)
  have "returns (get_attrs hdr objs h o' tmpl n fl')" using 3 by simp
  with one show ?case by (auto simp: returns_def)
qed simp_all

lemma C_SignUpdate_returns:
  assumes "p11_inv h s" and "call_ok (CSignUpdate hs part) s"
  shows "returns (C_SignUpdate env hs part s)"
proof -
  define need where "need i = (word_of_nat (length (sn_buf (pm_sign s ! i))) + word_of_nat (length part) :: 64 word)" for i
  have unat_need: "unat (need i) = length (sn_buf (pm_sign s ! i)) + length part" "unat (need i) \<le> 2 ^ 63"
    if "find_session hs (pm_sessions s) = Some i" for i
    using assms(2) inv_session_index(3) [OF assms(1) that] append_need unfolding need_def by auto
  have enough: "\<exists>c. grow (need i) (if sn_bufcap (pm_sign s ! i) \<noteq> 0 then sn_bufcap (pm_sign s ! i) * 2 else 256) = Some c \<and>
      unat (need i) \<le> unat c"
    if i: "find_session hs (pm_sessions s) = Some i" and "sn_bufcap (pm_sign s ! i) < need i" for i
  proof -
    let ?cap = "sn_bufcap (pm_sign s ! i)"
    have "unat ?cap < 2 ^ 63" using that(2) unat_need(2) [OF i] by (simp add: word_less_nat_alt)
    from grow_enough [OF unat_need(2) [OF i] first_cap_pos [OF this]] show ?thesis by (simp add: word_le_nat_alt)
  qed
  show ?thesis
    unfolding C_SignUpdate_def need_def [symmetric] Let_def
  proof (rule returns_with_session, goal_cases)
    case (1 i)
    show ?case
    proof (cases "sn_bufcap (pm_sign s ! i) < need i")
      case True
      from enough [OF 1(2) this] obtain c where "grow (need i)
          (if sn_bufcap (pm_sign s ! i) \<noteq> 0 then sn_bufcap (pm_sign s ! i) * 2 else 256) = Some c" "unat (need i) \<le> unat c"
        by blast
      with True show ?thesis by (simp add: unat_need [OF 1(2)] leD)
    next
      case False
      then show ?thesis by (simp add: unat_need [OF 1(2)] word_less_nat_alt)
    qed
  qed
qed

lemma C_GenerateRandom_returns:
  assumes "ssl_lengths ssl" and "case mem of None \<Rightarrow> True | Some l \<Rightarrow> n \<le> length l"
  shows "returns (C_GenerateRandom ssl hs mem n s)"
proof -
  have "nat (int32 (int n)) \<le> n"
  proof (cases "n < 2 ^ 31")
    case False
    have "int32 (int n) < 2 ^ 31" using int32_range by blast
    with False show ?thesis by simp
  qed (simp add: int32_id)
  with assms show ?thesis
    unfolding C_GenerateRandom_def by (auto intro!: returns_with_session simp: ssl_lengths_def split: option.split)
qed

lemma p11_exec_returns:
  assumes "p11_inv h s" and "ssl_lengths (pe_ssl env)" and "call_ok call s"
    and "(\<exists>reserved. call = CInitialize reserved) \<longrightarrow> (\<forall>j. service_fits (pe_ssl env) (pe_bridge env j))"
  shows "\<exists>rv s'. p11_exec env call s = Done (rv, s')"
proof (cases call)
  case (CInitialize reserved)
  with assms(4) have "service_fits (pe_ssl env) (pe_bridge env j)" for j by blast
  from C_Initialize_returns [OF assms(1) this] CInitialize show ?thesis by simp
next
  case (CFinalize reserved)
  with assms show ?thesis
    by (auto simp: C_Finalize_def Let_def p11_inv_def loaded_ok_def bridge_symbols_def)
next
  case (CSign hs data sig len)
  with assms show ?thesis
    by (auto simp: C_Sign_def intro!: returns_effect returns_with_session do_sign_returns dest: inv_session_index(1))
next
  case (CSignFinal hs sig len)
  with assms show ?thesis
    by (auto simp: C_SignFinal_def intro!: returns_effect returns_with_session do_sign_returns dest: inv_session_index(1))
next
  case (CSignUpdate hs part)
  with assms show ?thesis by (auto simp del: call_ok.simps intro!: returns_effect C_SignUpdate_returns)
next
  case (CGetAttributeValue hs obj tmpl n)
  with assms(3) show ?thesis
    by (auto simp: C_GetAttributeValue_def list_all_length intro!: returns_effect returns_with_session returns_bind get_attrs_returns
        dest!: object_by_handle_Some split: option.split)
next
  case (CFindObjectsInit hs tmpl n)
  with assms(3) show ?thesis
    by (auto simp: C_FindObjectsInit_def Let_def intro!: returns_effect returns_with_session returns_bind matching_handles_returns)
next
  case (CGenerateRandom hs mem n)
  with assms show ?thesis by (auto intro!: returns_effect C_GenerateRandom_returns)
qed (use assms(3) in \<open>auto simp: C_GetInfo_def C_GetSlotList_def C_GetSlotInfo_def C_GetTokenInfo_def C_GetMechanismList_def
    C_GetMechanismInfo_def C_GetSessionInfo_def C_Login_def C_Logout_def C_GetObjectSize_def C_OpenSession_def
    C_CloseSession_def C_CloseAllSessions_def C_FindObjects_def C_FindObjectsFinal_def C_SignInit_def Let_def
    intro!: returns_effect returns_with_session split: option.split\<close>)

text \<open>
  What makes a call safe: the lengths that OpenSSL documents, the rules for the caller, and for the initialisation a service whose
  keys fit, as the module does not check their sizes.
\<close>

definition p11_ok :: "('k, 'ts, 'kp) p11_env \<Rightarrow> p11_call \<Rightarrow> p11_state \<Rightarrow> bool" where
  "p11_ok env call s \<longleftrightarrow> ssl_lengths (pe_ssl env) \<and> call_ok call s \<and>
     ((\<exists>reserved. call = CInitialize reserved) \<longrightarrow> (\<forall>j. service_fits (pe_ssl env) (pe_bridge env j)))"

interpretation p11: called_module p11_exec "p11_inv h" p11_ok for h
  by unfold_locales (auto simp: p11_ok_def intro: p11_exec_keeps p11_exec_returns)

end
