(* ===== verification/P11_Props.thy ===== *)
theory P11_Props
  imports P11_Safety Bridge_Types
begin

text \<open>
  What the PKCS\#11 module promises its application: the objects it shows are the keys of the service, its state is well formed after
  any calls, session handles are not shared, and calls that keep the rules return; and what an oversized key does.
\<close>

section \<open>The identifier of an object\<close>

lemma c_hexval_hex_digit: "n < 16 \<Longrightarrow> hexval (hex_digit n) = Some n" "n < 16 \<Longrightarrow> hexval (ascii_upper (hex_digit n)) = Some n"
  by (auto simp: hexval_def hex_digit_def ascii_upper_def Let_def)

lemma word_of_nibbles: "word_of_nat (unat (b :: byte) div 16 * 16 + unat b mod 16) = b"
  by (simp only: div_mult_mod_eq) simp

text \<open>
  The identifier is the fingerprint. Decoding the hexadecimal form of a string of bytes, in small or capital
  letters, gives these bytes back, up to the room there is: so \<^verbatim>\<open>CKA_ID\<close>, which has room for 20 bytes, is the SHA-1
  fingerprint that the server prints as the thumbprint.
\<close>

lemma hex_decode_EncodeToString:
  "hex_decode (EncodeToString bs) n = take n bs \<and> hex_decode (map ascii_upper (EncodeToString bs)) n = take n bs"
proof (induction bs arbitrary: n)
  case Nil
  then show ?case by (simp add: EncodeToString_def)
next
  case (Cons b bs)
  have "unat b < 256" using unsigned_less [of b] by simp
  then have lt: "unat b div 16 < 16" "unat b mod 16 < 16" by auto
  show ?case
    using Cons.IH lt
    by (cases n) (simp_all add: EncodeToString_def hex_byte_def c_hexval_hex_digit word_of_nibbles del: unat_div unat_mod)
qed

section \<open>Objects\<close>

lemma bridge_load_all:
  assumes "pe_dladdr env" and "pe_dlopen env" and "\<And>sym. pe_dlsym env sym"
  shows "bridge_load env s = (s\<lparr>pm_bridge := True, pm_funcs := pm_funcs s \<union> set bridge_symbols\<rparr>, True)"
  using assms by (simp add: bridge_load_def bridge_symbols_def insert_commute)

lemma c_string_take_take [simp]: "take n (c_string (take n x)) = c_string (take n x)"
proof -
  have "length (c_string (take n x)) \<le> n"
    unfolding c_string_def using length_takeWhile_le [of "\<lambda>c. c \<noteq> NUL" "take n x"] by simp
  then show ?thesis by simp
qed

lemma fill_strings:
  assumes "fillKeyInfo zero_info k h = (info, h1)"
  shows "c_string (tk_thumbprint info) = c_string (take 63 (ki_Thumbprint k))"
    and "c_string (tk_subject info) = c_string (take 511 (ki_Subject k))"
    and "tk_key_size info = ki_KeySize k"
  using fillKeyInfo_fields(1,2,3) [OF assms] copyToCChars_bounded [of "replicate 64 NUL" "ki_Thumbprint k"]
    copyToCChars_bounded [of "replicate 512 NUL" "ki_Subject k"]
  by (simp_all add: zero_info_def)

text \<open>
  What an object shows of a key: its place, its thumbprint and subject, cut to the arrays they pass through, its size; as
  identifier the 20 bytes that its thumbprint spells; and of its public key what OpenSSL reads in the certificate, the numbers of an
  RSA key or the curve and the point of an elliptic one, the point as an octet string.
\<close>

definition object_of_key :: "ossl \<Rightarrow> nat \<Rightarrow> KeyInfo \<Rightarrow> ksp_object \<Rightarrow> bool" where
  "object_of_key ssl n k o' \<longleftrightarrow> ob_handle o' = n + 1 \<and> ob_thumbprint o' = c_string (take 63 (ki_Thumbprint k)) \<and>
     ob_label o' = c_string (take 511 (ki_Subject k)) \<and> ob_key_size o' = ki_KeySize k \<and>
     (\<forall>bs. length bs = 20 \<and> ki_Thumbprint k = map ascii_upper (EncodeToString bs) \<longrightarrow> ob_id o' = bs) \<and>
     (ki_CertificateDER k \<noteq> [] \<longrightarrow>
        (case ssl_pubkey ssl (ki_CertificateDER k) of
           Some (OsslRSA (Some (modulus, exponent))) \<Rightarrow>
             ob_ktype o' = CKK_RSA \<and> ob_modulus o' = modulus \<and> ob_pubexp o' = exponent
         | Some (OsslEC (Some oid) (Some point)) \<Rightarrow>
             ob_ktype o' = CKK_EC \<and> (length oid \<le> 64 \<longrightarrow> ob_ec_params o' = oid) \<and>
             (length point \<le> 254 \<longrightarrow> ob_ec_point o' = 0x04 # word_of_nat (length point) # point)
         | _ \<Rightarrow> True))"

lemma new_object_fill:
  assumes "fillKeyInfo zero_info k h = (info, h1)" and "ki_CertificateDER k \<noteq> []"
  shows "\<exists>o'. new_object ssl info h1 n = parse_cert_pubkey ssl (ki_CertificateDER k) o'"
proof -
  obtain a where a: "tk_cert_der info = Some a"
    using assms by (auto simp: fillKeyInfo_def malloc_copy_def Let_def split: if_splits prod.splits)
  from fill_cert_mem [OF assms(1) a] a assms(2) show ?thesis by (auto simp: new_object_def Let_def)
qed

lemma object_id:
  assumes "length bs = 20"
  shows "hex_decode (c_string (take 63 (map ascii_upper (EncodeToString bs)))) 20 = bs"
proof -
  let ?t = "map ascii_upper (EncodeToString bs)"
  have len: "length ?t = 40" using assms by simp
  have "canonical ?t" using canonical_thumbOfHash [of demo_uc bs] by (simp add: thumbOfHash_map)
  then have "\<forall>c \<in> set ?t. c \<noteq> NUL" by (auto simp: canonical_def list_all_iff upper_hex_def NUL_def)
  then have "takeWhile (\<lambda>c. c \<noteq> NUL) ?t = ?t" unfolding takeWhile_eq_all_conv by blast
  with len have "c_string (take 63 ?t) = ?t" by (simp add: c_string_def)
  with hex_decode_EncodeToString [of bs 20] assms show ?thesis by simp
qed

lemma parse_cert_pubkey_RSA:
  assumes "parse_cert_pubkey ssl der o1 = Done o2" and "ssl_pubkey ssl der = Some (OsslRSA (Some (modulus, exponent)))"
  shows "ob_ktype o2 = CKK_RSA \<and> ob_modulus o2 = modulus \<and> ob_pubexp o2 = exponent"
  using assms by (auto simp: parse_cert_pubkey_def split: if_splits)

lemma parse_cert_pubkey_EC:
  assumes "parse_cert_pubkey ssl der o1 = Done o2" and "ssl_pubkey ssl der = Some (OsslEC (Some oid) (Some point))"
  shows "ob_ktype o2 = CKK_EC \<and> (length oid \<le> 64 \<longrightarrow> ob_ec_params o2 = oid) \<and>
    (length point \<le> 254 \<longrightarrow> ob_ec_point o2 = 0x04 # word_of_nat (length point) # point)"
  using assms by (auto simp: parse_cert_pubkey_def Let_def split: if_splits)

lemma new_object_of_key:
  assumes "fillKeyInfo zero_info k h = (info, h1)" and "new_object ssl info h1 n = Done o'"
  shows "object_of_key ssl n k o'"
proof -
  have "case ssl_pubkey ssl (ki_CertificateDER k) of
           Some (OsslRSA (Some (modulus, exponent))) \<Rightarrow>
             ob_ktype o' = CKK_RSA \<and> ob_modulus o' = modulus \<and> ob_pubexp o' = exponent
         | Some (OsslEC (Some oid) (Some point)) \<Rightarrow>
             ob_ktype o' = CKK_EC \<and> (length oid \<le> 64 \<longrightarrow> ob_ec_params o' = oid) \<and>
             (length point \<le> 254 \<longrightarrow> ob_ec_point o' = 0x04 # word_of_nat (length point) # point)
         | _ \<Rightarrow> True" if "ki_CertificateDER k \<noteq> []"
  proof -
    from new_object_fill [OF assms(1) that, of ssl n] assms(2)
    obtain o1 where "parse_cert_pubkey ssl (ki_CertificateDER k) o1 = Done o'" by auto
    from parse_cert_pubkey_RSA [OF this] parse_cert_pubkey_EC [OF this] show ?thesis
      by (simp split: option.split ossl_key.split)
  qed
  moreover have "ob_id o' = bs" if "length bs = 20" "ki_Thumbprint k = map ascii_upper (EncodeToString bs)" for bs
    using new_object_facts(5) [OF assms(2)] fill_strings(1) [OF assms(1)] object_id [OF that(1)] that(2) by simp
  ultimately show ?thesis
    using new_object_facts [OF assms(2)] fill_strings [OF assms(1)] by (simp add: object_of_key_def)
qed

lemma process_same: "pr_global p = Some c \<Longrightarrow> p\<lparr>pr_global := Some c\<rparr> = p"
  by simp

lemma get_key_at:
  assumes "linux_keys e c = (c, Ok keys)" and "pr_global p = Some c" and "i < length keys"
    and "fillKeyInfo zero_info (keys ! i) h = (info, h1)"
  shows "linux_get_installed e (int i) (Some zero_info) h p = bridge_ret p h1 (Some info) 0"
  using assms by (simp add: linux_get_installed_def get_installed_def Let_def process_same)

lemma load_objects_all:
  assumes "keys_fit (pe_ssl env) keys" and "\<And>j. pe_bridge env (j + 2) = e" and "linux_keys e c = (c, Ok keys)"
    and "heap_ok (pm_heap s)" and "pr_global (pm_process s) = Some c" and "i + n = length keys"
    and "length (pm_objects s) = i" and "\<And>j. j < i \<Longrightarrow> object_of_key (pe_ssl env) j (keys ! j) (pm_objects s ! j)"
  shows "\<exists>s'. load_objects env n i s = Done s' \<and> length (pm_objects s') = length keys \<and>
    (\<forall>j < length keys. object_of_key (pe_ssl env) j (keys ! j) (pm_objects s' ! j))"
  using assms(4-8)
proof (induction n arbitrary: i s)
  case (Suc n)
  obtain info h1 where fill: "fillKeyInfo zero_info (keys ! i) (pm_heap s) = (info, h1)" by force
  have i: "i < length keys" using Suc.prems(3) by simp
  note get = get_key_at [OF assms(3) Suc.prems(2) i fill]
  have key_at: "key_fits (ssl_pubkey (pe_ssl env) (ki_CertificateDER (keys ! i)))" using assms(1) i by (simp add: keys_fit_def)
  obtain info' h2 where free: "tpmcert_free_key_info (Some info) h1 = Some (info', h2)" "heap_ok h2"
    using fill_then_free [OF Suc.prems(1) fill] by blast
  obtain o' where o': "new_object (pe_ssl env) info h1 (length (pm_objects s)) = Done o'"
    using new_object_Done [OF key_at fill] by blast
  have ok: "object_of_key (pe_ssl env) i (keys ! i) o'"
    using new_object_of_key [OF fill o'] Suc.prems(4) by simp
  let ?s = "s\<lparr>pm_objects := pm_objects s @ [o'], pm_heap := h2\<rparr>"
  have "load_objects env (Suc n) i s = load_objects env n (i + 1) ?s"
    using get free o' unfolding load_objects.simps assms(2) by (simp add: Let_def bridge_ret_def)
  moreover have "\<exists>s'. load_objects env n (i + 1) ?s = Done s' \<and> length (pm_objects s') = length keys \<and>
      (\<forall>j < length keys. object_of_key (pe_ssl env) j (keys ! j) (pm_objects s' ! j))"
    using free(2) Suc.prems ok by (intro Suc.IH) (auto simp: nth_append less_Suc_eq)
  ultimately show ?case by simp
qed simp

text \<open>A key that does not fit.\<close>

definition large_modulus :: "ossl \<Rightarrow> KeyInfo \<Rightarrow> bool" where
  "large_modulus ssl k \<longleftrightarrow> ki_CertificateDER k \<noteq> [] \<and>
     (\<exists>modulus exponent. ssl_pubkey ssl (ki_CertificateDER k) = Some (OsslRSA (Some (modulus, exponent))) \<and> 512 < length modulus)"

lemma new_object_large:
  assumes "fillKeyInfo zero_info k h = (info, h1)" and "large_modulus ssl k"
  shows "new_object ssl info h1 n = Crash"
  using new_object_fill [OF assms(1), of ssl n] assms(2) by (auto simp: large_modulus_def parse_cert_pubkey_def)

lemma new_object_not_Hang: "new_object ssl info h n \<noteq> Hang"
  by (auto simp: new_object_def parse_cert_pubkey_def Let_def split: option.split ossl_key.split prod.split)

lemma load_objects_crash:
  assumes "large_modulus (pe_ssl env) (keys ! j)" and "\<And>j. pe_bridge env (j + 2) = e" and "linux_keys e c = (c, Ok keys)"
    and "heap_ok (pm_heap s)" and "pr_global (pm_process s) = Some c" and "i + n = length keys" and "i \<le> j" and "j < length keys"
  shows "load_objects env n i s = Crash"
  using assms(4-8)
proof (induction n arbitrary: i s)
  case (Suc n)
  obtain info h1 where fill: "fillKeyInfo zero_info (keys ! i) (pm_heap s) = (info, h1)" by force
  have i: "i < length keys" using Suc.prems(3) by simp
  note get = get_key_at [OF assms(3) Suc.prems(2) i fill]
  obtain info' h2 where free: "tpmcert_free_key_info (Some info) h1 = Some (info', h2)" "heap_ok h2"
    using fill_then_free [OF Suc.prems(1) fill] by blast
  show ?case
  proof (cases "new_object (pe_ssl env) info h1 (length (pm_objects s))")
    case (Done o')
    with new_object_large [OF fill] assms(1) Suc.prems(4) have "i + 1 \<le> j" by (cases "i = j") auto
    with Suc.IH [of "s\<lparr>pm_objects := pm_objects s @ [o'], pm_heap := h2\<rparr>" "i + 1"] Suc.prems free(2)
    have "load_objects env n (i + 1) (s\<lparr>pm_objects := pm_objects s @ [o'], pm_heap := h2\<rparr>) = Crash" by simp
    then show ?thesis
      using get free Done unfolding load_objects.simps assms(2) by (simp add: Let_def bridge_ret_def)
  next
    case Crash
    then show ?thesis using get unfolding load_objects.simps assms(2) by (simp add: Let_def bridge_ret_def)
  qed (use new_object_not_Hang in blast)
qed simp

lemma C_Initialize_unfold:
  assumes "\<not> pm_initialized s"
    and "pe_dladdr env" and "pe_dlopen env" and "\<And>sym. pe_dlsym env sym" and "pe_alloc env 0"
    and "linux_init (pe_bridge env 0) (pe_config env) (pm_process s) = (p, 0)" and "pr_global p = Some c"
    and "\<And>j. pe_bridge env (j + 1) = e" and "linux_keys e c = (c', Ok keys)" and "length keys < 2 ^ 31"
  shows "C_Initialize env False s =
    run_bind (load_objects env (length keys) 0 (s\<lparr>pm_bridge := True, pm_funcs := pm_funcs s \<union> set bridge_symbols,
        pm_process := p\<lparr>pr_global := Some c'\<rparr>\<rparr>)) (\<lambda>s. Done (init_done s))"
proof -
  have cnt: "linux_installed_count (pe_bridge env 1) p = (p\<lparr>pr_global := Some c'\<rparr>, int (length keys))"
    using assms(7,9,10) assms(8) [of 0] by (simp add: linux_installed_count_def installed_count_def int32_small)
  show ?thesis
    using assms(1,5,6) by (cases "keys = []")
      (simp_all add: C_Initialize_def bridge_load_all [OF assms(2-4)] cnt [simplified] cnt Let_def)
qed

text \<open>
  C24: what the token shows. When the bridge loads and connects, the service's keys do not change while
  \<^verbatim>\<open>C_Initialize\<close> runs, and each of them fits the arrays of the module (an RSA modulus of at most 512 bytes, an exponent of at most
  8), the call succeeds and there is one object for every key, in the order of the service: its handle is its place counted from
  one; its thumbprint, label and size are those of the key, cut to the arrays of the structures they pass through; its identifier is the 20 bytes that
  the thumbprint spells in hexadecimal; and its public key is the one that OpenSSL reads in the certificate of the key.
\<close>

theorem C_Initialize_shows_keys:
  assumes "p11_inv h s" and "\<not> pm_initialized s" and "\<And>k. k \<in> set keys \<Longrightarrow> key_fits (ssl_pubkey (pe_ssl env) (ki_CertificateDER k))"
    and "pe_dladdr env" and "pe_dlopen env" and "\<And>sym. pe_dlsym env sym" and "pe_alloc env 0"
    and "linux_init (pe_bridge env 0) (pe_config env) (pm_process s) = (p, 0)" and "pr_global p = Some c"
    and "\<And>j. pe_bridge env (j + 1) = e" and "linux_keys e c = (c', Ok keys)" and "length keys < 2 ^ 31"
  shows "\<exists>s'. C_Initialize env False s = Done (CKR_OK, s') \<and> pm_initialized s' \<and> length (pm_objects s') = length keys \<and>
    (\<forall>j < length keys. object_of_key (pe_ssl env) j (keys ! j) (pm_objects s' ! j))"
proof -
  let ?s1 = "s\<lparr>pm_bridge := True, pm_funcs := pm_funcs s \<union> set bridge_symbols, pm_process := p\<lparr>pr_global := Some c'\<rparr>\<rparr>"
  have s: "pm_objects s = []" "heap_ok (pm_heap s)" using assms(1,2) by (auto simp: p11_inv_def loaded_ok_def)
  have "keys_fit (pe_ssl env) keys" using assms(3) by (simp add: keys_fit_def)
  then have "\<exists>s'. load_objects env (length keys) 0 ?s1 = Done s' \<and> length (pm_objects s') = length keys \<and>
      (\<forall>j < length keys. object_of_key (pe_ssl env) j (keys ! j) (pm_objects s' ! j))"
    using s assms(10) [of "Suc _"]
    by (intro load_objects_all [OF _ _ lks.stable [OF assms(11)]]) simp_all
  with C_Initialize_unfold [OF assms(2,4-12)] show ?thesis by (auto simp: init_done_def)
qed

text \<open>
  C31: an oversized key brings the application down. When the bridge loads and connects and the service lists a certificate with an RSA
  modulus of more than 512 bytes, for instance a key of 8192 bits, which \<^verbatim>\<open>C_GetMechanismInfo\<close> states as supported,
  \<^verbatim>\<open>C_Initialize\<close> writes past the array in which the object keeps the modulus.
\<close>

theorem C_Initialize_large_key_overflows:
  assumes "p11_inv h s" and "\<not> pm_initialized s" and "k \<in> set keys" and "large_modulus (pe_ssl env) k"
    and "pe_dladdr env" and "pe_dlopen env" and "\<And>sym. pe_dlsym env sym" and "pe_alloc env 0"
    and "linux_init (pe_bridge env 0) (pe_config env) (pm_process s) = (p, 0)" and "pr_global p = Some c"
    and "\<And>j. pe_bridge env (j + 1) = e" and "linux_keys e c = (c', Ok keys)" and "length keys < 2 ^ 31"
  shows "C_Initialize env False s = Crash"
proof -
  let ?s1 = "s\<lparr>pm_bridge := True, pm_funcs := pm_funcs s \<union> set bridge_symbols, pm_process := p\<lparr>pr_global := Some c'\<rparr>\<rparr>"
  from assms(3,4) obtain j where "j < length keys" "large_modulus (pe_ssl env) (keys ! j)" by (auto simp: in_set_conv_nth)
  moreover have "heap_ok (pm_heap s)" using assms(1) by (simp add: p11_inv_def)
  ultimately have "load_objects env (length keys) 0 ?s1 = Crash"
    using assms(11) [of "Suc _"] by (intro load_objects_crash [OF _ _ lks.stable [OF assms(12)]]) simp_all
  with C_Initialize_unfold [OF assms(2,5-13)] show ?thesis by simp
qed

text \<open>A library that computes something and a module that finds the bridge and a service with one key.\<close>

definition demo_ssl :: ossl where
  "demo_ssl = \<lparr>ssl_pubkey = (\<lambda>der. Some (OsslRSA (Some ([12, 161], [1, 0, 1])))),
     ssl_Digest = (\<lambda>md m. Some (replicate 32 (of_nat (length m)))),
     ssl_d2i_ECDSA_SIG = (\<lambda>der. Some (1, 2)), ssl_bn2binpad = (\<lambda>n field. Some (replicate field (of_nat n))),
     ssl_RAND = (\<lambda>n. Some (replicate (nat n) 7))\<rparr>"

definition demo_hdr :: ck_header where
  "demo_hdr = \<lparr>hd_CKO_PRIVATE_KEY = [3], hd_CKK = (\<lambda>t. case t of CKK_RSA \<Rightarrow> [0] | CKK_EC \<Rightarrow> [3]),
     hd_CK_BBOOL = (\<lambda>b. [if b then 1 else 0]), hd_UNAVAILABLE = 99999\<rparr>"

definition demo_p11_env :: "(nat, nat, nat) p11_env" where
  "demo_p11_env = \<lparr>pe_ssl = demo_ssl, pe_hdr = demo_hdr, pe_dladdr = True, pe_dlopen = True, pe_dlsym = (\<lambda>_. True),
     pe_dlclose = False, pe_config = Some ''p'', pe_bridge = (\<lambda>_. demo_connected), pe_alloc = (\<lambda>_. True)\<rparr>"

lemma demo_ssl_lengths: "ssl_lengths demo_ssl"
  by (simp add: ssl_lengths_def demo_ssl_def)

lemma demo_ssl_fits: "key_fits (ssl_pubkey demo_ssl der)"
  by (simp add: demo_ssl_def key_fits_def)

lemma demo_heap_ok: "heap_ok demo_heap"
  by (auto simp: heap_ok_def demo_heap_def)

lemma demo_linux_keys_connected:
  "cl_cachedAt c = None \<Longrightarrow> linux_keys demo_connected c =
     (c\<lparr>cl_cachedList := remoteKeys demo_uc demo_lib demo_remote, cl_cachedAt := Some 5\<rparr>, Ok (remoteKeys demo_uc demo_lib demo_remote))"
  by (simp add: linux_keys_def AllKeys_cases demo_connected_def demo_bridge_env_def demo_rpc_def Since_def listCacheTTL_def)

lemma demo_remote_length: "length (remoteKeys demo_uc demo_lib demo_remote) = 1"
  by (simp add: remoteKeys_def demo_remote_def)

lemma demo_p11_connects:
  "\<exists>c. cl_cachedAt c = None \<and> linux_init demo_connected (Some ''p'') (pm_process (p11_start demo_heap)) =
     (\<lparr>pr_global = Some c, pr_open = 1\<rparr>, 0)"
  using demo_connect by (auto simp: p11_start_def)

theorem C_Initialize_shows_keys_witness:
  "\<exists>s'. C_Initialize demo_p11_env False (p11_start demo_heap) = Done (CKR_OK, s') \<and> length (pm_objects s') = 1 \<and>
     ob_thumbprint (pm_objects s' ! 0) = ''AABB''"
proof -
  obtain c where c: "cl_cachedAt c = None" and i: "linux_init demo_connected (Some ''p'') (pm_process (p11_start demo_heap)) =
     (\<lparr>pr_global = Some c, pr_open = 1\<rparr>, 0)" using demo_p11_connects by blast
  have i': "linux_init (pe_bridge demo_p11_env 0) (pe_config demo_p11_env) (pm_process (p11_start demo_heap)) =
     (\<lparr>pr_global = Some c, pr_open = 1\<rparr>, 0)"
    using i by (simp add: demo_p11_env_def)
  have tp: "c_string (take 63 (ki_Thumbprint (remoteKeys demo_uc demo_lib demo_remote ! 0))) = ''AABB''"
  proof -
    have "NormalizeThumbprint demo_uc ''aa:bb'' = ''AABB''" by code_simp
    then have "ki_Thumbprint (remoteKeys demo_uc demo_lib demo_remote ! 0) = ''AABB''"
      by (simp add: remoteKeys_def demo_remote_def keyInfoOf_def Let_def)
    then show ?thesis by (simp add: c_string_def NUL_def)
  qed
  have "\<exists>s'. C_Initialize demo_p11_env False (p11_start demo_heap) = Done (CKR_OK, s') \<and> pm_initialized s' \<and>
      length (pm_objects s') = length (remoteKeys demo_uc demo_lib demo_remote) \<and>
      (\<forall>j < length (remoteKeys demo_uc demo_lib demo_remote).
         object_of_key (pe_ssl demo_p11_env) j (remoteKeys demo_uc demo_lib demo_remote ! j) (pm_objects s' ! j))"
    by (rule C_Initialize_shows_keys [OF inv_start [OF demo_heap_ok] _ _ _ _ _ _ i' _ _ demo_linux_keys_connected [OF c]])
      (simp_all add: p11_start_def demo_p11_env_def demo_ssl_fits demo_remote_length)
  then show ?thesis by (auto simp: demo_remote_length object_of_key_def tp)
qed

text \<open>The same service, seen by a library that reads a modulus of 1024 bytes in its certificate.\<close>

definition demo_large_env :: "(nat, nat, nat) p11_env" where
  "demo_large_env = demo_p11_env\<lparr>pe_ssl := demo_ssl\<lparr>ssl_pubkey := (\<lambda>der. Some (OsslRSA (Some (replicate 1024 1, [1, 0, 1]))))\<rparr>\<rparr>"

theorem C_Initialize_large_key_overflows_witness:
  "C_Initialize demo_large_env False (p11_start demo_heap) = Crash"
proof -
  obtain c where c: "cl_cachedAt c = None" and i: "linux_init demo_connected (Some ''p'') (pm_process (p11_start demo_heap)) =
     (\<lparr>pr_global = Some c, pr_open = 1\<rparr>, 0)" using demo_p11_connects by blast
  have i': "linux_init (pe_bridge demo_large_env 0) (pe_config demo_large_env) (pm_process (p11_start demo_heap)) =
     (\<lparr>pr_global = Some c, pr_open = 1\<rparr>, 0)"
    using i by (simp add: demo_large_env_def demo_p11_env_def)
  obtain k where k: "remoteKeys demo_uc demo_lib demo_remote = [k]" "ki_CertificateDER k \<noteq> []"
    by (auto simp: remoteKeys_def demo_remote_def keyInfoOf_def Let_def)
  show ?thesis
    by (rule C_Initialize_large_key_overflows [OF inv_start [OF demo_heap_ok] _ _ _ _ _ _ _ i' _ _ demo_linux_keys_connected [OF c], where k = k])
      (simp_all add: p11_start_def demo_large_env_def demo_p11_env_def large_modulus_def k)
qed

section \<open>Session handles\<close>

text \<open>The open sessions have different handles, none of them 0, which is \<^verbatim>\<open>CK_INVALID_HANDLE\<close>.\<close>

definition handles_distinct :: "ksp_session list \<Rightarrow> bool" where
  "handles_distinct ss \<longleftrightarrow>
     (\<forall>i < MAX_SESSIONS. se_open (ss ! i) \<longrightarrow> se_handle (ss ! i) \<noteq> 0) \<and>
     (\<forall>i < MAX_SESSIONS. \<forall>j < MAX_SESSIONS.
        se_open (ss ! i) \<and> se_open (ss ! j) \<and> se_handle (ss ! i) = se_handle (ss ! j) \<longrightarrow> i = j)"

text \<open>After \<open>m\<close> sessions have been opened their handles are numbers up to \<open>m\<close>.\<close>

definition handles_upto :: "nat \<Rightarrow> p11_state \<Rightarrow> bool" where
  "handles_upto m s \<longleftrightarrow> pm_next_handle s = (m + 1) mod 2 ^ 64 \<and> handles_distinct (pm_sessions s) \<and>
     (\<forall>i < MAX_SESSIONS. se_open (pm_sessions s ! i) \<longrightarrow> se_handle (pm_sessions s ! i) \<le> m)"

text \<open>No call but \<^verbatim>\<open>C_OpenSession\<close> opens a session or changes a handle.\<close>

definition sessions_from :: "p11_state \<Rightarrow> p11_state \<Rightarrow> bool" where
  "sessions_from s s' \<longleftrightarrow> pm_next_handle s' = pm_next_handle s \<and>
     (\<forall>i < MAX_SESSIONS. se_open (pm_sessions s' ! i) \<longrightarrow>
        se_open (pm_sessions s ! i) \<and> se_handle (pm_sessions s' ! i) = se_handle (pm_sessions s ! i))"

definition keeps_handles :: "p11_state \<Rightarrow> 'a p11_ret \<Rightarrow> bool" where
  "keeps_handles s r \<longleftrightarrow> (\<forall>rv out s'. r = Done (rv, out, s') \<longrightarrow> sessions_from s s')"

lemma keeps_handles_simps [simp]:
  "keeps_handles s (Done (rv, out, s')) \<longleftrightarrow> sessions_from s s'" "keeps_handles s Crash" "keeps_handles s Hang"
  by (auto simp: keeps_handles_def)

lemma keeps_handles_bind: "(\<And>x. r = Done x \<Longrightarrow> keeps_handles s (f x)) \<Longrightarrow> keeps_handles s (run_bind r f)"
  by (cases r) auto

lemma keeps_handles_effect: "keeps_handles s r \<Longrightarrow> effect r = Done (rv, s') \<Longrightarrow> sessions_from s s'"
  by (auto simp: keeps_handles_def effect_def run_bind_Done)

lemma sessions_from_same: "pm_sessions s' = pm_sessions s \<Longrightarrow> pm_next_handle s' = pm_next_handle s \<Longrightarrow> sessions_from s s'"
  by (simp add: sessions_from_def)

lemma keeps_handles_session:
  assumes "\<And>i. keeps_handles s (k i)"
  shows "keeps_handles s (with_session hs out k s)"
  by (rule with_session_elim [where P = "keeps_handles s"]) (simp_all add: assms sessions_from_same)

lemma close_at_from:
  assumes "p11_inv h s" and "sessions_from s0 s"
  shows "sessions_from s0 (close_at i s)"
proof -
  have "length (pm_sessions s) = MAX_SESSIONS" using assms(1) by (simp add: p11_inv_def sessions_ok_def)
  with assms(2) show ?thesis
    by (auto simp: sessions_from_def close_at_def sign_reset_def Let_def nth_update_at)
qed

lemma do_sign_handles: "keeps_handles s (do_sign env i data pSignature pulSignatureLen s)"
  by (auto simp: do_sign_def sign_deliver_def sign_reset_def Let_def sessions_from_same
      split: option.split sum.split intro!: keeps_handles_bind)

lemma load_objects_sessions:
  "load_objects env n i s = Done s' \<Longrightarrow> pm_sessions s' = pm_sessions s \<and> pm_next_handle s' = pm_next_handle s"
  by (induction n arbitrary: i s)
    (auto simp: Let_def run_bind_Done split: cgo.splits option.splits if_splits prod.splits)

lemma C_Initialize_handles:
  assumes "C_Initialize env reserved s = Done (rv, s')"
  shows "sessions_from s s'"
proof -
  have "pm_sessions s1 = pm_sessions s \<and> pm_next_handle s1 = pm_next_handle s" if "bridge_load env s = (s1, ok)" for s1 ok
    using bridge_load_keeps [OF that] by auto
  with assms show ?thesis
    by (auto simp: C_Initialize_def init_done_def sessions_from_def session_zero_def Let_def run_bind_Done
        dest!: load_objects_sessions split: if_splits prod.splits bool.splits)
qed

lemma p11_exec_handles:
  assumes "p11_inv h s" and "p11_exec env call s = Done (rv, s')" and "\<nexists>slot rw ph. call = COpenSession slot rw ph"
  shows "sessions_from s s'"
proof (cases call)
  case (CInitialize reserved)
  with assms(2) show ?thesis by (simp add: C_Initialize_handles)
next
  case (CFinalize reserved)
  with assms(1,2) show ?thesis
    by (auto simp: C_Finalize_def sessions_from_def p11_inv_def sessions_ok_def Let_def split: if_splits)
next
  case (CCloseAllSessions slot)
  have "p11_inv h (fold (\<lambda>i s. if se_open (pm_sessions s ! i) then close_at i s else s) is s1) \<and>
      sessions_from s (fold (\<lambda>i s. if se_open (pm_sessions s ! i) then close_at i s else s) is s1)"
    if "p11_inv h s1" "sessions_from s s1" for "is" s1
    using that by (induction "is" arbitrary: s1) (auto simp: inv_close_at close_at_from)
  with assms(1,2) CCloseAllSessions show ?thesis
    by (auto simp: C_CloseAllSessions_def sessions_from_same split: if_splits)
qed (use assms in \<open>simp; elim keeps_handles_effect [rotated];
      auto simp: C_GetInfo_def C_GetSlotList_def C_GetSlotInfo_def C_GetTokenInfo_def C_GetMechanismList_def
        C_GetMechanismInfo_def C_GetSessionInfo_def C_Login_def C_Logout_def C_GetAttributeValue_def C_GetObjectSize_def
        C_GenerateRandom_def C_CloseSession_def C_FindObjectsInit_def C_FindObjects_def C_FindObjectsFinal_def C_SignInit_def
        C_SignUpdate_def C_Sign_def C_SignFinal_def Let_def sessions_from_same do_sign_handles close_at_from
        split: option.split intro!: keeps_handles_session keeps_handles_bind\<close>)+

fun is_open_call :: "p11_call \<Rightarrow> bool" where
  "is_open_call (COpenSession slot rw ph) = True"
| "is_open_call c = False"

lemma handles_distinct_open:
  assumes "handles_distinct ss" and "\<forall>j < MAX_SESSIONS. se_open (ss ! j) \<longrightarrow> se_handle (ss ! j) < n"
    and "length ss = MAX_SESSIONS" and "n \<noteq> 0"
  shows "handles_distinct (ss[i := \<lparr>se_handle = n, se_slot = slot, se_open = True\<rparr>])"
  unfolding handles_distinct_def
proof (intro conjI allI impI)
  let ?x = "\<lparr>se_handle = n, se_slot = slot, se_open = True\<rparr>"
  fix j assume j: "j < MAX_SESSIONS"
  show "se_handle (ss[i := ?x] ! j) \<noteq> 0" if "se_open (ss[i := ?x] ! j)"
    using that j assms(1,3,4) by (auto simp: nth_update_at handles_distinct_def split: if_splits)
  fix k assume k: "k < MAX_SESSIONS"
    and same: "se_open (ss[i := ?x] ! j) \<and> se_open (ss[i := ?x] ! k) \<and> se_handle (ss[i := ?x] ! j) = se_handle (ss[i := ?x] ! k)"
  show "j = k"
  proof (cases "i = j \<or> i = k")
    case True
    with same j k assms(3) assms(2) [rule_format, OF j] assms(2) [rule_format, OF k] show ?thesis
      by (auto simp: nth_update_at split: if_splits)
  next
    case False
    with same j k assms(1,3) show ?thesis by (simp add: nth_update_at handles_distinct_def)
  qed
qed

lemma handles_upto_step:
  assumes "p11_inv h s" and "handles_upto m s" and "p11_exec env call s = Done (rv, s')" and "m + 1 < 2 ^ 64"
  shows "handles_upto m s' \<or> is_open_call call \<and> handles_upto (m + 1) s'"
proof (cases "is_open_call call")
  case False
  then have "\<nexists>slot rw ph. call = COpenSession slot rw ph" by auto
  from p11_exec_handles [OF assms(1,3) this] assms(2) show ?thesis
    by (auto simp: handles_upto_def handles_distinct_def sessions_from_def)
next
  case True
  then obtain slot rw ph where c: "call = COpenSession slot rw ph" by (cases call) auto
  have len: "length (pm_sessions s) = MAX_SESSIONS" using assms(1) by (simp add: p11_inv_def sessions_ok_def)
  have next': "pm_next_handle s = m + 1" using assms(2,4) by (simp add: handles_upto_def)
  show ?thesis
  proof (cases "s' = s")
    case False
    with assms(3) c obtain i where s': "s' = s\<lparr>pm_sessions := (pm_sessions s)[i := \<lparr>se_handle = m + 1, se_slot = 0, se_open = True\<rparr>],
        pm_next_handle := (m + 2) mod 2 ^ 64\<rparr>"
      by (auto simp: C_OpenSession_def next' split: if_splits option.splits)
    have "handles_upto (m + 1) s'"
      using assms(2) len handles_distinct_open [of "pm_sessions s" "m + 1" i 0] unfolding s' handles_upto_def
      by (auto simp: nth_update_at less_Suc_eq_le intro: le_SucI)
    with True show ?thesis by simp
  qed (use assms(2) in simp)
qed

lemma run_handles:
  assumes "p11_inv h s" and "handles_upto m s" and "run_calls p11_exec cs s = Done (rvs, s')"
    and "m + length (filter (is_open_call \<circ> snd) cs) + 1 < 2 ^ 64"
  shows "\<exists>m'. handles_upto m' s'"
  using assms
proof (induction cs arbitrary: s m rvs)
  case (Cons ec cs)
  obtain e c where ec: "ec = (e, c)" by (cases ec)
  with Cons.prems(3) obtain rv s1 rvs1 where x: "p11_exec e c s = Done (rv, s1)" and r: "run_calls p11_exec cs s1 = Done (rvs1, s')"
    by (auto simp: run_bind_Done)
  note inv = p11_exec_keeps [OF Cons.prems(1) x]
  from handles_upto_step [OF Cons.prems(1,2) x] Cons.prems(4) ec
  consider "handles_upto m s1" | "is_open_call c" "handles_upto (m + 1) s1" by auto
  then show ?case
    by cases (use Cons.IH [OF inv _ r] Cons.prems(4) ec in \<open>auto split: if_splits\<close>)
qed auto

section \<open>Sequences of calls\<close>

text \<open>
  C23: the state of the module. Whatever calls an application makes, in whatever environments, as long as they return:
  there are sixteen sessions; a signing operation is under way
  only in an open session, for an object that exists and with a buffer as long as it says, and is zero otherwise; the
  objects are numbered from one and their data fit; an initialised module has all functions of the bridge and a connected
  client, one that is not has no object and no open session; and no memory that the bridge allocated is left. As long as
  fewer than 2^64 - 1 calls of \<^verbatim>\<open>C_OpenSession\<close> have been made, so that the counter has not wrapped round, the open sessions have different handles,
  none of them 0.
\<close>

theorem p11_invariant:
  assumes "heap_ok h" and "run_calls p11_exec cs (p11_start h) = Done (rvs, s)"
  shows "p11_inv h s \<and>
    (length (filter (is_open_call \<circ> snd) cs) < 2 ^ 64 - 1 \<longrightarrow> handles_distinct (pm_sessions s))"
proof -
  have "handles_upto 0 (p11_start h)"
    by (simp add: handles_upto_def handles_distinct_def p11_start_def session_zero_def)
  from run_handles [OF inv_start [OF assms(1)] this assms(2)] p11.run_keeps [OF inv_start [OF assms(1)] assms(2)]
  show ?thesis by (auto simp: handles_upto_def)
qed

text \<open>
  C21: memory safety. An application that keeps to the rules, namely that the memory it points to is as long as it
  says, that it finalises only an initialised module and signs fewer than 2^63 bytes, with a service whose RSA keys have a
  modulus of at most 512 and an exponent of at most 8 bytes while the module is initialised, and with curves whose names have at most 64 bytes
  when attributes are read, sees every call return: none reads or writes outside an array, calls a function that is not loaded or
  runs for ever. Of OpenSSL only the documented lengths of digests and random bytes are used.
\<close>

theorem p11_safe:
  assumes "heap_ok h" and "calls_ok p11_exec p11_ok cs (p11_start h)"
  shows "\<exists>rvs s. run_calls p11_exec cs (p11_start h) = Done (rvs, s) \<and> length rvs = length cs \<and> p11_inv h s"
  using p11.run_returns [OF inv_start [OF assms(1)] assms(2)] by blast

definition demo_calls :: "((nat, nat, nat) p11_env \<times> p11_call) list" where
  "demo_calls = [(demo_p11_env, CInitialize False), (demo_p11_env, COpenSession 0 False True),
     (demo_p11_env, CFindObjectsInit 1 [\<lparr>at_type = CKA_CLASS, at_value = Some [3], at_len = 1\<rparr>] 1),
     (demo_p11_env, CFindObjects 1 (Some 5) 5 True), (demo_p11_env, CSign 1 [1, 2] None (Some 0)),
     (demo_p11_env, COpenSession 0 False True)]"

lemma demo_calls_ok: "calls_ok p11_exec p11_ok demo_calls s"
  by (simp add: demo_calls_def p11_ok_def demo_p11_env_def demo_ssl_lengths demo_ssl_fits service_fits_def attr_readable_def sig_writable_def
      split: p11_run.split prod.split)

theorem p11_safe_witness:
  "\<exists>rvs s. run_calls p11_exec demo_calls (p11_start demo_heap) = Done (rvs, s) \<and> length rvs = 6 \<and> p11_inv demo_heap s"
proof -
  have "length demo_calls = 6" by (simp add: demo_calls_def)
  with p11_safe [OF demo_heap_ok demo_calls_ok] show ?thesis by auto
qed

theorem p11_invariant_witness:
  "\<exists>rvs s. run_calls p11_exec demo_calls (p11_start demo_heap) = Done (rvs, s) \<and> length rvs = 6 \<and> p11_inv demo_heap s \<and>
     handles_distinct (pm_sessions s)"
proof -
  obtain rvs s where r: "run_calls p11_exec demo_calls (p11_start demo_heap) = Done (rvs, s)" "length rvs = length demo_calls"
    using p11.run_returns [OF inv_start [OF demo_heap_ok] demo_calls_ok] by blast
  from p11_invariant [OF demo_heap_ok r(1)] r show ?thesis by (simp add: demo_calls_def)
qed

end
