(* ===== verification/P11_Sign_Props.thy ===== *)
theory P11_Sign_Props
  imports P11_Props
begin

text \<open>
  Signing with the PKCS\#11 module: what is asked of the service, what the application gets, in one call, in parts and in
  the protocol of two calls that asks for the size first.
\<close>

section \<open>One call\<close>

definition proto_hash :: "evp_md \<Rightarrow> proto_HashAlgorithm" where
  "proto_hash md = (case md of EVP_sha256 \<Rightarrow> HashAlgorithm_SHA256 | EVP_sha384 \<Rightarrow> HashAlgorithm_SHA384 | EVP_sha512 \<Rightarrow> HashAlgorithm_SHA512)"

text \<open>
  The mechanisms of the PKCS\#11 standard that hash, with the type of key they are for, their hash, and whether they pad with PSS; and
  the request of the service that a signature with one asks for.
\<close>

fun hash_mechanism :: "ck_mech \<Rightarrow> (ck_key_type \<times> evp_md \<times> bool) option" where
  "hash_mechanism CKM_SHA256_RSA_PKCS = Some (CKK_RSA, EVP_sha256, False)"
| "hash_mechanism CKM_SHA384_RSA_PKCS = Some (CKK_RSA, EVP_sha384, False)"
| "hash_mechanism CKM_SHA512_RSA_PKCS = Some (CKK_RSA, EVP_sha512, False)"
| "hash_mechanism CKM_SHA256_RSA_PKCS_PSS = Some (CKK_RSA, EVP_sha256, True)"
| "hash_mechanism CKM_SHA384_RSA_PKCS_PSS = Some (CKK_RSA, EVP_sha384, True)"
| "hash_mechanism CKM_SHA512_RSA_PKCS_PSS = Some (CKK_RSA, EVP_sha512, True)"
| "hash_mechanism CKM_ECDSA_SHA256 = Some (CKK_EC, EVP_sha256, False)"
| "hash_mechanism CKM_ECDSA_SHA384 = Some (CKK_EC, EVP_sha384, False)"
| "hash_mechanism CKM_ECDSA_SHA512 = Some (CKK_EC, EVP_sha512, False)"
| "hash_mechanism _ = None"

definition sign_request :: "unicode \<Rightarrow> ksp_object \<Rightarrow> bool \<Rightarrow> evp_md \<Rightarrow> bytes \<Rightarrow> SignHashRequest" where
  "sign_request uc o' pss md d =
     \<lparr>rq_Thumbprint = NormalizeThumbprint uc (c_string (ob_thumbprint o')), rq_Digest = d, rq_HashAlgorithm = proto_hash md,
      rq_RsaPadding = (if pss then RSAPadding_PSS else RSAPadding_PKCS1)\<rparr>"

lemma hash_mechanism_row:
  assumes "hash_mechanism t = Some (ktype, md, pss)"
  shows "\<exists>m. find_mech t = Some m \<and> mech_ok_for_type t ktype \<and> km_md m = Some md \<and> km_pss m = pss"
  using assms by (cases t) (auto simp: find_mech_def ksp_mechs_def mech_ok_for_type_def)

text \<open>The operation that \<^verbatim>\<open>C_SignInit\<close> sets up.\<close>

definition sign_begun :: "nat \<Rightarrow> ksp_mech \<Rightarrow> ck_mechanism \<Rightarrow> ksp_sign" where
  "sign_begun k m mech = sign_zero\<lparr>sn_active := True, sn_obj_index := k, sn_digest_mech := km_digest_mech m, sn_pss := km_pss m,
     sn_md := km_md m,
     sn_hash_alg :=
       (if km_digest_mech m then hash_alg_of_md (km_md m)
        else case mc_pss_hash mech of Some hashAlg \<Rightarrow> if km_pss m then hash_alg_of_pss hashAlg else 0 | None \<Rightarrow> 0)\<rparr>"

lemma object_by_handle_nth:
  assumes "objects_ok objs" and "k < length objs"
  shows "object_by_handle objs (k + 1) = Some k"
  unfolding object_by_handle_def
  using assms by (auto simp: find_Some_iff objects_ok_def intro!: exI [of _ k])

lemma C_SignInit_OK:
  assumes "p11_inv h s" and "pm_initialized s" and "find_session hs (pm_sessions s) = Some i" and "\<not> sn_active (pm_sign s ! i)"
    and "k < length (pm_objects s)" and "find_mech (mc_mechanism mech) = Some m"
    and "mech_ok_for_type (mc_mechanism mech) (ob_ktype (pm_objects s ! k))"
  shows "C_SignInit hs (Some mech) (k + 1) s = Done (CKR_OK, (), s\<lparr>pm_sign := (pm_sign s)[i := sign_begun k m mech]\<rparr>)"
proof -
  have "object_by_handle (pm_objects s) (k + 1) = Some k"
    using assms(1,5) object_by_handle_nth [of "pm_objects s" k] by (simp add: p11_inv_def)
  with assms show ?thesis by (simp add: C_SignInit_def with_session_def sign_begun_def Let_def)
qed

lemma sign_reset_after [simp]: "sign_reset i (s\<lparr>pm_sign := (pm_sign s)[i := st]\<rparr>) = sign_reset i s"
  by (simp add: sign_reset_def)

lemma sign_reset_idle:
  assumes "p11_inv h s" and "i < MAX_SESSIONS" and "\<not> sn_active (pm_sign s ! i)"
  shows "sign_reset i s = s"
proof -
  have "pm_sign s ! i = sign_zero" using assms by (auto simp: p11_inv_def signs_ok_def sign_ok_def)
  then have "(pm_sign s)[i := sign_zero] = pm_sign s" by (metis list_update_id)
  then show ?thesis by (simp add: sign_reset_def)
qed

lemma mech_md: "find_mech t = Some m \<Longrightarrow> km_digest_mech m = (km_md m \<noteq> None)"
  by (auto simp: find_mech_def ksp_mechs_def split: if_splits)

lemma hash_alg_of_md_proto: "HashAlgFromInt (hash_alg_of_md (Some md)) = proto_hash md"
  by (cases md) (simp_all add: HashAlgFromInt_def hash_alg_of_md_def proto_hash_def)

text \<open>
  C18: what a signature is. In an open session with no operation under way, for a key of the token and a mechanism that
  hashes and suits the key: if OpenSSL hashes the data and the service signs the request for this digest, this hash and
  padding under the key's thumbprint, twice and with lengths that the module accepts, then \<^verbatim>\<open>C_SignInit\<close> and \<^verbatim>\<open>C_Sign\<close> return
  \<^verbatim>\<open>CKR_OK\<close>, the buffer holds the second signature of the service, for an RSA key as it is and for an EC key as the two
  numbers in fields of the key's size, the rest of the buffer is untouched, and the module is in the state it was in.
\<close>

theorem C_Sign_is_the_services:
  fixes env :: "('k, 'ts, 'kp) p11_env"
  assumes "p11_inv h s" and "pm_initialized s" and "find_session hs (pm_sessions s) = Some i" and "\<not> sn_active (pm_sign s ! i)"
    and "k < length (pm_objects s)"
    and "hash_mechanism (mc_mechanism mech) = Some (ob_ktype (pm_objects s ! k), md, pss)"
    and "ssl_Digest (pe_ssl env) md data = Some d" and "length d \<le> 64"
    and "\<And>n. pe_alloc env n"
    and "rpc_SignHash (be_rpc (pe_bridge env 0)) (sign_request (be_uc (pe_bridge env 0)) (pm_objects s ! k) pss md d) = Ok r0"
    and "rpc_SignHash (be_rpc (pe_bridge env 1)) (sign_request (be_uc (pe_bridge env 1)) (pm_objects s ! k) pss md d) = Ok r1"
    and "rp_Signature r0 \<noteq> []" and "length (rp_Signature r0) \<le> 1024 * 1024"
    and "length (rp_Signature r1) \<le> length (rp_Signature r0) + 64"
    and "sign_format (pe_ssl env) True (pm_objects s ! k) (rp_Signature r1) = Some sig"
    and "length sig \<le> len" and "len \<le> length mem"
  shows "(\<exists>s1. C_SignInit hs (Some mech) (k + 1) s = Done (CKR_OK, (), s1) \<and>
      C_Sign env hs data (Some mem) (Some len) s1 = Done (CKR_OK, (Some (sig @ drop (length sig) mem), Some (length sig)), s)) \<and>
    (case ob_ktype (pm_objects s ! k) of
       CKK_RSA \<Rightarrow> sig = rp_Signature r1
     | CKK_EC \<Rightarrow> (\<exists>r t r_bytes t_bytes. let field = nat (int32 (ob_key_size (pm_objects s ! k) + 7) div 8) in
         ssl_d2i_ECDSA_SIG (pe_ssl env) (rp_Signature r1) = Some (r, t) \<and> ssl_bn2binpad (pe_ssl env) r field = Some r_bytes \<and>
         ssl_bn2binpad (pe_ssl env) t field = Some t_bytes \<and> sig = r_bytes @ t_bytes))"
proof -
  note ix = inv_session_index [OF assms(1,3)]
  from hash_mechanism_row [OF assms(6)] obtain m where m: "find_mech (mc_mechanism mech) = Some m"
    "mech_ok_for_type (mc_mechanism mech) (ob_ktype (pm_objects s ! k))" "km_md m = Some md" "km_pss m = pss" by blast
  let ?st = "sign_begun k m mech" and ?o = "pm_objects s ! k"
  let ?s1 = "s\<lparr>pm_sign := (pm_sign s)[i := sign_begun k m mech]\<rparr>"
  have dm: "km_digest_mech m" using mech_md [OF m(1)] m(3) by simp
  have st: "pm_sign ?s1 ! i = ?st" using ix(3) by simp
  have f: "sn_active ?st" "sn_obj_index ?st = k" "sn_cached ?st = None" "sn_digest_mech ?st" "sn_md ?st = Some md"
    "sn_pss ?st = pss" "sn_hash_alg ?st = hash_alg_of_md (Some md)"
    using dm m(3,4) by (simp_all add: sign_begun_def sign_zero_def)
  have "two_answers (pe_alloc env 0) (ask (pe_bridge env 0) (ob_thumbprint ?o) d (sn_hash_alg ?st) (if sn_pss ?st then 2 else 1))
      (ask (pe_bridge env 1) (ob_thumbprint ?o) d (sn_hash_alg ?st) (if sn_pss ?st then 2 else 1)) = Inr (rp_Signature r1)"
    using assms(9-14) unfolding f
    by (simp add: SignHashDirect_def Let_def hash_alg_of_md_proto PaddingFromInt_def sign_request_def two_answers_def split: if_splits)
  then have sig: "signature_of env ?st ?o data = Done (Inr sig)"
    using f assms(7,8,9,15) by (simp add: signature_of_def sign_digest_def Let_def)
  from inv_do_sign(1,2) [of h s i] obtain c where c: "pr_global (pm_process ?s1) = Some c"
    using assms(1,2) by (auto simp: p11_inv_def loaded_ok_def)
  have fn: "''sign_hash'' \<in> pm_funcs ?s1" using assms(1,2) by (simp add: p11_inv_def loaded_ok_def bridge_symbols_def)
  have "do_sign env i data (Some mem) (Some len) ?s1 = sign_deliver i sig (Some mem) len ?s1"
    using do_sign_eq [OF c fn, of i env data "Some mem" len] st f sig assms(5) by simp
  moreover have "find_session hs (pm_sessions ?s1) = Some i" "pm_initialized ?s1" using assms(2,3) by simp_all
  ultimately have "C_Sign env hs data (Some mem) (Some len) ?s1 =
      Done (CKR_OK, (Some (sig @ drop (length sig) mem), Some (length sig)), s)"
    using assms(16,17) sign_reset_idle [OF assms(1) ix(1) assms(4)]
    by (simp add: C_Sign_def with_session_def sign_deliver_def)
  moreover have "case ob_ktype ?o of
       CKK_RSA \<Rightarrow> sig = rp_Signature r1
     | CKK_EC \<Rightarrow> (\<exists>r t r_bytes t_bytes. let field = nat (int32 (ob_key_size ?o + 7) div 8) in
         ssl_d2i_ECDSA_SIG (pe_ssl env) (rp_Signature r1) = Some (r, t) \<and> ssl_bn2binpad (pe_ssl env) r field = Some r_bytes \<and>
         ssl_bn2binpad (pe_ssl env) t field = Some t_bytes \<and> sig = r_bytes @ t_bytes)"
    using assms(15)
    by (auto simp: sign_format_def ecdsa_der_to_raw_def Let_def bind_eq_Some_conv split: ck_key_type.split if_splits)
  ultimately show ?thesis using C_SignInit_OK [OF assms(1-5) m(1,2)] by blast
qed

text \<open>An initialised module with one RSA key and one session.\<close>

definition demo_object :: ksp_object where
  "demo_object = \<lparr>ob_handle = 1, ob_ktype = CKK_RSA, ob_key_size = 2048, ob_thumbprint = ''AABB'', ob_label = ''CN=x'', ob_id = [170, 187],
     ob_modulus = [12, 161], ob_pubexp = [1, 0, 1], ob_ec_params = [], ob_ec_params_len = 0, ob_ec_point = []\<rparr>"

definition demo_p11 :: p11_state where
  "demo_p11 = (p11_start demo_heap)\<lparr>pm_bridge := True, pm_funcs := set bridge_symbols, pm_initialized := True,
     pm_objects := [demo_object], pm_sessions := \<lparr>se_handle = 1, se_slot = 0, se_open = True\<rparr> # replicate 15 session_zero,
     pm_next_handle := 2, pm_process := demo_process\<rparr>"

lemma demo_p11_inv: "p11_inv demo_heap demo_p11"
  by (auto simp: p11_inv_def demo_p11_def p11_start_def sessions_ok_def signs_ok_def objects_ok_def loaded_ok_def object_ok_def
      demo_object_def demo_process_def demo_heap_ok MAX_SESSIONS_def session_zero_def nth_Cons split: nat.splits)

lemma demo_p11_simps [simp]:
  "pm_initialized demo_p11" "find_session (Suc 0) (pm_sessions demo_p11) = Some 0" "pm_sign demo_p11 ! 0 = sign_zero"
  "pm_objects demo_p11 = [demo_object]"
  by (simp_all add: demo_p11_def p11_start_def MAX_SESSIONS_def find_session_def upt_rec)

lemma demo_alloc: "pe_alloc demo_p11_env n"
  by (simp add: demo_p11_env_def)

definition demo_mech :: ck_mechanism where
  "demo_mech = \<lparr>mc_mechanism = CKM_SHA256_RSA_PKCS, mc_pss_hash = None\<rparr>"

theorem C_Sign_is_the_services_witness:
  "\<exists>s1. C_SignInit 1 (Some demo_mech) 1 demo_p11 = Done (CKR_OK, (), s1) \<and>
     C_Sign demo_p11_env 1 [5, 5, 5] (Some (replicate 33 0)) (Some 33) s1 = Done (CKR_OK, (Some (replicate 32 3 @ [0]), Some 32), demo_p11)"
proof -
  let ?r = "\<lparr>rp_Signature = replicate 32 3, rp_SignatureAlgorithm = ''ECDSA'', rp_RsaPadding = 1\<rparr> :: SignHashResponse"
  have idle: "\<not> sn_active (pm_sign demo_p11 ! 0)" "0 < length (pm_objects demo_p11)" by simp_all
  have m: "hash_mechanism (mc_mechanism demo_mech) = Some (ob_ktype (pm_objects demo_p11 ! 0), EVP_sha256, False)"
    by (simp add: demo_mech_def demo_object_def)
  have d: "ssl_Digest (pe_ssl demo_p11_env) EVP_sha256 [5, 5, 5] = Some (replicate 32 3)"
    by (simp add: demo_p11_env_def demo_ssl_def)
  have r: "rpc_SignHash (be_rpc (pe_bridge demo_p11_env j)) (sign_request (be_uc (pe_bridge demo_p11_env j)) (pm_objects demo_p11 ! 0) False
      EVP_sha256 (replicate 32 3)) = Ok ?r" for j
    by (simp add: demo_p11_env_def demo_connected_def demo_bridge_env_def demo_rpc_def sign_request_def)
  have f: "sign_format (pe_ssl demo_p11_env) True (pm_objects demo_p11 ! 0) (rp_Signature ?r) = Some (replicate 32 3)"
    by (simp add: sign_format_def demo_object_def)
  have "drop 32 (replicate 33 (0 :: byte)) = [0]" by (simp add: numeral_eq_Suc)
  then show ?thesis
    using C_Sign_is_the_services [OF demo_p11_inv _ _ idle m d _ _ r r _ _ _ f, of 1 33 "replicate 33 0"]
    by (simp add: demo_alloc)
qed

section \<open>In parts\<close>

lemma sign_digest_buf: "sign_digest ssl (st\<lparr>sn_bufcap := cap, sn_buf := buf\<rparr>) o' data = sign_digest ssl st o' data"
  by (simp add: sign_digest_def split: option.split)

lemma signature_of_buf [simp]: "signature_of env (st\<lparr>sn_bufcap := cap, sn_buf := buf\<rparr>) o' data = signature_of env st o' data"
  by (simp add: signature_of_def sign_digest_buf)

lemma C_SignUpdate_appends:
  assumes "p11_inv h s" and "pm_initialized s" and "find_session hs (pm_sessions s) = Some i" and "sn_active (pm_sign s ! i)"
    and "length (sn_buf (pm_sign s ! i)) + length part \<le> 2 ^ 63" and "pe_alloc env 0"
  shows "\<exists>cap. C_SignUpdate env hs part s =
    Done (CKR_OK, (), s\<lparr>pm_sign := (pm_sign s)[i := (pm_sign s ! i)\<lparr>sn_bufcap := cap, sn_buf := sn_buf (pm_sign s ! i) @ part\<rparr>]\<rparr>)"
proof -
  let ?st = "pm_sign s ! i"
  let ?need = "word_of_nat (length (sn_buf ?st)) + word_of_nat (length part) :: 64 word"
  have need: "unat ?need = length (sn_buf ?st) + length part" "unat ?need \<le> 2 ^ 63"
    using append_need [OF assms(5)] assms(5) by auto
  show ?thesis
  proof (cases "sn_bufcap ?st < ?need")
    case True
    let ?first = "if sn_bufcap ?st \<noteq> 0 then sn_bufcap ?st * 2 else 256"
    have "unat (sn_bufcap ?st) < 2 ^ 63" using True need(2) by (simp add: word_less_nat_alt)
    from grow_enough [OF need(2) first_cap_pos [OF this]] obtain c where "grow ?need ?first = Some c" "?need \<le> c" by blast
    with True need(1) assms(2,3,4,6) show ?thesis
      by (auto simp: C_SignUpdate_def with_session_def Let_def word_le_nat_alt)
  next
    case False
    moreover have "?st = ?st\<lparr>sn_bufcap := sn_bufcap ?st\<rparr>" by simp
    ultimately show ?thesis
      using need(1) assms(2,3,4)
      by (intro exI [of _ "sn_bufcap ?st"]) (simp add: C_SignUpdate_def with_session_def Let_def word_less_nat_alt)
  qed
qed

lemma SignUpdate_parts:
  assumes "p11_inv h s" and "pm_initialized s" and "find_session hs (pm_sessions s) = Some i" and "sn_active (pm_sign s ! i)"
    and "length (sn_buf (pm_sign s ! i)) + length (concat parts) \<le> 2 ^ 63" and "pe_alloc env 0"
  shows "\<exists>cap. run_calls p11_exec (map (\<lambda>part. (env, CSignUpdate hs part)) parts) s =
    Done (replicate (length parts) CKR_OK,
      s\<lparr>pm_sign := (pm_sign s)[i := (pm_sign s ! i)\<lparr>sn_bufcap := cap, sn_buf := sn_buf (pm_sign s ! i) @ concat parts\<rparr>]\<rparr>)"
  using assms(1-5)
proof (induction parts arbitrary: s)
  case Nil
  then show ?case by (intro exI [of _ "sn_bufcap (pm_sign s ! i)"]) simp
next
  case (Cons part parts)
  let ?upd = "\<lambda>cap buf. s\<lparr>pm_sign := (pm_sign s)[i := (pm_sign s ! i)\<lparr>sn_bufcap := cap, sn_buf := buf\<rparr>]\<rparr>"
  from C_SignUpdate_appends [OF Cons.prems(1-4) _ assms(6), of part] Cons.prems(5)
  obtain cap where one: "C_SignUpdate env hs part s = Done (CKR_OK, (), ?upd cap (sn_buf (pm_sign s ! i) @ part))" by auto
  let ?s1 = "?upd cap (sn_buf (pm_sign s ! i) @ part)"
  note ix = inv_session_index [OF Cons.prems(1,3)]
  have inv: "p11_inv h ?s1"
    using C_SignUpdate_keeps [OF Cons.prems(1), of env hs part] one by simp
  have "\<exists>cap'. run_calls p11_exec (map (\<lambda>part. (env, CSignUpdate hs part)) parts) ?s1 =
    Done (replicate (length parts) CKR_OK,
      ?s1\<lparr>pm_sign := (pm_sign ?s1)[i := (pm_sign ?s1 ! i)\<lparr>sn_bufcap := cap', sn_buf := sn_buf (pm_sign ?s1 ! i) @ concat parts\<rparr>]\<rparr>)"
    using Cons.prems(2-5) ix(3) by (intro Cons.IH inv) simp_all
  with one ix(3) show ?case by auto
qed

text \<open>
  C25: signing in parts is signing at once. With an operation just begun and memory, the calls of \<^verbatim>\<open>C_SignUpdate\<close> with
  the parts of a message, of at most 2^63 bytes, all return \<^verbatim>\<open>CKR_OK\<close>, and \<^verbatim>\<open>C_SignFinal\<close> then does exactly what \<^verbatim>\<open>C_Sign\<close> with
  the whole message would have done: the same code, the same bytes in the buffer, the same length and the same state.
\<close>

theorem C_SignFinal_is_C_Sign:
  assumes "p11_inv h s" and "pm_initialized s" and "find_session hs (pm_sessions s) = Some i" and "sn_active (pm_sign s ! i)"
    and "sn_buf (pm_sign s ! i) = []" and "sn_cached (pm_sign s ! i) = None"
    and "length (concat parts) \<le> 2 ^ 63" and "pe_alloc env 0"
  shows "\<exists>s1. run_calls p11_exec (map (\<lambda>part. (env, CSignUpdate hs part)) parts) s = Done (replicate (length parts) CKR_OK, s1) \<and>
    C_SignFinal env' hs (Some mem) (Some len) s1 = C_Sign env' hs (concat parts) (Some mem) (Some len) s"
proof -
  from SignUpdate_parts [OF assms(1-4) _ assms(8), of parts] assms(5,7) obtain cap where
    run: "run_calls p11_exec (map (\<lambda>part. (env, CSignUpdate hs part)) parts) s = Done (replicate (length parts) CKR_OK,
      s\<lparr>pm_sign := (pm_sign s)[i := (pm_sign s ! i)\<lparr>sn_bufcap := cap, sn_buf := concat parts\<rparr>]\<rparr>)" by auto
  let ?s1 = "s\<lparr>pm_sign := (pm_sign s)[i := (pm_sign s ! i)\<lparr>sn_bufcap := cap, sn_buf := concat parts\<rparr>]\<rparr>"
  note ix = inv_session_index [OF assms(1,3)]
  note f = inv_do_sign [OF assms(1) ix(1) assms(2,4)]
  from f(1) obtain c where c: "pr_global (pm_process s) = Some c" "pr_global (pm_process ?s1) = Some c" by auto
  have "do_sign env' i (concat parts) (Some mem) (Some len) ?s1 = do_sign env' i (concat parts) (Some mem) (Some len) s"
    using do_sign_eq [OF c(1) f(2) assms(4) f(3), of env' "concat parts" "Some mem" len]
      do_sign_eq [OF c(2), of i env' "concat parts" "Some mem" len] f ix(3) assms(4,6)
    by (cases "signature_of env' (pm_sign s ! i) (pm_objects s ! sn_obj_index (pm_sign s ! i)) (concat parts)")
      (simp_all add: sign_deliver_def split: sum.split)
  then have "C_SignFinal env' hs (Some mem) (Some len) ?s1 = C_Sign env' hs (concat parts) (Some mem) (Some len) s"
    using assms(2,3) ix(3) by (simp add: C_SignFinal_def C_Sign_def with_session_def)
  with run show ?thesis by blast
qed

text \<open>The module of the example after \<^verbatim>\<open>C_SignInit\<close>.\<close>

lemma demo_sign_begun:
  "\<exists>s. C_SignInit 1 (Some demo_mech) 1 demo_p11 = Done (CKR_OK, (), s) \<and> p11_inv demo_heap s \<and> pm_initialized s \<and>
     find_session 1 (pm_sessions s) = Some 0 \<and> sn_active (pm_sign s ! 0) \<and> sn_cached (pm_sign s ! 0) = None \<and>
     sn_buf (pm_sign s ! 0) = [] \<and> signature_of demo_p11_env (pm_sign s ! 0) (pm_objects s ! sn_obj_index (pm_sign s ! 0)) [5, 5, 5] =
       Done (Inr (replicate 32 3))"
proof -
  let ?m = "\<lparr>km_type = CKM_SHA256_RSA_PKCS, km_digest_mech = True, km_md = Some EVP_sha256, km_pss = False\<rparr>"
  have m: "find_mech (mc_mechanism demo_mech) = Some ?m" "mech_ok_for_type (mc_mechanism demo_mech) (ob_ktype (pm_objects demo_p11 ! 0))"
    by (simp_all add: demo_mech_def find_mech_def ksp_mechs_def mech_ok_for_type_def demo_object_def)
  let ?s = "demo_p11\<lparr>pm_sign := (pm_sign demo_p11)[0 := sign_begun 0 ?m demo_mech]\<rparr>"
  have init: "C_SignInit 1 (Some demo_mech) 1 demo_p11 = Done (CKR_OK, (), ?s)"
    using C_SignInit_OK [OF demo_p11_inv _ _ _ _ m, of 1] by simp
  have inv: "p11_inv demo_heap ?s"
    using C_SignInit_keeps [OF demo_p11_inv, of 1 "Some demo_mech" 1] init by simp
  have "length (pm_sign demo_p11) = 16" by (simp add: demo_p11_def p11_start_def MAX_SESSIONS_def)
  then have st: "pm_sign ?s ! 0 = sign_begun 0 ?m demo_mech" by simp
  have "ask demo_connected (ob_thumbprint demo_object) (replicate 32 3) a b = Ok (replicate 32 3)" for a b
    by (simp add: SignHashDirect_def demo_connected_def demo_bridge_env_def demo_rpc_def Let_def)
  then have "signature_of demo_p11_env (sign_begun 0 ?m demo_mech) demo_object [5, 5, 5] = Done (Inr (replicate 32 3))"
    by (simp add: signature_of_def sign_digest_def sign_begun_def sign_zero_def demo_p11_env_def demo_ssl_def two_answers_def
        sign_format_def demo_object_def Let_def)
  then show ?thesis
    using init inv st by (intro exI [of _ ?s]) (simp add: sign_begun_def sign_zero_def)
qed

theorem C_SignFinal_is_C_Sign_witness:
  "\<exists>s1 s2. C_SignInit 1 (Some demo_mech) 1 demo_p11 = Done (CKR_OK, (), s1) \<and>
     run_calls p11_exec [(demo_p11_env, CSignUpdate 1 [5]), (demo_p11_env, CSignUpdate 1 [6, 7])] s1 = Done ([CKR_OK, CKR_OK], s2) \<and>
     C_SignFinal demo_p11_env 1 (Some (replicate 33 0)) (Some 33) s2 = C_Sign demo_p11_env 1 [5, 6, 7] (Some (replicate 33 0)) (Some 33) s1"
proof -
  obtain s where s: "C_SignInit 1 (Some demo_mech) 1 demo_p11 = Done (CKR_OK, (), s)" "p11_inv demo_heap s" "pm_initialized s"
    "find_session 1 (pm_sessions s) = Some 0" "sn_active (pm_sign s ! 0)" "sn_buf (pm_sign s ! 0) = []" "sn_cached (pm_sign s ! 0) = None"
    using demo_sign_begun by blast
  have "length (concat [[5], [6, 7 :: byte]]) \<le> 2 ^ 63" by simp
  from C_SignFinal_is_C_Sign [OF s(2-7) this demo_alloc, of demo_p11_env "replicate 33 0" 33]
  have "\<exists>s2. run_calls p11_exec [(demo_p11_env, CSignUpdate 1 [5]), (demo_p11_env, CSignUpdate 1 [6, 7])] s = Done ([CKR_OK, CKR_OK], s2) \<and>
     C_SignFinal demo_p11_env 1 (Some (replicate 33 0)) (Some 33) s2 = C_Sign demo_p11_env 1 [5, 6, 7] (Some (replicate 33 0)) (Some 33) s"
    by (simp del: run_calls.simps p11_exec.simps)
  with s(1) show ?thesis by blast
qed

section \<open>The size first\<close>

lemma sign_digest_rv: "sign_digest ssl st o' data \<noteq> Done (Inl CKR_OK)"
  by (simp add: sign_digest_def split: option.split)

lemma two_answers_rv: "two_answers memory a b \<noteq> Inl CKR_OK"
  by (simp add: two_answers_def split: sum.split)

lemma signature_of_rv: "signature_of env st o' data \<noteq> Done (Inl CKR_OK)"
proof
  assume "signature_of env st o' data = Done (Inl CKR_OK)"
  then obtain d where d: "sign_digest (pe_ssl env) st o' data = Done d" by (auto simp: signature_of_def run_bind_Done)
  with \<open>signature_of env st o' data = Done (Inl CKR_OK)\<close> sign_digest_rv [of "pe_ssl env" st o' data] show False
    by (cases d) (auto simp: signature_of_def Let_def two_answers_rv [symmetric] two_answers_rv split: sum.splits option.splits prod.splits)
qed

text \<open>
  The protocol of two calls. After a call that asked for the size only and returned \<^verbatim>\<open>CKR_OK\<close>, the signature exists:
  it is the one for the data of that call, with the reported length. The next call with a buffer hands out this signature
  without asking the service again and whatever data it is given, and ends the operation. A buffer that is too short ends
  it as well: the code is \<^verbatim>\<open>CKR_BUFFER_TOO_SMALL\<close>, the signature is lost, and a further call finds no operation, where the
  standard keeps it active.
\<close>

lemma C_Sign_two_calls:
  fixes env env' :: "('k, 'ts, 'kp) p11_env"
  assumes "p11_inv h s" and "pm_initialized s" and "find_session hs (pm_sessions s) = Some i" and "sn_active (pm_sign s ! i)"
    and "sn_cached (pm_sign s ! i) = None" and "C_Sign env hs data None (Some l) s = Done (CKR_OK, (None, Some n), s1)"
  shows "\<exists>sig. length sig = n \<and>
    signature_of env (pm_sign s ! i) (pm_objects s ! sn_obj_index (pm_sign s ! i)) data = Done (Inr sig) \<and>
    C_Sign env' hs data' (Some mem) (Some len) s1 =
      (if len < n then Done (CKR_BUFFER_TOO_SMALL, (Some mem, Some n), sign_reset i s)
       else if length mem < n then Crash
       else Done (CKR_OK, (Some (sig @ drop n mem), Some n), sign_reset i s)) \<and>
    C_Sign env' hs data' sig' len' (sign_reset i s) = Done (CKR_OPERATION_NOT_INITIALIZED, (sig', len'), sign_reset i s)"
proof -
  note ix = inv_session_index [OF assms(1,3)]
  note f = inv_do_sign [OF assms(1) ix(1) assms(2,4)]
  from f(1) obtain c where c: "pr_global (pm_process s) = Some c" by blast
  let ?st = "pm_sign s ! i"
  let ?s1 = "\<lambda>sig. s\<lparr>pm_sign := (pm_sign s)[i := ?st\<lparr>sn_cached := Some sig\<rparr>]\<rparr>"
  from assms(6) have "do_sign env i data None (Some l) s = Done (CKR_OK, (None, Some n), s1)"
    using assms(2,3) by (simp add: C_Sign_def with_session_def)
  then obtain sig where sig: "signature_of env ?st (pm_objects s ! sn_obj_index ?st) data = Done (Inr sig)" "length sig = n" "s1 = ?s1 sig"
    unfolding do_sign_eq [OF c f(2) assms(4) f(3)] assms(5) option.case run_bind_Done
  proof (elim exE conjE)
    fix r assume "signature_of env ?st (pm_objects s ! sn_obj_index ?st) data = Done r"
      "(case r of Inl rv \<Rightarrow> Done (rv, (None, Some l), sign_reset i s) | Inr sig \<Rightarrow> sign_deliver i sig None l s) =
        Done (CKR_OK, (None, Some n), s1)"
    with that signature_of_rv show thesis by (cases r) (auto simp: sign_deliver_def)
  qed
  have "do_sign env' i data' (Some mem) (Some len) (?s1 sig) = sign_deliver i sig (Some mem) len (?s1 sig)"
    using do_sign_eq [of "?s1 sig" c i env' data' "Some mem" len] c f assms(4) ix(3) by simp
  moreover have "do_sign env' i data' sig' len' (sign_reset i s) =
      Done (CKR_OPERATION_NOT_INITIALIZED, (sig', len'), sign_reset i s)"
    using ix(3) by (simp add: do_sign_def Let_def sign_reset_def)
  moreover have "pm_initialized (sign_reset i s)" "pm_sessions (sign_reset i s) = pm_sessions s"
    using assms(2) by (simp_all add: sign_reset_def)
  ultimately show ?thesis
    using sig assms(2,3)
    by (intro exI [of _ sig]) (simp add: C_Sign_def with_session_def sign_deliver_def)
qed

lemma C_Sign_two_calls_witness:
  "\<exists>s s1. C_SignInit 1 (Some demo_mech) 1 demo_p11 = Done (CKR_OK, (), s) \<and>
     C_Sign demo_p11_env 1 [5, 5, 5] None (Some 0) s = Done (CKR_OK, (None, Some 32), s1) \<and>
     C_Sign demo_p11_env 1 [] (Some (replicate 32 0)) (Some 32) s1 = Done (CKR_OK, (Some (replicate 32 3), Some 32), sign_reset 0 s)"
proof -
  obtain s where s: "C_SignInit 1 (Some demo_mech) 1 demo_p11 = Done (CKR_OK, (), s)" "p11_inv demo_heap s" "pm_initialized s"
    "find_session 1 (pm_sessions s) = Some 0" "sn_active (pm_sign s ! 0)" "sn_cached (pm_sign s ! 0) = None"
    "signature_of demo_p11_env (pm_sign s ! 0) (pm_objects s ! sn_obj_index (pm_sign s ! 0)) [5, 5, 5] = Done (Inr (replicate 32 3))"
    using demo_sign_begun by blast
  note f = inv_do_sign [OF s(2) inv_session_index(1) [OF s(2,4)] s(3,5)]
  from f(1) obtain c where c: "pr_global (pm_process s) = Some c" by blast
  have "\<exists>s1. C_Sign demo_p11_env 1 [5, 5, 5] None (Some 0) s = Done (CKR_OK, (None, Some 32), s1)"
    using s do_sign_eq [OF c f(2) s(5) f(3), of demo_p11_env "[5, 5, 5]" None 0] by (simp add: C_Sign_def with_session_def sign_deliver_def)
  then obtain s1 where one: "C_Sign demo_p11_env 1 [5, 5, 5] None (Some 0) s = Done (CKR_OK, (None, Some 32), s1)" by blast
  from C_Sign_two_calls [OF s(2-6) one, of demo_p11_env "[]" "replicate 32 0" 32] s(7)
  have "C_Sign demo_p11_env 1 [] (Some (replicate 32 0)) (Some 32) s1 = Done (CKR_OK, (Some (replicate 32 3), Some 32), sign_reset 0 s)"
    by auto
  with s(1) one show ?thesis by blast
qed

section \<open>The forms of a digest\<close>

text \<open>
  The header of a DigestInfo in PKCS\#1 for a hash with the given object identifier and length: the sequence is as long as the
  rest of the header, 17 bytes, and the digest.
\<close>

definition pkcs1_header :: "nat \<Rightarrow> byte \<Rightarrow> bytes" where
  "pkcs1_header len oid = [0x30, word_of_nat (17 + len), 0x30, 0x0d, 0x06, 0x09, 0x60, 0x86, 0x48, 0x01, 0x65, 0x03, 0x04, 0x02, oid,
     0x05, 0x00, 0x04, word_of_nat len]"

text \<open>
  C32: which DigestInfo the raw mechanism \<^verbatim>\<open>CKM_RSA_PKCS\<close> takes. That of SHA-256 is unpacked to its digest and hash. Those of
  SHA-384 and SHA-512 are refused with \<^verbatim>\<open>CKR_DATA_INVALID\<close>: the prefixes of the module have the length of the sequence for
  SHA-256. A bare digest of 32, 48 or 64 bytes is taken as it is.
\<close>

theorem sign_digest_raw_rsa:
  assumes "\<not> sn_digest_mech st" and "\<not> sn_pss st" and "ob_ktype o' = CKK_RSA"
    and "length d256 = 32" and "length d384 = 48" and "length d512 = 64"
  shows "sign_digest ssl st o' (pkcs1_header 32 1 @ d256) = Done (Inr (d256, 1)) \<and>
    sign_digest ssl st o' (pkcs1_header 48 2 @ d384) = Done (Inl CKR_DATA_INVALID) \<and>
    sign_digest ssl st o' (pkcs1_header 64 3 @ d512) = Done (Inl CKR_DATA_INVALID) \<and>
    sign_digest ssl st o' d256 = Done (Inr (d256, 1)) \<and> sign_digest ssl st o' d384 = Done (Inr (d384, 2)) \<and>
    sign_digest ssl st o' d512 = Done (Inr (d512, 3))"
  using assms
  by (simp add: sign_digest_def parse_digest_info_def pkcs1_header_def di_table_def DI_PREFIX_SHA256_def DI_PREFIX_SHA384_def
      DI_PREFIX_SHA512_def hash_alg_from_len_def)

theorem sign_digest_raw_rsa_witness:
  "sign_digest demo_ssl sign_zero demo_object (pkcs1_header 48 2 @ replicate 48 9) = Done (Inl CKR_DATA_INVALID)"
  using sign_digest_raw_rsa [of sign_zero demo_object "replicate 32 9" "replicate 48 9" "replicate 64 9" demo_ssl]
  by (simp add: sign_zero_def demo_object_def)

end
