(* ===== verification/P11_Object_Props.thy ===== *)
theory P11_Object_Props
  imports P11_Sign_Props
begin

text \<open>
  Searching for the objects of the PKCS\#11 module and reading their attributes.
\<close>

section \<open>Searching\<close>

text \<open>The attributes that can be searched for, with their values, and what it means that an object has one.\<close>

definition searchable :: "ck_header \<Rightarrow> ksp_object \<Rightarrow> ck_attr \<Rightarrow> bytes option" where
  "searchable hdr o' t =
     (if t = CKA_CLASS then Some (hd_CKO_PRIVATE_KEY hdr)
      else if t = CKA_KEY_TYPE then Some (hd_CKK hdr (ob_ktype o'))
      else if t = CKA_LABEL then Some (bytes_of_string (ob_label o'))
      else if t = CKA_ID then Some (ob_id o')
      else None)"

definition has_attr :: "ck_header \<Rightarrow> ksp_object \<Rightarrow> ck_attribute \<Rightarrow> bool" where
  "has_attr hdr o' a \<longleftrightarrow> searchable hdr o' (at_type a) = Some (take (at_len a) (case at_value a of None \<Rightarrow> [] | Some mem \<Rightarrow> mem))"

lemma attr_matches_eq:
  assumes "attr_readable a"
  shows "attr_matches hdr o' a = Done (has_attr hdr o' a)"
proof -
  have same: "(if at_len a \<noteq> length v then Done False else run_bind (read_value a (length v)) (\<lambda>x. Done (x = v))) =
      Done (Some v = Some (take (at_len a) (case at_value a of None \<Rightarrow> [] | Some mem \<Rightarrow> mem)))" for v
    using assms by (auto simp: attr_readable_def read_value_def Let_def)
  show ?thesis unfolding attr_matches_def Let_def has_attr_def searchable_def by (simp add: same [simplified])
qed

lemma all_match_eq:
  "n \<le> length tmpl \<Longrightarrow> list_all attr_readable tmpl \<Longrightarrow> all_match hdr o' tmpl n = Done (list_all (has_attr hdr o') (take n tmpl))"
  by (induction hdr o' tmpl n rule: all_match.induct) (auto simp: attr_matches_eq)

lemma matching_handles_eq:
  assumes "objects_ok objs" and "n \<le> length tmpl" and "list_all attr_readable tmpl" and "set os \<subseteq> set objs"
  shows "matching_handles hdr objs tmpl n os = Done (map ob_handle (filter (\<lambda>o'. list_all (has_attr hdr o') (take n tmpl)) os))"
  using assms(4)
proof (induction os)
  case (Cons o' os)
  then obtain k where k: "k < length objs" "objs ! k = o'" by (auto simp: in_set_conv_nth)
  then have "object_by_handle objs (ob_handle o') = Some k"
    using object_by_handle_nth [OF assms(1) k(1)] assms(1) by (auto simp: objects_ok_def)
  with k have "object_matches hdr objs (ob_handle o') tmpl n = Done (list_all (has_attr hdr o') (take n tmpl))"
    by (simp add: object_matches_def all_match_eq assms(2,3))
  with Cons show ?case by simp
qed simp

text \<open>Asking for the results in batches of the given sizes, each with room for its batch.\<close>

fun find_batches :: "nat \<Rightarrow> nat list \<Rightarrow> p11_state \<Rightarrow> (nat list list \<times> p11_state) p11_run" where
  "find_batches hs [] s = Done ([], s)"
| "find_batches hs (n # ns) s =
     run_bind (C_FindObjects hs (Some n) n True s) (\<lambda>(rv, (l, _), s).
     run_bind (find_batches hs ns s) (\<lambda>(ls, s). Done (l # ls, s)))"

lemma find_batches_eq:
  assumes "pm_initialized s" and "find_session hs (pm_sessions s) = Some i" and "pm_find_active s"
  shows "\<exists>ls pos. find_batches hs ns s = Done (ls, s\<lparr>pm_find_pos := pos\<rparr>) \<and>
    concat ls = take (sum_list ns) (drop (pm_find_pos s) (pm_find_handles s)) \<and> list_all2 (\<lambda>l n. length l \<le> n) ls ns"
  using assms
proof (induction ns arbitrary: s)
  case Nil
  then show ?case by (intro exI [of _ "[]"] exI [of _ "pm_find_pos s"]) simp
next
  case (Cons n ns)
  let ?l = "take n (drop (pm_find_pos s) (pm_find_handles s))"
  let ?s = "s\<lparr>pm_find_pos := pm_find_pos s + length ?l\<rparr>"
  have one: "C_FindObjects hs (Some n) n True s = Done (CKR_OK, (?l, Some (length ?l)), ?s)"
    using Cons.prems by (simp add: C_FindObjects_def with_session_def Let_def)
  obtain ls pos where rest: "find_batches hs ns ?s = Done (ls, ?s\<lparr>pm_find_pos := pos\<rparr>)"
    "concat ls = take (sum_list ns) (drop (pm_find_pos ?s) (pm_find_handles ?s))" "list_all2 (\<lambda>l n. length l \<le> n) ls ns"
    using Cons.IH [of ?s] Cons.prems by auto
  have "drop (pm_find_pos s + length ?l) (pm_find_handles s) = drop n (drop (pm_find_pos s) (pm_find_handles s))"
    by (cases "n \<le> length (pm_find_handles s) - pm_find_pos s") (simp_all add: min_def add.commute)
  with rest(2) have "?l @ concat ls = take (n + sum_list ns) (drop (pm_find_pos s) (pm_find_handles s))"
    by (simp add: take_add)
  with one rest(1,3) show ?case by (intro exI [of _ "?l # ls"] exI [of _ pos]) simp
qed

text \<open>
  C26: a search finds every match once. With no search under way, a template that can be read and memory, \<^verbatim>\<open>C_FindObjectsInit\<close>
  succeeds, and calls of \<^verbatim>\<open>C_FindObjects\<close> for any numbers of handles return, one after the other, the handles of the objects
  that have all attributes of the template, each once and in the order of the objects, never more than asked for, and all of
  them when enough are asked for.
\<close>

theorem C_FindObjects_complete:
  assumes "p11_inv h s" and "pm_initialized s" and "find_session hs (pm_sessions s) = Some i" and "\<not> pm_find_active s"
    and "n \<le> length tmpl" and "list_all attr_readable tmpl" and "pe_alloc env 0"
  shows "\<exists>s1 ls s2. C_FindObjectsInit env hs tmpl n s = Done (CKR_OK, (), s1) \<and> find_batches hs ns s1 = Done (ls, s2) \<and>
    concat ls = take (sum_list ns)
      (map ob_handle (filter (\<lambda>o'. list_all (has_attr (pe_hdr env) o') (take n tmpl)) (pm_objects s))) \<and>
    list_all2 (\<lambda>l n. length l \<le> n) ls ns"
proof -
  let ?hs = "map ob_handle (filter (\<lambda>o'. list_all (has_attr (pe_hdr env) o') (take n tmpl)) (pm_objects s))"
  let ?s1 = "s\<lparr>pm_find_handles := ?hs, pm_find_pos := 0, pm_find_active := True\<rparr>"
  have "objects_ok (pm_objects s)" using assms(1) by (simp add: p11_inv_def)
  then have "C_FindObjectsInit env hs tmpl n s = Done (CKR_OK, (), ?s1)"
    using assms(2-4,7) by (auto simp: C_FindObjectsInit_def with_session_def Let_def matching_handles_eq assms(5,6))
  moreover obtain ls pos where "find_batches hs ns ?s1 = Done (ls, ?s1\<lparr>pm_find_pos := pos\<rparr>)" "concat ls = take (sum_list ns) ?hs"
    "list_all2 (\<lambda>l n. length l \<le> n) ls ns"
    using find_batches_eq [of ?s1 hs i ns] assms(2,3) by auto
  ultimately show ?thesis by blast
qed

theorem C_FindObjects_complete_witness:
  "\<exists>s1 ls s2. C_FindObjectsInit demo_p11_env 1 [\<lparr>at_type = CKA_KEY_TYPE, at_value = Some [0], at_len = 1\<rparr>] 1 demo_p11 = Done (CKR_OK, (), s1) \<and>
     find_batches 1 [0, 2, 1] s1 = Done (ls, s2) \<and> concat ls = [1]"
proof -
  have i: "find_session 1 (pm_sessions demo_p11) = Some 0" by simp
  have f: "\<not> pm_find_active demo_p11" by (simp add: demo_p11_def p11_start_def)
  have r: "list_all attr_readable [\<lparr>at_type = CKA_KEY_TYPE, at_value = Some [0], at_len = 1\<rparr>]" by (simp add: attr_readable_def)
  have has: "has_attr (pe_hdr demo_p11_env) demo_object \<lparr>at_type = CKA_KEY_TYPE, at_value = Some [0], at_len = Suc 0\<rparr>"
    "ob_handle demo_object = 1"
    by (simp_all add: has_attr_def searchable_def demo_p11_env_def demo_hdr_def demo_object_def)
  from C_FindObjects_complete [OF demo_p11_inv demo_p11_simps(1) i f _ r demo_alloc, of 1 "[0, 2, 1]"] show ?thesis
    by (auto simp: has simp del: find_batches.simps)
qed

section \<open>A search that is never ended\<close>

text \<open>A result with a search under way, if there is a result.\<close>

definition searching :: "'a p11_ret \<Rightarrow> bool" where
  "searching r \<longleftrightarrow> (\<forall>rv out s. r = Done (rv, out, s) \<longrightarrow> pm_find_active s)"

lemma searching_simps [simp]: "searching (Done (rv, out, s)) \<longleftrightarrow> pm_find_active s" "searching Crash" "searching Hang"
  by (auto simp: searching_def)

lemma searching_bind: "(\<And>x. r = Done x \<Longrightarrow> searching (f x)) \<Longrightarrow> searching (run_bind r f)"
  by (cases r) auto

lemma searching_effect: "searching r \<Longrightarrow> effect r = Done (rv, s) \<Longrightarrow> pm_find_active s"
  by (auto simp: searching_def effect_def run_bind_Done)

lemma searching_with_session:
  assumes "pm_find_active s" and "\<And>i. pm_initialized s \<Longrightarrow> find_session hs (pm_sessions s) = Some i \<Longrightarrow> searching (k i)"
  shows "searching (with_session hs out k s)"
  by (rule with_session_elim [where P = searching]) (simp_all add: assms)

lemma searching_deliver: "pm_find_active s \<Longrightarrow> searching (sign_deliver i sig mem len s)"
  by (auto simp: sign_deliver_def sign_reset_def split: option.split)

lemma searching_do_sign: "pm_find_active s \<Longrightarrow> searching (do_sign env i data sig len s)"
  unfolding do_sign_def Let_def
  by (auto intro!: searching_bind searching_deliver simp: sign_reset_def split: option.split sum.split)

lemma load_objects_find: "load_objects env n i s = Done s' \<Longrightarrow> pm_find_active s' = pm_find_active s"
proof (induction n arbitrary: i s)
  case (Suc n)
  from Suc.prems show ?case
    by (auto simp: Let_def run_bind_Done split: cgo.splits option.splits if_splits dest!: Suc.IH)
qed simp

lemma bridge_load_find: "bridge_load env s = (s', ok) \<Longrightarrow> pm_find_active s' = pm_find_active s"
  by (drule bridge_load_keeps) auto

lemma C_Initialize_find: "C_Initialize env reserved s = Done (rv, s') \<Longrightarrow> pm_find_active s' = pm_find_active s"
  by (auto simp: C_Initialize_def Let_def run_bind_Done init_done_def split: if_splits prod.splits bool.splits
      dest!: bridge_load_find load_objects_find)

lemma closed_find: "pm_find_active (fold (\<lambda>i s. if se_open (pm_sessions s ! i) then close_at i s else s) is s) = pm_find_active s"
  by (induction "is" arbitrary: s) (auto simp: close_at_def sign_reset_def Let_def)

lemma p11_exec_searching:
  assumes "pm_find_active s" and "p11_exec env call s = Done (rv, s')" and "\<And>hs. call \<noteq> CFindObjectsFinal hs"
  shows "pm_find_active s'"
proof (cases call)
  case (CInitialize reserved)
  with assms show ?thesis by (auto dest: C_Initialize_find)
next
  case (CFinalize reserved)
  with assms show ?thesis by (auto simp: C_Finalize_def Let_def split: if_splits)
next
  case (CGetAttributeValue hs obj tmpl n)
  have "searching (C_GetAttributeValue (pe_hdr env) hs obj tmpl n s)"
    unfolding C_GetAttributeValue_def
    by (rule searching_with_session) (auto simp: assms(1) split: option.split intro!: searching_bind)
  with CGetAttributeValue assms(2) show ?thesis by (simp add: searching_effect)
next
  case (CSign hs data sig len)
  have "searching (C_Sign env hs data sig len s)"
    unfolding C_Sign_def by (rule searching_with_session) (simp_all add: assms(1) searching_do_sign)
  with CSign assms(2) show ?thesis by (simp add: searching_effect)
next
  case (CSignFinal hs sig len)
  have "searching (C_SignFinal env hs sig len s)"
    unfolding C_SignFinal_def by (rule searching_with_session) (simp_all add: assms(1) searching_do_sign)
  with CSignFinal assms(2) show ?thesis by (simp add: searching_effect)
qed (use assms in \<open>auto simp: C_GetInfo_def C_GetSlotList_def C_GetSlotInfo_def C_GetTokenInfo_def C_GetMechanismList_def
    C_GetMechanismInfo_def C_GetSessionInfo_def C_Login_def C_Logout_def C_GetObjectSize_def C_OpenSession_def
    C_CloseSession_def C_CloseAllSessions_def C_FindObjects_def C_FindObjectsInit_def C_SignInit_def C_SignUpdate_def
    C_GenerateRandom_def Let_def with_session_def closed_find close_at_def sign_reset_def effect_def run_bind_Done
    split: option.splits if_splits\<close>)

text \<open>
  Only \<^verbatim>\<open>C_FindObjectsFinal\<close> ends a search. There is one search for the whole module. While one is under way, whatever
  other calls are made by whatever session, closing the session that began it, finalising the module and initialising it
  again among them, it stays under way, and every \<^verbatim>\<open>C_FindObjectsInit\<close> in an open session returns \<^verbatim>\<open>CKR_OPERATION_ACTIVE\<close>.
\<close>

lemma search_survives:
  fixes cs :: "(('k, 'ts, 'kp) p11_env \<times> p11_call) list"
  assumes "pm_find_active s" and "run_calls p11_exec cs s = Done (rvs, s')"
    and "list_all (\<lambda>(env, call). \<forall>hs. call \<noteq> CFindObjectsFinal hs) cs"
    and "pm_initialized s'" and "find_session hs (pm_sessions s') = Some i"
  shows "C_FindObjectsInit env hs tmpl n s' = Done (CKR_OPERATION_ACTIVE, (), s')"
proof -
  have "pm_find_active s'"
    using assms(1-3)
  proof (induction cs arbitrary: s rvs)
    case (Cons ec cs)
    obtain e c where ec: "ec = (e, c)" by (cases ec)
    with Cons.prems obtain rv s1 rvs' where "p11_exec e c s = Done (rv, s1)" "run_calls p11_exec cs s1 = Done (rvs', s')"
      by (auto simp: run_bind_Done)
    with Cons ec p11_exec_searching show ?case by fastforce
  qed simp
  with assms(4,5) show ?thesis by (simp add: C_FindObjectsInit_def with_session_def)
qed

lemma search_survives_witness:
  "\<exists>rvs s. run_calls p11_exec [(demo_p11_env, CCloseSession 1), (demo_p11_env, COpenSession 0 False True)]
       (demo_p11\<lparr>pm_find_active := True\<rparr>) = Done (rvs, s) \<and>
     C_FindObjectsInit demo_p11_env 2 [] 0 s = Done (CKR_OPERATION_ACTIVE, (), s)"
proof -
  let ?cs = "[(demo_p11_env, CCloseSession 1), (demo_p11_env, COpenSession 0 False True)]"
  have "\<exists>rvs s. run_calls p11_exec ?cs (demo_p11\<lparr>pm_find_active := True\<rparr>) = Done (rvs, s) \<and> pm_initialized s \<and>
      find_session 2 (pm_sessions s) = Some 0"
    by (simp add: C_CloseSession_def with_session_def C_OpenSession_def close_at_def sign_reset_def Let_def)
      (simp add: demo_p11_def p11_start_def MAX_SESSIONS_def find_session_def upt_rec)
  then obtain rvs s where s: "run_calls p11_exec ?cs (demo_p11\<lparr>pm_find_active := True\<rparr>) = Done (rvs, s)" "pm_initialized s"
      "find_session 2 (pm_sessions s) = Some 0" by blast
  from search_survives [OF _ s(1) _ s(2,3)] s(1) show ?thesis by (auto simp del: run_calls.simps)
qed

section \<open>Attributes\<close>

text \<open>
  The attributes of the PKCS\#11 standard that hold a part of a private key: of an RSA key its private exponent, its primes and
  what is derived of them, of an elliptic key its value.
\<close>

fun private_part :: "ck_attr \<Rightarrow> bool" where
  "private_part CKA_PRIVATE_EXPONENT = True"
| "private_part CKA_PRIME_1 = True"
| "private_part CKA_PRIME_2 = True"
| "private_part CKA_EXPONENT_1 = True"
| "private_part CKA_EXPONENT_2 = True"
| "private_part CKA_COEFFICIENT = True"
| "private_part CKA_VALUE = True"
| "private_part _ = False"

text \<open>
  What is public of an object: that it is a private key of its type on the token, which signs and verifies and cannot be taken out, and the public
  numbers.
\<close>

fun object_attribute :: "ck_header \<Rightarrow> ksp_object \<Rightarrow> ck_attr \<Rightarrow> bytes option" where
  "object_attribute hdr o' CKA_CLASS = Some (hd_CKO_PRIVATE_KEY hdr)"
| "object_attribute hdr o' CKA_KEY_TYPE = Some (hd_CKK hdr (ob_ktype o'))"
| "object_attribute hdr o' CKA_ID = Some (ob_id o')"
| "object_attribute hdr o' CKA_LABEL = Some (bytes_of_string (ob_label o'))"
| "object_attribute hdr o' CKA_TOKEN = Some (hd_CK_BBOOL hdr True)"
| "object_attribute hdr o' CKA_PRIVATE = Some (hd_CK_BBOOL hdr False)"
| "object_attribute hdr o' CKA_MODIFIABLE = Some (hd_CK_BBOOL hdr False)"
| "object_attribute hdr o' CKA_COPYABLE = Some (hd_CK_BBOOL hdr True)"
| "object_attribute hdr o' CKA_DESTROYABLE = Some (hd_CK_BBOOL hdr True)"
| "object_attribute hdr o' CKA_LOCAL = Some (hd_CK_BBOOL hdr False)"
| "object_attribute hdr o' CKA_SIGN = Some (hd_CK_BBOOL hdr True)"
| "object_attribute hdr o' CKA_VERIFY = Some (hd_CK_BBOOL hdr True)"
| "object_attribute hdr o' CKA_ENCRYPT = Some (hd_CK_BBOOL hdr False)"
| "object_attribute hdr o' CKA_DECRYPT = Some (hd_CK_BBOOL hdr False)"
| "object_attribute hdr o' CKA_WRAP = Some (hd_CK_BBOOL hdr False)"
| "object_attribute hdr o' CKA_UNWRAP = Some (hd_CK_BBOOL hdr False)"
| "object_attribute hdr o' CKA_SENSITIVE = Some (hd_CK_BBOOL hdr True)"
| "object_attribute hdr o' CKA_EXTRACTABLE = Some (hd_CK_BBOOL hdr False)"
| "object_attribute hdr o' CKA_ALWAYS_AUTHENTICATE = Some (hd_CK_BBOOL hdr False)"
| "object_attribute hdr o' CKA_NEVER_EXTRACTABLE = Some (hd_CK_BBOOL hdr True)"
| "object_attribute hdr o' CKA_MODULUS = Some (ob_modulus o')"
| "object_attribute hdr o' CKA_PUBLIC_EXPONENT = Some (ob_pubexp o')"
| "object_attribute hdr o' CKA_EC_PARAMS = Some (ob_ec_params o')"
| "object_attribute hdr o' CKA_EC_POINT = Some (ob_ec_point o')"
| "object_attribute hdr o' _ = None"

text \<open>The name of a curve that did not fit its array.\<close>

definition long_curve :: "ksp_object \<Rightarrow> ck_attr \<Rightarrow> bool" where
  "long_curve o' t \<longleftrightarrow> t = CKA_EC_PARAMS \<and> 64 < ob_ec_params_len o'"

lemma attr_size_eq:
  assumes "objects_ok objs" and "object_by_handle objs h = Some i" and "\<not> long_curve (objs ! i) t"
  shows "attr_size hdr objs h t =
    (case object_attribute hdr (objs ! i) t of None \<Rightarrow> 0 | Some v \<Rightarrow> length v, private_part t)"
proof -
  have "object_ok (objs ! i)" using assms(1) object_by_handle_Some [OF assms(2)] by (auto simp: objects_ok_def)
  with assms(2,3) show ?thesis
    by (cases t) (simp_all add: attr_size_def bool_attrs_def bool_attr_def secret_attrs_def long_curve_def object_ok_def bytes_of_string_def Let_def)
qed

lemma attr_value_eq:
  assumes "\<not> long_curve o' t"
  shows "attr_value hdr o' t = map_option Done (object_attribute hdr o' t)"
  using assms by (cases t) (simp_all add: attr_value_def bool_attrs_def bool_attr_def long_curve_def)

lemma attr_long_curve:
  assumes "object_by_handle objs h = Some i" and "long_curve (objs ! i) t"
  shows "attr_size hdr objs h t = (ob_ec_params_len (objs ! i), False)" and "attr_value hdr (objs ! i) t = Some Crash"
  using assms by (simp_all add: attr_size_def attr_value_def long_curve_def bool_attrs_def)

text \<open>
  What becomes of one entry of a template. A private part, and an attribute that the object does not have, is not written and its length becomes
  unavailable; of the others the length is stored, and the value where there is room for it. The name of a curve that did not fit is
  never written.
\<close>

definition entry_ok :: "ck_header \<Rightarrow> ksp_object \<Rightarrow> ck_attribute \<Rightarrow> ck_attribute \<Rightarrow> bool" where
  "entry_ok hdr o' a a' \<longleftrightarrow> at_type a' = at_type a \<and>
     (if long_curve o' (at_type a) then at_value a' = at_value a
      else case object_attribute hdr o' (at_type a) of
             None \<Rightarrow> at_value a' = at_value a \<and> at_len a' = hd_UNAVAILABLE hdr
           | Some v \<Rightarrow>
               if v = [] then at_value a' = at_value a \<and> at_len a' = hd_UNAVAILABLE hdr
               else at_len a' = length v \<and>
                 (case at_value a of
                    None \<Rightarrow> at_value a' = None
                  | Some mem \<Rightarrow>
                      at_value a' = (if at_len a < length v then Some mem else Some (v @ drop (length v) mem)) \<and>
                      (at_len a < length v \<or> length v \<le> length mem)))"

lemma private_part_no_value: "private_part t \<Longrightarrow> object_attribute hdr o' t = None"
  by (cases t) simp_all

lemma get_attr_entry:
  assumes "objects_ok objs" and "object_by_handle objs h = Some i" and "get_attr hdr objs h (objs ! i) a fl = Done (a', fl')"
  shows "entry_ok hdr (objs ! i) a a'" and "fl_sensitive fl' \<longleftrightarrow> fl_sensitive fl \<or> private_part (at_type a)"
proof -
  have "entry_ok hdr (objs ! i) a a' \<and> (fl_sensitive fl' \<longleftrightarrow> fl_sensitive fl \<or> private_part (at_type a))"
  proof (cases "long_curve (objs ! i) (at_type a)")
    case True
    then have "\<not> private_part (at_type a)" by (simp add: long_curve_def)
    with True assms(3) attr_long_curve [OF assms(2) True] show ?thesis
      by (auto simp: get_attr_def entry_ok_def split: if_split_asm option.splits)
  next
    case False
    note e = attr_size_eq [OF assms(1,2) False, of hdr] attr_value_eq [OF False, of hdr]
    show ?thesis
    proof (cases "private_part (at_type a)")
      case True
      with assms(3) e False private_part_no_value show ?thesis by (auto simp: get_attr_def entry_ok_def)
    next
      case public: False
      with assms(3) e False show ?thesis
        by (cases "object_attribute hdr (objs ! i) (at_type a)")
          (auto simp: get_attr_def entry_ok_def split: if_split_asm option.splits)
    qed
  qed
  then show "entry_ok hdr (objs ! i) a a'" and "fl_sensitive fl' \<longleftrightarrow> fl_sensitive fl \<or> private_part (at_type a)" by simp_all
qed

lemma get_attrs_entries:
  assumes "objects_ok objs" and "object_by_handle objs h = Some i" and "get_attrs hdr objs h (objs ! i) tmpl n fl = Done (tmpl', fl')"
  shows "length tmpl' = length tmpl \<and> (fl_sensitive fl' \<longleftrightarrow> fl_sensitive fl \<or> (\<exists>j < n. private_part (at_type (tmpl ! j)))) \<and>
    (\<forall>j < n. entry_ok hdr (objs ! i) (tmpl ! j) (tmpl' ! j))"
  using assms(3)
proof (induction n arbitrary: tmpl tmpl' fl)
  case (Suc n)
  then obtain a t where tmpl: "tmpl = a # t" by (cases tmpl) auto
  with Suc.prems obtain a' fl1 t' where one: "get_attr hdr objs h (objs ! i) a fl = Done (a', fl1)"
    and rest: "get_attrs hdr objs h (objs ! i) t n fl1 = Done (t', fl')" and tmpl': "tmpl' = a' # t'"
    by (auto simp: run_bind_Done)
  from get_attr_entry [OF assms(1,2) one] Suc.IH [OF rest] show ?case
    unfolding tmpl tmpl' by (simp add: All_less_Suc2 Ex_less_Suc2 disj_assoc)
qed (cases tmpl, auto)

text \<open>
  C28: what an application can read. When \<^verbatim>\<open>C_GetAttributeValue\<close> returns for an object of an open session, every entry of the
  template that asks for a public attribute of the object gets its length and, where the caller has room, exactly its value; nothing else
  is written, and the module's state is unchanged. For the parts of a private key (the private exponent, the primes, the exponents and the
  coefficient of an RSA key, the value of an elliptic key) nothing is ever written and the length becomes unavailable, and the code is
  \<^verbatim>\<open>CKR_ATTRIBUTE_SENSITIVE\<close> exactly when one of them is asked for.
\<close>

theorem C_GetAttributeValue_public:
  assumes "p11_inv h s" and "pm_initialized s" and "find_session hs (pm_sessions s) = Some k"
    and "object_by_handle (pm_objects s) hObject = Some i"
    and "C_GetAttributeValue hdr hs hObject (Some tmpl) n s = Done (rv, Some tmpl', s')"
  shows "s' = s \<and> length tmpl' = length tmpl \<and>
    (\<forall>j < n. entry_ok hdr (pm_objects s ! i) (tmpl ! j) (tmpl' ! j)) \<and>
    (\<forall>j < n. private_part (at_type (tmpl ! j)) \<longrightarrow>
       at_value (tmpl' ! j) = at_value (tmpl ! j) \<and> at_len (tmpl' ! j) = hd_UNAVAILABLE hdr) \<and>
    (rv = CKR_ATTRIBUTE_SENSITIVE \<longleftrightarrow> (\<exists>j < n. private_part (at_type (tmpl ! j))))"
proof -
  from assms(2-5) obtain fl where g: "get_attrs hdr (pm_objects s) hObject (pm_objects s ! i) tmpl n
      \<lparr>fl_sensitive = False, fl_invalid = False, fl_small = False\<rparr> = Done (tmpl', fl)" and s: "s' = s"
    and rv: "rv = CKR_ATTRIBUTE_SENSITIVE \<longleftrightarrow> fl_sensitive fl"
    by (auto simp: C_GetAttributeValue_def with_session_def run_bind_Done)
  have "objects_ok (pm_objects s)" using assms(1) by (simp add: p11_inv_def)
  note all = get_attrs_entries [OF this assms(4) g]
  moreover have "at_value a' = at_value a \<and> at_len a' = hd_UNAVAILABLE hdr"
    if "entry_ok hdr o' a a'" "private_part (at_type a)" for o' a a'
  proof -
    from that(2) have "\<not> long_curve o' (at_type a)" by (auto simp: long_curve_def)
    with that private_part_no_value [OF that(2), of hdr o'] show ?thesis by (simp add: entry_ok_def)
  qed
  ultimately show ?thesis using s rv by auto
qed

theorem C_GetAttributeValue_public_witness:
  "\<exists>tmpl'. C_GetAttributeValue demo_hdr 1 1 (Some [\<lparr>at_type = CKA_MODULUS, at_value = Some [0, 0, 0], at_len = 3\<rparr>,
       \<lparr>at_type = CKA_PRIVATE_EXPONENT, at_value = Some [0, 0, 0], at_len = 3\<rparr>]) 2 demo_p11 =
     Done (CKR_ATTRIBUTE_SENSITIVE, Some tmpl', demo_p11) \<and> at_value (tmpl' ! 0) = Some [12, 161, 0] \<and> at_value (tmpl' ! 1) = Some [0, 0, 0]"
proof -
  let ?tmpl = "[\<lparr>at_type = CKA_MODULUS, at_value = Some [0, 0, 0], at_len = 3\<rparr>,
       \<lparr>at_type = CKA_PRIVATE_EXPONENT, at_value = Some [0, 0, 0 :: byte], at_len = 3\<rparr>]"
  have o': "object_by_handle (pm_objects demo_p11) 1 = Some 0" by (simp add: object_by_handle_def demo_object_def)
  have i: "find_session 1 (pm_sessions demo_p11) = Some 0" by simp
  have "C_GetAttributeValue demo_hdr 1 1 (Some ?tmpl) 2 demo_p11 = Done (CKR_ATTRIBUTE_SENSITIVE,
      Some [\<lparr>at_type = CKA_MODULUS, at_value = Some [12, 161, 0], at_len = 2\<rparr>,
        \<lparr>at_type = CKA_PRIVATE_EXPONENT, at_value = Some [0, 0, 0], at_len = 99999\<rparr>], demo_p11)"
    using o' i by (simp add: C_GetAttributeValue_def with_session_def numeral_2_eq_2 get_attr_def attr_size_def attr_value_def
        bool_attrs_def secret_attrs_def demo_hdr_def) (simp add: demo_object_def)
  from C_GetAttributeValue_public [OF demo_p11_inv demo_p11_simps(1) i o' this] this show ?thesis by simp
qed

end
