(* ===== verification/Mac_Token.thy ===== *)
theory Mac_Token
  imports Ctk_Bridge P11_Sign_Props
begin

text \<open>
  The token extension for macOS, \<^verbatim>\<open>mac-provider\<close>: what a session signs (\<^verbatim>\<open>TokenSession.m\<close>), the items a token shows (\<^verbatim>\<open>Token.m\<close>)
  and how the driver connects the bridge (\<^verbatim>\<open>TokenDriver.m\<close>), over \<^verbatim>\<open>internal/ctkbridge\<close>. The frameworks of macOS are parameters:
  the algorithm of a request is given by the algorithms that it is, the hash functions and what the security framework makes of
  a certificate are functions. Strings are their UTF-8 form; \<open>None\<close> is \<^verbatim>\<open>nil\<close>. Logging is left out.
\<close>

section \<open>Signing\<close>

datatype SecKeyAlgorithm =
    RSASignatureDigestPSSSHA256 | RSASignatureMessagePSSSHA256 | RSASignatureDigestPSSSHA384 | RSASignatureMessagePSSSHA384
  | RSASignatureDigestPSSSHA512 | RSASignatureMessagePSSSHA512 | RSASignatureDigestPKCS1v15SHA256 | RSASignatureMessagePKCS1v15SHA256
  | RSASignatureDigestPKCS1v15SHA384 | RSASignatureMessagePKCS1v15SHA384 | RSASignatureDigestPKCS1v15SHA512
  | RSASignatureMessagePKCS1v15SHA512

record common_crypto =
  CC_SHA256 :: "bytes \<Rightarrow> bytes"
  CC_SHA384 :: "bytes \<Rightarrow> bytes"
  CC_SHA512 :: "bytes \<Rightarrow> bytes"

text \<open>The branches of the selection, in their order: the padding, the hash and whether the data is a message.\<close>

definition mac_algorithms :: "(SecKeyAlgorithm \<times> int \<times> int \<times> bool) list" where
  "mac_algorithms =
     [(RSASignatureDigestPSSSHA256, 2, 1, False), (RSASignatureMessagePSSSHA256, 2, 1, True),
      (RSASignatureDigestPSSSHA384, 2, 2, False), (RSASignatureMessagePSSSHA384, 2, 2, True),
      (RSASignatureDigestPSSSHA512, 2, 3, False), (RSASignatureMessagePSSSHA512, 2, 3, True),
      (RSASignatureDigestPKCS1v15SHA256, 1, 1, False), (RSASignatureMessagePKCS1v15SHA256, 1, 1, True),
      (RSASignatureDigestPKCS1v15SHA384, 1, 2, False), (RSASignatureMessagePKCS1v15SHA384, 1, 2, True),
      (RSASignatureDigestPKCS1v15SHA512, 1, 3, False), (RSASignatureMessagePKCS1v15SHA512, 1, 3, True)]"

definition select_algorithm :: "(SecKeyAlgorithm \<Rightarrow> bool) \<Rightarrow> int \<times> int \<times> bool" where
  "select_algorithm isKeyAlgorithm =
     (case find (\<lambda>(a, _). isKeyAlgorithm a) mac_algorithms of Some (_, r) \<Rightarrow> r | None \<Rightarrow> (1, 0, False))"

definition kSHA256Prefix :: bytes where
  "kSHA256Prefix = [0x30, 0x31, 0x30, 0x0d, 0x06, 0x09, 0x60, 0x86, 0x48, 0x01, 0x65, 0x03, 0x04, 0x02, 0x01, 0x05, 0x00, 0x04, 0x20]"

definition kSHA384Prefix :: bytes where
  "kSHA384Prefix = [0x30, 0x41, 0x30, 0x0d, 0x06, 0x09, 0x60, 0x86, 0x48, 0x01, 0x65, 0x03, 0x04, 0x02, 0x02, 0x05, 0x00, 0x04, 0x30]"

definition kSHA512Prefix :: bytes where
  "kSHA512Prefix = [0x30, 0x51, 0x30, 0x0d, 0x06, 0x09, 0x60, 0x86, 0x48, 0x01, 0x65, 0x03, 0x04, 0x02, 0x03, 0x05, 0x00, 0x04, 0x40]"

definition strip_digest_info :: "bytes \<Rightarrow> (bytes \<times> int) option" where
  "strip_digest_info data =
     (if length data = 51 \<and> take 19 data = kSHA256Prefix then Some (drop 19 data, 1)
      else if length data = 67 \<and> take 19 data = kSHA384Prefix then Some (drop 19 data, 2)
      else if length data = 83 \<and> take 19 data = kSHA512Prefix then Some (drop 19 data, 3)
      else None)"

text \<open>The length goes to the hash functions as a \<^verbatim>\<open>CC_LONG\<close>, of 32 bits.\<close>

definition mac_hash :: "common_crypto \<Rightarrow> int \<Rightarrow> bytes \<Rightarrow> bytes" where
  "mac_hash cc hashAlg data =
     (let bytes = take (length data mod 2 ^ 32) data in
      if hashAlg = 1 then CC_SHA256 cc bytes else if hashAlg = 2 then CC_SHA384 cc bytes else CC_SHA512 cc bytes)"

text \<open>The digest that is signed and the code of its hash.\<close>

definition mac_digest :: "common_crypto \<Rightarrow> int \<Rightarrow> bool \<Rightarrow> bytes \<Rightarrow> bytes \<times> int" where
  "mac_digest cc hashAlg isMessage data =
     (case strip_digest_info data of
        Some r \<Rightarrow> r
      | None \<Rightarrow>
          let default = (\<lambda>d. if hashAlg = 0 then d else hashAlg) in
          if isMessage then (mac_hash cc (default 1) data, default 1)
          else if length data = 32 then (data, default 1)
          else if length data = 48 then (data, default 2)
          else if length data = 64 then (data, default 3)
          else (mac_hash cc (default 1) data, default 1))"

datatype mac_result = Signature bytes | TKErrorCodeBadParameter | TKErrorCodeCommunicationError

text \<open>\<^verbatim>\<open>signData\<close>: \<open>keyID\<close> is the string of the object, \<^verbatim>\<open>nil\<close> when it is not UTF-8. The signature goes to an array of 1024 bytes.\<close>

definition signData :: "('k, 'ts, 'kp) bridge_env \<Rightarrow> common_crypto \<Rightarrow> bytes \<Rightarrow> string option \<Rightarrow> (SecKeyAlgorithm \<Rightarrow> bool) \<Rightarrow>
    process \<Rightarrow> (mac_result \<times> process) p11_run" where
  "signData env cc dataToSign keyID algorithm p =
     (case keyID of
        None \<Rightarrow> Done (TKErrorCodeBadParameter, p)
      | Some keyIDStr \<Rightarrow>
          let thumbprint = (if take 4 keyIDStr = ''key-'' then drop 4 keyIDStr else keyIDStr);
              (rsaPadding, hashAlg, isMessage) = select_algorithm algorithm;
              (finalDigest, hashAlg) = mac_digest cc hashAlg isMessage dataToSign;
              r = ctk_bridge_sign_hash env (Some thumbprint) (Some finalDigest) (length finalDigest) hashAlg rsaPadding
                    (Some (replicate 1024 0)) (Some 1024) p
          in case (sg_ret r, sg_sigOut r, sg_sigLen r) of
               (Returned res, Some sigBuf, Some sigLen) \<Rightarrow>
                 if res \<noteq> 0 then Done (TKErrorCodeCommunicationError, sg_process r)
                 else Done (Signature (take sigLen sigBuf), sg_process r)
             | _ \<Rightarrow> Crash)"

section \<open>The items of a token\<close>

record sec_framework =
  sf_certificate :: "bytes \<Rightarrow> bool"
  sf_certItem :: "bytes \<Rightarrow> bool"
  sf_keyItem :: "bytes \<Rightarrow> bool"
  sf_pubKeyHash :: "bytes \<Rightarrow> bytes option"

datatype token_item =
    CertificateItem (it_id: string) (it_label: "string option")
  | KeyItem (it_id: string) (it_label: "string option") (it_pubKeyHash: "bytes option") (it_keySize: int)

text \<open>The items for one certificate: all keys are shown as RSA keys that can sign.\<close>

definition items_of :: "sec_framework \<Rightarrow> ctk_key_info \<Rightarrow> bytes \<Rightarrow> token_item list" where
  "items_of sf info certData =
     (if \<not> sf_certificate sf certData then []
      else let tpStr = c_string (ck_thumbprint info); subjStr = c_string (ck_subject info);
               label = (if 0 < length subjStr then Some subjStr else None)
           in (if sf_certItem sf certData then [CertificateItem (''cert-'' @ tpStr) label] else []) @
              (if sf_keyItem sf certData
               then [KeyItem (''key-'' @ tpStr) label (sf_pubKeyHash sf certData) (if 0 < ck_key_size info then ck_key_size info else 2048)]
               else []))"

fun token_items :: "(nat \<Rightarrow> ('k, 'ts, 'kp) bridge_env) \<Rightarrow> sec_framework \<Rightarrow> nat \<Rightarrow> nat \<Rightarrow> c_heap \<Rightarrow> process \<Rightarrow>
    (token_item list \<times> c_heap \<times> process) p11_run" where
  "token_items env sf 0 i h p = Done ([], h, p)"
| "token_items env sf (Suc n) i h p =
     (let out = ctk_bridge_get_installed (env (i + 1)) (int i) (Some zero_ctk) h p in
      case (co_ret out, co_info out) of
        (Returned code, Some info) \<Rightarrow>
          if code \<noteq> 0 then token_items env sf n (i + 1) (co_heap out) (co_process out)
          else run_bind (if 0 < ck_cert_der_len info then
                           (case ck_cert_der info of
                              None \<Rightarrow> Done []
                            | Some a \<Rightarrow>
                                (case hp_mem (co_heap out) a of
                                   None \<Rightarrow> Crash
                                 | Some der \<Rightarrow>
                                     if length der < ck_cert_der_len info then Crash
                                     else Done (items_of sf info (take (ck_cert_der_len info) der))))
                         else Done []) (\<lambda>items.
               case ctk_bridge_free_key_info (Some info) (co_heap out) of
                 None \<Rightarrow> Crash
               | Some (_, h) \<Rightarrow>
                   run_bind (token_items env sf n (i + 1) h (co_process out)) (\<lambda>(rest, h, p). Done (items @ rest, h, p)))
      | _ \<Rightarrow> Crash)"

definition initWithTokenDriver :: "(nat \<Rightarrow> ('k, 'ts, 'kp) bridge_env) \<Rightarrow> sec_framework \<Rightarrow> c_heap \<Rightarrow> process \<Rightarrow>
    (token_item list \<times> c_heap \<times> process) p11_run" where
  "initWithTokenDriver env sf h p =
     (case ctk_bridge_installed_count (env 0) p of (p, count) \<Rightarrow> token_items env sf (nat count) 0 h p)"

section \<open>The driver\<close>

text \<open>\<open>x ?: y\<close>, and the length of a string that may be \<^verbatim>\<open>nil\<close>.\<close>

definition elvis :: "string option \<Rightarrow> string option \<Rightarrow> string option" where
  "elvis x y = (case x of None \<Rightarrow> y | Some _ \<Rightarrow> x)"

definition empty_string :: "string option \<Rightarrow> bool" where
  "empty_string x = (case x of None \<Rightarrow> True | Some v \<Rightarrow> v = [])"

text \<open>\<open>defaults\<close>: the user defaults of the application group, \<open>keychain\<close>: the certificate of the authority, the client's and its key.\<close>

record mac_config =
  mg_defaults :: "string \<Rightarrow> string option"
  mg_keychain :: "string option \<times> string option \<times> string option"

definition driver_config :: "mac_config \<Rightarrow> string option \<times> string option \<times> string option \<times> string option" where
  "driver_config mc =
     (let d = mg_defaults mc;
          addr = elvis (d ''serverAddr'') (d ''ServerAddress'');
          (ca, cert, key) = mg_keychain mc;
          ca = (if empty_string ca then elvis (d ''caContent'') (d ''caPath'') else ca);
          cert = (if empty_string cert then elvis (d ''certContent'') (d ''certPath'') else cert);
          key = (if empty_string key then elvis (d ''keyContent'') (d ''keyPath'') else key)
      in (addr, ca, cert, key))"

text \<open>\<open>once\<close>: whether the block has run.\<close>

definition initBridgeIfNeeded :: "('k, 'ts, 'kp) bridge_env \<Rightarrow> mac_config \<Rightarrow> bool \<Rightarrow> ctk_state \<Rightarrow> bool \<times> ctk_state" where
  "initBridgeIfNeeded env mc once s =
     (if once then (True, s)
      else case driver_config mc of (addr, ca, cert, key) \<Rightarrow>
        if empty_string addr \<or> empty_string ca \<or> empty_string cert \<or> empty_string key then (True, s)
        else (True, fst (ctk_bridge_init_opts env addr ca cert key s)))"

end
