(* ===== verification/Ksp_Provider.thy ===== *)
theory Ksp_Provider
  imports P11_Safety
begin

text \<open>
  The key storage provider for Windows, \<^verbatim>\<open>ksp/ksp.c\<close> and \<^verbatim>\<open>ksp/tpmcert_storage.c\<close>, over the Windows bridge. A handle is the
  address of a block that the provider allocated, 0 for \<^verbatim>\<open>NULL\<close>; a block is one of the structures of \<^verbatim>\<open>ksp.h\<close>, together with
  the name and the public key that it owns. Using an address that is not allocated crashes. Validation tells the structures
  apart by their length and magic number. A wide string is a list of 16-bit units without its terminator. Windows (the
  conversions between wide strings and UTF-8, \<^verbatim>\<open>BCrypt\<close>, the constants of its headers) is a parameter. Lengths are below 2^32.
  Three functions of \<^verbatim>\<open>tpmcert_storage.c\<close>, \<open>StorageInit\<close>, \<open>StorageShutdown\<close> and \<open>StorageEnumKeysEnd\<close>, have no caller. The functions
  that only return \<^verbatim>\<open>NTE_NOT_SUPPORTED\<close> and the debug output are left out.
\<close>

section \<open>State\<close>

type_synonym wstring = "16 word list"

datatype security_status =
    ERROR_SUCCESS | NTE_INVALID_HANDLE | NTE_INVALID_PARAMETER | NTE_INTERNAL_ERROR | NTE_NO_MEMORY | NTE_BAD_KEYSET
  | NTE_NO_MORE_ITEMS | NTE_BUFFER_TOO_SMALL | NTE_NOT_SUPPORTED | NTE_BAD_KEY_STATE | NTE_PERM | NTE_BAD_SIGNATURE | NTE_BAD_ALGID

datatype ncrypt_property =
    NCRYPT_NAME_PROPERTY | NCRYPT_IMPL_TYPE_PROPERTY | NCRYPT_VERSION_PROPERTY | NCRYPT_ALGORITHM_PROPERTY
  | NCRYPT_ALGORITHM_GROUP_PROPERTY | NCRYPT_LENGTH_PROPERTY | NCRYPT_KEY_USAGE_PROPERTY | NCRYPT_EXPORT_POLICY_PROPERTY
  | NCRYPT_other_property

datatype bcrypt_alg = BCRYPT_SHA256_ALGORITHM | BCRYPT_SHA384_ALGORITHM | BCRYPT_SHA512_ALGORITHM | BCRYPT_other_algorithm

datatype blob_type = BCRYPT_PUBLIC_KEY_BLOB | BCRYPT_RSAPUBLIC_BLOB | BCRYPT_other_blob

record win_header =
  wh_RSA :: wstring
  wh_IMPL_SOFTWARE :: "32 word"
  wh_ALLOW_EXPORT :: "32 word"
  wh_ALLOW_SIGNING :: "32 word"
  wh_PAD_PKCS1 :: "32 word"
  wh_PAD_PSS :: "32 word"

record bcrypt =
  bc_open :: bool
  bc_import :: "bytes \<Rightarrow> bool"
  bc_verify :: "bytes \<Rightarrow> bcrypt_alg option \<Rightarrow> bytes \<Rightarrow> bytes \<Rightarrow> 32 word \<Rightarrow> bool"

record ('k, 'ts, 'kp) ksp_env =
  we_hdr :: win_header
  we_utf8 :: "wstring \<Rightarrow> string"
  we_wide :: "string \<Rightarrow> wstring"
  we_bcrypt :: bcrypt
  we_bridge :: "nat \<Rightarrow> ('k, 'ts, 'kp) bridge_env"
  we_alloc :: "nat \<Rightarrow> bool"

record KSP_KEY =
  kk_name :: wstring
  kk_bits :: "32 word"
  kk_export_policy :: "32 word"
  kk_usage_policy :: "32 word"
  kk_finished :: bool
  kk_pub :: "bytes option"

datatype ksp_block = PROVIDER_block | KEY_block KSP_KEY | ENUM_block "32 word" "32 word" | NAME_block wstring | ALG_block wstring

record ksp_state =
  kw_bridgeReady :: bool
  kw_process :: process
  kw_heap :: c_heap
  kw_next :: nat
  kw_blocks :: "nat \<rightharpoonup> ksp_block"

definition ksp_start :: "c_heap \<Rightarrow> ksp_state" where
  "ksp_start h = \<lparr>kw_bridgeReady = False, kw_process = \<lparr>pr_global = None, pr_open = 0\<rparr>, kw_heap = h, kw_next = 1,
     kw_blocks = Map.empty\<rparr>"

type_synonym 'a ksp_ret = "(security_status \<times> 'a \<times> ksp_state) p11_run"

definition HeapAlloc :: "ksp_block \<Rightarrow> ksp_state \<Rightarrow> nat \<times> ksp_state" where
  "HeapAlloc b s = (kw_next s, s\<lparr>kw_next := kw_next s + 1, kw_blocks := (kw_blocks s)(kw_next s \<mapsto> b)\<rparr>)"

definition HeapFree :: "nat \<Rightarrow> ksp_state \<Rightarrow> ksp_state p11_run" where
  "HeapFree a s = (if a \<in> dom (kw_blocks s) then Done (s\<lparr>kw_blocks := (kw_blocks s)(a := None)\<rparr>) else Crash)"

definition EnsureBridge :: "('k, 'ts, 'kp) ksp_env \<Rightarrow> ksp_state \<Rightarrow> security_status \<times> ksp_state" where
  "EnsureBridge env s =
     (if kw_bridgeReady s then (ERROR_SUCCESS, s)
      else case windows_init (we_bridge env 0) None (kw_process s) of (p, code) \<Rightarrow>
        let s = s\<lparr>kw_process := p\<rparr> in
        if code \<noteq> codeOK then (NTE_INTERNAL_ERROR, s) else (ERROR_SUCCESS, s\<lparr>kw_bridgeReady := True\<rparr>))"

definition KspValidateProvHandle :: "nat \<Rightarrow> ksp_state \<Rightarrow> bool p11_run" where
  "KspValidateProvHandle h s =
     (if h = 0 then Done False
      else case kw_blocks s h of None \<Rightarrow> Crash | Some PROVIDER_block \<Rightarrow> Done True | Some _ \<Rightarrow> Done False)"

definition KspValidateKeyHandle :: "nat \<Rightarrow> ksp_state \<Rightarrow> KSP_KEY option p11_run" where
  "KspValidateKeyHandle h s =
     (if h = 0 then Done None
      else case kw_blocks s h of None \<Rightarrow> Crash | Some (KEY_block k) \<Rightarrow> Done (Some k) | Some _ \<Rightarrow> Done None)"

section \<open>Properties\<close>

text \<open>The bytes of a wide string with its terminator.\<close>

definition wide_bytes :: "wstring \<Rightarrow> bytes" where
  "wide_bytes w = concat (map (\<lambda>u. [ucast u, ucast (drop_bit 8 u)]) (w @ [0]))"

definition PROVIDER_NAME :: wstring where
  "PROVIDER_NAME = map (\<lambda>c. of_nat (of_char c)) ''Fred Proxy Key Storage Provider''"

text \<open>
  Handing out a value: \<open>pbOutput\<close> is the memory at the pointer, \<open>cbOutput\<close> its stated length, \<open>pcbResult\<close> whether there is a
  place for the length. The results are the memory and the length stored.
\<close>

definition copy_out :: "bytes \<Rightarrow> bytes option \<Rightarrow> nat \<Rightarrow> bool \<Rightarrow> ksp_state \<Rightarrow> (bytes option \<times> nat option) ksp_ret" where
  "copy_out v pbOutput cbOutput pcbResult s =
     (if \<not> pcbResult then Done (NTE_INVALID_PARAMETER, (pbOutput, None), s)
      else case pbOutput of
        None \<Rightarrow> Done (ERROR_SUCCESS, (None, Some (length v)), s)
      | Some mem \<Rightarrow>
          if cbOutput < length v then Done (NTE_BUFFER_TOO_SMALL, (pbOutput, Some (length v)), s)
          else if length mem < length v then Crash
          else Done (ERROR_SUCCESS, (Some (v @ drop (length v) mem), Some (length v)), s))"

definition CopyWideProperty :: "wstring \<Rightarrow> bytes option \<Rightarrow> nat \<Rightarrow> bool \<Rightarrow> ksp_state \<Rightarrow> (bytes option \<times> nat option) ksp_ret" where
  "CopyWideProperty w = copy_out (wide_bytes w)"

definition CopyDwordProperty :: "32 word \<Rightarrow> bytes option \<Rightarrow> nat \<Rightarrow> bool \<Rightarrow> ksp_state \<Rightarrow> (bytes option \<times> nat option) ksp_ret" where
  "CopyDwordProperty v = copy_out (le32 v)"

definition KSPGetProviderProperty :: "('k, 'ts, 'kp) ksp_env \<Rightarrow> ncrypt_property \<Rightarrow> bytes option \<Rightarrow> nat \<Rightarrow> bool \<Rightarrow> ksp_state \<Rightarrow>
    (bytes option \<times> nat option) ksp_ret" where
  "KSPGetProviderProperty env prop pbOutput cbOutput pcbResult s =
     (if prop = NCRYPT_NAME_PROPERTY then CopyWideProperty PROVIDER_NAME pbOutput cbOutput pcbResult s
      else if prop = NCRYPT_IMPL_TYPE_PROPERTY then CopyDwordProperty (wh_IMPL_SOFTWARE (we_hdr env)) pbOutput cbOutput pcbResult s
      else if prop = NCRYPT_VERSION_PROPERTY then CopyDwordProperty 0x00010000 pbOutput cbOutput pcbResult s
      else Done (NTE_INVALID_PARAMETER, (pbOutput, None), s))"

definition KSPGetKeyProperty :: "('k, 'ts, 'kp) ksp_env \<Rightarrow> nat \<Rightarrow> ncrypt_property \<Rightarrow> bytes option \<Rightarrow> nat \<Rightarrow> bool \<Rightarrow> ksp_state \<Rightarrow>
    (bytes option \<times> nat option) ksp_ret" where
  "KSPGetKeyProperty env hKey prop pbOutput cbOutput pcbResult s =
     run_bind (KspValidateKeyHandle hKey s) (\<lambda>k.
       case k of
         None \<Rightarrow> Done (NTE_INVALID_HANDLE, (pbOutput, None), s)
       | Some key \<Rightarrow>
           if prop = NCRYPT_NAME_PROPERTY then CopyWideProperty (kk_name key) pbOutput cbOutput pcbResult s
           else if prop = NCRYPT_ALGORITHM_PROPERTY then CopyWideProperty (wh_RSA (we_hdr env)) pbOutput cbOutput pcbResult s
           else if prop = NCRYPT_ALGORITHM_GROUP_PROPERTY then CopyWideProperty (wh_RSA (we_hdr env)) pbOutput cbOutput pcbResult s
           else if prop = NCRYPT_LENGTH_PROPERTY then CopyDwordProperty (kk_bits key) pbOutput cbOutput pcbResult s
           else if prop = NCRYPT_KEY_USAGE_PROPERTY then CopyDwordProperty (kk_usage_policy key) pbOutput cbOutput pcbResult s
           else if prop = NCRYPT_EXPORT_POLICY_PROPERTY then CopyDwordProperty (kk_export_policy key) pbOutput cbOutput pcbResult s
           else Done (NTE_INVALID_PARAMETER, (pbOutput, None), s))"

definition KSPIsAlgSupported :: "('k, 'ts, 'kp) ksp_env \<Rightarrow> wstring \<Rightarrow> ksp_state \<Rightarrow> unit ksp_ret" where
  "KSPIsAlgSupported env alg s = Done (if alg = wh_RSA (we_hdr env) then ERROR_SUCCESS else NTE_BAD_ALGID, (), s)"

section \<open>Providers and keys\<close>

definition KSPOpenProvider :: "('k, 'ts, 'kp) ksp_env \<Rightarrow> bool \<Rightarrow> ksp_state \<Rightarrow> (nat option) ksp_ret" where
  "KSPOpenProvider env phProvider s =
     (if \<not> phProvider then Done (NTE_INVALID_PARAMETER, None, s)
      else case EnsureBridge env s of (status, s) \<Rightarrow>
        if status \<noteq> ERROR_SUCCESS then Done (NTE_INTERNAL_ERROR, None, s)
        else if \<not> we_alloc env 0 then Done (NTE_NO_MEMORY, None, s)
        else (case HeapAlloc PROVIDER_block s of (a, s) \<Rightarrow> Done (ERROR_SUCCESS, Some a, s)))"

definition KSPFreeProvider :: "nat \<Rightarrow> ksp_state \<Rightarrow> unit ksp_ret" where
  "KSPFreeProvider hProvider s =
     run_bind (KspValidateProvHandle hProvider s) (\<lambda>ok.
       if \<not> ok then Done (NTE_INVALID_HANDLE, (), s)
       else run_bind (HeapFree hProvider s) (\<lambda>s. Done (ERROR_SUCCESS, (), s)))"

definition CreateNewKeyObject :: "('k, 'ts, 'kp) ksp_env \<Rightarrow> wstring \<Rightarrow> KSP_KEY option" where
  "CreateNewKeyObject env name =
     (if \<not> we_alloc env 0 then None
      else if \<not> we_alloc env 1 then None
      else Some \<lparr>kk_name = name, kk_bits = 0, kk_export_policy = wh_ALLOW_EXPORT (we_hdr env),
             kk_usage_policy = wh_ALLOW_SIGNING (we_hdr env), kk_finished = False, kk_pub = None\<rparr>)"

definition DeleteKeyObject :: "nat \<Rightarrow> ksp_state \<Rightarrow> ksp_state p11_run" where
  "DeleteKeyObject a s = HeapFree a s"

text \<open>
  \<^verbatim>\<open>WideCharToMultiByte\<close> into an array of 64 bytes; its result is not checked, and a longer name leaves the array without
  a terminator, so that reading it as a string runs out of it.
\<close>

definition to_thumbprint :: "('k, 'ts, 'kp) ksp_env \<Rightarrow> wstring \<Rightarrow> string p11_run" where
  "to_thumbprint env w = (let u = we_utf8 env w in if 64 \<le> length u then Crash else Done (u @ [NUL]))"

definition StorageOpenKey :: "('k, 'ts, 'kp) ksp_env \<Rightarrow> wstring \<Rightarrow> ksp_state \<Rightarrow> (nat option) ksp_ret" where
  "StorageOpenKey env name s =
     run_bind (to_thumbprint env name) (\<lambda>thumbprint.
       let out = windows_find_installed (we_bridge env 0) (Some thumbprint) (Some zero_info) (kw_heap s) (kw_process s);
           s = s\<lparr>kw_heap := bo_heap out, kw_process := bo_process out\<rparr>
       in case (bo_ret out, bo_info out) of
            (Returned code, Some info) \<Rightarrow>
              if code \<noteq> codeOK then Done (NTE_BAD_KEYSET, None, s)
              else
                (let blob = (case tk_rsa_public_blob info of Some a \<Rightarrow> hp_mem (kw_heap s) a | None \<Rightarrow> None);
                     free = (\<lambda>status res s. case tpmcert_free_key_info (Some info) (kw_heap s) of
                               Some (_, h) \<Rightarrow> Done (status, res, s\<lparr>kw_heap := h\<rparr>)
                             | None \<Rightarrow> Crash)
                 in case CreateNewKeyObject env name of
                      None \<Rightarrow> free NTE_NO_MEMORY None s
                    | Some key \<Rightarrow>
                        (let key = key\<lparr>kk_bits := word_of_int (tk_key_size info), kk_finished := True\<rparr> in
                         if 0 < tk_rsa_public_blob_len info then
                           if \<not> we_alloc env 2 then free NTE_NO_MEMORY None s
                           else (case blob of
                                   None \<Rightarrow> Crash
                                 | Some bs \<Rightarrow>
                                     if length bs < tk_rsa_public_blob_len info then Crash
                                     else (case HeapAlloc (KEY_block (key\<lparr>kk_pub := Some (take (tk_rsa_public_blob_len info) bs)\<rparr>)) s of
                                             (a, s) \<Rightarrow> free ERROR_SUCCESS (Some a) s))
                         else (case HeapAlloc (KEY_block key) s of (a, s) \<Rightarrow> free ERROR_SUCCESS (Some a) s)))
          | _ \<Rightarrow> Crash)"

definition KSPOpenKey :: "('k, 'ts, 'kp) ksp_env \<Rightarrow> nat \<Rightarrow> bool \<Rightarrow> wstring option \<Rightarrow> ksp_state \<Rightarrow> (nat option) ksp_ret" where
  "KSPOpenKey env hProvider phKey pszKeyName s =
     run_bind (KspValidateProvHandle hProvider s) (\<lambda>ok.
       if \<not> ok then Done (NTE_INVALID_HANDLE, None, s)
       else if \<not> phKey then Done (NTE_INVALID_PARAMETER, None, s)
       else case pszKeyName of
              None \<Rightarrow> Done (NTE_INVALID_PARAMETER, None, s)
            | Some name \<Rightarrow> StorageOpenKey env name s)"

definition KSPFreeKey :: "nat \<Rightarrow> ksp_state \<Rightarrow> unit ksp_ret" where
  "KSPFreeKey hKey s =
     run_bind (KspValidateKeyHandle hKey s) (\<lambda>k.
       case k of
         None \<Rightarrow> Done (NTE_INVALID_HANDLE, (), s)
       | Some _ \<Rightarrow> run_bind (DeleteKeyObject hKey s) (\<lambda>s. Done (ERROR_SUCCESS, (), s)))"

definition KSPFreeBuffer :: "nat \<Rightarrow> ksp_state \<Rightarrow> unit ksp_ret" where
  "KSPFreeBuffer pvInput s =
     (if pvInput = 0 then Done (ERROR_SUCCESS, (), s)
      else run_bind (HeapFree pvInput s) (\<lambda>s. Done (ERROR_SUCCESS, (), s)))"

section \<open>Enumeration\<close>

definition KSPEnumAlgorithms :: "('k, 'ts, 'kp) ksp_env \<Rightarrow> bool \<Rightarrow> bool \<Rightarrow> ksp_state \<Rightarrow> (nat \<times> nat option) ksp_ret" where
  "KSPEnumAlgorithms env pdwAlgCount ppAlgList s =
     (if \<not> pdwAlgCount \<or> \<not> ppAlgList then Done (NTE_INVALID_PARAMETER, (0, None), s)
      else if \<not> we_alloc env 0 then Done (NTE_NO_MEMORY, (0, None), s)
      else case HeapAlloc (ALG_block (wh_RSA (we_hdr env))) s of (a, s) \<Rightarrow> Done (ERROR_SUCCESS, (1, Some a), s))"

text \<open>
  \<open>memory\<close>: whether there is memory for the structure. The arrays of the name and the subject have 64 and 512 units; a string
  that does not fit its array leaves it without a terminator, and measuring it runs out of the array. The subject is measured
  after the allocation, and whatever its length, the flags of the structure stay 0.
\<close>

definition AllocKeyNameFromInfo :: "('k, 'ts, 'kp) ksp_env \<Rightarrow> bool \<Rightarrow> tpmcert_key_info \<Rightarrow> ksp_state \<Rightarrow> (nat \<times> ksp_state) p11_run" where
  "AllocKeyNameFromInfo env memory info s =
     (let wideName = we_wide env (c_string (tk_thumbprint info));
          wideSubject = we_wide env (c_string (tk_subject info))
      in
      if 64 \<le> length wideName then Crash
      else if \<not> memory then Done (0, s)
      else if 512 \<le> length wideSubject then Crash
      else Done (HeapAlloc (NAME_block wideName) s))"

definition BuildKeyName :: "('k, 'ts, 'kp) ksp_env \<Rightarrow> nat \<Rightarrow> bool \<Rightarrow> int \<Rightarrow> ksp_state \<Rightarrow> (nat \<times> ksp_state) p11_run" where
  "BuildKeyName env call memory index s =
     (let out = windows_get_installed (we_bridge env call) index (Some zero_info) (kw_heap s) (kw_process s);
          s = s\<lparr>kw_heap := bo_heap out, kw_process := bo_process out\<rparr>
      in case (bo_ret out, bo_info out) of
           (Returned code, Some info) \<Rightarrow>
             if code \<noteq> codeOK then Done (0, s)
             else run_bind (AllocKeyNameFromInfo env memory info s) (\<lambda>(a, s).
                    case tpmcert_free_key_info (Some info) (kw_heap s) of
                      Some (_, h) \<Rightarrow> Done (a, s\<lparr>kw_heap := h\<rparr>)
                    | None \<Rightarrow> Crash)
         | _ \<Rightarrow> Crash)"

definition StorageInit :: "('k, 'ts, 'kp) ksp_env \<Rightarrow> ksp_state \<Rightarrow> security_status \<times> ksp_state" where
  "StorageInit env s =
     (case windows_init (we_bridge env 0) None (kw_process s) of (p, code) \<Rightarrow>
      (if code \<noteq> codeOK then NTE_INTERNAL_ERROR else ERROR_SUCCESS, s\<lparr>kw_process := p\<rparr>))"

definition StorageShutdown :: "ksp_state \<Rightarrow> ksp_state" where
  "StorageShutdown s = s\<lparr>kw_process := tpmcert_shutdown (kw_process s)\<rparr>"

text \<open>The results are the structures stored at \<^verbatim>\<open>ppKeyName\<close> and at \<^verbatim>\<open>ppEnumState\<close>, where \<open>None\<close> is nothing stored.\<close>

definition StorageEnumKeysBegin :: "('k, 'ts, 'kp) ksp_env \<Rightarrow> ksp_state \<Rightarrow> (nat option \<times> nat option) ksp_ret" where
  "StorageEnumKeysBegin env s =
     (case windows_installed_count (we_bridge env 0) (kw_process s) of (p, count) \<Rightarrow>
      let s = s\<lparr>kw_process := p\<rparr> in
      if count = 0 then Done (NTE_NO_MORE_ITEMS, (None, None), s)
      else if \<not> we_alloc env 0 then Done (NTE_NO_MEMORY, (None, None), s)
      else (case HeapAlloc (ENUM_block 0 (word_of_int count)) s of (st, s) \<Rightarrow>
            run_bind (BuildKeyName env 1 (we_alloc env 1) 0 s) (\<lambda>(name, s).
              if name = 0 then run_bind (HeapFree st s) (\<lambda>s. Done (NTE_INTERNAL_ERROR, (Some 0, Some 0), s))
              else Done (ERROR_SUCCESS, (Some name, Some st), s\<lparr>kw_blocks := (kw_blocks s)(st \<mapsto> ENUM_block 1 (word_of_int count))\<rparr>))))"

definition StorageEnumKeysNext :: "('k, 'ts, 'kp) ksp_env \<Rightarrow> nat \<Rightarrow> ksp_state \<Rightarrow> (nat option) ksp_ret" where
  "StorageEnumKeysNext env st s =
     (case kw_blocks s st of
        Some (ENUM_block index count) \<Rightarrow>
          if count \<le> index then Done (NTE_NO_MORE_ITEMS, None, s)
          else run_bind (BuildKeyName env 0 (we_alloc env 0) (sint index) s) (\<lambda>(name, s).
                 if name = 0 then Done (NTE_INTERNAL_ERROR, Some 0, s)
                 else Done (ERROR_SUCCESS, Some name, s\<lparr>kw_blocks := (kw_blocks s)(st \<mapsto> ENUM_block (index + 1) count)\<rparr>))
      | _ \<Rightarrow> Crash)"

definition StorageEnumKeysEnd :: "nat \<Rightarrow> ksp_state \<Rightarrow> ksp_state p11_run" where
  "StorageEnumKeysEnd st s = (if st = 0 then Done s else HeapFree st s)"

text \<open>\<open>ppEnumState\<close>: what the pointer points to. Reloading the manifest has no effect.\<close>

definition KSPEnumKeys :: "('k, 'ts, 'kp) ksp_env \<Rightarrow> bool \<Rightarrow> nat option \<Rightarrow> ksp_state \<Rightarrow> (nat option \<times> nat option) ksp_ret" where
  "KSPEnumKeys env ppKeyName ppEnumState s =
     (case ppEnumState of
        None \<Rightarrow> Done (NTE_INVALID_PARAMETER, (None, None), s)
      | Some st \<Rightarrow>
          if \<not> ppKeyName then Done (NTE_INVALID_PARAMETER, (None, None), s)
          else if st = 0 then StorageEnumKeysBegin env s
          else run_bind (StorageEnumKeysNext env st s) (\<lambda>(status, name, s). Done (status, (name, None), s)))"

section \<open>Keys at work\<close>

definition KSPExportKey :: "nat \<Rightarrow> blob_type \<Rightarrow> bytes option \<Rightarrow> nat \<Rightarrow> bool \<Rightarrow> ksp_state \<Rightarrow> (bytes option \<times> nat option) ksp_ret" where
  "KSPExportKey hKey blobType pbOutput cbOutput pcbResult s =
     run_bind (KspValidateKeyHandle hKey s) (\<lambda>k.
       case k of
         None \<Rightarrow> Done (NTE_INVALID_HANDLE, (pbOutput, None), s)
       | Some key \<Rightarrow>
           if \<not> pcbResult then Done (NTE_INVALID_PARAMETER, (pbOutput, None), s)
           else if blobType \<noteq> BCRYPT_PUBLIC_KEY_BLOB \<and> blobType \<noteq> BCRYPT_RSAPUBLIC_BLOB
           then Done (NTE_NOT_SUPPORTED, (pbOutput, None), s)
           else copy_out (case kk_pub key of None \<Rightarrow> [] | Some bs \<Rightarrow> bs) pbOutput cbOutput True s)"

text \<open>\<open>pad\<close>: the algorithm that the padding information names, if there is one.\<close>

definition HashAlgFromPadding :: "bcrypt_alg option \<Rightarrow> nat \<Rightarrow> int" where
  "HashAlgFromPadding pad cbHash =
     (if pad = Some BCRYPT_SHA256_ALGORITHM then 1
      else if pad = Some BCRYPT_SHA384_ALGORITHM then 2
      else if pad = Some BCRYPT_SHA512_ALGORITHM then 3
      else if cbHash = 32 then 1
      else if cbHash = 48 then 2
      else if cbHash = 64 then 3
      else 1)"

definition KSPSignHash :: "('k, 'ts, 'kp) ksp_env \<Rightarrow> nat \<Rightarrow> bcrypt_alg option \<Rightarrow> bytes option \<Rightarrow> bytes option \<Rightarrow> nat \<Rightarrow> bool \<Rightarrow>
    32 word \<Rightarrow> ksp_state \<Rightarrow> (bytes option \<times> nat option) ksp_ret" where
  "KSPSignHash env hKey pPaddingInfo pbHashValue pbSignature cbSignature pcbResult dwFlags s =
     run_bind (KspValidateKeyHandle hKey s) (\<lambda>k.
       case k of
         None \<Rightarrow> Done (NTE_INVALID_HANDLE, (pbSignature, None), s)
       | Some key \<Rightarrow>
           if \<not> kk_finished key then Done (NTE_BAD_KEY_STATE, (pbSignature, None), s)
           else if pbHashValue = None \<or> pbHashValue = Some [] \<or> \<not> pcbResult then Done (NTE_INVALID_PARAMETER, (pbSignature, None), s)
           else if and (kk_usage_policy key) (wh_ALLOW_SIGNING (we_hdr env)) = 0 then Done (NTE_PERM, (pbSignature, None), s)
           else
             (let hash = (case pbHashValue of None \<Rightarrow> [] | Some d \<Rightarrow> d);
                  padding = (if and dwFlags (wh_PAD_PSS (we_hdr env)) \<noteq> 0 then 2 else 1)
              in run_bind (to_thumbprint env (kk_name key)) (\<lambda>thumbprint.
                 let r = windows_sign_hash (we_bridge env 0) (Some thumbprint) pbHashValue (length hash)
                           (HashAlgFromPadding pPaddingInfo (length hash)) padding pbSignature (Some cbSignature) (kw_process s);
                     s = s\<lparr>kw_process := sg_process r\<rparr>
                 in case (sg_ret r, sg_sigLen r) of
                      (Returned code, Some sigLen) \<Rightarrow>
                        if code = codeBufferTooSmall then Done (NTE_BUFFER_TOO_SMALL, (sg_sigOut r, Some sigLen), s)
                        else if code \<noteq> codeOK then Done (NTE_INTERNAL_ERROR, (sg_sigOut r, None), s)
                        else Done (ERROR_SUCCESS, (sg_sigOut r, Some sigLen), s)
                    | _ \<Rightarrow> Crash)))"

definition KSPVerifySignature :: "('k, 'ts, 'kp) ksp_env \<Rightarrow> nat \<Rightarrow> bcrypt_alg option \<Rightarrow> bytes \<Rightarrow> bytes \<Rightarrow> 32 word \<Rightarrow> ksp_state \<Rightarrow>
    unit ksp_ret" where
  "KSPVerifySignature env hKey pPaddingInfo hash sig dwFlags s =
     run_bind (KspValidateKeyHandle hKey s) (\<lambda>k.
       case Option.bind k kk_pub of
         None \<Rightarrow> Done (NTE_INVALID_HANDLE, (), s)
       | Some pub \<Rightarrow>
           let padFlags = (if and dwFlags (wh_PAD_PKCS1 (we_hdr env)) \<noteq> 0 then wh_PAD_PKCS1 (we_hdr env)
                           else if and dwFlags (wh_PAD_PSS (we_hdr env)) \<noteq> 0 then wh_PAD_PSS (we_hdr env) else 0)
           in if \<not> bc_open (we_bcrypt env) then Done (NTE_INTERNAL_ERROR, (), s)
              else if \<not> bc_import (we_bcrypt env) pub then Done (NTE_INTERNAL_ERROR, (), s)
              else if \<not> bc_verify (we_bcrypt env) pub pPaddingInfo hash sig padFlags then Done (NTE_BAD_SIGNATURE, (), s)
              else Done (ERROR_SUCCESS, (), s))"

text \<open>\<open>terminating\<close>: whether the process ends, in which case the bridge is left alone.\<close>

definition DllMain_detach :: "bool \<Rightarrow> ksp_state \<Rightarrow> ksp_state" where
  "DllMain_detach terminating s =
     (if kw_bridgeReady s
      then s\<lparr>kw_bridgeReady := False, kw_process := (if terminating then kw_process s else tpmcert_shutdown (kw_process s))\<rparr>
      else s)"

end
