(* ===== verification/Ksp_Provider_Props.thy ===== *)
theory Ksp_Provider_Props
  imports Ksp_Provider P11_Props
begin

text \<open>
  The key storage provider as a module called from outside: its invariant, the calls that are safe, what an enumeration
  returns and what a signature is.
\<close>

section \<open>Calls\<close>

datatype ksp_call =
    KOpenProvider bool
  | KFreeProvider nat
  | KOpenKey nat bool "wstring option"
  | KFreeKey nat
  | KFreeBuffer nat
  | KGetProviderProperty ncrypt_property "bytes option" nat bool
  | KGetKeyProperty nat ncrypt_property "bytes option" nat bool
  | KIsAlgSupported wstring
  | KEnumAlgorithms bool bool
  | KEnumKeys bool "nat option"
  | KExportKey nat blob_type "bytes option" nat bool
  | KSignHash nat "bcrypt_alg option" "bytes option" "bytes option" nat bool "32 word"
  | KVerifySignature nat "bcrypt_alg option" bytes bytes "32 word"
  | KDetach bool

definition ksp_effect :: "'a ksp_ret \<Rightarrow> (security_status \<times> ksp_state) p11_run" where
  "ksp_effect r = run_bind r (\<lambda>(status, _, s). Done (status, s))"

fun ksp_exec :: "('k, 'ts, 'kp) ksp_env \<Rightarrow> ksp_call \<Rightarrow> ksp_state \<Rightarrow> (security_status \<times> ksp_state) p11_run" where
  "ksp_exec env (KOpenProvider ph) s = ksp_effect (KSPOpenProvider env ph s)"
| "ksp_exec env (KFreeProvider h) s = ksp_effect (KSPFreeProvider h s)"
| "ksp_exec env (KOpenKey h ph name) s = ksp_effect (KSPOpenKey env h ph name s)"
| "ksp_exec env (KFreeKey h) s = ksp_effect (KSPFreeKey h s)"
| "ksp_exec env (KFreeBuffer h) s = ksp_effect (KSPFreeBuffer h s)"
| "ksp_exec env (KGetProviderProperty prop mem n pn) s = ksp_effect (KSPGetProviderProperty env prop mem n pn s)"
| "ksp_exec env (KGetKeyProperty h prop mem n pn) s = ksp_effect (KSPGetKeyProperty env h prop mem n pn s)"
| "ksp_exec env (KIsAlgSupported alg) s = ksp_effect (KSPIsAlgSupported env alg s)"
| "ksp_exec env (KEnumAlgorithms pn pl) s = ksp_effect (KSPEnumAlgorithms env pn pl s)"
| "ksp_exec env (KEnumKeys pn st) s = ksp_effect (KSPEnumKeys env pn st s)"
| "ksp_exec env (KExportKey h t mem n pn) s = ksp_effect (KSPExportKey h t mem n pn s)"
| "ksp_exec env (KSignHash h pad hash sig n pn flags) s = ksp_effect (KSPSignHash env h pad hash sig n pn flags s)"
| "ksp_exec env (KVerifySignature h pad hash sig flags) s = ksp_effect (KSPVerifySignature env h pad hash sig flags s)"
| "ksp_exec env (KDetach terminating) s = Done (ERROR_SUCCESS, DllMain_detach terminating s)"

section \<open>The invariant\<close>

definition block_ok :: "ksp_block \<Rightarrow> bool" where
  "block_ok b = (case b of KEY_block k \<Rightarrow> kk_finished k | ENUM_block index count \<Rightarrow> index \<le> count | _ \<Rightarrow> True)"

definition blocks_ok :: "nat \<Rightarrow> (nat \<rightharpoonup> ksp_block) \<Rightarrow> bool" where
  "blocks_ok next bs \<longleftrightarrow> 0 < next \<and> (\<forall>a b. bs a = Some b \<longrightarrow> 0 < a \<and> a < next \<and> block_ok b)"

definition ksp_inv :: "c_heap \<Rightarrow> ksp_state \<Rightarrow> bool" where
  "ksp_inv h s \<longleftrightarrow> heap_ok (kw_heap s) \<and> hp_mem (kw_heap s) = hp_mem h \<and> blocks_ok (kw_next s) (kw_blocks s) \<and>
     (kw_bridgeReady s \<longrightarrow> pr_global (kw_process s) \<noteq> None)"

definition handle_ok :: "nat \<Rightarrow> ksp_state \<Rightarrow> bool" where
  "handle_ok h s \<longleftrightarrow> h = 0 \<or> h \<in> dom (kw_blocks s)"

definition out_ok :: "bytes option \<Rightarrow> nat \<Rightarrow> bool" where
  "out_ok mem n = (case mem of None \<Rightarrow> True | Some l \<Rightarrow> n \<le> length l)"

text \<open>A wide string is not longer than its UTF-8 form.\<close>

definition wide_ok :: "('k, 'ts, 'kp) ksp_env \<Rightarrow> bool" where
  "wide_ok env \<longleftrightarrow> (\<forall>x. length (we_wide env x) \<le> length x)"

text \<open>
  What a caller owes: handles that are NULL or live, memory as long as he says, names that fit and, for a search, a
  state of a search with fewer than 2^31 keys.
\<close>

fun ksp_ok :: "('k, 'ts, 'kp) ksp_env \<Rightarrow> ksp_call \<Rightarrow> ksp_state \<Rightarrow> bool" where
  "ksp_ok env (KFreeProvider h) s = handle_ok h s"
| "ksp_ok env (KOpenKey h ph name) s = (handle_ok h s \<and> (case name of None \<Rightarrow> True | Some w \<Rightarrow> length (we_utf8 env w) < 64))"
| "ksp_ok env (KFreeKey h) s = handle_ok h s"
| "ksp_ok env (KFreeBuffer h) s = handle_ok h s"
| "ksp_ok env (KGetProviderProperty prop mem n pn) s = out_ok mem n"
| "ksp_ok env (KGetKeyProperty h prop mem n pn) s = (handle_ok h s \<and> out_ok mem n)"
| "ksp_ok env (KEnumKeys pn st) s =
     (wide_ok env \<and> (case st of None \<Rightarrow> True | Some h \<Rightarrow>
        h = 0 \<or> (case kw_blocks s h of Some (ENUM_block index count) \<Rightarrow> 0 \<le> sint index | _ \<Rightarrow> False)))"
| "ksp_ok env (KExportKey h t mem n pn) s = (handle_ok h s \<and> out_ok mem n)"
| "ksp_ok env (KSignHash h pad hash sig n pn flags) s =
     (handle_ok h s \<and> out_ok sig n \<and> (case hash of None \<Rightarrow> True | Some d \<Rightarrow> length d < 2 ^ 31) \<and>
      (case kw_blocks s h of Some (KEY_block k) \<Rightarrow> length (we_utf8 env (kk_name k)) < 64 | _ \<Rightarrow> True))"
| "ksp_ok env (KVerifySignature h pad hash sig flags) s = handle_ok h s"
| "ksp_ok env c s = True"

section \<open>The bridge\<close>

lemma get_installed_outcome:
  assumes "get_installed keysOf e index (Some zero_info) h p = out"
  shows "(pr_global (bo_process out) = None \<longleftrightarrow> pr_global p = None) \<and>
    ((\<exists>code. bo_ret out = Returned code \<and> code \<noteq> 0 \<and> bo_heap out = h \<and> bo_info out = Some zero_info) \<or>
     (\<exists>k info h1. bo_ret out = Returned 0 \<and> bo_info out = Some info \<and> bo_heap out = h1 \<and> fillKeyInfo zero_info k h = (info, h1)) \<or>
     bo_ret out = Panics \<and> index < 0)"
proof (cases "pr_global p")
  case None
  with assms show ?thesis by (auto simp: get_installed_def bridge_ret_def)
next
  case (Some c)
  obtain c' r where k: "keysOf e c = (c', r)" by force
  show ?thesis
  proof (cases r)
    case (Inl err)
    with Some k assms show ?thesis by (auto simp: get_installed_def bridge_ret_def)
  next
    case (Inr keys)
    obtain info h1 where "fillKeyInfo zero_info (keys ! nat index) h = (info, h1)" by force
    with Some k Inr assms show ?thesis by (auto simp: get_installed_def bridge_ret_def Let_def split: if_split_asm)
  qed
qed

lemma find_installed_outcome:
  assumes "windows_find_installed e (Some tp) (Some zero_info) h p = out"
  shows "(pr_global (bo_process out) = None \<longleftrightarrow> pr_global p = None) \<and>
    ((\<exists>code. bo_ret out = Returned code \<and> code \<noteq> 0 \<and> bo_heap out = h \<and> bo_info out = Some zero_info) \<or>
     (\<exists>k info h1. bo_ret out = Returned 0 \<and> bo_info out = Some info \<and> bo_heap out = h1 \<and> fillKeyInfo zero_info k h = (info, h1)))"
  using assms
  by (fastforce simp: windows_find_installed_def bridge_ret_def Let_def split: option.splits prod.splits sum.splits)

lemma windows_sign_hash_outcome:
  assumes "length d < 2 ^ 31" and "out_ok sig n" and "windows_sign_hash e (Some tp) (Some d) (length d) a b sig (Some n) p = r"
  shows "(pr_global (sg_process r) = None \<longleftrightarrow> pr_global p = None) \<and> (\<exists>code l. sg_ret r = Returned code \<and> sg_sigLen r = Some l)"
proof -
  have "int32 (int (length d)) = int (length d)" using assms(1) by (intro int32_id) simp_all
  with assms(2,3) show ?thesis
    by (auto simp: windows_sign_hash_def sign_hash_def Let_def out_ok_def split: option.splits prod.splits sum.splits if_splits)
qed

lemma windows_sign_hash_client: "pr_global (sg_process (windows_sign_hash e tp d n a b sig l p)) = None \<longleftrightarrow> pr_global p = None"
  by (auto simp: windows_sign_hash_def sign_hash_def Let_def split: option.splits prod.splits sum.splits if_splits)

lemma windows_init_client: "windows_init e cfg p = (p', 0) \<Longrightarrow> pr_global p' \<noteq> None"
  by (auto simp: windows_init_def split: sum.splits prod.splits option.splits)

lemma windows_count_client: "windows_installed_count e p = (p', n) \<Longrightarrow> pr_global p' = None \<longleftrightarrow> pr_global p = None"
  by (auto simp: windows_installed_count_def installed_count_def split: option.splits prod.splits sum.splits)

section \<open>Every call keeps the invariant and, where it may be made, returns\<close>

text \<open>A result is good when the state satisfies the invariant; \<open>ok\<close>: whether it has to be a result at all.\<close>

definition good :: "c_heap \<Rightarrow> bool \<Rightarrow> 'a ksp_ret \<Rightarrow> bool" where
  "good h ok r = (case r of Done (status, out, s) \<Rightarrow> ksp_inv h s | _ \<Rightarrow> \<not> ok)"

lemma good_Done [simp]: "good h ok (Done (status, out, s)) \<longleftrightarrow> ksp_inv h s"
  by (simp add: good_def)

lemma good_Crash [simp]: "good h ok Crash \<longleftrightarrow> \<not> ok" "good h ok Hang \<longleftrightarrow> \<not> ok"
  by (simp_all add: good_def)

lemma good_bind:
  "(\<And>x. r = Done x \<Longrightarrow> good h ok (f x)) \<Longrightarrow> (ok \<Longrightarrow> \<exists>x. r = Done x) \<Longrightarrow> good h ok (run_bind r f)"
  by (cases r) auto

lemma good_effect:
  assumes "good h ok r"
  shows "ksp_effect r = Done (status, s) \<Longrightarrow> ksp_inv h s" and "ok \<Longrightarrow> \<exists>status s. ksp_effect r = Done (status, s)"
  using assms by (auto simp: good_def ksp_effect_def run_bind_Done split: p11_run.splits prod.splits)

lemma inv_HeapAlloc:
  assumes "ksp_inv h s" and "block_ok b"
  shows "ksp_inv h (snd (HeapAlloc b s))"
  using assms by (auto simp: ksp_inv_def HeapAlloc_def blocks_ok_def less_Suc_eq)

lemma inv_HeapFree: "ksp_inv h s \<Longrightarrow> HeapFree a s = Done s' \<Longrightarrow> ksp_inv h s'"
  by (auto simp: ksp_inv_def HeapFree_def blocks_ok_def split: if_splits)

lemma inv_set_block:
  "ksp_inv h s \<Longrightarrow> kw_blocks s a \<noteq> None \<Longrightarrow> block_ok b \<Longrightarrow> ksp_inv h (s\<lparr>kw_blocks := (kw_blocks s)(a \<mapsto> b)\<rparr>)"
  by (auto simp: ksp_inv_def blocks_ok_def)

lemma inv_kw_process: "ksp_inv h s \<Longrightarrow> (pr_global p = None \<longleftrightarrow> pr_global (kw_process s) = None) \<Longrightarrow> ksp_inv h (s\<lparr>kw_process := p\<rparr>)"
  by (simp add: ksp_inv_def)

lemma inv_kw_heap: "ksp_inv h s \<Longrightarrow> heap_ok hp \<Longrightarrow> hp_mem hp = hp_mem h \<Longrightarrow> ksp_inv h (s\<lparr>kw_heap := hp\<rparr>)"
  by (simp add: ksp_inv_def)

lemma good_copy_out: "ksp_inv h s \<Longrightarrow> good h (out_ok mem n) (copy_out v mem n pn s)"
  by (auto simp: copy_out_def out_ok_def split: option.split)

lemma validate_live:
  "handle_ok a s \<Longrightarrow> \<exists>k. KspValidateKeyHandle a s = Done k" "handle_ok a s \<Longrightarrow> \<exists>b. KspValidateProvHandle a s = Done b"
  by (auto simp: KspValidateKeyHandle_def KspValidateProvHandle_def handle_ok_def split: ksp_block.split)

lemma validate_key: "KspValidateKeyHandle a s = Done (Some k) \<longleftrightarrow> a \<noteq> 0 \<and> kw_blocks s a = Some (KEY_block k)"
  by (auto simp: KspValidateKeyHandle_def split: option.splits ksp_block.splits if_splits)

lemma validate_prov: "KspValidateProvHandle a s = Done True \<longleftrightarrow> a \<noteq> 0 \<and> kw_blocks s a = Some PROVIDER_block"
  by (auto simp: KspValidateProvHandle_def split: option.splits ksp_block.splits if_splits)

lemma good_with_key:
  assumes "\<And>k. kw_blocks s a = Some (KEY_block k) \<Longrightarrow> good h ok (f (Some k))" and "good h ok (f None)" and "ok \<Longrightarrow> handle_ok a s"
  shows "good h ok (run_bind (KspValidateKeyHandle a s) f)"
proof (rule good_bind)
  fix x assume x: "KspValidateKeyHandle a s = Done x"
  then show "good h ok (f x)" using assms(1,2) validate_key [of a s] by (cases x) auto
qed (use assms(3) validate_live in blast)

lemma fill_blob_mem:
  assumes "fillKeyInfo zero_info k h = (info, h1)"
  shows "tk_rsa_public_blob_len info = length (ki_RSAPublicBlob k)"
    and "ki_RSAPublicBlob k \<noteq> [] \<Longrightarrow> \<exists>a. tk_rsa_public_blob info = Some a \<and> hp_mem h1 a = Some (ki_RSAPublicBlob k)"
  using assms by (auto simp: fillKeyInfo_def Let_def malloc_copy_def zero_info_def split: if_splits)

lemma inv_EnsureBridge: "ksp_inv h s \<Longrightarrow> EnsureBridge env s = (status, s') \<Longrightarrow> ksp_inv h s'"
  by (auto simp: EnsureBridge_def ksp_inv_def Let_def split: if_splits prod.splits dest: windows_init_client)

lemma good_OpenProvider: "ksp_inv h s \<Longrightarrow> good h True (KSPOpenProvider env ph s)"
  using inv_HeapAlloc [of h _ PROVIDER_block]
  by (auto simp: KSPOpenProvider_def block_ok_def HeapAlloc_def split: prod.split dest: inv_EnsureBridge)

lemma good_free:
  assumes "ksp_inv h s"
  shows "good h (handle_ok a s) (KSPFreeProvider a s)" "good h (handle_ok a s) (KSPFreeKey a s)" "good h (handle_ok a s) (KSPFreeBuffer a s)"
proof -
  have free: "good h True (run_bind (HeapFree a s) (\<lambda>s. Done (ERROR_SUCCESS, (), s)))" if "kw_blocks s a \<noteq> None"
    using that assms by (intro good_bind) (auto simp: inv_HeapFree HeapFree_def)
  have weak: "good h True r \<Longrightarrow> good h ok r" for r :: "unit ksp_ret" and ok by (auto simp: good_def split: p11_run.splits)
  show "good h (handle_ok a s) (KSPFreeKey a s)"
    unfolding KSPFreeKey_def DeleteKeyObject_def
    by (rule good_with_key) (use free assms in \<open>auto intro: weak\<close>)
  show "good h (handle_ok a s) (KSPFreeProvider a s)"
    unfolding KSPFreeProvider_def
    by (rule good_bind) (use free assms validate_prov [of a s] validate_live [of a s] in \<open>auto intro: weak\<close>)
  show "good h (handle_ok a s) (KSPFreeBuffer a s)"
    using free assms by (cases "a \<in> dom (kw_blocks s)") (auto simp: KSPFreeBuffer_def HeapFree_def handle_ok_def intro: weak)
qed

text \<open>Taking a structure that the bridge has filled, keeping a block, and freeing the structure.\<close>

lemma inv_after_fill:
  assumes "ksp_inv h s" and "fillKeyInfo zero_info k (kw_heap s) = (info, h1)"
    and "pr_global p = None \<longleftrightarrow> pr_global (kw_process s) = None"
  obtains info' h2 where "tpmcert_free_key_info (Some info) h1 = Some (info', h2)"
    "\<And>t. kw_heap t = h2 \<Longrightarrow> kw_process t = p \<Longrightarrow> kw_bridgeReady t = kw_bridgeReady s \<Longrightarrow>
      blocks_ok (kw_next t) (kw_blocks t) \<Longrightarrow> ksp_inv h t"
proof -
  have "heap_ok (kw_heap s)" "hp_mem (kw_heap s) = hp_mem h" using assms(1) by (simp_all add: ksp_inv_def)
  with fill_then_free [OF _ assms(2)] obtain info' h2 where
    "tpmcert_free_key_info (Some info) h1 = Some (info', h2)" "hp_mem h2 = hp_mem h" "heap_ok h2" by auto
  with that assms(1,3) show thesis by (simp add: ksp_inv_def)
qed

lemma blocks_ok_new: "blocks_ok next bs \<Longrightarrow> block_ok b \<Longrightarrow> blocks_ok (Suc next) (bs(next \<mapsto> b))"
  by (auto simp: blocks_ok_def less_Suc_eq)

lemma good_StorageOpenKey:
  assumes "ksp_inv h s"
  shows "good h (length (we_utf8 env name) < 64) (StorageOpenKey env name s)"
proof (cases "length (we_utf8 env name) < 64")
  case True
  let ?tp = "we_utf8 env name @ [NUL]"
  let ?out = "windows_find_installed (we_bridge env 0) (Some ?tp) (Some zero_info) (kw_heap s) (kw_process s)"
  note o' = find_installed_outcome [OF refl, of "we_bridge env 0" ?tp "kw_heap s" "kw_process s"]
  then have g: "pr_global (bo_process ?out) = None \<longleftrightarrow> pr_global (kw_process s) = None" by blast
  have tp: "to_thumbprint env name = Done ?tp" using True by (simp add: to_thumbprint_def Let_def)
  have ok: "blocks_ok (kw_next s) (kw_blocks s)" using assms by (simp add: ksp_inv_def)
  from o' consider (miss) code where "bo_ret ?out = Returned code" "code \<noteq> 0" "bo_heap ?out = kw_heap s" "bo_info ?out = Some zero_info"
    | (hit) k info h1 where "bo_ret ?out = Returned 0" "bo_info ?out = Some info" "bo_heap ?out = h1"
      "fillKeyInfo zero_info k (kw_heap s) = (info, h1)" by blast
  then show ?thesis
  proof cases
    case miss
    with assms tp g show ?thesis by (simp add: StorageOpenKey_def Let_def inv_kw_process)
  next
    case hit
    obtain info' h2 where free: "tpmcert_free_key_info (Some info) h1 = Some (info', h2)"
      and inv: "\<And>t. kw_heap t = h2 \<Longrightarrow> kw_process t = bo_process ?out \<Longrightarrow> kw_bridgeReady t = kw_bridgeReady s \<Longrightarrow>
        blocks_ok (kw_next t) (kw_blocks t) \<Longrightarrow> ksp_inv h t"
      using inv_after_fill [OF assms hit(4) g] by blast
    have new: "blocks_ok (Suc (kw_next s)) ((kw_blocks s)(kw_next s \<mapsto> KEY_block key))" if "kk_finished key" for key
      using blocks_ok_new [OF ok, of "KEY_block key"] that by (simp add: block_ok_def)
    note blob = fill_blob_mem [OF hit(4)]
    show ?thesis
      using tp hit(1-3) free ok blob
      by (cases "ki_RSAPublicBlob k = []")
        (auto simp: StorageOpenKey_def CreateNewKeyObject_def HeapAlloc_def Let_def intro!: inv new)
  qed
next
  case False
  then show ?thesis by (simp add: StorageOpenKey_def to_thumbprint_def Let_def)
qed

text \<open>The arrays of the enumeration are long enough for what the bridge has put into the structure.\<close>

lemma wide_fits:
  assumes "fillKeyInfo zero_info k h = (info, h1)" and "wide_ok env"
  shows "length (we_wide env (c_string (tk_thumbprint info))) < 64" "length (we_wide env (c_string (tk_subject info))) < 512"
proof -
  have cut: "length (we_wide env (c_string (take n x))) \<le> n" for n and x :: string
  proof -
    have "length (we_wide env (c_string (take n x))) \<le> length (c_string (take n x))" using assms(2) by (simp add: wide_ok_def)
    also have "\<dots> \<le> length (take n x)" unfolding c_string_def by (rule length_takeWhile_le)
    also have "\<dots> \<le> n" by simp
    finally show ?thesis .
  qed
  show "length (we_wide env (c_string (tk_thumbprint info))) < 64" "length (we_wide env (c_string (tk_subject info))) < 512"
    using fill_strings(1,2) [OF assms(1)] cut [of 63 "ki_Thumbprint k"] cut [of 511 "ki_Subject k"] by simp_all
qed

lemma BuildKeyName_outcome:
  assumes "ksp_inv h s"
  shows "BuildKeyName env call memory index s = Done (a, s') \<Longrightarrow> ksp_inv h s' \<and> kw_bridgeReady s' = kw_bridgeReady s \<and>
      (a = 0 \<and> kw_blocks s' = kw_blocks s \<or> a = kw_next s \<and> (\<exists>w. kw_blocks s' = (kw_blocks s)(a \<mapsto> NAME_block w)))"
    and "0 \<le> index \<Longrightarrow> wide_ok env \<Longrightarrow> \<exists>a s'. BuildKeyName env call memory index s = Done (a, s')"
proof -
  let ?out = "windows_get_installed (we_bridge env call) index (Some zero_info) (kw_heap s) (kw_process s)"
  note o' = get_installed_outcome [OF refl, of windows_keys "we_bridge env call" index "kw_heap s" "kw_process s",
      folded windows_get_installed_def [THEN fun_cong, THEN fun_cong, THEN fun_cong, THEN fun_cong, THEN fun_cong]]
  then have g: "pr_global (bo_process ?out) = None \<longleftrightarrow> pr_global (kw_process s) = None" by blast
  have ok: "blocks_ok (kw_next s) (kw_blocks s)" using assms by (simp add: ksp_inv_def)
  from o' consider (miss) code where "bo_ret ?out = Returned code" "code \<noteq> 0" "bo_heap ?out = kw_heap s" "bo_info ?out = Some zero_info"
    | (hit) k info h1 where "bo_ret ?out = Returned 0" "bo_info ?out = Some info" "bo_heap ?out = h1"
      "fillKeyInfo zero_info k (kw_heap s) = (info, h1)"
    | (panic) "bo_ret ?out = Panics" "index < 0" by blast
  then have "(BuildKeyName env call memory index s = Done (a, s') \<longrightarrow> ksp_inv h s' \<and> kw_bridgeReady s' = kw_bridgeReady s \<and>
      (a = 0 \<and> kw_blocks s' = kw_blocks s \<or> a = kw_next s \<and> (\<exists>w. kw_blocks s' = (kw_blocks s)(a \<mapsto> NAME_block w)))) \<and>
      (0 \<le> index \<longrightarrow> wide_ok env \<longrightarrow> (\<exists>a s'. BuildKeyName env call memory index s = Done (a, s')))"
  proof cases
    case miss
    with assms g show ?thesis by (auto simp: BuildKeyName_def Let_def inv_kw_process)
  next
    case hit
    obtain info' h2 where free: "tpmcert_free_key_info (Some info) h1 = Some (info', h2)"
      and inv: "\<And>t. kw_heap t = h2 \<Longrightarrow> kw_process t = bo_process ?out \<Longrightarrow> kw_bridgeReady t = kw_bridgeReady s \<Longrightarrow>
        blocks_ok (kw_next t) (kw_blocks t) \<Longrightarrow> ksp_inv h t"
      using inv_after_fill [OF assms hit(4) g] by blast
    have new: "blocks_ok (Suc (kw_next s)) ((kw_blocks s)(kw_next s \<mapsto> NAME_block w))" for w
      using blocks_ok_new [OF ok, of "NAME_block w"] by (simp add: block_ok_def)
    show ?thesis
      using hit(1-3) free ok new wide_fits [OF hit(4), of env]
      by (auto simp: BuildKeyName_def AllocKeyNameFromInfo_def HeapAlloc_def Let_def split: if_split_asm intro!: inv)
  next
    case panic
    then show ?thesis by (auto simp: BuildKeyName_def Let_def)
  qed
  then show "BuildKeyName env call memory index s = Done (a, s') \<Longrightarrow> ksp_inv h s' \<and> kw_bridgeReady s' = kw_bridgeReady s \<and>
      (a = 0 \<and> kw_blocks s' = kw_blocks s \<or> a = kw_next s \<and> (\<exists>w. kw_blocks s' = (kw_blocks s)(a \<mapsto> NAME_block w)))"
    and "0 \<le> index \<Longrightarrow> wide_ok env \<Longrightarrow> \<exists>a s'. BuildKeyName env call memory index s = Done (a, s')" by blast+
qed

lemma count_word:
  assumes "windows_installed_count e p = (p', n)" and "n \<noteq> 0"
  shows "(1 :: 32 word) \<le> word_of_int n"
proof -
  from assms obtain x where n: "n = int32 x"
    by (auto simp: windows_installed_count_def installed_count_def split: option.splits prod.splits sum.splits)
  then have "word_of_int n = (word_of_int x :: 32 word)" by (simp add: int32_def)
  moreover have "word_of_int x \<noteq> (0 :: 32 word)" using n assms(2) by (auto simp: int32_def)
  ultimately show ?thesis by (simp add: word_le_nat_alt unat_gt_0 Suc_le_eq)
qed

lemma good_Begin:
  assumes "ksp_inv h s"
  shows "good h (wide_ok env) (StorageEnumKeysBegin env s)"
proof -
  obtain p count where cnt: "windows_installed_count (we_bridge env 0) (kw_process s) = (p, count)" by force
  let ?s1 = "s\<lparr>kw_process := p\<rparr>"
  have inv1: "ksp_inv h ?s1" using assms windows_count_client [OF cnt] by (simp add: inv_kw_process)
  obtain st s2 where alloc: "HeapAlloc (ENUM_block 0 (word_of_int count)) ?s1 = (st, s2)" by force
  then have inv2: "ksp_inv h s2"
    using inv_HeapAlloc [OF inv1, of "ENUM_block 0 (word_of_int count)"] by (simp add: block_ok_def)
  have st: "kw_blocks s2 st = Some (ENUM_block 0 (word_of_int count))" "kw_next s2 = Suc st"
    using alloc by (auto simp: HeapAlloc_def)
  have "good h (wide_ok env) (run_bind (BuildKeyName env 1 (we_alloc env 1) 0 s2) (\<lambda>(name, s).
      if name = 0 then run_bind (HeapFree st s) (\<lambda>s. Done (NTE_INTERNAL_ERROR, (Some 0, Some 0), s))
      else Done (ERROR_SUCCESS, (Some name, Some st), s\<lparr>kw_blocks := (kw_blocks s)(st \<mapsto> ENUM_block 1 (word_of_int count))\<rparr>)))"
    if "count \<noteq> 0"
  proof (rule good_bind)
    fix x assume x: "BuildKeyName env 1 (we_alloc env 1) 0 s2 = Done x"
    obtain name s3 where p: "x = (name, s3)" by (cases x)
    note b = BuildKeyName_outcome(1) [OF inv2 x [unfolded p]]
    then have "kw_blocks s3 st \<noteq> None" using st by auto
    then have "\<exists>s4. HeapFree st s3 = Done s4 \<and> ksp_inv h s4" "ksp_inv h (s3\<lparr>kw_blocks := (kw_blocks s3)(st \<mapsto> ENUM_block 1 (word_of_int count))\<rparr>)"
      using b inv_HeapFree [of h s3 st] inv_set_block [of h s3 st] count_word [OF cnt that] by (auto simp: HeapFree_def block_ok_def)
    with p show "good h (wide_ok env) (case x of (name, s) \<Rightarrow>
      if name = 0 then run_bind (HeapFree st s) (\<lambda>s. Done (NTE_INTERNAL_ERROR, (Some 0, Some 0), s))
      else Done (ERROR_SUCCESS, (Some name, Some st), s\<lparr>kw_blocks := (kw_blocks s)(st \<mapsto> ENUM_block 1 (word_of_int count))\<rparr>))"
      by auto
  qed (use BuildKeyName_outcome(2) [OF inv2, of 0 env 1 "we_alloc env 1"] in auto)
  with inv1 show ?thesis by (simp add: StorageEnumKeysBegin_def cnt Let_def alloc)
qed

lemma good_Next:
  assumes "ksp_inv h s" and "kw_blocks s st = Some (ENUM_block index count)"
  shows "good h (wide_ok env \<and> 0 \<le> sint index) (StorageEnumKeysNext env st s)"
proof (cases "count \<le> index")
  case True
  with assms show ?thesis by (simp add: StorageEnumKeysNext_def)
next
  case False
  have "st < kw_next s" using assms by (auto simp: ksp_inv_def blocks_ok_def)
  have up: "index + 1 \<le> count" using False by (simp add: inc_le)
  have "good h (wide_ok env \<and> 0 \<le> sint index) (run_bind (BuildKeyName env 0 (we_alloc env 0) (sint index) s) (\<lambda>(name, s).
      if name = 0 then Done (NTE_INTERNAL_ERROR, Some 0, s)
      else Done (ERROR_SUCCESS, Some name, s\<lparr>kw_blocks := (kw_blocks s)(st \<mapsto> ENUM_block (index + 1) count)\<rparr>)))"
  proof (rule good_bind)
    fix x assume x: "BuildKeyName env 0 (we_alloc env 0) (sint index) s = Done x"
    obtain name s3 where p: "x = (name, s3)" by (cases x)
    note b = BuildKeyName_outcome(1) [OF assms(1) x [unfolded p]]
    then have "kw_blocks s3 st \<noteq> None" using assms(2) by auto
    with b p up show "good h (wide_ok env \<and> 0 \<le> sint index) (case x of (name, s) \<Rightarrow>
      if name = 0 then Done (NTE_INTERNAL_ERROR, Some 0, s)
      else Done (ERROR_SUCCESS, Some name, s\<lparr>kw_blocks := (kw_blocks s)(st \<mapsto> ENUM_block (index + 1) count)\<rparr>))"
      using inv_set_block [of h s3 st] by (auto simp: block_ok_def)
  qed (use BuildKeyName_outcome(2) [OF assms(1)] in auto)
  with False assms(2) show ?thesis by (simp add: StorageEnumKeysNext_def)
qed

lemma good_SignHash:
  assumes "ksp_inv h s"
  shows "good h (ksp_ok env (KSignHash a pad hash sig n pn flags) s) (KSPSignHash env a pad hash sig n pn flags s)"
  unfolding KSPSignHash_def
proof (rule good_with_key, goal_cases)
  case (1 k)
  show ?case
  proof (cases "length (we_utf8 env (kk_name k)) < 64 \<and> out_ok sig n \<and> (case hash of None \<Rightarrow> True | Some d \<Rightarrow> length d < 2 ^ 31)")
    case True
    show ?thesis
    proof (cases hash)
      case (Some d)
      let ?r = "windows_sign_hash (we_bridge env 0) (Some (we_utf8 env (kk_name k) @ [NUL])) (Some d) (length d)
        (HashAlgFromPadding pad (length d)) (if and flags (wh_PAD_PSS (we_hdr env)) \<noteq> 0 then 2 else 1) sig (Some n) (kw_process s)"
      from True Some obtain code l where "pr_global (sg_process ?r) = None \<longleftrightarrow> pr_global (kw_process s) = None"
        "sg_ret ?r = Returned code" "sg_sigLen ?r = Some l"
        using windows_sign_hash_outcome [OF _ _ refl, of d sig n] by simp blast
      with True Some assms show ?thesis by (simp add: to_thumbprint_def Let_def inv_kw_process)
    qed (use assms in simp)
  next
    case False
    then have "\<not> ksp_ok env (KSignHash a pad hash sig n pn flags) s" using 1 by auto
    then show ?thesis
      using assms
      by (auto simp: to_thumbprint_def Let_def inv_kw_process windows_sign_hash_client split: option.split cgo.split)
  qed
qed (use assms in auto)

lemma good_ok: "good h ok r \<Longrightarrow> (ok' \<Longrightarrow> ok) \<Longrightarrow> good h ok' r"
  by (auto simp: good_def split: p11_run.splits)

lemma ksp_exec_good:
  assumes "ksp_inv h s"
  shows "(ksp_exec env c s = Done (status, s') \<longrightarrow> ksp_inv h s') \<and> (ksp_ok env c s \<longrightarrow> (\<exists>status s'. ksp_exec env c s = Done (status, s')))"
proof -
  have copy: "good h (out_ok mem n) (CopyWideProperty w mem n pn s)" "good h (out_ok mem n) (CopyDwordProperty d mem n pn s)" for mem n w pn d
    using assms by (simp_all add: CopyWideProperty_def CopyDwordProperty_def good_copy_out)
  show ?thesis
  proof (cases c)
    case (KOpenProvider ph)
    then show ?thesis using good_effect [OF good_OpenProvider [OF assms], of env ph] by auto
  next
    case (KFreeProvider a)
    then show ?thesis using good_effect [OF good_free(1) [OF assms], of a] by auto
  next
    case (KOpenKey a ph name)
    have "good h (ksp_ok env (KOpenKey a ph name) s) (KSPOpenKey env a ph name s)"
      unfolding KSPOpenKey_def
    proof (rule good_bind)
      fix x assume "KspValidateProvHandle a s = Done x"
      show "good h (ksp_ok env (KOpenKey a ph name) s) (if \<not> x then Done (NTE_INVALID_HANDLE, None, s)
         else if \<not> ph then Done (NTE_INVALID_PARAMETER, None, s)
         else case name of None \<Rightarrow> Done (NTE_INVALID_PARAMETER, None, s) | Some name \<Rightarrow> StorageOpenKey env name s)"
        using assms good_StorageOpenKey [OF assms, of env] by (auto split: option.split intro: good_ok)
    qed (use validate_live in auto)
    then show ?thesis using good_effect KOpenKey by auto
  next
    case (KFreeKey a)
    then show ?thesis using good_effect [OF good_free(2) [OF assms], of a] by auto
  next
    case (KFreeBuffer a)
    then show ?thesis using good_effect [OF good_free(3) [OF assms], of a] by auto
  next
    case (KGetProviderProperty pp mem n pn)
    have "good h (out_ok mem n) (KSPGetProviderProperty env pp mem n pn s)"
      using assms copy by (simp add: KSPGetProviderProperty_def)
    then show ?thesis using good_effect KGetProviderProperty by auto
  next
    case (KGetKeyProperty a pp mem n pn)
    have "good h (handle_ok a s \<and> out_ok mem n) (KSPGetKeyProperty env a pp mem n pn s)"
      unfolding KSPGetKeyProperty_def
      by (rule good_with_key) (auto simp: assms intro!: copy(1) [THEN good_ok] copy(2) [THEN good_ok])
    then show ?thesis using good_effect KGetKeyProperty by auto
  next
    case (KIsAlgSupported alg)
    then show ?thesis using assms by (auto simp: KSPIsAlgSupported_def ksp_effect_def)
  next
    case (KEnumAlgorithms pn pl)
    have "good h True (KSPEnumAlgorithms env pn pl s)"
      using assms inv_HeapAlloc [OF assms, of "ALG_block (wh_RSA (we_hdr env))"]
      by (auto simp: KSPEnumAlgorithms_def block_ok_def HeapAlloc_def)
    then show ?thesis using good_effect KEnumAlgorithms by auto
  next
    case (KEnumKeys pn st)
    have "good h (ksp_ok env (KEnumKeys pn st) s) (KSPEnumKeys env pn st s)"
    proof (cases "st = None \<or> st = Some 0")
      case True
      then show ?thesis using assms good_Begin [OF assms, of env] by (auto simp: KSPEnumKeys_def intro: good_ok)
    next
      case False
      then obtain a where a: "st = Some a" "a \<noteq> 0" by auto
      have "good h (ksp_ok env (KEnumKeys pn st) s) (run_bind (StorageEnumKeysNext env a s) (\<lambda>(status, name, s). Done (status, (name, None :: nat option), s)))"
      proof (cases "\<exists>index count. kw_blocks s a = Some (ENUM_block index count)")
        case True
        then obtain index count where e: "kw_blocks s a = Some (ENUM_block index count)" by blast
        with good_Next [OF assms e, of env] a show ?thesis
          by (cases "StorageEnumKeysNext env a s") (auto split: prod.split)
      next
        case False
        then show ?thesis using a by (auto simp: StorageEnumKeysNext_def split: option.split ksp_block.split)
      qed
      with a assms show ?thesis by (simp add: KSPEnumKeys_def)
    qed
    then show ?thesis using good_effect KEnumKeys by auto
  next
    case (KExportKey a t mem n pn)
    have "good h (handle_ok a s \<and> out_ok mem n) (KSPExportKey a t mem n pn s)"
      unfolding KSPExportKey_def
      by (rule good_with_key) (auto simp: assms intro!: good_copy_out [OF assms, THEN good_ok])
    then show ?thesis using good_effect KExportKey by auto
  next
    case (KSignHash a pad hash sig n pn flags)
    then show ?thesis using good_effect [OF good_SignHash [OF assms], of env a pad hash sig n pn flags] by auto
  next
    case (KVerifySignature a pad hash sig flags)
    have "good h (handle_ok a s) (KSPVerifySignature env a pad hash sig flags s)"
      unfolding KSPVerifySignature_def
      by (rule good_with_key) (use assms in \<open>auto simp: Let_def split: option.split\<close>)
    then show ?thesis using good_effect KVerifySignature by auto
  next
    case (KDetach terminating)
    then show ?thesis using assms by (auto simp: DllMain_detach_def ksp_inv_def)
  qed
qed

interpretation ksp: called_module ksp_exec "ksp_inv h" ksp_ok for h
  by unfold_locales (blast dest: ksp_exec_good)+

lemma ksp_inv_start: "heap_ok h \<Longrightarrow> ksp_inv h (ksp_start h)"
  by (simp add: ksp_inv_def ksp_start_def blocks_ok_def)

text \<open>
  C22: the provider is safe. A caller that passes handles that are NULL or live, memory as long as it says and names that
  fit sees every call return, with no access outside an allocated structure; afterwards every key is finished, every
  enumeration is within its count, and no memory that the bridge allocated for a call is left.
\<close>

theorem ksp_safe:
  assumes "heap_ok h" and "calls_ok ksp_exec ksp_ok cs (ksp_start h)"
  shows "\<exists>statuses s. run_calls ksp_exec cs (ksp_start h) = Done (statuses, s) \<and> length statuses = length cs \<and> ksp_inv h s"
  using ksp.run_returns [OF ksp_inv_start [OF assms(1)] assms(2)] by blast

text \<open>A caller without keys: every call is allowed, whatever the earlier ones returned.\<close>

definition demo_ksp_env :: "(nat, nat, nat) ksp_env" where
  "demo_ksp_env = \<lparr>we_hdr = \<lparr>wh_RSA = [82, 83, 65], wh_IMPL_SOFTWARE = 2, wh_ALLOW_EXPORT = 1, wh_ALLOW_SIGNING = 2,
       wh_PAD_PKCS1 = 2, wh_PAD_PSS = 8\<rparr>,
     we_utf8 = map (\<lambda>u. char_of (unat u)), we_wide = map (\<lambda>c. of_nat (of_char c)),
     we_bcrypt = \<lparr>bc_open = True, bc_import = (\<lambda>_. True), bc_verify = (\<lambda>pub pad d sig flags. sig = d)\<rparr>,
     we_bridge = (\<lambda>_. demo_connected), we_alloc = (\<lambda>_. True)\<rparr>"

lemma demo_wide_ok: "wide_ok demo_ksp_env"
  by (simp add: wide_ok_def demo_ksp_env_def)

theorem ksp_safe_witness:
  "\<exists>statuses s. run_calls ksp_exec [(demo_ksp_env, KOpenProvider True), (demo_ksp_env, KEnumKeys True (Some 0)),
      (demo_ksp_env, KOpenKey 0 True (Some [65])), (demo_ksp_env, KDetach False)] (ksp_start demo_heap) = Done (statuses, s) \<and>
     length statuses = 4 \<and> ksp_inv demo_heap s"
proof -
  have "calls_ok ksp_exec ksp_ok [(demo_ksp_env, KOpenProvider True), (demo_ksp_env, KEnumKeys True (Some 0)),
      (demo_ksp_env, KOpenKey 0 True (Some [65])), (demo_ksp_env, KDetach False)] (ksp_start demo_heap)"
    by (simp add: demo_wide_ok handle_ok_def split: p11_run.split prod.split) (simp add: demo_ksp_env_def)
  from ksp_safe [OF demo_heap_ok this] show ?thesis by (simp add: eval_nat_numeral del: run_calls.simps)
qed

section \<open>Enumeration\<close>

text \<open>A caller that asks for names until there are none, at most \<open>n\<close> times; \<open>st\<close> is where the state of the search is kept.\<close>

fun enum_names :: "('k, 'ts, 'kp) ksp_env \<Rightarrow> nat \<Rightarrow> nat \<Rightarrow> ksp_state \<Rightarrow> (wstring list \<times> security_status \<times> ksp_state) p11_run" where
  "enum_names env 0 st s = Done ([], ERROR_SUCCESS, s)"
| "enum_names env (Suc n) st s =
     run_bind (KSPEnumKeys env True (Some st) s) (\<lambda>(status, (name, st'), s).
       if status \<noteq> ERROR_SUCCESS then Done ([], status, s)
       else case Option.bind name (kw_blocks s) of
              Some (NAME_block w) \<Rightarrow>
                run_bind (enum_names env n (case st' of Some a \<Rightarrow> a | None \<Rightarrow> st) s) (\<lambda>(ws, status, s). Done (w # ws, status, s))
            | _ \<Rightarrow> Crash)"

definition key_name :: "('k, 'ts, 'kp) ksp_env \<Rightarrow> KeyInfo \<Rightarrow> wstring" where
  "key_name env k = we_wide env (c_string (take 63 (ki_Thumbprint k)))"

lemma BuildKeyName_key:
  assumes "we_bridge env j = e" and "windows_keys e c = (c, Ok keys)" and "pr_global (kw_process s) = Some c" and "i < length keys"
    and "heap_ok (kw_heap s)" and "wide_ok env"
  shows "\<exists>hp. BuildKeyName env j True (int i) s =
    Done (kw_next s, s\<lparr>kw_next := Suc (kw_next s), kw_blocks := (kw_blocks s)(kw_next s \<mapsto> NAME_block (key_name env (keys ! i))), kw_heap := hp\<rparr>) \<and>
    heap_ok hp"
proof -
  obtain info h1 where fill: "fillKeyInfo zero_info (keys ! i) (kw_heap s) = (info, h1)" by force
  have get: "windows_get_installed e (int i) (Some zero_info) (kw_heap s) (kw_process s) = bridge_ret (kw_process s) h1 (Some info) 0"
    using assms(2-4) fill by (simp add: windows_get_installed_def get_installed_def Let_def process_same)
  obtain info' h2 where free: "tpmcert_free_key_info (Some info) h1 = Some (info', h2)" "heap_ok h2"
    using fill_then_free [OF assms(5) fill] by blast
  have name: "c_string (tk_thumbprint info) = c_string (take 63 (ki_Thumbprint (keys ! i)))" using fill_strings(1) [OF fill] .
  note wide_fits [OF fill assms(6)]
  with free show ?thesis
    by (intro exI [of _ h2]) (simp add: BuildKeyName_def assms(1) get bridge_ret_def AllocKeyNameFromInfo_def HeapAlloc_def name key_name_def Let_def)
qed

lemma enum_rest:
  assumes "\<And>j. we_bridge env j = e" and "\<And>j. we_alloc env j" and "windows_keys e c = (c, Ok keys)" and "wide_ok env"
    and "length keys < 2 ^ 31" and "pr_global (kw_process s) = Some c" and "heap_ok (kw_heap s)"
    and "i \<le> length keys" and "length keys - i < n" and "st \<noteq> 0" and "st < kw_next s"
    and "kw_blocks s st = Some (ENUM_block (word_of_nat i) (word_of_nat (length keys)))"
  shows "\<exists>s'. enum_names env n st s = Done (map (key_name env) (drop i keys), NTE_NO_MORE_ITEMS, s')"
  using assms(6-12)
proof (induction n arbitrary: i s)
  case (Suc n)
  have un: "unat (word_of_nat m :: 32 word) = m" if "m \<le> length keys" for m
    using that assms(5) by (simp add: unat_of_nat)
  show ?case
  proof (cases "i = length keys")
    case True
    with Suc.prems(5,7) show ?thesis by (simp add: KSPEnumKeys_def StorageEnumKeysNext_def)
  next
    case False
    then have i: "i < length keys" using Suc.prems(3) by simp
    have lt: "\<not> (word_of_nat (length keys) :: 32 word) \<le> word_of_nat i"
      using i un [of i] un [of "length keys"] by (simp add: word_le_nat_alt)
    have sint: "sint (word_of_nat i :: 32 word) = int i"
      using int32_small [of i] i assms(5) by (simp add: int32_def)
    obtain hp where b: "BuildKeyName env 0 True (int i) s = Done (kw_next s, s\<lparr>kw_next := Suc (kw_next s),
        kw_blocks := (kw_blocks s)(kw_next s \<mapsto> NAME_block (key_name env (keys ! i))), kw_heap := hp\<rparr>)" "heap_ok hp"
      using BuildKeyName_key [OF assms(1,3) Suc.prems(1) i Suc.prems(2) assms(4)] by blast
    let ?s = "s\<lparr>kw_next := Suc (kw_next s), kw_blocks := ((kw_blocks s)(kw_next s \<mapsto> NAME_block (key_name env (keys ! i))))
        (st \<mapsto> ENUM_block (word_of_nat (Suc i)) (word_of_nat (length keys))), kw_heap := hp\<rparr>"
    have one: "KSPEnumKeys env True (Some st) s = Done (ERROR_SUCCESS, (Some (kw_next s), None), ?s)"
      using Suc.prems(5,6,7) lt sint b(1) assms(2)
      by (simp add: KSPEnumKeys_def StorageEnumKeysNext_def add.commute)
    have "\<exists>s'. enum_names env n st ?s = Done (map (key_name env) (drop (Suc i) keys), NTE_NO_MORE_ITEMS, s')"
      using Suc.prems i b(2) by (intro Suc.IH) auto
    with one Suc.prems(6) i show ?thesis by (auto simp: Cons_nth_drop_Suc [symmetric])
  qed
qed simp

text \<open>
  C27: an enumeration returns every key once. With a connected bridge, memory, and the same list of installed keys throughout,
  a caller that begins with no state and asks until it is told that there are no more items gets, after as many calls as
  there are keys and one more, the name of every key, which is its thumbprint, once and in the order of the list.
\<close>

theorem KSPEnumKeys_complete:
  assumes "ksp_inv h s" and "\<And>j. we_bridge env j = e" and "\<And>j. we_alloc env j" and "wide_ok env"
    and "pr_global (kw_process s) = Some c" and "windows_keys e c = (c', Ok keys)" and "length keys < 2 ^ 31" and "length keys < n"
  shows "\<exists>s'. enum_names env n 0 s = Done (map (key_name env) keys, NTE_NO_MORE_ITEMS, s')"
proof -
  obtain m where n: "n = Suc m" using assms(8) by (cases n) auto
  let ?p = "(kw_process s)\<lparr>pr_global := Some c'\<rparr>"
  have cnt: "windows_installed_count (we_bridge env 0) (kw_process s) = (?p, int (length keys))"
    using assms(5,6,7) by (simp add: assms(2) windows_installed_count_def installed_count_def int32_small)
  have keys: "windows_keys e c' = (c', Ok keys)" using wks.stable [OF assms(6)] .
  show ?thesis
  proof (cases "keys = []")
    case True
    then show ?thesis by (simp add: n KSPEnumKeys_def StorageEnumKeysBegin_def cnt Let_def)
  next
    case False
    let ?n = "word_of_nat (length keys) :: 32 word"
    let ?s1 = "s\<lparr>kw_process := ?p, kw_next := Suc (kw_next s), kw_blocks := (kw_blocks s)(kw_next s \<mapsto> ENUM_block 0 ?n)\<rparr>"
    have h: "heap_ok (kw_heap ?s1)" "0 < kw_next s" using assms(1) by (simp_all add: ksp_inv_def blocks_ok_def)
    have zero: "0 < length keys" using False by simp
    then have lens: "1 \<le> length keys" "length keys - 1 < m" using assms(8) n by linarith+
    obtain hp where b: "BuildKeyName env 1 True 0 ?s1 = Done (kw_next ?s1, ?s1\<lparr>kw_next := Suc (kw_next ?s1),
        kw_blocks := (kw_blocks ?s1)(kw_next ?s1 \<mapsto> NAME_block (key_name env (keys ! 0))), kw_heap := hp\<rparr>)" "heap_ok hp"
      using BuildKeyName_key [of env 1 e c' keys ?s1 0, OF assms(2) keys _ zero h(1) assms(4)] by auto
    let ?s = "s\<lparr>kw_process := ?p, kw_next := Suc (Suc (kw_next s)), kw_blocks := ((kw_blocks s)(kw_next s \<mapsto> ENUM_block 0 ?n,
        Suc (kw_next s) \<mapsto> NAME_block (key_name env (keys ! 0))))(kw_next s \<mapsto> ENUM_block 1 ?n), kw_heap := hp\<rparr>"
    have one: "KSPEnumKeys env True (Some 0) s = Done (ERROR_SUCCESS, (Some (Suc (kw_next s)), Some (kw_next s)), ?s)"
      using False assms(3) b(1) by (simp add: KSPEnumKeys_def StorageEnumKeysBegin_def cnt Let_def HeapAlloc_def)
    have "\<exists>s'. enum_names env m (kw_next s) ?s = Done (map (key_name env) (drop 1 keys), NTE_NO_MORE_ITEMS, s')"
      using lens h(2) b(2) assms(7) by (intro enum_rest [OF assms(2,3) keys assms(4)]) simp_all
    with one False show ?thesis by (cases keys) (auto simp: n)
  qed
qed

text \<open>A provider that is connected and has one handle open.\<close>

definition demo_ksp :: ksp_state where
  "demo_ksp = \<lparr>kw_bridgeReady = True, kw_process = demo_process, kw_heap = demo_heap, kw_next = 2, kw_blocks = [1 \<mapsto> PROVIDER_block]\<rparr>"

lemma demo_ksp_inv: "ksp_inv demo_heap demo_ksp"
  by (auto simp: ksp_inv_def demo_ksp_def demo_heap_ok blocks_ok_def block_ok_def demo_process_def)

lemma demo_windows_keys:
  "windows_keys demo_connected demo_client =
     (demo_client\<lparr>cl_cachedList := remoteKeys demo_uc demo_lib demo_remote, cl_cachedAt := Some 5\<rparr>, Ok (remoteKeys demo_uc demo_lib demo_remote))"
  by (simp add: windows_keys_def InstalledKeys_def demo_connected_def demo_bridge_env_def demo_refresh)

lemma demo_keys_thumbprint: "\<exists>k. remoteKeys demo_uc demo_lib demo_remote = [k] \<and> ki_Thumbprint k = ''AABB''"
proof -
  have "NormalizeThumbprint demo_uc ''aa:bb'' = ''AABB''" by code_simp
  then show ?thesis by (simp add: remoteKeys_def demo_remote_def keyInfoOf_def Let_def)
qed

theorem KSPEnumKeys_complete_witness:
  "\<exists>s'. enum_names demo_ksp_env 2 0 demo_ksp = Done ([[65, 65, 66, 66]], NTE_NO_MORE_ITEMS, s')"
proof -
  obtain k where k: "remoteKeys demo_uc demo_lib demo_remote = [k]" "ki_Thumbprint k = ''AABB''" using demo_keys_thumbprint by blast
  have "\<exists>s'. enum_names demo_ksp_env 2 0 demo_ksp = Done (map (key_name demo_ksp_env) (remoteKeys demo_uc demo_lib demo_remote), NTE_NO_MORE_ITEMS, s')"
    by (rule KSPEnumKeys_complete [OF demo_ksp_inv _ _ demo_wide_ok _ demo_windows_keys])
      (simp_all add: demo_ksp_env_def demo_ksp_def demo_process_def demo_remote_length)
  moreover have "key_name demo_ksp_env k = [65, 65, 66, 66]" using k(2) by (simp add: key_name_def demo_ksp_env_def c_string_def NUL_def)
  ultimately show ?thesis using k by simp
qed

section \<open>Signatures\<close>

text \<open>
  What the provider is to ask of the service for a digest: the hash function that the padding information names or, without
  one that the service knows, the one whose digests have this length, SHA-256 for a length that none of them has.
\<close>

fun named_hash :: "bcrypt_alg option \<Rightarrow> proto_HashAlgorithm option" where
  "named_hash (Some BCRYPT_SHA256_ALGORITHM) = Some HashAlgorithm_SHA256"
| "named_hash (Some BCRYPT_SHA384_ALGORITHM) = Some HashAlgorithm_SHA384"
| "named_hash (Some BCRYPT_SHA512_ALGORITHM) = Some HashAlgorithm_SHA512"
| "named_hash (Some BCRYPT_other_algorithm) = None"
| "named_hash None = None"

definition ksp_request :: "string \<Rightarrow> bcrypt_alg option \<Rightarrow> bytes \<Rightarrow> bool \<Rightarrow> SignHashRequest" where
  "ksp_request tp pad d pss =
     \<lparr>rq_Thumbprint = tp, rq_Digest = d,
      rq_HashAlgorithm = (case named_hash pad of
          Some hash \<Rightarrow> hash
        | None \<Rightarrow> (case map_of [(48, HashAlgorithm_SHA384), (64, HashAlgorithm_SHA512)] (length d) of
            Some hash \<Rightarrow> hash | None \<Rightarrow> HashAlgorithm_SHA256)),
      rq_RsaPadding = (if pss then RSAPadding_PSS else RSAPadding_PKCS1)\<rparr>"

lemma ksp_request_hash: "HashAlgFromInt (HashAlgFromPadding pad (length d)) = rq_HashAlgorithm (ksp_request tp pad d pss)"
  by (cases pad rule: named_hash.cases) (simp_all add: ksp_request_def HashAlgFromPadding_def HashAlgFromInt_def)

text \<open>A name that Windows hands over as ASCII, and the thumbprint that it spells.\<close>

definition plain_name :: "string \<Rightarrow> bool" where
  "plain_name tp \<longleftrightarrow> is_ascii tp \<and> ctrl_free tp \<and> CHR 0x00 \<notin> set tp"

definition spelled :: "string \<Rightarrow> string" where
  "spelled tp = map ascii_upper (filter (\<lambda>ch. ch \<notin> {CHR '':'', CHR '' '', CHR ''-''}) tp)"

lemma spelled_normal:
  assumes "plain_name tp"
  shows "NormalizeThumbprint uc tp = spelled tp" "NormalizeThumbprint uc (spelled tp) = spelled tp"
proof -
  have sep: "is_sep = (\<lambda>ch. ch \<in> {CHR '':'', CHR '' '', CHR ''-''})" by (auto simp: is_sep_def)
  show n: "NormalizeThumbprint uc tp = spelled tp"
    using assms NormalizeThumbprint_closed [of tp uc] unfolding sep by (simp add: plain_name_def spelled_def)
  show "NormalizeThumbprint uc (spelled tp) = spelled tp"
    using assms NormalizeThumbprint_idem [of tp uc] by (simp add: n plain_name_def)
qed

lemma c_string_terminated: "NUL \<notin> set u \<Longrightarrow> c_string (u @ [NUL]) = u"
  using c_string_NUL [of u "[]"] by (auto simp: c_string_def takeWhile_eq_all_conv)

lemma FindInstalled_spelled:
  assumes "plain_name tp" and "windows_keys e c = (c', Ok keys)"
  shows "FindInstalled (be_uc e) (be_lib e) (be_rpc e) (be_now e) (be_later e) (be_byProvider e) tp c =
    (c', case find (\<lambda>k. ki_Thumbprint k = spelled tp) keys of Some k \<Rightarrow> Ok k | None \<Rightarrow> Err ErrNotInstalled)"
  using assms spelled_normal(1) [OF assms(1)] by (simp add: FindInstalled_def windows_keys_def)

text \<open>Opening a key, as the bridge's list says.\<close>

lemma StorageOpenKey_eq:
  assumes "ksp_inv h s" and "pr_global (kw_process s) = Some c" and "we_bridge env 0 = e" and "\<And>j. we_alloc env j"
    and "plain_name (we_utf8 env name)" and "length (we_utf8 env name) < 64" and "windows_keys e c = (c', Ok keys)"
    and "find (\<lambda>k. ki_Thumbprint k = spelled (we_utf8 env name)) keys = Some key"
  shows "\<exists>hp. StorageOpenKey env name s = Done (ERROR_SUCCESS, Some (kw_next s),
    s\<lparr>kw_process := (kw_process s)\<lparr>pr_global := Some c'\<rparr>, kw_next := Suc (kw_next s), kw_blocks := (kw_blocks s)(kw_next s \<mapsto>
      KEY_block \<lparr>kk_name = name, kk_bits = word_of_int (ki_KeySize key), kk_export_policy = wh_ALLOW_EXPORT (we_hdr env),
        kk_usage_policy = wh_ALLOW_SIGNING (we_hdr env), kk_finished = True,
        kk_pub = (if ki_RSAPublicBlob key = [] then None else Some (ki_RSAPublicBlob key))\<rparr>), kw_heap := hp\<rparr>)"
proof -
  let ?tp = "we_utf8 env name"
  have u: "c_string (?tp @ [NUL]) = ?tp" using assms(5) by (intro c_string_terminated) (simp add: plain_name_def NUL_def)
  obtain info h1 where fill: "fillKeyInfo zero_info key (kw_heap s) = (info, h1)" by force
  have get: "windows_find_installed e (Some (?tp @ [NUL])) (Some zero_info) (kw_heap s) (kw_process s) =
      bridge_ret ((kw_process s)\<lparr>pr_global := Some c'\<rparr>) h1 (Some info) 0"
    using assms(2,8) fill FindInstalled_spelled [OF assms(5,7)] by (simp add: windows_find_installed_def u)
  have "heap_ok (kw_heap s)" using assms(1) by (simp add: ksp_inv_def)
  from fill_then_free [OF this fill] obtain info' h2 where free: "tpmcert_free_key_info (Some info) h1 = Some (info', h2)" by blast
  note blob = fill_blob_mem [OF fill]
  show ?thesis
    using assms(4,6) free blob fill_strings(3) [OF fill]
    by (intro exI [of _ h2], cases "ki_RSAPublicBlob key = []")
      (auto simp: StorageOpenKey_def to_thumbprint_def assms(3) get bridge_ret_def CreateNewKeyObject_def HeapAlloc_def Let_def)
qed

text \<open>
  C19: opening and signing. In a provider that is connected, for a name in ASCII, without control characters, of fewer than 64:
  the thumbprint that it spells is the name in upper case without the separators. If no installed key has this
  thumbprint, \<^verbatim>\<open>KSPOpenKey\<close> returns \<^verbatim>\<open>NTE_BAD_KEYSET\<close> and opens nothing. If one has, it returns a handle, whose key has the size
  and the public key of the installed one, and \<^verbatim>\<open>KSPSignHash\<close> on the handle asks the service to sign the digest under this
  thumbprint, with the hash function that the padding information names or else the length of the digest, and with the padding of the flags, and
  returns the service's signature when it fits the buffer, the rest of which stays as it is.
\<close>

theorem KSPSignHash_is_the_services:
  assumes "ksp_inv h s" and "kw_blocks s hProvider = Some PROVIDER_block" and "pr_global (kw_process s) = Some c"
    and "\<And>j. we_bridge env j = e" and "\<And>j. we_alloc env j" and "wh_ALLOW_SIGNING (we_hdr env) \<noteq> 0"
    and "we_utf8 env name = tp" and "plain_name tp" and "length tp < 64"
    and "windows_keys e c = (c', Ok keys)" and "0 < length d" and "length d < 2 ^ 31"
    and "rpc_SignHash (be_rpc e) (ksp_request (spelled tp) pad d (and flags (wh_PAD_PSS (we_hdr env)) \<noteq> 0)) = Ok r"
    and "length (rp_Signature r) \<le> n" and "n \<le> length mem"
  shows "case find (\<lambda>k. ki_Thumbprint k = spelled tp) keys of
      None \<Rightarrow> \<exists>s'. KSPOpenKey env hProvider True (Some name) s = Done (NTE_BAD_KEYSET, None, s') \<and> kw_blocks s' = kw_blocks s
    | Some key \<Rightarrow> \<exists>a s' k s''. KSPOpenKey env hProvider True (Some name) s = Done (ERROR_SUCCESS, Some a, s') \<and>
        kw_blocks s' a = Some (KEY_block k) \<and> kk_name k = name \<and> kk_bits k = word_of_int (ki_KeySize key) \<and>
        kk_pub k = (if ki_RSAPublicBlob key = [] then None else Some (ki_RSAPublicBlob key)) \<and>
        KSPSignHash env a pad (Some d) (Some mem) n True flags s' =
          Done (ERROR_SUCCESS, (Some (rp_Signature r @ drop (length (rp_Signature r)) mem), Some (length (rp_Signature r))), s'')"
proof -
  have prov: "hProvider \<noteq> 0" using assms(1,2) by (auto simp: ksp_inv_def blocks_ok_def)
  have u: "c_string (tp @ [NUL]) = tp" using assms(8) by (intro c_string_terminated) (simp add: plain_name_def NUL_def)
  have open': "KSPOpenKey env hProvider True (Some name) s = StorageOpenKey env name s"
    using prov assms(2) by (simp add: KSPOpenKey_def KspValidateProvHandle_def)
  show ?thesis
  proof (cases "find (\<lambda>k. ki_Thumbprint k = spelled tp) keys")
    case None
    then have "windows_find_installed e (Some (tp @ [NUL])) (Some zero_info) (kw_heap s) (kw_process s) =
        bridge_ret ((kw_process s)\<lparr>pr_global := Some c'\<rparr>) (kw_heap s) (Some zero_info) (-3)"
      using assms(3) FindInstalled_spelled [OF assms(8,10)] by (simp add: windows_find_installed_def u)
    with None assms(4,7,9) open' show ?thesis by (simp add: StorageOpenKey_def to_thumbprint_def bridge_ret_def Let_def)
  next
    case (Some key)
    let ?k = "\<lparr>kk_name = name, kk_bits = word_of_int (ki_KeySize key), kk_export_policy = wh_ALLOW_EXPORT (we_hdr env),
        kk_usage_policy = wh_ALLOW_SIGNING (we_hdr env), kk_finished = True,
        kk_pub = (if ki_RSAPublicBlob key = [] then None else Some (ki_RSAPublicBlob key))\<rparr>"
    let ?s = "\<lambda>hp. s\<lparr>kw_process := (kw_process s)\<lparr>pr_global := Some c'\<rparr>, kw_next := Suc (kw_next s),
        kw_blocks := (kw_blocks s)(kw_next s \<mapsto> KEY_block ?k), kw_heap := hp\<rparr>"
    obtain hp where op: "StorageOpenKey env name s = Done (ERROR_SUCCESS, Some (kw_next s), ?s hp)"
      using StorageOpenKey_eq [OF assms(1,3,4,5) _ _ assms(10), of name] assms(7,8,9) Some by blast
    let ?pss = "and flags (wh_PAD_PSS (we_hdr env)) \<noteq> 0"
    have "windows_sign e tp d (HashAlgFromPadding pad (length d)) (if ?pss then 2 else 1) c' = (c', Ok (rp_Signature r))"
    proof -
      have "\<exists>k \<in> set keys. ki_Thumbprint k = spelled tp" using Some by (auto simp: find_Some_iff)
      moreover have "\<lparr>rq_Thumbprint = spelled tp, rq_Digest = d, rq_HashAlgorithm = HashAlgFromInt (HashAlgFromPadding pad (length d)),
          rq_RsaPadding = PaddingFromInt (if ?pss then 2 else 1)\<rparr> = ksp_request (spelled tp) pad d ?pss"
        unfolding ksp_request_hash [of pad d "spelled tp" ?pss] by (simp add: ksp_request_def PaddingFromInt_def)
      moreover have "spelled tp = NormalizeThumbprint (be_uc e) (NormalizeThumbprint (be_uc e) tp)"
        using spelled_normal [OF assms(8)] by simp
      note client_SignHash_installed [OF this wks.stable [OF assms(10), unfolded windows_keys_def], of d
          "HashAlgFromInt (HashAlgFromPadding pad (length d))" "PaddingFromInt (if ?pss then 2 else 1)"]
      ultimately show ?thesis unfolding windows_sign_def by (simp only: assms(13) sum.case andThen.simps if_True)
    qed
    moreover have "int32 (int (length d)) = int (length d)" using assms(12) by (intro int32_id) simp_all
    ultimately have "windows_sign_hash e (Some (tp @ [NUL])) (Some d) (length d) (HashAlgFromPadding pad (length d)) (if ?pss then 2 else 1)
        (Some mem) (Some n) (kw_process (?s hp)) =
        \<lparr>sg_process = (kw_process s)\<lparr>pr_global := Some c'\<rparr>, sg_sigOut = Some (rp_Signature r @ drop (length (rp_Signature r)) mem),
         sg_sigLen = Some (length (rp_Signature r)), sg_ret = Returned 0\<rparr>"
      using assms(14,15) by (simp add: windows_sign_hash_def sign_hash_def u Let_def)
    moreover have "0 < kw_next s" using assms(1) by (simp add: ksp_inv_def blocks_ok_def)
    ultimately have "\<exists>s''. KSPSignHash env (kw_next s) pad (Some d) (Some mem) n True flags (?s hp) =
        Done (ERROR_SUCCESS, (Some (rp_Signature r @ drop (length (rp_Signature r)) mem), Some (length (rp_Signature r))), s'')"
      using assms(4,6,7,9,11) by (simp add: KSPSignHash_def KspValidateKeyHandle_def to_thumbprint_def Let_def)
    with op open' Some show ?thesis by (auto intro!: exI [of _ "kw_next s"] exI [of _ "?s hp"] exI [of _ ?k])
  qed
qed

text \<open>The key is opened as \<open>aa-BB\<close>; the digest has the length of SHA-384.\<close>

theorem KSPSignHash_is_the_services_witness:
  "\<exists>a s' s''. KSPOpenKey demo_ksp_env 1 True (Some [97, 97, 45, 66, 66]) demo_ksp = Done (ERROR_SUCCESS, Some a, s') \<and>
     KSPSignHash demo_ksp_env a None (Some (replicate 48 7)) (Some (replicate 49 0)) 49 True 0 s' =
       Done (ERROR_SUCCESS, (Some (replicate 48 7 @ [0]), Some 48), s'')"
proof -
  obtain k where k: "remoteKeys demo_uc demo_lib demo_remote = [k]" "ki_Thumbprint k = ''AABB''" using demo_keys_thumbprint by blast
  let ?r = "\<lparr>rp_Signature = replicate 48 7, rp_SignatureAlgorithm = ''ECDSA'', rp_RsaPadding = 1\<rparr> :: SignHashResponse"
  have c: "plain_name ''aa-BB''" "spelled ''aa-BB'' = ''AABB''" by code_simp+
  have r: "rpc_SignHash (be_rpc demo_connected)
      (ksp_request (spelled ''aa-BB'') None (replicate 48 7) (and 0 (wh_PAD_PSS (we_hdr demo_ksp_env)) \<noteq> 0)) = Ok ?r"
    by (simp add: demo_connected_def demo_bridge_env_def demo_rpc_def ksp_request_def)
  have "map (\<lambda>u. char_of (unat u)) [97, 97, 45, 66, 66 :: 16 word] = ''aa-BB''" by code_simp
  then have e: "we_bridge demo_ksp_env j = demo_connected" "we_alloc demo_ksp_env j" "wh_ALLOW_SIGNING (we_hdr demo_ksp_env) \<noteq> 0"
    "we_utf8 demo_ksp_env [97, 97, 45, 66, 66] = ''aa-BB''" for j
    by (simp_all add: demo_ksp_env_def)
  have s: "kw_blocks demo_ksp 1 = Some PROVIDER_block" "pr_global (kw_process demo_ksp) = Some demo_client"
    by (simp_all add: demo_ksp_def demo_process_def)
  have "drop 48 (replicate 49 (0 :: byte)) = [0]" by (simp add: numeral_eq_Suc)
  with KSPSignHash_is_the_services [OF demo_ksp_inv s e c(1) _ demo_windows_keys _ _ r, of 49 "replicate 49 0"] k c(2)
  show ?thesis by auto
qed

end
