(* ===== verification/Mac_Token_Props.thy ===== *)
theory Mac_Token_Props
  imports Mac_Token Ksp_Provider_Props
begin

text \<open>
  What the macOS token signs and shows, and how its reading of a DigestInfo differs from that of the PKCS\#11 module.
\<close>

section \<open>Digests\<close>

lemma mac_prefixes: "kSHA256Prefix = pkcs1_header 32 1" "kSHA384Prefix = pkcs1_header 48 2" "kSHA512Prefix = pkcs1_header 64 3"
  by (simp_all add: kSHA256Prefix_def kSHA384Prefix_def kSHA512Prefix_def pkcs1_header_def)

lemma length_pkcs1_header [simp]: "length (pkcs1_header n oid) = 19"
  by (simp add: pkcs1_header_def)

text \<open>The hash functions: their sizes, the headers of their DigestInfo in PKCS\#1 and the functions of the system that compute them.\<close>

fun md_size :: "evp_md \<Rightarrow> nat" where
  "md_size EVP_sha256 = 32"
| "md_size EVP_sha384 = 48"
| "md_size EVP_sha512 = 64"

fun md_header :: "evp_md \<Rightarrow> bytes" where
  "md_header EVP_sha256 = pkcs1_header 32 1"
| "md_header EVP_sha384 = pkcs1_header 48 2"
| "md_header EVP_sha512 = pkcs1_header 64 3"

fun md_sum :: "common_crypto \<Rightarrow> evp_md \<Rightarrow> bytes \<Rightarrow> bytes" where
  "md_sum cc EVP_sha256 = CC_SHA256 cc"
| "md_sum cc EVP_sha384 = CC_SHA384 cc"
| "md_sum cc EVP_sha512 = CC_SHA512 cc"

text \<open>What an algorithm of the security framework means: the hash function, whether the padding is PSS, whether the data is a message.\<close>

fun sec_algorithm :: "SecKeyAlgorithm \<Rightarrow> evp_md \<times> bool \<times> bool" where
  "sec_algorithm RSASignatureDigestPSSSHA256 = (EVP_sha256, True, False)"
| "sec_algorithm RSASignatureDigestPSSSHA384 = (EVP_sha384, True, False)"
| "sec_algorithm RSASignatureDigestPSSSHA512 = (EVP_sha512, True, False)"
| "sec_algorithm RSASignatureMessagePSSSHA256 = (EVP_sha256, True, True)"
| "sec_algorithm RSASignatureMessagePSSSHA384 = (EVP_sha384, True, True)"
| "sec_algorithm RSASignatureMessagePSSSHA512 = (EVP_sha512, True, True)"
| "sec_algorithm RSASignatureDigestPKCS1v15SHA256 = (EVP_sha256, False, False)"
| "sec_algorithm RSASignatureDigestPKCS1v15SHA384 = (EVP_sha384, False, False)"
| "sec_algorithm RSASignatureDigestPKCS1v15SHA512 = (EVP_sha512, False, False)"
| "sec_algorithm RSASignatureMessagePKCS1v15SHA256 = (EVP_sha256, False, True)"
| "sec_algorithm RSASignatureMessagePKCS1v15SHA384 = (EVP_sha384, False, True)"
| "sec_algorithm RSASignatureMessagePKCS1v15SHA512 = (EVP_sha512, False, True)"

lemma select_sec_algorithm:
  "sec_algorithm alg = (md, pss, message) \<Longrightarrow>
   select_algorithm (\<lambda>a. a = alg) = (if pss then RSAPadding_PSS else RSAPadding_PKCS1, proto_hash md, message)"
  by (cases alg) (auto simp: select_algorithm_def mac_algorithms_def proto_hash_def proto_consts)

text \<open>
  What the token signs. A DigestInfo of SHA-256, SHA-384 or SHA-512 is unpacked to its digest, whatever the algorithm of the
  request, also when the algorithm says that the data is a message and it would have to be hashed. Data that is no
  DigestInfo is hashed when it is a message, taken as it is when it has the size of a digest, of whichever of the three hash
  functions, and hashed otherwise.
\<close>

definition digest_info :: "bytes \<Rightarrow> bool" where
  "digest_info data \<longleftrightarrow> (\<exists>md d. length d = md_size md \<and> data = md_header md @ d)"

inductive token_digest :: "common_crypto \<Rightarrow> evp_md \<Rightarrow> bool \<Rightarrow> bytes \<Rightarrow> bytes \<Rightarrow> evp_md \<Rightarrow> bool" for cc md message where
  unpacked: "length d = md_size md' \<Longrightarrow> token_digest cc md message (md_header md' @ d) d md'"
| hashed: "\<not> digest_info data \<Longrightarrow> message \<or> length data \<notin> range md_size \<Longrightarrow> token_digest cc md message data (md_sum cc md data) md"
| taken: "\<not> digest_info data \<Longrightarrow> \<not> message \<Longrightarrow> length data \<in> range md_size \<Longrightarrow> token_digest cc md message data data md"

lemma md_sizes: "range md_size = {32, 48, 64}"
proof -
  have "md_size md \<in> {32, 48, 64}" for md by (cases md) simp_all
  moreover have "{32, 48, 64} = md_size ` {EVP_sha256, EVP_sha384, EVP_sha512}" by simp
  ultimately show ?thesis by blast
qed

lemma strip_header:
  assumes "length d = md_size md"
  shows "strip_digest_info (md_header md @ d) = Some (d, proto_hash md)"
proof -
  have "kSHA256Prefix \<noteq> kSHA384Prefix" "kSHA256Prefix \<noteq> kSHA512Prefix" "kSHA384Prefix \<noteq> kSHA512Prefix"
    by (simp_all add: kSHA256Prefix_def kSHA384Prefix_def kSHA512Prefix_def)
  then show ?thesis using assms unfolding mac_prefixes
    by (cases md) (simp_all add: strip_digest_info_def mac_prefixes proto_hash_def proto_consts)
qed

lemma strip_no_header:
  assumes "\<not> digest_info data"
  shows "strip_digest_info data = None"
proof -
  have no: False if "length data = 19 + md_size md" "take 19 data = md_header md" for md
  proof -
    have "data = md_header md @ drop 19 data" using append_take_drop_id [of 19 data] that(2) by simp
    moreover have "length (drop 19 data) = md_size md" using that(1) by simp
    ultimately show False using assms unfolding digest_info_def by blast
  qed
  from no [of EVP_sha256] no [of EVP_sha384] no [of EVP_sha512] show ?thesis by (auto simp: strip_digest_info_def mac_prefixes)
qed

lemma token_digest_computed:
  assumes "token_digest cc md message data d md'" and "length data < 2 ^ 32"
  shows "mac_digest cc (proto_hash md) message data = (d, proto_hash md')"
  using assms
proof cases
  case unpacked
  then show ?thesis by (simp add: mac_digest_def strip_header)
next
  case hashed
  then show ?thesis using assms(2) unfolding md_sizes
    by (cases md) (auto simp: mac_digest_def strip_no_header mac_hash_def proto_hash_def proto_consts Let_def)
next
  case taken
  then show ?thesis unfolding md_sizes
    by (cases md) (auto simp: mac_digest_def strip_no_header proto_hash_def proto_consts Let_def)
qed

lemma token_digest_length:
  assumes "token_digest cc md message data d md'" and "\<And>x m. length (md_sum cc x m) = md_size x"
  shows "length d \<in> {32, 48, 64}"
  using assms(1)
proof cases
  case unpacked
  then show ?thesis unfolding md_sizes [symmetric] by simp
next
  case hashed
  then show ?thesis unfolding md_sizes [symmetric] using assms(2) by simp
next
  case taken
  then show ?thesis unfolding md_sizes by simp
qed

definition demo_cc :: common_crypto where
  "demo_cc = \<lparr>CC_SHA256 = (\<lambda>m. replicate 32 (of_nat (length m))), CC_SHA384 = (\<lambda>m. replicate 48 (of_nat (length m))),
     CC_SHA512 = (\<lambda>m. replicate 64 (of_nat (length m)))\<rparr>"

section \<open>Signatures\<close>

lemma signData_sends:
  assumes "select_algorithm algorithm = (padding, h, message)" and "mac_digest cc h message data = (d, h')" and "pr_global p = Some c"
    and "length d < 2 ^ 31" and "c_string tp = tp" and "ctk_sign e tp d h' padding c = (c', res)"
  shows "signData e cc data (Some (''key-'' @ tp)) algorithm p =
    Done (case res of Inl _ \<Rightarrow> TKErrorCodeCommunicationError
          | Inr sig \<Rightarrow> if length sig \<le> 1024 then Signature sig else TKErrorCodeCommunicationError, p\<lparr>pr_global := Some c'\<rparr>)"
proof -
  have "int32 (int (length d)) = int (length d)" using assms(4) by (intro int32_id) simp_all
  with assms show ?thesis by (cases res) (simp_all add: signData_def ctk_bridge_sign_hash_def sign_hash_def Let_def)
qed

text \<open>
  C20: what the token asks of the service. For an object whose name is that of a thumbprint in ASCII, one of the algorithms
  of the security framework and data of less than 4 GiB: if no installed key has the thumbprint, the result is an error. If one
  has, the service is asked to sign under this thumbprint with the padding of the algorithm. The digest is that of the algorithm's hash
  function for a message, and the data itself when the data is a digest of 32, 48 or 64 bytes; a digest of another length is hashed. Data that has the form of a
  DigestInfo of PKCS\#1 is an exception for every algorithm, also where it is a message: the service is asked to sign the digest
  inside it with the hash function that it names. The result is the service's signature; when it fails or returns more than 1024 bytes, an error.
\<close>

theorem signData_is_the_services:
  assumes "pr_global p = Some c" and "windows_keys e c = (c', Ok keys)" and "plain_name tp"
    and "sec_algorithm alg = (md, pss, message)" and "token_digest cc md message data d md'" and "length data < 2 ^ 32"
    and "\<And>x m. length (md_sum cc x m) = md_size x"
  shows "signData e cc data (Some (''key-'' @ tp)) (\<lambda>a. a = alg) p =
    Done (if \<exists>k \<in> set keys. ki_Thumbprint k = spelled tp
          then (case rpc_SignHash (be_rpc e) \<lparr>rq_Thumbprint = spelled tp, rq_Digest = d, rq_HashAlgorithm = proto_hash md',
                    rq_RsaPadding = (if pss then RSAPadding_PSS else RSAPadding_PKCS1)\<rparr> of
                  Inl _ \<Rightarrow> TKErrorCodeCommunicationError
                | Inr r \<Rightarrow> if length (rp_Signature r) \<le> 1024 then Signature (rp_Signature r) else TKErrorCodeCommunicationError)
          else TKErrorCodeCommunicationError, p\<lparr>pr_global := Some c'\<rparr>)"
proof -
  let ?pad = "if pss then RSAPadding_PSS else RSAPadding_PKCS1"
  have tp: "c_string tp = tp" using assms(3) by (auto simp: plain_name_def c_string_def takeWhile_eq_all_conv NUL_def)
  have len: "length d < 2 ^ 31" using token_digest_length [OF assms(5,7)] by auto
  have "spelled tp = NormalizeThumbprint (be_uc e) (NormalizeThumbprint (be_uc e) tp)"
    using spelled_normal [OF assms(3)] by simp
  from client_SignHash_installed [OF this assms(2) [unfolded windows_keys_def], of d "proto_hash md'" ?pad]
  have "ctk_sign e tp d (proto_hash md') ?pad c =
    (c', if \<exists>k \<in> set keys. ki_Thumbprint k = spelled tp
         then andThen (rpc_SignHash (be_rpc e) \<lparr>rq_Thumbprint = spelled tp, rq_Digest = d, rq_HashAlgorithm = proto_hash md',
                rq_RsaPadding = ?pad\<rparr>) (\<lambda>resp. Ok (rp_Signature resp))
         else Err ErrNotInstalled)"
    by (simp only: ctk_sign_def sum.case)
  from signData_sends [OF select_sec_algorithm [OF assms(4)] token_digest_computed [OF assms(5,6)] assms(1) len tp this] show ?thesis
    by (cases "rpc_SignHash (be_rpc e) \<lparr>rq_Thumbprint = spelled tp, rq_Digest = d, rq_HashAlgorithm = proto_hash md', rq_RsaPadding = ?pad\<rparr>")
      (simp_all only: andThen.simps sum.case if_distrib [of "case_sum _ _"] cong: if_cong)
qed

text \<open>A message and a DigestInfo, both under an algorithm for messages.\<close>

theorem signData_is_the_services_witness:
  "(\<exists>p. signData demo_connected demo_cc [1, 2, 3] (Some ''key-aa:bb'') (\<lambda>a. a = RSASignatureMessagePKCS1v15SHA256) demo_process =
      Done (Signature (replicate 32 3), p)) \<and>
   (\<exists>p. signData demo_connected demo_cc (pkcs1_header 48 2 @ replicate 48 9) (Some ''key-AABB'') (\<lambda>a. a = RSASignatureMessagePSSSHA256)
      demo_process = Done (Signature (replicate 48 9), p))"
proof -
  obtain k where k: "remoteKeys demo_uc demo_lib demo_remote = [k]" "ki_Thumbprint k = ''AABB''" using demo_keys_thumbprint by blast
  have c: "plain_name ''aa:bb''" "spelled ''aa:bb'' = ''AABB''" "plain_name ''AABB''" "spelled ''AABB'' = ''AABB''" by code_simp+
  have p: "pr_global demo_process = Some demo_client" by (simp add: demo_process_def)
  have len: "length (md_sum demo_cc x m) = md_size x" for x m by (cases x) (simp_all add: demo_cc_def)
  have r: "rpc_SignHash (be_rpc demo_connected) q =
      Ok \<lparr>rp_Signature = rq_Digest q, rp_SignatureAlgorithm = ''ECDSA'', rp_RsaPadding = 1\<rparr>" for q
    by (simp add: demo_connected_def demo_bridge_env_def demo_rpc_def)
  have "\<not> digest_info [1, 2, 3]"
  proof
    assume "digest_info [1, 2, 3]"
    then obtain md d where "[1, 2, 3] = md_header md @ d" by (auto simp: digest_info_def)
    from arg_cong [OF this, of length] show False by (cases md) simp_all
  qed
  then have d1: "token_digest demo_cc EVP_sha256 True [1, 2, 3] (md_sum demo_cc EVP_sha256 [1, 2, 3]) EVP_sha256"
    by (intro hashed) simp_all
  have d2: "token_digest demo_cc EVP_sha256 True (md_header EVP_sha384 @ replicate 48 9) (replicate 48 9) EVP_sha384"
    by (rule unpacked) simp
  note a = sec_algorithm.simps(10) sec_algorithm.simps(4)
  show ?thesis
    using signData_is_the_services [OF p demo_windows_keys c(1) a(1) d1 _ len]
      signData_is_the_services [OF p demo_windows_keys c(3) a(2) d2 _ len] k c
    by (simp add: r demo_cc_def)
qed

section \<open>Items\<close>

text \<open>The items for a key.\<close>

definition key_items :: "sec_framework \<Rightarrow> KeyInfo \<Rightarrow> token_item list" where
  "key_items sf k =
     (let der = ki_CertificateDER k; tp = c_string (take 63 (ki_Thumbprint k)); subj = c_string (take 511 (ki_Subject k));
          label = (if subj = [] then None else Some subj)
      in if der = [] \<or> \<not> sf_certificate sf der then []
         else (if sf_certItem sf der then [CertificateItem (''cert-'' @ tp) label] else []) @
              (if sf_keyItem sf der
               then [KeyItem (''key-'' @ tp) label (sf_pubKeyHash sf der) (if 0 < ki_KeySize k then ki_KeySize k else 2048)] else []))"

lemma ctk_fill_strings:
  assumes "fillCtkKeyInfo zero_ctk k h = (info, h1)"
  shows "c_string (ck_thumbprint info) = c_string (take 63 (ki_Thumbprint k))"
    and "c_string (ck_subject info) = c_string (take 511 (ki_Subject k))"
    and "ck_key_size info = ki_KeySize k"
    and "ck_cert_der_len info = length (ki_CertificateDER k)"
    and "ki_CertificateDER k \<noteq> [] \<Longrightarrow> \<exists>a. ck_cert_der info = Some a \<and> hp_mem h1 a = Some (ki_CertificateDER k)"
  using assms copyToCChars_bounded [of "replicate 64 NUL" "ki_Thumbprint k"] copyToCChars_bounded [of "replicate 512 NUL" "ki_Subject k"]
  by (auto simp: fillCtkKeyInfo_def zero_ctk_def Let_def malloc_copy_def split: if_splits)

lemma ctk_fill_then_free:
  assumes "heap_ok h" and "fillCtkKeyInfo zero_ctk k h = (info, h1)"
  shows "\<exists>info' h2. ctk_bridge_free_key_info (Some info) h1 = Some (info', h2) \<and> hp_mem h2 = hp_mem h \<and> heap_ok h2"
proof -
  have "hp_mem h (hp_next h) = None"
    using assms(1) by (auto simp: heap_ok_def dest: subsetD [of _ _ "hp_next h"])
  then have "(hp_mem h)(hp_next h := None) = hp_mem h" by auto
  moreover have "hp_next h \<le> hp_next h1"
    using assms(2) by (auto simp: fillCtkKeyInfo_def Let_def malloc_copy_def split: if_splits)
  ultimately show ?thesis
    using assms(1) fillCtkKeyInfo_fields [OF assms(2)]
    by (auto simp: ctk_bridge_free_key_info_def freeField_def c_free_def zero_ctk_def heap_ok_def)
qed

lemma token_items_keys:
  assumes "windows_keys e c = (c, Ok keys)" and "pr_global p = Some c" and "heap_ok h" and "i + n = length keys"
  shows "\<exists>h'. token_items (\<lambda>_. e) sf n i h p = Done (concat (map (key_items sf) (drop i keys)), h', p) \<and> hp_mem h' = hp_mem h"
  using assms(3,4)
proof (induction n arbitrary: i h)
  case (Suc n)
  have i: "i < length keys" using Suc.prems(2) by simp
  obtain info h1 where fill: "fillCtkKeyInfo zero_ctk (keys ! i) h = (info, h1)" by force
  have get: "ctk_bridge_get_installed e (int i) (Some zero_ctk) h p = ctk_ret p h1 (Some info) 0"
    using assms(1,2) i fill by (simp add: ctk_bridge_get_installed_def windows_keys_def Let_def process_same)
  obtain info' h2 where free: "ctk_bridge_free_key_info (Some info) h1 = Some (info', h2)" "hp_mem h2 = hp_mem h" "heap_ok h2"
    using ctk_fill_then_free [OF Suc.prems(1) fill] by blast
  obtain h3 where rest: "token_items (\<lambda>_. e) sf n (i + 1) h2 p = Done (concat (map (key_items sf) (drop (i + 1) keys)), h3, p)"
    "hp_mem h3 = hp_mem h2"
    using Suc.IH [OF free(3), of "i + 1"] Suc.prems(2) by auto
  note f = ctk_fill_strings [OF fill]
  have "token_items (\<lambda>_. e) sf (Suc n) i h p = Done (key_items sf (keys ! i) @ concat (map (key_items sf) (drop (i + 1) keys)), h3, p)"
    using get free rest f by (cases "ki_CertificateDER (keys ! i) = []") (auto simp: ctk_ret_def key_items_def items_of_def Let_def)
  with i free(2) rest(2) show ?case by (auto simp: Cons_nth_drop_Suc [symmetric])
qed simp

text \<open>
  The token shows, for every key that the bridge lists and whose certificate the system accepts, the certificate and the
  key, under names made of the thumbprint; the memory is as before.
\<close>

lemma initWithTokenDriver_items:
  assumes "pr_global p = Some c" and "windows_keys e c = (c', Ok keys)" and "heap_ok h" and "length keys < 2 ^ 31"
  shows "\<exists>h'. initWithTokenDriver (\<lambda>_. e) sf h p = Done (concat (map (key_items sf) keys), h', p\<lparr>pr_global := Some c'\<rparr>) \<and> hp_mem h' = hp_mem h"
proof -
  have cnt: "ctk_bridge_installed_count e p = (p\<lparr>pr_global := Some c'\<rparr>, int (length keys))"
    using assms(1,2,4) by (simp add: ctk_bridge_installed_count_def installed_count_def int32_small)
  from token_items_keys [OF wks.stable [OF assms(2)], of "p\<lparr>pr_global := Some c'\<rparr>" h 0 "length keys" sf] assms(3) show ?thesis
    by (simp add: initWithTokenDriver_def cnt)
qed

end
