(* ===== verification/Spec2Isabelle.thy ===== *)
theory Spec2Isabelle
  imports Store_Sync Win_Resources Ctk_Bridge Bridge_Types Client_Sync Cert_Server Ksp_Register Ui_Window
    Run_Discovery Sign_Test_Mac Gen_Certs P11_Object_Props Mac_Token_Props
begin

text \<open>
  \<^bold>\<open>A verification of the keyless TLS proxy.\<close>

  The program lets a computer use private keys that another computer holds. A server offers its certificates
  over gRPC with mutual TLS: \<^verbatim>\<open>ListCertificates\<close> names them, \<^verbatim>\<open>SignHash\<close> signs a digest with the
  key of one of them. Clients find it by UDP broadcast. On the client a key storage provider (Windows), a
  PKCS\#11 module (Linux) or a CryptoTokenKit extension (macOS) calls a Go bridge, and the bridge the client
  package, which asks the server. Installers put the certificates of the server into the Windows store, with
  the provider as the owner of their keys. The development models the Go code of these parts with the C code
  in their preambles, and the C and Objective-C code of the three providers, and proves what makes them correct, alone and together.

  \<^bold>\<open>Theories and the files they model\<close> (all paths under \<^verbatim>\<open>src/\<close>).

  \<^item> \<^verbatim>\<open>Go_Prelude\<close>, \<^verbatim>\<open>Go_Net\<close>, \<^verbatim>\<open>Go_Json\<close>, \<^verbatim>\<open>Go_Io\<close>, \<^verbatim>\<open>Go_Tabwriter\<close>: what the sources use of Go and its standard library
    (errors as values, strings as byte lists, hexadecimal and base64, IP addresses and host:port strings, JSON
    objects of strings, buffered reading, numbers, dates, aligned tables), with the lemmas the components share.
  \<^item> \<^verbatim>\<open>Go_Sync\<close>: goroutines around a mutex of the package \<^verbatim>\<open>sync\<close>, as a step relation. The locale \<open>guarded\<close> is the contract of
    critical sections; in it interleaved calls are shown to behave as sequential ones.
  \<^item> \<^verbatim>\<open>Certstore_Types\<close>: \<^verbatim>\<open>internal/certstore/types.go\<close>, \<^verbatim>\<open>thumbprint.go\<close>. The locale \<open>cert_backend\<close> is the contract of
    a certificate store, which the service relies on.
  \<^item> \<^verbatim>\<open>Crypto_Lib\<close>, \<^verbatim>\<open>Sample_Env\<close>: the cryptographic packages as a parameter, and one concrete instance of it.
  \<^item> \<^verbatim>\<open>File_Store\<close>: \<^verbatim>\<open>internal/certstore/file_store.go\<close>, \<^verbatim>\<open>store_linux.go\<close>. \<^verbatim>\<open>Store_Windows\<close>: \<^verbatim>\<open>store_windows.go\<close>, \<^verbatim>\<open>ncrypt.go\<close>.
    \<^verbatim>\<open>Store_Darwin\<close>: \<^verbatim>\<open>store_darwin.go\<close> with its C preamble. Each is an interpretation of \<open>cert_backend\<close>; the
    lookup by thumbprint that two of them share is the locale \<open>thumb_index\<close>. \<^verbatim>\<open>Store_Sync\<close>: the calls of \<^verbatim>\<open>file_store.go\<close> under
    \<^verbatim>\<open>fileStoreMu\<close>, an interpretation of \<open>guarded\<close>. \<^verbatim>\<open>Win_Resources\<close>: the certificate contexts and store handles of \<^verbatim>\<open>store_windows.go\<close>.
  \<^item> \<^verbatim>\<open>Cert_Service\<close>: \<^verbatim>\<open>internal/server/service.go\<close>, \<^verbatim>\<open>logging.go\<close> and the messages of \<^verbatim>\<open>gen/cert/v1\<close>.
  \<^item> \<^verbatim>\<open>Discovery\<close>, \<^verbatim>\<open>Discovery_Client\<close>: \<^verbatim>\<open>internal/server/discovery.go\<close>, \<^verbatim>\<open>discovery_client.go\<close>. The loops are functions of the
    sequence of read events; the locale \<open>wire_codec\<close> states the round trip of the two messages.
  \<^item> \<^verbatim>\<open>Tls_Util\<close>: \<^verbatim>\<open>internal/tlsutil/tls.go\<close>. \<^verbatim>\<open>Cert_Server\<close>: \<^verbatim>\<open>cmd/cert-server/main.go\<close>.
  \<^item> \<^verbatim>\<open>Ksp_Config\<close>: \<^verbatim>\<open>internal/kspcommon\<close>, \<^verbatim>\<open>internal/kspclient/config.go\<close>. \<^verbatim>\<open>Ksp_Client\<close>: \<^verbatim>\<open>internal/kspclient/client.go\<close>;
    \<^verbatim>\<open>Client_Sync\<close>: its calls under \<^verbatim>\<open>Client.mu\<close> and \<^verbatim>\<open>globalMu\<close>, two interpretations of \<open>guarded\<close>.
  \<^item> \<^verbatim>\<open>Ksp_Bridge\<close>, \<^verbatim>\<open>Ctk_Bridge\<close>: \<^verbatim>\<open>internal/kspbridge\<close>, \<^verbatim>\<open>internal/ctkbridge\<close>, over an explicit C heap. The locale
    \<open>key_source\<close> is what the enumeration of keys needs of the client. \<^verbatim>\<open>Bridge_Types\<close>: a caller that makes any sequence of
    calls, and the typing of its C structure and of the heap.
  \<^item> \<^verbatim>\<open>P11_Module\<close>, \<^verbatim>\<open>P11_Session\<close>: \<^verbatim>\<open>ksp11/ksp11.c\<close>, the PKCS\#11 module, over the Linux bridge: its state, helpers and
    initialisation, then its entry points. A run is \<open>Done\<close>, \<open>Crash\<close> (an access outside an array, a call through a bad pointer) or
    \<open>Hang\<close>. \<^verbatim>\<open>P11_Safety\<close>: sequences of calls, the invariant, and the locale \<open>called_module\<close>, the contract of a module that is
    called from outside, with interpretations on this module and on the provider for Windows. \<^verbatim>\<open>P11_Props\<close>, \<^verbatim>\<open>P11_Sign_Props\<close>,
    \<^verbatim>\<open>P11_Object_Props\<close>: what the token shows, signs and lets a caller read.
  \<^item> \<^verbatim>\<open>Ksp_Provider\<close>, \<^verbatim>\<open>Ksp_Provider_Props\<close>: \<^verbatim>\<open>ksp/ksp.c\<close>, \<^verbatim>\<open>ksp/tpmcert_storage.c\<close>, over the Windows bridge. \<^verbatim>\<open>Mac_Token\<close>,
    \<^verbatim>\<open>Mac_Token_Props\<close>: \<^verbatim>\<open>TokenSession.m\<close>, \<^verbatim>\<open>Token.m\<close> and \<^verbatim>\<open>TokenDriver.m\<close> of \<^verbatim>\<open>mac-provider\<close>, over the macOS bridge.
  \<^item> \<^verbatim>\<open>Ksp_Install\<close>: \<^verbatim>\<open>internal/kspinstall\<close>, as the sequence of the calls it makes; the locale \<open>cert_installer\<close>.
    \<^verbatim>\<open>Ksp_Register\<close>: \<^verbatim>\<open>internal/kspregister\<close>, \<^verbatim>\<open>cmd/ksp-register\<close>.
  \<^item> \<^verbatim>\<open>Cli\<close>: \<^verbatim>\<open>cmd/example-client\<close>, \<^verbatim>\<open>cmd/local-sign-test-win\<close>. \<^verbatim>\<open>Sign_Test_Mac\<close>: \<^verbatim>\<open>cmd/local-sign-test-mac\<close>.
    \<^verbatim>\<open>Gen_Certs\<close>: \<^verbatim>\<open>cmd/gencerts\<close>.
    \<^verbatim>\<open>Addr_Resolve\<close>, \<^verbatim>\<open>Ksp_Install_Cert\<close>: \<^verbatim>\<open>cmd/ksp-install-cert\<close>. \<^verbatim>\<open>Install_Ui\<close>: \<^verbatim>\<open>cmd/ksp-install-ui/api.go\<close>;
    \<^verbatim>\<open>Ui_Window\<close>: its \<^verbatim>\<open>main.go\<close> and \<^verbatim>\<open>filedialog_windows.go\<close>, and sessions of calls from the page.
    \<^verbatim>\<open>Run_Discovery\<close>: \<^verbatim>\<open>cmd/run-discovery\<close>.
    A program is a function of a reader on standard input that returns what it prints and how it ends.
  \<^item> This theory: the properties that span components.

  \<^bold>\<open>How the code is represented.\<close> A Go struct is a record and an operation a definition with the name of the
    function (with a prefix where several files use it). An error result is a value of the sum type
    \<open>goerror + 'a\<close>; a panic is a value of its own where the code can panic. Package variables are records that
    are passed and returned. What lies outside the sources (the operating system, crypto libraries, gRPC,
    the network, the clock) is an argument; the laws used of it are named predicates and stated in
    each theorem. Operations are first defined as sequential functions. \<^verbatim>\<open>Store_Sync\<close> and \<^verbatim>\<open>Client_Sync\<close> give those that take a
    mutex again statement by statement, with a loop as one statement, for any number of goroutines, and reduce every interleaving to
    the sequential functions. One call is one critical section: \<^verbatim>\<open>ListCertificates\<close> and \<^verbatim>\<open>SignHash\<close> of \<^verbatim>\<open>store_linux.go\<close> make two calls, and
    the program calls \<^verbatim>\<open>SetCertDir\<close> before it serves. A client that \<^verbatim>\<open>Global\<close> returned may be closed by a later \<^verbatim>\<open>InitGlobal\<close>.

  \<^bold>\<open>What is shown.\<close>
  \<^item> Signing: on every platform a signature is made by the key of a certificate that the request names, over the
    digest as given, with the algorithm and padding that the reply reports; a certificate that is listed
    can be used; a client of the service over a loaded directory obtains the signature of the key it asks for, and
    so does a certificate that was installed from the window (the theorems of this file).
  \<^item> State: the file store holds only matching pairs of certificate and key, whatever was loaded before; the cache
    of the client is never older than its lifetime; key handles, C memory, certificate contexts and store
    handles are given back on every path.
  \<^item> Concurrency: calls on the file store, on the cache of a client and on the process-wide client behave, in every
    interleaving, as sequential calls in the order in which they return; readers never see a half-replaced store, at most
    one connection is open; a signature is of an identity that the last successful \<^verbatim>\<open>SetCertDir\<close> loaded.
  \<^item> Types: after any calls of the C exports the structure of the caller is well typed and can be freed.
  \<^item> Providers: any sequence of calls of the PKCS\#11 module or the Windows provider that keeps the rules of the interface returns
    without a bad access and leaves no memory of the bridge, for the PKCS\#11 module with RSA keys of at most 4096 bits (a larger one
    overflows an array); the three providers return the signature of the service for the
    digest and key of the request, whose hash and padding are stated independently of the tables in the code; signing in parts is signing at once; searches and enumerations return every key once; no
    attribute of a private key can be read.
  \<^item> Discovery: a probe leads to an announcement and the announcement to a result; a wildcard or loopback literal is
    announced as an address on the client's subnet and any other host as configured; the result does not depend on the iteration order of Go maps.
  \<^item> Programs: every dialogue ends; what is signed or installed was listed by the server; the log is cut to its
    last lines; the server always requires TLS 1.2 and client certificates; a session of the window binds and removes only what
    its calls name; a registration that reports success leaves the provider registered with its library, or removed, and none touches another.
  \<^item> Errors: the status of every failure, rejected requests, and several defects, each as a theorem on the
    behaviour of the code.

  \<^bold>\<open>Bounds.\<close> The loop of \<^verbatim>\<open>C_SignUpdate\<close> that doubles a capacity on 64-bit words is a partial function, as it runs for ever past 2^63
    bytes; below, it is shown to end. The loop over PEM blocks takes the length of the input as fuel, enough by \<open>pemLoop_fuel\<close>, as every block
    consumes input. The fuel of the JSON parser exceeds twice the length of its input, from where the result no
    longer depends on it (\<open>parseValue_fuel\<close>). The parser of IPv6
    addresses runs eight rounds, as each reads one of eight groups. The dialogues and the reader are
    recursive with a measure: every line shortens the input. Hours as \<^verbatim>\<open>float64\<close> are rational numbers rounded
    to 53 bits, with the exponent searched between -64 and 64, which holds every value of a 64-bit duration. Session handles of the PKCS\#11 module are numbers below 2^64 that wrap round; they differ as long as fewer than
    2^64 - 1 sessions were opened. The three codes that \<^verbatim>\<open>store_darwin.go\<close> passes to C are cut to 32 bits.

  \<^bold>\<open>Not modelled.\<close> The application for macOS around the token extension (\<^verbatim>\<open>AppMain.m\<close>, \<^verbatim>\<open>KeychainHelper.m\<close>), a window and calls of
    the keychain; the entry points of the providers that only return a fixed code, and the versions, blanks and flags of
    the information structures; the generated protobuf runtime code; the page of the installer's window; what gRPC does between
    accepting a connection and calling a handler; timeouts of calls, which appear as errors of the call; several threads inside one provider.
\<close>

section \<open>The service on every platform\<close>

text \<open>
  A build of the server holds one of three backends; each has its own state. \<open>platform_SignHash\<close> is
  \<^verbatim>\<open>certstore.SignHash\<close> of the build.
\<close>

datatype ('k, 'w, 'i, 'c, 'p) platform =
    Linux "'k file_store"
  | Windows "'w win_api" "'k file_store"
  | Darwin "('i, 'c, 'p) mac_api" mac_mem

fun platform_SignHash :: "unicode \<Rightarrow> ('k, 'm) crypto_lib_scheme \<Rightarrow> ('k, 'w, 'i, 'c, 'p) platform \<Rightarrow>
    string \<Rightarrow> bytes \<Rightarrow> HashAlgorithm \<Rightarrow> RSAPadding \<Rightarrow> goerror + SignResult" where
  "platform_SignHash uc lib (Linux st) = linux_SignHash uc lib st"
| "platform_SignHash uc lib (Windows api st) = (\<lambda>t d h p. returned (fst (win_SignHash uc lib api st t d h p)))"
| "platform_SignHash uc lib (Darwin api mem) = (\<lambda>t d h p. fst (darwin_SignHash uc lib api t d h p mem))"

fun platform_reachable :: "unicode \<Rightarrow> ('k, 'm) crypto_lib_scheme \<Rightarrow> ('k, 'w, 'i, 'c, 'p) platform \<Rightarrow> bool" where
  "platform_reachable uc lib (Linux st) = store_reachable uc lib st"
| "platform_reachable uc lib (Windows api st) = store_reachable uc lib st"
| "platform_reachable uc lib (Darwin api mem) = True"

text \<open>
  What a signature of a platform is, in terms of the libraries below the program: made by the key that belongs to a certificate the
  thumbprint names, on the digest as given, with the algorithm \<open>alg\<close>, which is the one of the type of this
  key and of the padding: a loaded directory, the CNG key of a Windows certificate, an identity of the keychain.
\<close>

definition store_signed :: "unicode \<Rightarrow> ('k, 'm) crypto_lib_scheme \<Rightarrow> 'k file_store \<Rightarrow>
    string \<Rightarrow> bytes \<Rightarrow> crypto_hash \<Rightarrow> RSAPadding \<Rightarrow> bytes \<Rightarrow> string \<Rightarrow> bool" where
  "store_signed uc lib st tp digest h padding sig alg \<longleftrightarrow>
     (\<exists>i \<in> set (fileStore st). identity_ok uc lib (fileStoreDir st) i \<and>
        (HasPrefix (fi_thumbSHA1 i) (NormalizeThumbprint uc tp) \<or> HasPrefix (fi_thumbSHA256 i) (NormalizeThumbprint uc tp)) \<and>
        signed_by lib (fi_signer i) digest h padding sig alg)"

fun platform_signed :: "unicode \<Rightarrow> ('k, 'm) crypto_lib_scheme \<Rightarrow> ('k, 'w, 'i, 'c, 'p) platform \<Rightarrow>
    string \<Rightarrow> bytes \<Rightarrow> crypto_hash \<Rightarrow> RSAPadding \<Rightarrow> bytes \<Rightarrow> string \<Rightarrow> bool" where
  "platform_signed uc lib (Linux st) tp digest h padding sig alg = store_signed uc lib st tp digest h padding sig alg"
| "platform_signed uc lib (Windows api st) tp digest h padding sig alg =
     (if fileStoreDir st \<noteq> [] then store_signed uc lib st tp digest h padding sig alg
      else \<exists>ctx kh mf grp. wa_Find api (removeAll (CHR '' '') (ToUpper uc tp)) = Some ctx \<and>
        wa_Acquire api ctx = Some (kh, winNcryptKeySpec, mf) \<and> alg_group api kh grp \<and>
        cng_signed api kh grp digest h padding sig alg)"
| "platform_signed uc lib (Darwin api mem) tp digest h padding sig alg =
     (\<exists>i der cert keyAlg. keychain_identity api i der \<and>
        (HasPrefix (thumbOfHash uc (sha1_Sum lib der)) (NormalizeThumbprint uc tp) \<or>
         HasPrefix (thumbOfHash uc (sha256_Sum256 lib der)) (NormalizeThumbprint uc tp)) \<and>
        ParseCertificate lib der = Ok cert \<and> mac_key_kind cert keyAlg \<and>
        mac_signed api i keyAlg digest h padding sig alg)"

lemma store_signed_Ok:
  assumes "store_reachable uc lib st" and "sha_lengths lib" and "signWithFileStore uc lib st tp digest hash padding = Ok r"
    and "CryptoHash hash = Ok h"
  shows "store_signed uc lib st tp digest h (effPadding padding) (sr_Signature r) (sr_SignatureAlgorithm r)"
  using signature_of_store [OF assms(1-3)] assms(4) by (auto simp: store_signed_def)

lemma platform_SignHash_Ok:
  assumes "platform_reachable uc lib b" and "sha_lengths lib" and "platform_SignHash uc lib b tp digest hash padding = Ok r"
    and "CryptoHash hash = Ok h" and "padding \<in> {1, 2}"
  shows "platform_signed uc lib b tp digest h padding (sr_Signature r) (sr_SignatureAlgorithm r)"
proof -
  have eff: "effPadding padding = padding" using assms(5) by (auto simp: effPadding_def)
  show ?thesis
  proof (cases b)
    case (Linux st)
    with assms(3) have "signWithFileStore uc lib st tp digest hash padding = Ok r"
      by (simp add: linux_SignHash_def split: if_splits)
    with store_signed_Ok [OF _ assms(2) this assms(4)] Linux assms(1) eff show ?thesis by simp
  next
    case (Windows api st)
    with assms(3) have w: "fst (win_SignHash uc lib api st tp digest hash padding) = Ret (Ok r)"
      by (simp add: returned_Ok_iff)
    show ?thesis
    proof (cases "CertDir st = []")
      case True
      with win_signature [OF w] assms(4) eff Windows show ?thesis by (auto simp: CertDir_def)
    next
      case False
      with w have "signWithFileStore uc lib st tp digest hash padding = Ok r" by (simp add: win_SignHash_def)
      with store_signed_Ok [OF _ assms(2) this assms(4)] Windows assms(1) eff False show ?thesis by (simp add: CertDir_def)
    qed
  next
    case (Darwin api mem)
    with assms(3) have "fst (darwin_SignHash uc lib api tp digest hash padding mem) = Ok r" by simp
    from darwin_signature [OF assms(2) this] assms(4,5) obtain i der cert keyAlg where
      "keychain_identity api i der" "ParseCertificate lib der = Ok cert" "mac_key_kind cert keyAlg"
      "HasPrefix (thumbOfHash uc (sha1_Sum lib der)) (NormalizeThumbprint uc tp) \<or>
       HasPrefix (thumbOfHash uc (sha256_Sum256 lib der)) (NormalizeThumbprint uc tp)"
      "mac_signed api i keyAlg digest h (effPadding padding) (sr_Signature r) (sr_SignatureAlgorithm r)"
      by (auto simp: cleanThumbprint_def)
    with eff Darwin show ?thesis by (simp only: platform_signed.simps) blast
  qed
qed

text \<open>
  C5: on every platform a successful reply of \<^verbatim>\<open>SignHash\<close> was for a valid request, over a digest of
  the length of its hash. The signature in the reply was made by the key of a certificate that the requested thumbprint
  names, over this digest with this hash, and the algorithm that the reply reports is the one it was made with: the
  one of the type of this key (ECDSA for an elliptic curve, RSA with PKCS#1 or PSS) and of the requested
  padding. The padding in the reply is the requested one, PKCS#1 when none was, and the algorithm is RSA-PSS exactly when PSS
  padding was requested.
\<close>

theorem service_reply_guarantee_all_platforms:
  assumes "platform_reachable uc lib b" and "sha_lengths lib" and "service_SignHash (platform_SignHash uc lib b) req = Ok resp"
  shows "request_valid req \<and> DigestSize (rq_HashAlgorithm req) = Ok (length (rq_Digest req)) \<and>
    rp_RsaPadding resp = (if rq_RsaPadding req = 2 then 2 else 1) \<and>
    platform_signed uc lib b (rq_Thumbprint req) (rq_Digest req)
      (if rq_HashAlgorithm req = 1 then SHA256 else if rq_HashAlgorithm req = 2 then SHA384 else SHA512)
      (if rq_RsaPadding req = 2 then 2 else 1) (rp_Signature resp) (rp_SignatureAlgorithm resp) \<and>
    rp_SignatureAlgorithm resp \<in> {''RSASSA-PSS'', ''RSASSA-PKCS1-v1_5'', ''ECDSA''} \<and>
    (rp_SignatureAlgorithm resp = ''RSASSA-PSS'' \<longleftrightarrow> rq_RsaPadding req = 2)"
    (is "_ \<and> _ \<and> _ \<and> platform_signed _ _ _ _ _ ?h ?padding _ _ \<and> _")
proof -
  let ?sign = "platform_SignHash uc lib b"
  have general: "request_valid req \<and> DigestSize (rq_HashAlgorithm req) = Ok (length (rq_Digest req)) \<and>
    rp_RsaPadding resp = (if rq_RsaPadding req = 2 then 2 else 1) \<and>
    rp_SignatureAlgorithm resp \<in> signature_algorithms \<and>
    (rp_SignatureAlgorithm resp = ''RSASSA-PSS'' \<longleftrightarrow> rq_RsaPadding req = 2)"
  proof (cases b)
    case (Linux st)
    with assms(1,3) show ?thesis by (intro lnx.service_sign_guarantee [where s = st]) (simp_all add: store_reachable_inv)
  next
    case (Windows api st)
    with assms(1,3) show ?thesis by (intro wn.service_sign_guarantee [where s = st and api = api]) (simp_all add: store_reachable_inv)
  next
    case (Darwin api mem)
    with assms(3) show ?thesis by (intro dw.service_sign_guarantee [where s = mem and api = api]) simp_all
  qed
  then have v: "request_valid req" by simp
  with assms(3) obtain r where
    r: "?sign (rq_Thumbprint req) (rq_Digest req) (rq_HashAlgorithm req) (storePadding (rq_RsaPadding req)) = Ok r"
    and resp: "rp_Signature resp = sr_Signature r" "rp_SignatureAlgorithm resp = sr_SignatureAlgorithm r"
    by (auto simp: service_SignHash_valid split: sum.splits)
  have "CryptoHash (rq_HashAlgorithm req) = Ok ?h" "storePadding (rq_RsaPadding req) = ?padding"
    using v by (auto simp: request_valid_def CryptoHash_def storePadding_def go_defs)
  with platform_SignHash_Ok [OF assms(1,2) r] resp general show ?thesis
    by (auto simp: signature_algorithms_def storePadding_def go_defs)
qed

theorem service_reply_guarantee_all_platforms_witness:
  "\<exists>i \<in> set (fileStore demo_store). (HasPrefix (fi_thumbSHA1 i) (NormalizeThumbprint demo_uc (thumbOfHash demo_uc (replicate 20 1))) \<or>
     HasPrefix (fi_thumbSHA256 i) (NormalizeThumbprint demo_uc (thumbOfHash demo_uc (replicate 20 1)))) \<and>
     signed_by demo_lib (fi_signer i) (replicate 32 7) SHA256 1 (1 # replicate 32 7) ''RSASSA-PKCS1-v1_5''"
  using service_reply_guarantee_all_platforms
    [where b = "Linux demo_store" and uc = demo_uc and lib = demo_lib and
      req = "demo_request (thumbOfHash demo_uc (replicate 20 1))"]
    demo_reachable demo_sha_lengths demo_service_sign by (auto simp: store_signed_def demo_request_def)

section \<open>The client against the service\<close>

text \<open>
  The client's connection when the service answers over a Linux store: the handlers, with the status
  of a failed call turned into an error by gRPC (\<open>toErr\<close>).
\<close>

definition rpc_over :: "(status \<Rightarrow> goerror) \<Rightarrow> (time \<Rightarrow> 'ts) \<Rightarrow> unicode \<Rightarrow> ('k, 'm) crypto_lib_scheme \<Rightarrow> 'k file_store \<Rightarrow> 'ts rpc" where
  "rpc_over toErr ts uc lib st =
     \<lparr>rpc_ListCertificates = mapErr toErr (service_ListCertificates ts (linux_ListCertificates st)),
      rpc_SignHash = (\<lambda>req. mapErr toErr (service_SignHash (linux_SignHash uc lib st) req))\<rparr>"

lemma stored_thumbprint:
  assumes "store_reachable uc lib st" and "sha_lengths lib" and "i \<in> set (fileStore st)"
  shows "canonical (ci_Thumbprint (fi_info i))" and "ci_Thumbprint (fi_info i) \<noteq> []" and "ci_HasPrivateKey (fi_info i)"
proof -
  from reachable_wf [OF assms(1,2)] assms(3) have ok: "identity_ok uc lib (fileStoreDir st) i" by blast
  have "length (fi_thumbSHA1 i) = 40" "canonical (fi_thumbSHA1 i)" using identity_ok_wf [OF assms(2) ok] by simp_all
  moreover from ok have "ci_Thumbprint (fi_info i) = fi_thumbSHA1 i" "ci_HasPrivateKey (fi_info i)"
    by (simp_all add: identity_ok_def)
  ultimately show "canonical (ci_Thumbprint (fi_info i))" and "ci_Thumbprint (fi_info i) \<noteq> []" and "ci_HasPrivateKey (fi_info i)"
    by auto
qed

lemma rpc_over_sign:
  assumes "store_reachable uc lib st" and "sha_lengths lib" and "CertDir st \<noteq> []"
    and "i \<in> set (fileStore st)" and "distinct (map fi_thumbSHA1 (fileStore st))"
    and "DigestSize hash = Ok (length digest)" and "CryptoHash hash = Ok h" and "padding \<in> {0, 1, 2}"
    and "signed_by lib (fi_signer i) digest h (storePadding padding) sig alg"
  shows "SignHashDirect uc (rpc_over toErr ts uc lib st) (ci_Thumbprint (fi_info i)) digest hash padding = Ok sig"
proof -
  let ?tp = "ci_Thumbprint (fi_info i)"
  note l = stored_thumbprint(2) [OF assms(1,2,4)]
  from stored_thumbprint(1) [OF assms(1,2,4)] have n: "NormalizeThumbprint uc ?tp = ?tp" by simp
  from l assms(6,8) have v: "request_valid \<lparr>rq_Thumbprint = ?tp, rq_Digest = digest, rq_HashAlgorithm = hash, rq_RsaPadding = padding\<rparr>"
    by (auto simp: request_valid_def DigestSize_Ok_iff)
  from identity_signs [OF assms(1,2,4,5) n assms(6,7), of "storePadding padding"] assms(9)
  show ?thesis
    by (simp add: SignHashDirect_def n rpc_over_def service_SignHash_valid [OF v] linux_SignHash_def assms(3))
qed

text \<open>
  C6: what a client lists it can sign with. Against the service over a loaded directory in which no
  two certificates have the same thumbprint, a fresh client lists every certificate of the directory,
  with its thumbprint and its bytes; signing with a listed thumbprint, for a digest of the right length
  and a known padding, returns the signature that the key of this very certificate makes.
\<close>

theorem remote_key_signs:
  assumes "store_reachable uc lib st" and "sha_lengths lib" and "CertDir st \<noteq> []"
    and "i \<in> set (fileStore st)" and "distinct (map fi_thumbSHA1 (fileStore st))"
    and "DigestSize hash = Ok (length digest)" and "CryptoHash hash = Ok h" and "padding \<in> {0, 1, 2}"
    and "signed_by lib (fi_signer i) digest h (storePadding padding) sig alg"
    and "cl_cachedList c = []"
  shows "\<exists>c' ks k. AllKeys uc lib (rpc_over toErr ts uc lib st) now now' c = (c', Ok ks) \<and> k \<in> set ks \<and>
    ki_Thumbprint k = ci_Thumbprint (fi_info i) \<and> ki_CertificateDER k = ci_CertificateDER (fi_info i) \<and>
    SignHashDirect uc (rpc_over toErr ts uc lib st) (ki_Thumbprint k) digest hash padding = Ok sig"
proof -
  let ?k = "keyInfoOf uc lib (toProtoInfo ts (fi_info i))"
  note id = stored_thumbprint(1,3) [OF assms(1,2,4)]
  have "?k \<in> set (remoteKeys uc lib \<lparr>lr_Certificates = map (toProtoInfo ts) (listFromFileStore st)\<rparr>)"
    using id(2) assms(4) by (force simp: remoteKeys_def toProtoInfo_def listFromFileStore_def)
  moreover have "rpc_ListCertificates (rpc_over toErr ts uc lib st) = Ok \<lparr>lr_Certificates = map (toProtoInfo ts) (listFromFileStore st)\<rparr>"
    using assms(3) by (simp add: rpc_over_def service_ListCertificates_def linux_ListCertificates_def)
  moreover have "ki_Thumbprint ?k = ci_Thumbprint (fi_info i)" "ki_CertificateDER ?k = ci_CertificateDER (fi_info i)"
    using id(1) by (simp_all add: keyInfoOf_def toProtoInfo_def Let_def)
  ultimately show ?thesis
    using rpc_over_sign [OF assms(1-9), of toErr ts] assms(10) by (auto simp: AllKeys_cases)
qed

lemma demo_signing:
  "CertDir demo_store \<noteq> []" "demo_id 1 (RSAPrivateKey 1) ''RSA'' 12 \<in> set (fileStore demo_store)"
  "distinct (map fi_thumbSHA1 (fileStore demo_store))"
  "DigestSize HashSHA384 = Ok (length (replicate 48 (7 :: byte)))" "CryptoHash HashSHA384 = Ok SHA384"
  "signed_by demo_lib (fi_signer (demo_id 1 (RSAPrivateKey 1) ''RSA'' 12)) (replicate 48 7) SHA384 (storePadding 2)
     (1 # replicate 48 7) ''RSASSA-PSS''"
  by (simp_all add: demo_store_def demo_id_def CertDir_def replicate_eq_replicate DigestSize_def CryptoHash_def signed_by_def
      storePadding_def demo_lib_def go_defs)

theorem remote_key_signs_witness:
  "\<exists>c' ks k. AllKeys demo_uc demo_lib (rpc_over (\<lambda>s. ErrorString (st_message s)) id demo_uc demo_lib demo_store) 0 1 demo_client = (c', Ok ks) \<and>
    k \<in> set ks \<and>
    SignHashDirect demo_uc (rpc_over (\<lambda>s. ErrorString (st_message s)) id demo_uc demo_lib demo_store) (ki_Thumbprint k)
      (replicate 48 7) HashSHA384 2 = Ok (1 # replicate 48 7)"
proof -
  from remote_key_signs [OF demo_reachable demo_sha_lengths demo_signing(1-5) _ demo_signing(6), of demo_client
      "\<lambda>s. ErrorString (st_message s)" id 0 1]
  show ?thesis by (simp add: demo_client_def) blast
qed

section \<open>From the install window to a signature\<close>

lemma install_normalize_canonical:
  assumes "canonical tp"
  shows "install_normalize uc tp = tp"
proof -
  have "\<not> ascii_space c \<and> c \<noteq> CHR '' '' \<and> ascii_upper c = c" if "c \<in> set tp" for c
    using assms that by (auto simp: canonical_def list_all_iff upper_hex_upper upper_hex_def ascii_space_def)
  then show ?thesis
    using assms by (simp add: install_normalize_def ascii_simps trim_ascii_id removeAll_def map_idI)
qed

lemma listed_target_unique:
  assumes "store_reachable uc lib st" and "sha_lengths lib" and "CertDir st \<noteq> []" and "i \<in> set (fileStore st)"
    and "distinct (map fi_thumbSHA1 (fileStore st))"
    and "rpc_ListCertificates (rpc_over toErr ts uc lib st) = Ok resp" and "remoteTarget uc (ci_Thumbprint (fi_info i)) resp = Ok c"
  shows "c = toProtoInfo ts (fi_info i)"
proof -
  from assms(3,6) have resp: "lr_Certificates resp = map (toProtoInfo ts) (listFromFileStore st)"
    by (auto simp: rpc_over_def service_ListCertificates_def linux_ListCertificates_def)
  from remoteTarget_Ok [OF assms(7)] resp obtain j where j: "j \<in> set (fileStore st)" "c = toProtoInfo ts (fi_info j)"
    and "NormalizeThumbprint uc (ci_Thumbprint (fi_info j)) = ci_Thumbprint (fi_info i)"
    by (auto simp: listFromFileStore_def toProtoInfo_def)
  with stored_thumbprint(1) [OF assms(1,2) j(1)] have "ci_Thumbprint (fi_info j) = ci_Thumbprint (fi_info i)" by simp
  moreover have "ci_Thumbprint (fi_info k) = fi_thumbSHA1 k" if "k \<in> set (fileStore st)" for k
    using reachable_wf [OF assms(1,2)] that by (auto simp: identity_ok_def)
  ultimately have "j = i" using assms(4,5) j(1) by (auto simp: distinct_map inj_on_def)
  with j(2) show ?thesis by simp
qed

text \<open>
  C7: an installation from the window leads to a working key. When the window, connected to the service
  over a loaded directory in which no two certificates have the same thumbprint, has installed one of them, the
  bytes of this certificate were added to the Windows store with a key of the program's provider, and the
  name of the key container is a thumbprint with which the provider's client obtains the signature
  that the key of this very certificate makes.
\<close>

theorem installed_container_signs:
  assumes "store_reachable uc lib st" and "sha_lengths lib" and "CertDir st \<noteq> []"
    and "i \<in> set (fileStore st)" and "distinct (map fi_thumbSHA1 (fileStore st))"
    and "DigestSize hash = Ok (length digest)" and "CryptoHash hash = Ok h" and "padding \<in> {0, 1, 2}"
    and "signed_by lib (fi_signer i) digest h (storePadding padding) sig alg"
    and "iw_rpc w = rpc_over toErr ts uc lib st"
    and "iw_bind w = (\<lambda>der tp. fst (BindCertificateToKSP uc lib api der tp))"
    and "isOk (ui_result (InstallCertificate uc cenv env tls w fs cfg (ci_Thumbprint (fi_info i))))"
  shows "\<exists>calls ctx info. BindCertificateToKSP uc lib api (ci_CertificateDER (fi_info i)) (ci_Thumbprint (fi_info i)) = (Ok (), calls) \<and>
    SetKeyProvInfo ctx info \<in> set calls \<and> kp_ProvName info = ProviderName \<and>
    SignHashDirect uc (rpc_over toErr ts uc lib st) (kp_ContainerName info) digest hash padding = Ok sig"
proof -
  let ?tp = "ci_Thumbprint (fi_info i)"
  note can = stored_thumbprint(1) [OF assms(1,2,4)]
  from InstallCertificate_cases [OF refl, of uc cenv env tls w fs cfg ?tp] assms(10,12) can
  obtain resp c where r: "rpc_ListCertificates (rpc_over toErr ts uc lib st) = Ok resp" "remoteTarget uc ?tp resp = Ok c"
    and b: "iw_bind w (pc_CertificateDer c) ?tp = Ok ()"
    by (auto simp: withServer_Ok_iff)
  from listed_target_unique [OF assms(1-5) r] b assms(11)
  obtain calls where calls: "BindCertificateToKSP uc lib api (ci_CertificateDER (fi_info i)) ?tp = (Ok (), calls)"
    by (cases "BindCertificateToKSP uc lib api (ci_CertificateDER (fi_info i)) ?tp") (auto simp: toProtoInfo_def)
  from BindCertificateToKSP_Ok [OF this] can obtain ctx info where
    "SetKeyProvInfo ctx info \<in> set calls" "kp_ContainerName info = ?tp" "kp_ProvName info = ProviderName"
    by (auto simp: install_normalize_canonical)
  with calls rpc_over_sign [OF assms(1-9), of toErr ts] show ?thesis
    by (intro exI [of _ calls] exI [of _ ctx] exI [of _ info]) simp
qed

definition demo_linked_world :: "nat ui_world" where
  "demo_linked_world = demo_ui_world\<lparr>iw_rpc := rpc_over (\<lambda>s. ErrorString (st_message s)) nat demo_uc demo_lib demo_store,
     iw_bind := (\<lambda>der tp. fst (BindCertificateToKSP demo_uc demo_lib demo_crypt32 der tp))\<rparr>"

lemma demo_linked_world_simps:
  "iw_rpc demo_linked_world = rpc_over (\<lambda>s. ErrorString (st_message s)) nat demo_uc demo_lib demo_store"
  "iw_bind demo_linked_world = (\<lambda>der tp. fst (BindCertificateToKSP demo_uc demo_lib demo_crypt32 der tp))"
  by (simp_all add: demo_linked_world_def)

lemma demo_bind:
  assumes "canonical tp"
  shows "fst (BindCertificateToKSP demo_uc demo_lib demo_crypt32 [1] tp) = Ok ()"
proof -
  have "CHR 0x00 \<notin> set tp" using assms by (auto simp: canonical_def list_all_iff upper_hex_def)
  then show ?thesis
    by (simp add: BindCertificateToKSP_def createCertContext_def bindContext_def install_openMyStore_def
        install_normalize_canonical [OF assms] UTF16PtrFromString_def [of tp] UTF16_ProviderName demo_crypt32_def demo_lib_def Let_def)
qed

lemma demo_linked_install:
  "isOk (ui_result (InstallCertificate demo_uc demo_cfg_env demo_env demo_tls demo_linked_world (\<lambda>_. Err json_error) demo_cfg_data
     (ci_Thumbprint (fi_info (demo_id 1 (RSAPrivateKey 1) ''RSA'' 12)))))"
proof -
  let ?tp = "thumbOfHash demo_uc (replicate 20 1)"
  have w: "withServer demo_uc demo_env demo_tls demo_linked_world demo_cfg_data (Ok ()) m1 m2 m3 =
      Ok \<lparr>lr_Certificates = map (toProtoInfo nat) (listFromFileStore demo_store)\<rparr>" for m1 m2 m3
    by (simp add: withServer_Ok_iff demo_cfg_data_def demo_ui_addr demo_entered demo_client_tls demo_linked_world_def rpc_over_def
        service_ListCertificates_def linux_ListCertificates_def demo_store_def CertDir_def)
  have "?tp \<noteq> []" by (intro notI) (drule arg_cong [where f = length], simp)
  moreover have "\<exists>c. remoteTarget demo_uc ?tp \<lparr>lr_Certificates = map (toProtoInfo nat) (listFromFileStore demo_store)\<rparr> = Ok c \<and>
      pc_CertificateDer c = [1]"
    by (simp add: remoteTarget_def listFromFileStore_def demo_store_def demo_id_def toProtoInfo_def replicate_eq_replicate)
  ultimately show ?thesis
    using demo_bind [of ?tp] by (auto simp: InstallCertificate_def w demo_linked_world_simps demo_id_def Let_def)
qed

theorem installed_container_signs_witness:
  "\<exists>calls ctx info. SetKeyProvInfo ctx info \<in> set calls \<and> kp_ProvName info = ProviderName \<and>
     BindCertificateToKSP demo_uc demo_lib demo_crypt32 [1] (thumbOfHash demo_uc (replicate 20 1)) = (Ok (), calls) \<and>
     SignHashDirect demo_uc (rpc_over (\<lambda>s. ErrorString (st_message s)) nat demo_uc demo_lib demo_store) (kp_ContainerName info)
      (replicate 48 7) HashSHA384 2 = Ok (1 # replicate 48 7)"
proof -
  from installed_container_signs [OF demo_reachable demo_sha_lengths demo_signing(1-5) _ demo_signing(6) demo_linked_world_simps demo_linked_install]
  show ?thesis by (auto simp: demo_id_def)
qed

end
